(* ===== verification/Prelude.thy ===== *)
theory Prelude
  imports Main "HOL-Library.Char_ord" "HOL-Library.List_Lexorder" "HOL-Library.Product_Lexorder"
begin

text \<open>
  Shared vocabulary of the development: the result type that models Python exceptions, the
  fold that stops at the first exception, the interface of an event fold (used by the incident,
  problem, change and card folds), list helpers for the "append if absent" idiom, and the
  string operations of the Python standard library that the source uses.

  A Python string is a list of characters, every character standing for a code point below 256.
\<close>

named_theorems fold_simps \<open>equations that evaluate the error-stopping fold\<close>

section \<open>Exceptions as results\<close>

text \<open>The exceptions that the modelled code raises or lets escape.\<close>

datatype py_error =
    TypeError
  | AttributeError
  | KeyError string
  | ValueError string
  | ValidationError
  | FileNotFoundError
  | RuntimeError string
  | TaskUnclaimable string string
  | OSError string

text \<open>What \<open>except ValueError\<close> catches: the subclasses too.\<close>

fun is_value_error :: "py_error \<Rightarrow> bool" where
  "is_value_error (ValueError m) = True"
| "is_value_error ValidationError = True"
| "is_value_error (TaskUnclaimable t r) = True"
| "is_value_error _ = False"

type_synonym 'a result = "py_error + 'a"

definition r_bind :: "'a result \<Rightarrow> ('a \<Rightarrow> 'b result) \<Rightarrow> 'b result" where
  "r_bind m f = (case m of Inl e \<Rightarrow> Inl e | Inr x \<Rightarrow> f x)"

lemma r_bind_simps [simp]:
  "r_bind (Inl e) f = Inl e"
  "r_bind (Inr x) f = f x"
  by (simp_all add: r_bind_def)

lemma r_bind_Inr_iff:
  "r_bind m f = Inr y \<longleftrightarrow> (\<exists>x. m = Inr x \<and> f x = Inr y)"
  by (cases m) auto

lemma r_bind_InrE:
  assumes "r_bind m f = Inr y"
  obtains x where "m = Inr x" and "f x = Inr y"
  using assms by (cases m) auto

lemma r_bind_cong [fundef_cong]:
  "m = m' \<Longrightarrow> (\<And>x. m' = Inr x \<Longrightarrow> f x = g x) \<Longrightarrow> r_bind m f = r_bind m' g"
  by (cases m') auto

lemma map_sum_InrD: "map_sum id f r = Inr y \<Longrightarrow> \<exists>x. r = Inr x \<and> f x = y"
  by (cases r) auto

text \<open>A loop over a list whose body may raise: the first exception ends it.\<close>

fun r_fold :: "('s \<Rightarrow> 'e \<Rightarrow> 's result) \<Rightarrow> 's \<Rightarrow> 'e list \<Rightarrow> 's result" where
  "r_fold f s [] = Inr s"
| "r_fold f s (e # es) = r_bind (f s e) (\<lambda>s'. r_fold f s' es)"

lemma r_fold_append [fold_simps]:
  "r_fold f s (xs @ ys) = r_bind (r_fold f s xs) (\<lambda>s'. r_fold f s' ys)"
proof (induction xs arbitrary: s)
  case Nil
  then show ?case by simp
next
  case (Cons x xs)
  then show ?case by (cases "f s x") simp_all
qed

lemma r_fold_snoc [fold_simps]: "r_fold f s (xs @ [e]) = r_bind (r_fold f s xs) (\<lambda>s'. f s' e)"
  by (cases "r_fold f s xs") (auto simp: r_fold_append r_bind_def split: sum.splits)

fun r_map :: "('a \<Rightarrow> 'b result) \<Rightarrow> 'a list \<Rightarrow> 'b list result" where
  "r_map f [] = Inr []"
| "r_map f (x # xs) = r_bind (f x) (\<lambda>y. r_bind (r_map f xs) (\<lambda>ys. Inr (y # ys)))"

lemma r_map_Inr_iff:
  "r_map f xs = Inr ys \<longleftrightarrow> list_all2 (\<lambda>x y. f x = Inr y) xs ys"
proof (induction xs arbitrary: ys)
  case Nil
  then show ?case by auto
next
  case (Cons x xs)
  then show ?case
    by (cases ys) (auto simp: r_bind_Inr_iff)
qed

lemma r_map_total: "(\<And>x. x \<in> set xs \<Longrightarrow> f x = Inr (g x)) \<Longrightarrow> r_map f xs = Inr (map g xs)"
  by (induction xs) auto

section \<open>The interface of an event fold\<close>

text \<open>
  A fold replays an event log over a state, one step per event; a step may raise. An invariant
  that every step keeps holds after every log, a preorder that every step respects relates the
  first state to the last, and a state no step leaves is final.
\<close>

locale event_fold =
  fixes step :: "'s \<Rightarrow> 'e \<Rightarrow> 's result"
    and admits :: "'e \<Rightarrow> bool"
    and inv :: "'s \<Rightarrow> bool"
    and grows :: "'s \<Rightarrow> 's \<Rightarrow> bool"
  assumes step_inv: "inv s \<Longrightarrow> admits e \<Longrightarrow> step s e = Inr s' \<Longrightarrow> inv s'"
    and grows_refl: "grows s s"
    and grows_trans: "grows s t \<Longrightarrow> grows t u \<Longrightarrow> grows s u"
    and step_grows: "inv s \<Longrightarrow> admits e \<Longrightarrow> step s e = Inr s' \<Longrightarrow> grows s s'"
begin

lemma fold_keeps:
  "inv s \<Longrightarrow> list_all admits es \<Longrightarrow> r_fold step s es = Inr s' \<Longrightarrow> inv s' \<and> grows s s'"
proof (induction es arbitrary: s)
  case Nil
  then show ?case by (simp add: grows_refl)
next
  case (Cons e es)
  from Cons.prems obtain t where t: "step s e = Inr t" "r_fold step t es = Inr s'" "admits e"
    "list_all admits es"
    by (auto elim: r_bind_InrE)
  with Cons.prems have "inv t" "grows s t" by (blast intro: step_inv step_grows)+
  moreover have "inv s' \<and> grows t s'" by (rule Cons.IH [OF \<open>inv t\<close> t(4) t(2)])
  ultimately show ?case by (blast intro: grows_trans)
qed

lemma fold_inv: "inv s \<Longrightarrow> list_all admits es \<Longrightarrow> r_fold step s es = Inr s' \<Longrightarrow> inv s'"
  using fold_keeps by blast

lemma fold_grows: "inv s \<Longrightarrow> list_all admits es \<Longrightarrow> r_fold step s es = Inr s' \<Longrightarrow> grows s s'"
  using fold_keeps by blast

end

text \<open>
  A fold that cannot raise: on states that are well typed, every well-formed event is accepted
  and leaves the state well typed.
\<close>

locale total_fold =
  fixes step :: "'s \<Rightarrow> 'e \<Rightarrow> 's result"
    and typed :: "'s \<Rightarrow> bool"
    and wf :: "'e \<Rightarrow> bool"
  assumes step_total: "typed s \<Longrightarrow> wf e \<Longrightarrow> \<exists>s'. step s e = Inr s' \<and> typed s'"
begin

lemma fold_total:
  "typed s \<Longrightarrow> list_all wf es \<Longrightarrow> \<exists>s'. r_fold step s es = Inr s' \<and> typed s'"
proof (induction es arbitrary: s)
  case Nil
  then show ?case by simp
next
  case (Cons e es)
  then have e: "wf e" and es: "list_all wf es" by simp_all
  obtain t where "step s e = Inr t" "typed t"
    using step_total [OF Cons.prems(1) e] by blast
  with Cons.IH es show ?case by simp
qed

end

section \<open>Lists\<close>

text \<open>The idiom \<open>if x not in xs: xs.append(x)\<close>.\<close>

definition add_new :: "'a list \<Rightarrow> 'a \<Rightarrow> 'a list" where
  "add_new xs x = (if x \<in> set xs then xs else xs @ [x])"

definition add_all_new :: "'a list \<Rightarrow> 'a list \<Rightarrow> 'a list" where
  "add_all_new xs ys = foldl add_new xs ys"

lemma set_add_new [simp]: "set (add_new xs x) = insert x (set xs)"
  by (auto simp: add_new_def)

lemma distinct_add_new [intro]: "distinct xs \<Longrightarrow> distinct (add_new xs x)"
  by (simp add: add_new_def)

lemma add_new_idem [simp]: "add_new (add_new xs x) x = add_new xs x"
  by (simp add: add_new_def)

lemma add_all_new_simps [simp]:
  "add_all_new xs [] = xs"
  "add_all_new xs (y # ys) = add_all_new (add_new xs y) ys"
  by (simp_all add: add_all_new_def)

lemma set_add_all_new [simp]: "set (add_all_new xs ys) = set xs \<union> set ys"
  by (induction ys arbitrary: xs) auto

lemma distinct_add_all_new [intro]: "distinct xs \<Longrightarrow> distinct (add_all_new xs ys)"
  by (induction ys arbitrary: xs) auto

lemma list_all_add_new: "list_all P xs \<Longrightarrow> P x \<Longrightarrow> list_all P (add_new xs x)"
  by (auto simp: list_all_iff)

lemma list_all_add_all_new: "list_all P xs \<Longrightarrow> list_all P ys \<Longrightarrow> list_all P (add_all_new xs ys)"
  by (auto simp: list_all_iff)

text \<open>\<open>dict.fromkeys\<close> keeps the first occurrence of every key, in order.\<close>

definition dedup :: "'a list \<Rightarrow> 'a list" where
  "dedup xs = add_all_new [] xs"

lemma set_dedup [simp]: "set (dedup xs) = set xs"
  by (simp add: dedup_def)

lemma distinct_dedup [simp]: "distinct (dedup xs)"
  by (simp add: dedup_def distinct_add_all_new)

section \<open>Strings\<close>

text \<open>\<open>str.isspace\<close> on one character, \<open>str.strip\<close> and \<open>str.lower\<close>.\<close>

definition is_space :: "char \<Rightarrow> bool" where
  "is_space c = (let n = (of_char c :: nat)
     in n \<in> {9, 10, 11, 12, 13, 28, 29, 30, 31, 32, 133, 160})"

definition strip :: "string \<Rightarrow> string" where
  "strip s = rev (dropWhile is_space (rev (dropWhile is_space s)))"

definition blank :: "string \<Rightarrow> bool" where
  "blank s = (strip s = [])"

definition lower_char :: "char \<Rightarrow> char" where
  "lower_char c = (let n = (of_char c :: nat)
     in if (65 \<le> n \<and> n \<le> 90) \<or> (192 \<le> n \<and> n \<le> 222 \<and> n \<noteq> 215) then char_of (n + 32) else c)"

definition lower :: "string \<Rightarrow> string" where
  "lower s = map lower_char s"

lemma blank_Nil [simp]: "blank []"
  by (simp add: blank_def strip_def)

lemma all_dropWhile: "(\<forall>x\<in>set (dropWhile P xs). P x) \<longleftrightarrow> (\<forall>x\<in>set xs. P x)"
  by (induction xs) auto

lemma blank_iff: "blank s \<longleftrightarrow> (\<forall>c\<in>set s. is_space c)"
  by (simp add: blank_def strip_def all_dropWhile)

text \<open>\<open>str.startswith\<close>, \<open>sub in s\<close>, and \<open>str.join\<close>.\<close>

fun starts_with :: "string \<Rightarrow> string \<Rightarrow> bool" where
  "starts_with s [] = True"
| "starts_with [] (p # ps) = False"
| "starts_with (c # s) (p # ps) = (c = p \<and> starts_with s ps)"

fun contains :: "string \<Rightarrow> string \<Rightarrow> bool" where
  "contains [] p = (p = [])"
| "contains (c # s) p = (starts_with (c # s) p \<or> contains s p)"

fun join :: "string \<Rightarrow> string list \<Rightarrow> string" where
  "join sep [] = []"
| "join sep [x] = x"
| "join sep (x # y # ys) = x @ sep @ join sep (y # ys)"

lemma starts_with_iff: "starts_with s p \<longleftrightarrow> (\<exists>r. s = p @ r)"
  by (induction s p rule: starts_with.induct) auto

lemma contains_iff: "contains s p \<longleftrightarrow> (\<exists>a b. s = a @ p @ b)"
proof (induction s)
  case Nil
  then show ?case by auto
next
  case (Cons c s)
  have "(\<exists>a b. c # s = a @ p @ b) \<longleftrightarrow> (\<exists>r. c # s = p @ r) \<or> (\<exists>a b. s = a @ p @ b)"
    by (metis Cons_eq_append_conv append_Cons)
  then show ?case using Cons.IH by (auto simp: starts_with_iff)
qed

text \<open>Decimal notation, as \<open>str(n)\<close> prints it.\<close>

definition digit_char :: "nat \<Rightarrow> char" where
  "digit_char d = char_of (48 + d)"

fun show_nat :: "nat \<Rightarrow> string" where
  "show_nat n = (if n < 10 then [digit_char n] else show_nat (n div 10) @ [digit_char (n mod 10)])"

declare show_nat.simps [simp del]

definition show_int :: "int \<Rightarrow> string" where
  "show_int i = (if i < 0 then CHR ''-'' # show_nat (nat (- i)) else show_nat (nat i))"

lemma show_nat_nonempty [simp]: "show_nat n \<noteq> []"
  by (subst show_nat.simps) simp

end
