(* ===== verification/PyValue.thy ===== *)
theory PyValue
  imports Prelude "HOL-Library.AList"
begin

text \<open>
  Python values as they come out of \<open>json.loads\<close>: the records that the source keeps on disk are
  JSON objects, and its folds read them with \<open>dict.get\<close>, truth tests, \<open>isinstance\<close> and set
  membership. The tests are part of the code's behaviour, so the folds of this development run
  on these values. A dictionary is its list of items in insertion order. JSON numbers with a
  fraction are not represented.
\<close>

datatype json =
    JNull
  | JBool bool
  | JInt int
  | JStr string
  | JList "json list"
  | JObj "(string \<times> json) list"

type_synonym jobj = "(string \<times> json) list"

section \<open>Dictionary access\<close>

text \<open>\<open>d.get(k)\<close>, \<open>d.get(k, default)\<close> and \<open>d[k]\<close>.\<close>

definition get :: "jobj \<Rightarrow> string \<Rightarrow> json" where
  "get d k = (case map_of d k of None \<Rightarrow> JNull | Some v \<Rightarrow> v)"

definition get_d :: "jobj \<Rightarrow> string \<Rightarrow> json \<Rightarrow> json" where
  "get_d d k v0 = (case map_of d k of None \<Rightarrow> v0 | Some v \<Rightarrow> v)"

definition get_item :: "jobj \<Rightarrow> string \<Rightarrow> json result" where
  "get_item d k = (case map_of d k of None \<Rightarrow> Inl (KeyError k) | Some v \<Rightarrow> Inr v)"

text \<open>\<open>d[k] = v\<close> keeps the position of an existing key; \<open>d.pop(k, None)\<close>.\<close>

definition set_item :: "string \<Rightarrow> json \<Rightarrow> jobj \<Rightarrow> jobj" where
  "set_item k v d = AList.update k v d"

definition pop_item :: "string \<Rightarrow> jobj \<Rightarrow> jobj" where
  "pop_item k d = filter (\<lambda>(k', v). k' \<noteq> k) d"

definition has_key :: "jobj \<Rightarrow> string \<Rightarrow> bool" where
  "has_key d k = (map_of d k \<noteq> None)"

lemma map_of_pop_item: "map_of (pop_item k d) x = (if x = k then None else map_of d x)"
  by (induction d) (auto simp: pop_item_def)

lemma get_set_item [simp]:
  "get (set_item k v d) x = (if x = k then v else get d x)"
  by (simp add: get_def set_item_def update_conv')

lemma get_pop_item [simp]:
  "get (pop_item k d) x = (if x = k then JNull else get d x)"
  by (simp add: get_def map_of_pop_item)

lemma has_key_set_item [simp]: "has_key (set_item k v d) x \<longleftrightarrow> x = k \<or> has_key d x"
  by (simp add: has_key_def set_item_def update_conv')

lemma has_key_pop_item [simp]: "has_key (pop_item k d) x \<longleftrightarrow> x \<noteq> k \<and> has_key d x"
  by (simp add: has_key_def map_of_pop_item)

lemma get_Nil [simp]: "get [] k = JNull"
  by (simp add: get_def)

lemma get_Cons [simp]: "get ((k, v) # d) x = (if x = k then v else get d x)"
  by (simp add: get_def)

lemma get_d_Nil [simp]: "get_d [] k v0 = v0"
  by (simp add: get_d_def)

lemma get_d_Cons [simp]: "get_d ((k, v) # d) x v0 = (if x = k then v else get_d d x v0)"
  by (simp add: get_d_def)

lemma get_d_set_item [simp]: "get_d (set_item k v d) x w = (if x = k then v else get_d d x w)"
  by (simp add: get_d_def set_item_def update_conv')

lemma get_d_pop_item [simp]: "get_d (pop_item k d) x w = (if x = k then w else get_d d x w)"
  by (simp add: get_d_def map_of_pop_item)

section \<open>Truth, types and text\<close>

fun truthy :: "json \<Rightarrow> bool" where
  "truthy JNull = False"
| "truthy (JBool b) = b"
| "truthy (JInt i) = (i \<noteq> 0)"
| "truthy (JStr s) = (s \<noteq> [])"
| "truthy (JList xs) = (xs \<noteq> [])"
| "truthy (JObj d) = (d \<noteq> [])"

text \<open>The expression \<open>a or b\<close>.\<close>

definition py_or :: "json \<Rightarrow> json \<Rightarrow> json" where
  "py_or a b = (if truthy a then a else b)"

fun is_str :: "json \<Rightarrow> bool" where
  "is_str (JStr s) = True"
| "is_str _ = False"

text \<open>\<open>isinstance(v, str) and v\<close>: a non-empty string.\<close>

fun nonempty_str :: "json \<Rightarrow> bool" where
  "nonempty_str (JStr s) = (s \<noteq> [])"
| "nonempty_str _ = False"

text \<open>Lists and dictionaries cannot be hashed: set membership of one raises \<open>TypeError\<close>.\<close>

fun hashable :: "json \<Rightarrow> bool" where
  "hashable (JList xs) = False"
| "hashable (JObj d) = False"
| "hashable _ = True"

text \<open>
  \<open>str(v)\<close> inside an f-string. The text of a container (its \<open>repr\<close>) is not reproduced: it is
  replaced by a placeholder. The code tests membership of a status before it formats it, so
  that only an assignment event can ever show such a text, in the action of a timeline entry.
\<close>

fun py_str :: "json \<Rightarrow> string" where
  "py_str JNull = ''None''"
| "py_str (JBool b) = (if b then ''True'' else ''False'')"
| "py_str (JInt i) = show_int i"
| "py_str (JStr s) = s"
| "py_str (JList xs) = ''[...]''"
| "py_str (JObj d) = ''{...}''"

text \<open>Iteration \<open>for x in v\<close> and \<open>list(v)\<close>.\<close>

fun py_iter :: "json \<Rightarrow> json list result" where
  "py_iter (JList xs) = Inr xs"
| "py_iter (JStr s) = Inr (map (\<lambda>c. JStr [c]) s)"
| "py_iter (JObj d) = Inr (map (\<lambda>(k, v). JStr k) d)"
| "py_iter _ = Inl TypeError"

text \<open>\<open>v.strip()\<close> on a value: only strings have the method.\<close>

fun py_strip :: "json \<Rightarrow> string result" where
  "py_strip (JStr s) = Inr (strip s)"
| "py_strip _ = Inl AttributeError"

section \<open>Model validation\<close>

text \<open>
  What the pydantic models of the source do with a field of type \<open>str\<close>, \<open>str | None\<close> and
  \<open>list[str]\<close>: the value is taken as it is or the construction raises.
\<close>

fun as_str :: "json \<Rightarrow> string result" where
  "as_str (JStr s) = Inr s"
| "as_str _ = Inl ValidationError"

fun as_opt_str :: "json \<Rightarrow> string option result" where
  "as_opt_str JNull = Inr None"
| "as_opt_str (JStr s) = Inr (Some s)"
| "as_opt_str _ = Inl ValidationError"

definition as_str_list :: "json list \<Rightarrow> string list result" where
  "as_str_list xs = r_map as_str xs"

fun of_opt_str :: "string option \<Rightarrow> json" where
  "of_opt_str None = JNull"
| "of_opt_str (Some s) = JStr s"

fun opt_str :: "json \<Rightarrow> bool" where
  "opt_str JNull = True"
| "opt_str (JStr s) = True"
| "opt_str _ = False"

lemma as_str_iff [simp]: "as_str v = Inr s \<longleftrightarrow> v = JStr s"
  by (cases v) auto

lemma as_str_ok: "is_str v \<Longrightarrow> \<exists>s. as_str v = Inr s"
  by (cases v) auto

lemma as_opt_str_of_opt_str [simp]: "as_opt_str (of_opt_str x) = Inr x"
  by (cases x) auto

lemma as_opt_str_iff: "as_opt_str v = Inr x \<longleftrightarrow> v = of_opt_str x"
  by (cases v; cases x) auto

lemma as_opt_str_ok: "opt_str v \<Longrightarrow> \<exists>x. as_opt_str v = Inr x"
  by (cases v) auto

lemma as_str_list_ok: "list_all is_str xs \<Longrightarrow> \<exists>ys. as_str_list xs = Inr ys"
proof (induction xs)
  case Nil
  then show ?case by (simp add: as_str_list_def)
next
  case (Cons x xs)
  then show ?case by (cases x) (auto simp: as_str_list_def)
qed

lemma as_str_list_Inr: "as_str_list xs = Inr ys \<Longrightarrow> xs = map JStr ys"
  unfolding as_str_list_def r_map_Inr_iff
  by (induction xs ys rule: list_all2_induct) auto

lemma is_str_opt_str: "is_str v \<Longrightarrow> opt_str v"
  by (cases v) auto

lemma py_or_simps [simp]:
  "py_or (JStr s) b = (if s = [] then b else JStr s)"
  "py_or JNull b = b"
  by (simp_all add: py_or_def)

text \<open>A field that holds a list of strings or is absent.\<close>

definition str_list :: "json \<Rightarrow> bool" where
  "str_list v \<longleftrightarrow> (case v of JNull \<Rightarrow> True | JList xs \<Rightarrow> list_all is_str xs | _ \<Rightarrow> False)"

lemma str_list_iter: "str_list v \<Longrightarrow> \<exists>xs. py_iter (py_or v (JList [])) = Inr xs \<and> list_all is_str xs"
  by (cases v) (auto simp: str_list_def py_or_def)

lemma opt_str_truthy: "opt_str v \<Longrightarrow> truthy v \<Longrightarrow> is_str v"
  by (cases v) auto

lemma opt_str_or: "opt_str v \<Longrightarrow> is_str (py_or v (JStr d))"
  by (cases v) auto

lemma opt_str_hashable: "opt_str v \<Longrightarrow> hashable v"
  by (cases v) auto

lemma get_item_ok: "has_key d k \<Longrightarrow> get_item d k = Inr (get d k)"
  by (auto simp: has_key_def get_item_def get_def)

end
