(* ===== verification/Itil_Types.thy ===== *)
theory Itil_Types
  imports PyValue
begin

text \<open>
  The data of the ITIL service (\<open>src/skcoord/itil.py\<close>, lines 56 to 290): the enumerations of its
  records with their stored values, the three lifecycle tables, the severity ranking, and the
  folded records. A lifecycle table is a function from a status to the list of statuses a plain
  \<open>status\<close> event may move it to.
\<close>

section \<open>Enumerations\<close>

datatype severity = SEV1 | SEV2 | SEV3 | SEV4

fun severity_value :: "severity \<Rightarrow> string" where
  "severity_value SEV1 = ''sev1''"
| "severity_value SEV2 = ''sev2''"
| "severity_value SEV3 = ''sev3''"
| "severity_value SEV4 = ''sev4''"

definition severities :: "severity list" where
  "severities = [SEV1, SEV2, SEV3, SEV4]"

datatype incident_status = Detected | Acknowledged | Investigating | Escalated | Resolved | Closed

fun incident_status_value :: "incident_status \<Rightarrow> string" where
  "incident_status_value Detected = ''detected''"
| "incident_status_value Acknowledged = ''acknowledged''"
| "incident_status_value Investigating = ''investigating''"
| "incident_status_value Escalated = ''escalated''"
| "incident_status_value Resolved = ''resolved''"
| "incident_status_value Closed = ''closed''"

definition incident_statuses :: "incident_status list" where
  "incident_statuses = [Detected, Acknowledged, Investigating, Escalated, Resolved, Closed]"

definition open_incident_statuses :: "incident_status list" where
  "open_incident_statuses = [Detected, Acknowledged, Investigating, Escalated]"

datatype problem_status = Identified | Analyzing | KnownError | PResolved

fun problem_status_value :: "problem_status \<Rightarrow> string" where
  "problem_status_value Identified = ''identified''"
| "problem_status_value Analyzing = ''analyzing''"
| "problem_status_value KnownError = ''known_error''"
| "problem_status_value PResolved = ''resolved''"

definition problem_statuses :: "problem_status list" where
  "problem_statuses = [Identified, Analyzing, KnownError, PResolved]"

datatype change_type = Standard | Normal | Emergency

fun change_type_value :: "change_type \<Rightarrow> string" where
  "change_type_value Standard = ''standard''"
| "change_type_value Normal = ''normal''"
| "change_type_value Emergency = ''emergency''"

definition change_types :: "change_type list" where
  "change_types = [Standard, Normal, Emergency]"

datatype change_status =
    Proposed | Reviewing | Approved | Scheduled | Rejected
  | Implementing | Deployed | Verified | Failed | CClosed

fun change_status_value :: "change_status \<Rightarrow> string" where
  "change_status_value Proposed = ''proposed''"
| "change_status_value Reviewing = ''reviewing''"
| "change_status_value Approved = ''approved''"
| "change_status_value Scheduled = ''scheduled''"
| "change_status_value Rejected = ''rejected''"
| "change_status_value Implementing = ''implementing''"
| "change_status_value Deployed = ''deployed''"
| "change_status_value Verified = ''verified''"
| "change_status_value Failed = ''failed''"
| "change_status_value CClosed = ''closed''"

definition change_statuses :: "change_status list" where
  "change_statuses = [Proposed, Reviewing, Approved, Scheduled, Rejected,
     Implementing, Deployed, Verified, Failed, CClosed]"

datatype risk = Low | Medium | High

fun risk_value :: "risk \<Rightarrow> string" where
  "risk_value Low = ''low''"
| "risk_value Medium = ''medium''"
| "risk_value High = ''high''"

definition risks :: "risk list" where
  "risks = [Low, Medium, High]"

datatype cab_decision_value = CabApproved | CabRejected | CabAbstain

fun cab_decision_value_str :: "cab_decision_value \<Rightarrow> string" where
  "cab_decision_value_str CabApproved = ''approved''"
| "cab_decision_value_str CabRejected = ''rejected''"
| "cab_decision_value_str CabAbstain = ''abstain''"

definition cab_decision_values :: "cab_decision_value list" where
  "cab_decision_values = [CabApproved, CabRejected, CabAbstain]"

text \<open>
  The constructor call \<open>Enum(value)\<close> of a string enumeration: the member with that value, or
  \<open>ValueError\<close>.
\<close>

definition enum_of :: "('a \<Rightarrow> string) \<Rightarrow> 'a list \<Rightarrow> json \<Rightarrow> 'a result" where
  "enum_of val members v =
     (case find (\<lambda>m. JStr (val m) = v) members of
        None \<Rightarrow> Inl (ValueError ''not a valid member'')
      | Some m \<Rightarrow> Inr m)"

lemma severity_value_inj [simp]: "severity_value a = severity_value b \<longleftrightarrow> a = b"
  by (cases a; cases b) simp_all

lemma incident_status_value_inj [simp]: "incident_status_value a = incident_status_value b \<longleftrightarrow> a = b"
  by (cases a; cases b) simp_all

lemma problem_status_value_inj [simp]: "problem_status_value a = problem_status_value b \<longleftrightarrow> a = b"
  by (cases a; cases b) simp_all

lemma change_status_value_inj [simp]: "change_status_value a = change_status_value b \<longleftrightarrow> a = b"
  by (cases a; cases b) simp_all

lemma change_type_value_inj [simp]: "change_type_value a = change_type_value b \<longleftrightarrow> a = b"
  by (cases a; cases b) simp_all

lemma risk_value_inj [simp]: "risk_value a = risk_value b \<longleftrightarrow> a = b"
  by (cases a; cases b) simp_all

lemma enum_of_Inr_value: "enum_of val ms v = Inr m \<Longrightarrow> v = JStr (val m)"
  by (auto simp: enum_of_def find_Some_iff split: option.splits)

lemma enum_of_severity [simp]: "enum_of severity_value severities (JStr (severity_value s)) = Inr s"
  by (cases s) (simp_all add: enum_of_def severities_def)

lemma enum_of_change_type [simp]:
  "enum_of change_type_value change_types (JStr (change_type_value s)) = Inr s"
  by (cases s) (simp_all add: enum_of_def change_types_def)

lemma enum_of_risk [simp]: "enum_of risk_value risks (JStr (risk_value s)) = Inr s"
  by (cases s) (simp_all add: enum_of_def risks_def)

section \<open>Lifecycle tables\<close>

fun incident_transitions :: "incident_status \<Rightarrow> incident_status list" where
  "incident_transitions Detected = [Acknowledged, Escalated, Resolved]"
| "incident_transitions Acknowledged = [Investigating, Escalated, Resolved]"
| "incident_transitions Investigating = [Escalated, Resolved]"
| "incident_transitions Escalated = [Investigating, Resolved]"
| "incident_transitions Resolved = [Closed]"
| "incident_transitions Closed = []"

fun problem_transitions :: "problem_status \<Rightarrow> problem_status list" where
  "problem_transitions Identified = [Analyzing]"
| "problem_transitions Analyzing = [KnownError, PResolved]"
| "problem_transitions KnownError = [PResolved]"
| "problem_transitions PResolved = []"

fun change_transitions :: "change_status \<Rightarrow> change_status list" where
  "change_transitions Proposed = [Reviewing, Approved, Rejected]"
| "change_transitions Reviewing = [Approved, Rejected]"
| "change_transitions Approved = [Implementing, Rejected, Scheduled]"
| "change_transitions Scheduled = [Implementing, Approved, Rejected]"
| "change_transitions Rejected = [CClosed]"
| "change_transitions Implementing = [Deployed, Failed]"
| "change_transitions Deployed = [Verified, Failed]"
| "change_transitions Verified = [CClosed]"
| "change_transitions Failed = [Implementing, CClosed]"
| "change_transitions CClosed = []"

text \<open>
  The test \<open>to in TABLE.get(status, set())\<close> on a value read from an event: the row's status
  with that value, none, or \<open>TypeError\<close> for a value that cannot be hashed.
\<close>

definition table_target :: "('a \<Rightarrow> string) \<Rightarrow> 'a list \<Rightarrow> json \<Rightarrow> 'a option result" where
  "table_target val row v =
     (if \<not> hashable v then Inl TypeError else Inr (find (\<lambda>m. JStr (val m) = v) row))"

lemma table_target_Some:
  "table_target val row v = Inr (Some t) \<Longrightarrow> t \<in> set row \<and> v = JStr (val t)"
  by (auto simp: table_target_def find_Some_iff split: if_splits)

lemma table_target_None:
  "table_target val row v = Inr None \<Longrightarrow> t \<in> set row \<Longrightarrow> v \<noteq> JStr (val t)"
  by (auto simp: table_target_def find_None_iff split: if_splits)

lemma table_target_ok: "hashable v \<Longrightarrow> \<exists>r. table_target val row v = Inr r"
  by (simp add: table_target_def)

section \<open>Severity ranking\<close>

definition sev_rank :: "json \<Rightarrow> nat" where
  "sev_rank v = (if v = JStr ''sev1'' then 4 else if v = JStr ''sev2'' then 3
     else if v = JStr ''sev3'' then 2 else if v = JStr ''sev4'' then 1 else 0)"

text \<open>\<open>_SEV_RANK.get(x, 0)\<close> hashes its argument.\<close>

definition max_severity :: "json \<Rightarrow> json \<Rightarrow> json result" where
  "max_severity a b =
     (if \<not> hashable a \<or> \<not> hashable b then Inl TypeError
      else Inr (if sev_rank b \<le> sev_rank a then a else b))"

lemma max_severity_rank:
  "max_severity a b = Inr c \<Longrightarrow> sev_rank c = max (sev_rank a) (sev_rank b) \<and> c \<in> {a, b}"
  by (auto simp: max_severity_def split: if_splits)

section \<open>Event fields\<close>

text \<open>The values every branch reads first: note, writer and timestamp of the event.\<close>

definition ev_note :: "jobj \<Rightarrow> json" where
  "ev_note e = py_or (get_d e ''note'' (JStr [])) (JStr [])"

definition ev_agent :: "jobj \<Rightarrow> json" where
  "ev_agent e = py_or (get_d e ''writer'' (JStr [])) (JStr [])"

definition ev_ts :: "jobj \<Rightarrow> json" where
  "ev_ts e = get_d e ''ts'' (JStr [])"

text \<open>
  A log line as the manager writes it: a string timestamp, payload fields that are strings or
  absent, and tags as a list of strings.
\<close>

definition wf_event :: "jobj \<Rightarrow> bool" where
  "wf_event e \<longleftrightarrow> is_str (ev_ts e) \<and> opt_str (get e ''to'') \<and> opt_str (get e ''id'')
     \<and> opt_str (get e ''text'') \<and> opt_str (get e ''resolution_summary'')
     \<and> str_list (get e ''add'')"

text \<open>An event line as the witnesses of the development use it.\<close>

definition sample_event :: "string \<Rightarrow> string \<Rightarrow> jobj \<Rightarrow> jobj" where
  "sample_event ts kind payload =
     [(''ts'', JStr ts), (''writer'', JStr ''ops''), (''node'', JStr ''n1''), (''seq'', JInt 0),
      (''kind'', JStr kind)] @ payload"

section \<open>Folded records\<close>

text \<open>
  A timeline entry. \<open>te_conflicted\<close> is the key \<open>"conflicted": True\<close>, present or absent, and
  \<open>te_reason\<close> the optional \<open>"conflict_reason"\<close>.
\<close>

record timeline_entry =
  te_ts :: json
  te_agent :: json
  te_action :: string
  te_note :: json
  te_conflicted :: bool
  te_reason :: "string option"

definition entry :: "json \<Rightarrow> json \<Rightarrow> string \<Rightarrow> json \<Rightarrow> timeline_entry" where
  "entry ts agent action note = \<lparr>te_ts = ts, te_agent = agent, te_action = action, te_note = note,
     te_conflicted = False, te_reason = None\<rparr>"

definition conflict_entry :: "json \<Rightarrow> json \<Rightarrow> string \<Rightarrow> json \<Rightarrow> string option \<Rightarrow> timeline_entry" where
  "conflict_entry ts agent action note reason = \<lparr>te_ts = ts, te_agent = agent, te_action = action,
     te_note = note, te_conflicted = True, te_reason = reason\<rparr>"

lemma entry_conflicted [simp]: "\<not> te_conflicted (entry ts a act n)"
  by (simp add: entry_def)

lemma conflict_entry_conflicted [simp]: "te_conflicted (conflict_entry ts a act n r)"
  by (simp add: conflict_entry_def)

text \<open>
  The arrow that records a status move, and the status read back from a timeline: starting from
  the initial status, every entry that is not conflicted and records a move away from the
  current status is followed.
\<close>

definition status_arrow :: "string \<Rightarrow> string \<Rightarrow> string" where
  "status_arrow a b = ''status:'' @ a @ ''->'' @ b"

definition tl_step :: "('a \<Rightarrow> string) \<Rightarrow> 'a list \<Rightarrow> 'a \<Rightarrow> timeline_entry \<Rightarrow> 'a" where
  "tl_step val members st t =
     (if te_conflicted t then st
      else case find (\<lambda>m. te_action t = status_arrow (val st) (val m)) members of
             None \<Rightarrow> st | Some m \<Rightarrow> m)"

definition tl_status :: "('a \<Rightarrow> string) \<Rightarrow> 'a list \<Rightarrow> 'a \<Rightarrow> timeline_entry list \<Rightarrow> 'a" where
  "tl_status val members st tml = foldl (tl_step val members) st tml"

lemma tl_status_Nil [simp]: "tl_status val members st [] = st"
  by (simp add: tl_status_def)

lemma tl_status_snoc [simp]:
  "tl_status val members st (tml @ [t]) = tl_step val members (tl_status val members st tml) t"
  by (simp add: tl_status_def)

lemma tl_step_conflict [simp]:
  "tl_step val members st (conflict_entry ts a act n r) = st"
  by (simp add: tl_step_def)

lemma tl_step_other:
  assumes "\<not> starts_with act ''status:''"
  shows "tl_step val members st (entry ts a act n) = st"
proof -
  have "act \<noteq> status_arrow x y" for x y
    using assms by (auto simp: starts_with_iff status_arrow_def)
  then have "find (\<lambda>m. act = status_arrow (val st) (val m)) members = None"
    by (simp add: find_None_iff)
  then show ?thesis by (simp add: tl_step_def entry_def)
qed

lemma tl_step_arrow:
  assumes "m \<in> set members" and "inj_on val (set members)"
  shows "tl_step val members st (entry ts a (status_arrow (val st) (val m)) n) = m"
proof -
  have arrow: "status_arrow x y = status_arrow x z \<longleftrightarrow> y = z" for x y z
    by (simp add: status_arrow_def)
  obtain k where k: "find (\<lambda>k. val m = val k) members = Some k"
    using assms(1) by (cases "find (\<lambda>k. val m = val k) members") (auto simp: find_None_iff)
  then have "k \<in> set members" "val m = val k"
    by (auto simp: find_Some_iff)
  with assms have "k = m" by (auto dest: inj_onD)
  with k show ?thesis by (simp add: tl_step_def entry_def arrow)
qed

record incident =
  i_id :: string
  i_title :: string
  i_severity :: severity
  i_status :: incident_status
  i_source :: string
  i_affected_services :: "string list"
  i_impact :: string
  i_managed_by :: string
  i_created_by :: string
  i_detected_at :: string
  i_acknowledged_at :: "string option"
  i_resolved_at :: "string option"
  i_closed_at :: "string option"
  i_timeline :: "timeline_entry list"
  i_related_problem_id :: "string option"
  i_gtd_item_ids :: "string list"
  i_resolution_summary :: "string option"
  i_tags :: "string list"

record problem =
  p_id :: string
  p_title :: string
  p_status :: problem_status
  p_root_cause :: "string option"
  p_workaround :: "string option"
  p_managed_by :: string
  p_created_by :: string
  p_created_at :: string
  p_related_incident_ids :: "string list"
  p_related_change_id :: "string option"
  p_kedb_id :: "string option"
  p_gtd_item_ids :: "string list"
  p_timeline :: "timeline_entry list"
  p_tags :: "string list"

record change =
  c_id :: string
  c_title :: string
  c_change_type :: change_type
  c_status :: change_status
  c_risk :: risk
  c_rollback_plan :: string
  c_test_plan :: string
  c_managed_by :: string
  c_created_by :: string
  c_implementer :: "string option"
  c_cab_required :: bool
  c_created_at :: string
  c_related_problem_id :: "string option"
  c_gtd_item_ids :: "string list"
  c_timeline :: "timeline_entry list"
  c_tags :: "string list"
  c_prepared_pr :: "jobj option"
  c_prepared_by :: "string option"
  c_validation :: "jobj option"
  c_scheduled_window :: "jobj option"

record cab_decision =
  v_change_id :: string
  v_agent :: string
  v_subject_role :: string
  v_subject_fingerprint :: string
  v_authorization_id :: string
  v_decision :: cab_decision_value
  v_conditions :: string
  v_decided_at :: string

record kedb_entry =
  k_id :: string
  k_title :: string
  k_symptoms :: "string list"
  k_root_cause :: string
  k_workaround :: string
  k_permanent_fix_change_id :: "string option"
  k_related_problem_id :: "string option"
  k_managed_by :: string
  k_created_at :: string
  k_tags :: "string list"

end
