(* ===== verification/Itil_Incident.thy ===== *)
theory Itil_Incident
  imports Itil_Types
begin

text \<open>
  The incident fold (\<open>ITILManager._fold_incident\<close>): one handler per event kind over the fold's
  local variables, the step that dispatches on the kind, and the construction of the folded
  record. The lemmas state the lifecycle the fold enforces, that severity only escalates, that a
  conflicted event changes nothing but the timeline, and on which logs the fold cannot fail.
\<close>

section \<open>The fold\<close>

text \<open>The local variables of the loop.\<close>

record inc_state =
  is_status :: incident_status
  is_severity :: json
  is_timeline :: "timeline_entry list"
  is_acknowledged_at :: json
  is_resolved_at :: json
  is_closed_at :: json
  is_resolution_summary :: json
  is_related_problem_id :: json
  is_tags :: "json list"
  is_gtd_ids :: "json list"
  is_title :: json
  is_managed_by :: json
  is_seen_created :: bool

definition inc_log :: "inc_state \<Rightarrow> timeline_entry \<Rightarrow> inc_state" where
  "inc_log s t = s\<lparr>is_timeline := is_timeline s @ [t]\<rparr>"

definition inc_init :: "jobj \<Rightarrow> inc_state result" where
  "inc_init core =
     r_bind (py_iter (py_or (get core ''tags'') (JList []))) (\<lambda>tags. Inr
      \<lparr>is_status = Detected,
       is_severity = py_or (get core ''severity_at_creation'') (JStr ''sev3''),
       is_timeline = [],
       is_acknowledged_at = JNull, is_resolved_at = JNull, is_closed_at = JNull,
       is_resolution_summary = JNull,
       is_related_problem_id = get core ''related_problem_id'',
       is_tags = tags, is_gtd_ids = [],
       is_title = get_d core ''title'' (JStr []),
       is_managed_by = get_d core ''managed_by'' (JStr []),
       is_seen_created = False\<rparr>)"

definition inc_on_created :: "inc_state \<Rightarrow> jobj \<Rightarrow> inc_state" where
  "inc_on_created s e =
     (if is_seen_created s then s
      else inc_log (s\<lparr>is_seen_created := True\<rparr>)
             (entry (ev_ts e) (ev_agent e) ''created'' (ev_note e)))"

text \<open>The stamps a legal status move sets.\<close>

definition inc_stamp :: "inc_state \<Rightarrow> incident_status \<Rightarrow> jobj \<Rightarrow> inc_state" where
  "inc_stamp s t e =
     (if t = Acknowledged \<and> \<not> truthy (is_acknowledged_at s)
      then s\<lparr>is_acknowledged_at := ev_ts e\<rparr>
      else if t = Resolved then
        s\<lparr>is_resolved_at := (if truthy (is_resolved_at s) then is_resolved_at s else ev_ts e),
          is_resolution_summary := (if truthy (get e ''resolution_summary'')
             then get e ''resolution_summary'' else is_resolution_summary s)\<rparr>
      else if t = Closed \<and> \<not> truthy (is_closed_at s) then s\<lparr>is_closed_at := ev_ts e\<rparr>
      else s)"

definition inc_on_status :: "inc_state \<Rightarrow> jobj \<Rightarrow> inc_state result" where
  "inc_on_status s e =
     (let to = get e ''to'';
          arrow = status_arrow (incident_status_value (is_status s)) (py_str to)
      in r_bind (table_target incident_status_value (incident_transitions (is_status s)) to)
           (\<lambda>target. Inr (case target of
              Some t \<Rightarrow> inc_stamp
                ((inc_log s (entry (ev_ts e) (ev_agent e) arrow (ev_note e)))\<lparr>is_status := t\<rparr>) t e
            | None \<Rightarrow> inc_log s (conflict_entry (ev_ts e) (ev_agent e) arrow (ev_note e) None))))"

definition inc_on_reopen :: "inc_state \<Rightarrow> jobj \<Rightarrow> inc_state" where
  "inc_on_reopen s e =
     (if is_status s = Resolved
      then (inc_log s (entry (ev_ts e) (ev_agent e) ''status:resolved->investigating''
              (py_or (ev_note e) (JStr ''reopened''))))
            \<lparr>is_status := Investigating, is_resolved_at := JNull, is_resolution_summary := JNull\<rparr>
      else inc_log s (conflict_entry (ev_ts e) (ev_agent e)
              (''reopen:'' @ incident_status_value (is_status s)) (ev_note e) None))"

definition inc_on_severity :: "inc_state \<Rightarrow> jobj \<Rightarrow> inc_state result" where
  "inc_on_severity s e =
     (let to = get e ''to'' in
      r_bind (max_severity (is_severity s) to) (\<lambda>m. Inr
        ((inc_log s (entry (ev_ts e) (ev_agent e)
            (''severity:'' @ py_str (is_severity s) @ ''->'' @ py_str to) (ev_note e)))
          \<lparr>is_severity := m\<rparr>)))"

definition inc_on_ack :: "inc_state \<Rightarrow> jobj \<Rightarrow> inc_state" where
  "inc_on_ack s e =
     inc_log (if truthy (is_acknowledged_at s) then s else s\<lparr>is_acknowledged_at := ev_ts e\<rparr>)
       (entry (ev_ts e) (ev_agent e) ''acknowledged'' (ev_note e))"

definition inc_on_resolution :: "inc_state \<Rightarrow> jobj \<Rightarrow> inc_state" where
  "inc_on_resolution s e =
     (if truthy (get e ''resolution_summary'')
      then s\<lparr>is_resolution_summary := get e ''resolution_summary''\<rparr> else s)"

definition inc_on_link_problem :: "inc_state \<Rightarrow> jobj \<Rightarrow> inc_state" where
  "inc_on_link_problem s e =
     (if truthy (get e ''id'') then s\<lparr>is_related_problem_id := get e ''id''\<rparr> else s)"

definition inc_on_title :: "inc_state \<Rightarrow> jobj \<Rightarrow> inc_state" where
  "inc_on_title s e =
     inc_log (if truthy (get e ''text'') then s\<lparr>is_title := get e ''text''\<rparr> else s)
       (entry (ev_ts e) (ev_agent e) ''title'' (get_d e ''text'' (JStr [])))"

definition inc_on_assignment :: "inc_state \<Rightarrow> jobj \<Rightarrow> inc_state" where
  "inc_on_assignment s e =
     (let to = get e ''to'' in
      if truthy to
      then (inc_log s (entry (ev_ts e) (ev_agent e)
              (''managed_by:'' @ py_str (is_managed_by s) @ ''->'' @ py_str to) (ev_note e)))
            \<lparr>is_managed_by := to\<rparr>
      else s)"

definition inc_on_tags :: "inc_state \<Rightarrow> jobj \<Rightarrow> inc_state result" where
  "inc_on_tags s e =
     r_bind (py_iter (py_or (get e ''add'') (JList [])))
       (\<lambda>ts. Inr (s\<lparr>is_tags := add_all_new (is_tags s) ts\<rparr>))"

definition inc_on_gtd_link :: "inc_state \<Rightarrow> jobj \<Rightarrow> inc_state" where
  "inc_on_gtd_link s e =
     (let gid = get e ''id'' in
      if truthy gid then s\<lparr>is_gtd_ids := add_new (is_gtd_ids s) gid\<rparr> else s)"

definition inc_on_note :: "inc_state \<Rightarrow> jobj \<Rightarrow> inc_state" where
  "inc_on_note s e = inc_log s (entry (ev_ts e) (ev_agent e) ''note'' (ev_note e))"

definition inc_step :: "inc_state \<Rightarrow> jobj \<Rightarrow> inc_state result" where
  "inc_step s e =
     (let kind = get e ''kind'' in
      if kind = JStr ''created'' then Inr (inc_on_created s e)
      else if kind = JStr ''status'' then inc_on_status s e
      else if kind = JStr ''reopen'' then Inr (inc_on_reopen s e)
      else if kind = JStr ''severity'' then inc_on_severity s e
      else if kind = JStr ''ack'' then Inr (inc_on_ack s e)
      else if kind = JStr ''resolution'' then Inr (inc_on_resolution s e)
      else if kind = JStr ''link_problem'' then Inr (inc_on_link_problem s e)
      else if kind = JStr ''title'' then Inr (inc_on_title s e)
      else if kind = JStr ''assignment'' then Inr (inc_on_assignment s e)
      else if kind = JStr ''tags'' then inc_on_tags s e
      else if kind = JStr ''gtd_link'' then Inr (inc_on_gtd_link s e)
      else if kind = JStr ''note'' \<or> kind = JStr ''recovery'' then Inr (inc_on_note s e)
      else Inr s)"

text \<open>
  The construction of the folded model. \<open>now\<close> is the wall clock the code falls back to when the
  core carries no detection time.
\<close>

definition inc_build :: "string \<Rightarrow> jobj \<Rightarrow> inc_state \<Rightarrow> incident result" where
  "inc_build now core s =
     r_bind (r_bind (get_item core ''id'') as_str) (\<lambda>rid.
     r_bind (as_str (is_title s)) (\<lambda>title.
     r_bind (enum_of severity_value severities (is_severity s)) (\<lambda>sev.
     r_bind (as_str (get_d core ''source'' (JStr ''manual''))) (\<lambda>source.
     r_bind (r_bind (py_iter (py_or (get core ''affected_services'') (JList []))) as_str_list) (\<lambda>services.
     r_bind (as_str (get_d core ''impact'' (JStr []))) (\<lambda>impact.
     r_bind (as_str (is_managed_by s)) (\<lambda>managed_by.
     r_bind (as_str (get_d core ''created_by'' (JStr []))) (\<lambda>created_by.
     r_bind (as_str (py_or (get core ''detected_at'') (JStr now))) (\<lambda>detected_at.
     r_bind (as_opt_str (is_acknowledged_at s)) (\<lambda>acknowledged_at.
     r_bind (as_opt_str (is_resolved_at s)) (\<lambda>resolved_at.
     r_bind (as_opt_str (is_closed_at s)) (\<lambda>closed_at.
     r_bind (as_opt_str (is_related_problem_id s)) (\<lambda>problem.
     r_bind (as_str_list (is_gtd_ids s)) (\<lambda>gtd_ids.
     r_bind (as_opt_str (is_resolution_summary s)) (\<lambda>summary.
     r_bind (as_str_list (is_tags s)) (\<lambda>tags.
       Inr \<lparr>i_id = rid, i_title = title, i_severity = sev, i_status = is_status s,
            i_source = source, i_affected_services = services, i_impact = impact,
            i_managed_by = managed_by, i_created_by = created_by, i_detected_at = detected_at,
            i_acknowledged_at = acknowledged_at, i_resolved_at = resolved_at,
            i_closed_at = closed_at, i_timeline = is_timeline s,
            i_related_problem_id = problem, i_gtd_item_ids = gtd_ids,
            i_resolution_summary = summary, i_tags = tags\<rparr>))))))))))))))))"

definition fold_incident :: "string \<Rightarrow> jobj \<Rightarrow> jobj list \<Rightarrow> incident result" where
  "fold_incident now core events =
     r_bind (inc_init core) (\<lambda>s0. r_bind (r_fold inc_step s0 events) (\<lambda>s. inc_build now core s))"

section \<open>What one event may do\<close>

text \<open>The lifecycle the fold allows: the rows of the table and the fold-only reopen edge.\<close>

definition inc_edge :: "incident_status \<Rightarrow> incident_status \<Rightarrow> bool" where
  "inc_edge a b \<longleftrightarrow> b \<in> set (incident_transitions a) \<or> (a = Resolved \<and> b = Investigating)"

definition inc_tl_status :: "timeline_entry list \<Rightarrow> incident_status" where
  "inc_tl_status tml = tl_status incident_status_value incident_statuses Detected tml"

definition is_created :: "timeline_entry \<Rightarrow> bool" where
  "is_created t \<longleftrightarrow> te_action t = ''created''"

definition inc_inv :: "inc_state \<Rightarrow> bool" where
  "inc_inv s \<longleftrightarrow>
     (is_status s \<notin> {Resolved, Closed} \<longrightarrow> is_resolved_at s = JNull)
   \<and> (is_status s \<noteq> Closed \<longrightarrow> is_closed_at s = JNull)
   \<and> inc_tl_status (is_timeline s) = is_status s
   \<and> length (filter is_created (is_timeline s)) = (if is_seen_created s then 1 else 0)
   \<and> distinct (is_gtd_ids s)"

definition inc_grows :: "inc_state \<Rightarrow> inc_state \<Rightarrow> bool" where
  "inc_grows s t \<longleftrightarrow>
     inc_edge\<^sup>*\<^sup>* (is_status s) (is_status t)
   \<and> sev_rank (is_severity s) \<le> sev_rank (is_severity t)
   \<and> (\<exists>r. is_timeline t = is_timeline s @ r)
   \<and> set (is_tags s) \<subseteq> set (is_tags t)
   \<and> set (is_gtd_ids s) \<subseteq> set (is_gtd_ids t)
   \<and> (truthy (is_acknowledged_at s) \<longrightarrow> is_acknowledged_at t = is_acknowledged_at s)
   \<and> (truthy (is_closed_at s) \<longrightarrow> is_closed_at t = is_closed_at s)"

lemmas inc_handler_defs =
  inc_on_created_def inc_on_reopen_def inc_on_ack_def inc_on_resolution_def
  inc_on_link_problem_def inc_on_title_def inc_on_assignment_def inc_on_gtd_link_def
  inc_on_note_def

lemma inc_values_inj: "inj_on incident_status_value (set incident_statuses)"
  by (auto simp: inj_on_def)

lemma incident_statuses_all [simp]: "st \<in> set incident_statuses"
  by (cases st) (simp_all add: incident_statuses_def)

lemma inc_tl_status_snoc:
  "inc_tl_status (tml @ [t]) = tl_step incident_status_value incident_statuses (inc_tl_status tml) t"
  by (simp add: inc_tl_status_def)

lemma inc_tl_arrow:
  "tl_step incident_status_value incident_statuses st
     (entry ts a (status_arrow (incident_status_value st) (incident_status_value t)) n) = t"
  by (simp add: tl_step_arrow inc_values_inj)

lemma inc_tl_reopen:
  "tl_step incident_status_value incident_statuses Resolved
     (entry ts a ''status:resolved->investigating'' n) = Investigating"
  using inc_tl_arrow [of Resolved ts a Investigating n] by (simp add: status_arrow_def)

lemma status_arrow_not_created [simp]: "status_arrow x y \<noteq> ''created''"
  by (simp add: status_arrow_def)

lemma incident_transitions_live:
  assumes "t \<in> set (incident_transitions a)"
  shows "a \<noteq> Closed" and "t \<notin> {Resolved, Closed} \<Longrightarrow> a \<notin> {Resolved, Closed}"
  using assms by (cases a; auto)+

lemma is_created_entry:
  "is_created (entry ts a act n) \<longleftrightarrow> act = ''created''"
  "is_created (conflict_entry ts a act n r) \<longleftrightarrow> act = ''created''"
  by (simp_all add: is_created_def entry_def conflict_entry_def)

lemmas inc_inv_simps = inc_inv_def inc_log_def inc_tl_status_snoc inc_tl_arrow inc_tl_reopen
  tl_step_other is_created_entry

text \<open>A status event: the moved state, or the same state with one conflicted entry.\<close>

lemma inc_on_status_cases:
  assumes "inc_on_status s e = Inr s'"
  obtains (move) t where "t \<in> set (incident_transitions (is_status s))"
      "get e ''to'' = JStr (incident_status_value t)"
      "s' = inc_stamp ((inc_log s (entry (ev_ts e) (ev_agent e)
              (status_arrow (incident_status_value (is_status s)) (incident_status_value t))
              (ev_note e)))\<lparr>is_status := t\<rparr>) t e"
  | (conflict) a where "s' = inc_log s (conflict_entry (ev_ts e) (ev_agent e)
              (status_arrow (incident_status_value (is_status s)) a) (ev_note e) None)"
proof -
  from assms obtain target where
    t: "table_target incident_status_value (incident_transitions (is_status s)) (get e ''to'')
          = Inr target"
    and s': "(case target of
          Some t \<Rightarrow> inc_stamp ((inc_log s (entry (ev_ts e) (ev_agent e)
              (status_arrow (incident_status_value (is_status s)) (py_str (get e ''to'')))
              (ev_note e)))\<lparr>is_status := t\<rparr>) t e
        | None \<Rightarrow> inc_log s (conflict_entry (ev_ts e) (ev_agent e)
              (status_arrow (incident_status_value (is_status s)) (py_str (get e ''to'')))
              (ev_note e) None)) = s'"
    unfolding inc_on_status_def Let_def by (auto elim: r_bind_InrE)
  show thesis
  proof (cases target)
    case None
    with s' show thesis by (intro conflict) auto
  next
    case (Some u)
    with t have "u \<in> set (incident_transitions (is_status s))"
      "get e ''to'' = JStr (incident_status_value u)"
      by (auto dest: table_target_Some)
    with s' Some show thesis by (intro move) auto
  qed
qed

lemma inc_stamp_frame [simp]:
  "is_status (inc_stamp s t e) = is_status s"
  "is_severity (inc_stamp s t e) = is_severity s"
  "is_timeline (inc_stamp s t e) = is_timeline s"
  "is_related_problem_id (inc_stamp s t e) = is_related_problem_id s"
  "is_tags (inc_stamp s t e) = is_tags s"
  "is_gtd_ids (inc_stamp s t e) = is_gtd_ids s"
  "is_title (inc_stamp s t e) = is_title s"
  "is_managed_by (inc_stamp s t e) = is_managed_by s"
  "is_seen_created (inc_stamp s t e) = is_seen_created s"
  by (simp_all add: inc_stamp_def)

lemma inc_on_status_inv:
  assumes "inc_inv s" and "inc_on_status s e = Inr s'"
  shows "inc_inv s'"
  using assms(2)
proof (cases rule: inc_on_status_cases)
  case (move t)
  note live = incident_transitions_live [OF move(1)]
  have "is_resolved_at (inc_stamp u t e) = is_resolved_at u" if "t \<notin> {Resolved, Closed}" for u
    using that by (auto simp: inc_stamp_def)
  moreover have "is_closed_at (inc_stamp u t e) = is_closed_at u" if "t \<noteq> Closed" for u
    using that by (auto simp: inc_stamp_def)
  ultimately show ?thesis
    using assms(1) live move(3) by (auto simp: inc_inv_simps)
next
  case (conflict a)
  with assms(1) show ?thesis by (simp add: inc_inv_simps)
qed

lemma inc_step_inv:
  assumes "inc_inv s" and "inc_step s e = Inr s'"
  shows "inc_inv s'"
proof -
  have handlers: "inc_inv (inc_on_created s e)" "inc_inv (inc_on_reopen s e)"
    "inc_inv (inc_on_ack s e)" "inc_inv (inc_on_resolution s e)" "inc_inv (inc_on_link_problem s e)"
    "inc_inv (inc_on_title s e)" "inc_inv (inc_on_assignment s e)" "inc_inv (inc_on_gtd_link s e)"
    "inc_inv (inc_on_note s e)"
    using assms(1) by (auto simp: inc_handler_defs inc_inv_simps Let_def)
  have "inc_on_severity s e = Inr s' \<Longrightarrow> inc_inv s'" "inc_on_tags s e = Inr s' \<Longrightarrow> inc_inv s'"
    using assms(1)
    by (auto simp: inc_on_severity_def inc_on_tags_def inc_inv_simps Let_def elim!: r_bind_InrE)
  with handlers assms show ?thesis
    by (auto simp: inc_step_def Let_def dest: inc_on_status_inv split: if_splits)
qed

lemma inc_growsI:
  assumes "inc_edge (is_status s) (is_status t) \<or> is_status s = is_status t"
    and "sev_rank (is_severity s) \<le> sev_rank (is_severity t)"
    and "\<exists>r. is_timeline t = is_timeline s @ r"
    and "set (is_tags s) \<subseteq> set (is_tags t)" and "set (is_gtd_ids s) \<subseteq> set (is_gtd_ids t)"
    and "truthy (is_acknowledged_at s) \<Longrightarrow> is_acknowledged_at t = is_acknowledged_at s"
    and "truthy (is_closed_at s) \<Longrightarrow> is_closed_at t = is_closed_at s"
  shows "inc_grows s t"
  using assms unfolding inc_grows_def by auto

lemma inc_on_status_grows:
  assumes "inc_inv s" and "inc_on_status s e = Inr s'"
  shows "inc_grows s s'"
  using assms(2)
proof (cases rule: inc_on_status_cases)
  case (move t)
  then have "inc_edge (is_status s) (is_status s')" by (simp add: inc_edge_def)
  with move assms(1) show ?thesis
    by (intro inc_growsI) (auto simp: inc_log_def inc_stamp_def inc_inv_def)
next
  case (conflict a)
  then show ?thesis by (intro inc_growsI) (auto simp: inc_log_def)
qed

lemma inc_step_grows:
  assumes "inc_inv s" and "inc_step s e = Inr s'"
  shows "inc_grows s s'"
proof -
  have "inc_grows s (inc_on_created s e)" "inc_grows s (inc_on_ack s e)"
    "inc_grows s (inc_on_resolution s e)" "inc_grows s (inc_on_link_problem s e)"
    "inc_grows s (inc_on_title s e)" "inc_grows s (inc_on_assignment s e)"
    "inc_grows s (inc_on_gtd_link s e)" "inc_grows s (inc_on_note s e)" "inc_grows s s"
    by (auto simp: inc_handler_defs inc_log_def Let_def intro!: inc_growsI)
  moreover have "inc_grows s (inc_on_reopen s e)"
    using assms(1)
    by (auto simp: inc_on_reopen_def inc_log_def inc_edge_def inc_inv_def intro!: inc_growsI)
  moreover have "inc_on_severity s e = Inr s' \<Longrightarrow> inc_grows s s'"
    by (auto simp: inc_on_severity_def inc_log_def Let_def elim!: r_bind_InrE
        dest!: max_severity_rank intro!: inc_growsI)
  moreover have "inc_on_tags s e = Inr s' \<Longrightarrow> inc_grows s s'"
    by (auto simp: inc_on_tags_def elim!: r_bind_InrE intro!: inc_growsI)
  ultimately show ?thesis
    using assms inc_on_status_grows
    by (auto simp: inc_step_def Let_def split: if_splits)
qed

interpretation incident_log: event_fold inc_step "\<lambda>_. True" inc_inv inc_grows
proof unfold_locales
  fix s t u :: inc_state and e :: jobj
  show "inc_inv s \<Longrightarrow> inc_step s e = Inr t \<Longrightarrow> inc_inv t" by (rule inc_step_inv)
  show "inc_grows s s" by (auto simp: inc_grows_def)
  show "inc_grows s t \<Longrightarrow> inc_grows t u \<Longrightarrow> inc_grows s u"
    unfolding inc_grows_def by (auto dest: rtranclp_trans)
  show "inc_inv s \<Longrightarrow> inc_step s e = Inr t \<Longrightarrow> inc_grows s t" by (rule inc_step_grows)
qed

section \<open>When the fold cannot fail\<close>

text \<open>A core as \<open>create_incident\<close> writes it.\<close>

definition wf_incident_core :: "jobj \<Rightarrow> bool" where
  "wf_incident_core core \<longleftrightarrow>
     has_key core ''id'' \<and> is_str (get core ''id'')
   \<and> is_str (get_d core ''title'' (JStr [])) \<and> is_str (get_d core ''source'' (JStr ''manual''))
   \<and> is_str (get_d core ''impact'' (JStr [])) \<and> is_str (get_d core ''managed_by'' (JStr []))
   \<and> is_str (get_d core ''created_by'' (JStr [])) \<and> opt_str (get core ''detected_at'')
   \<and> opt_str (get core ''related_problem_id'')
   \<and> str_list (get core ''tags'') \<and> str_list (get core ''affected_services'')
   \<and> (\<exists>sev. py_or (get core ''severity_at_creation'') (JStr ''sev3'') = JStr (severity_value sev))"

definition inc_ok :: "inc_state \<Rightarrow> bool" where
  "inc_ok s \<longleftrightarrow> (\<exists>sev. is_severity s = JStr (severity_value sev))
     \<and> opt_str (is_acknowledged_at s) \<and> opt_str (is_resolved_at s) \<and> opt_str (is_closed_at s)
     \<and> opt_str (is_resolution_summary s) \<and> opt_str (is_related_problem_id s)
     \<and> is_str (is_title s) \<and> is_str (is_managed_by s)
     \<and> list_all is_str (is_tags s) \<and> list_all is_str (is_gtd_ids s)"

lemma sev_rank_valid [simp]: "0 < sev_rank (JStr (severity_value sev))"
  by (cases sev) (simp_all add: sev_rank_def)

lemma sev_rank_pos: "0 < sev_rank v \<Longrightarrow> \<exists>sev. v = JStr (severity_value sev)"
  by (auto simp: sev_rank_def split: if_splits intro: severity_value.simps [symmetric])

lemma max_severity_ok:
  assumes "hashable b"
  shows "\<exists>c. max_severity (JStr (severity_value sev)) b = Inr c
     \<and> (\<exists>sev'. c = JStr (severity_value sev'))"
proof -
  obtain c where c: "max_severity (JStr (severity_value sev)) b = Inr c"
    using assms by (simp add: max_severity_def)
  then have "0 < sev_rank c" using max_severity_rank by (metis less_max_iff_disj sev_rank_valid)
  with c show ?thesis by (blast dest: sev_rank_pos)
qed

lemmas inc_ok_simps = inc_ok_def inc_log_def wf_event_def

lemma inc_on_status_ok:
  assumes "inc_ok s" and "wf_event e"
  shows "\<exists>s'. inc_on_status s e = Inr s' \<and> inc_ok s'"
proof -
  have "hashable (get e ''to'')" using assms(2) by (auto simp: wf_event_def opt_str_hashable)
  then obtain r where
    r: "table_target incident_status_value (incident_transitions (is_status s)) (get e ''to'') = Inr r"
    by (blast dest: table_target_ok)
  have stamp: "inc_ok u \<Longrightarrow> inc_ok (inc_stamp u t e)" for u t
    using assms(2) by (auto simp: inc_stamp_def inc_ok_simps is_str_opt_str)
  have log: "inc_ok (inc_log s x)" "inc_ok ((inc_log s x)\<lparr>is_status := t\<rparr>)" for x t
    using assms(1) by (auto simp: inc_ok_simps)
  show ?thesis using r by (auto simp: inc_on_status_def Let_def log stamp split: option.splits)
qed

lemma inc_step_ok:
  assumes "inc_ok s" and "wf_event e"
  shows "\<exists>s'. inc_step s e = Inr s' \<and> inc_ok s'"
proof -
  have handlers: "inc_ok (inc_on_created s e)" "inc_ok (inc_on_reopen s e)" "inc_ok (inc_on_ack s e)"
    "inc_ok (inc_on_resolution s e)" "inc_ok (inc_on_link_problem s e)" "inc_ok (inc_on_title s e)"
    "inc_ok (inc_on_assignment s e)" "inc_ok (inc_on_gtd_link s e)" "inc_ok (inc_on_note s e)"
    using assms
    by (auto simp: inc_handler_defs inc_ok_simps Let_def is_str_opt_str opt_str_truthy
        intro!: list_all_add_new)
  obtain sev where "is_severity s = JStr (severity_value sev)"
    using assms(1) by (auto simp: inc_ok_def)
  then have sev: "\<exists>s'. inc_on_severity s e = Inr s' \<and> inc_ok s'"
    using assms max_severity_ok [of "get e ''to''" sev]
    by (auto simp: inc_on_severity_def inc_ok_simps Let_def opt_str_hashable)
  have tags: "\<exists>s'. inc_on_tags s e = Inr s' \<and> inc_ok s'"
    using assms str_list_iter [of "get e ''add''"]
    by (auto simp: inc_on_tags_def inc_ok_simps intro!: list_all_add_all_new)
  show ?thesis
    using handlers sev tags assms inc_on_status_ok
    by (simp add: inc_step_def Let_def)
qed

interpretation incident_total: total_fold inc_step inc_ok wf_event
  by unfold_locales (rule inc_step_ok)

lemma inc_init_ok: "wf_incident_core core \<Longrightarrow> \<exists>s. inc_init core = Inr s \<and> inc_ok s"
  using str_list_iter [of "get core ''tags''"]
  by (auto simp: wf_incident_core_def inc_init_def inc_ok_def)

lemma inc_build_ok:
  assumes "wf_incident_core core" and "inc_ok s"
  shows "\<exists>i. inc_build now core s = Inr i"
proof -
  from assms obtain sev where sev: "is_severity s = JStr (severity_value sev)"
    by (auto simp: inc_ok_def)
  obtain svcs where "py_iter (py_or (get core ''affected_services'') (JList [])) = Inr svcs"
    "list_all is_str svcs"
    using assms(1) str_list_iter by (fastforce simp: wf_incident_core_def)
  then obtain svs where svs: "r_bind (py_iter (py_or (get core ''affected_services'') (JList [])))
      as_str_list = Inr svs"
    using as_str_list_ok by fastforce
  obtain d where d: "as_str (py_or (get core ''detected_at'') (JStr now)) = Inr d"
    using assms(1) opt_str_or as_str_ok unfolding wf_incident_core_def by blast
  obtain ts gs where "as_str_list (is_tags s) = Inr ts" "as_str_list (is_gtd_ids s) = Inr gs"
    using assms(2) as_str_list_ok by (fastforce simp: inc_ok_def)
  then show ?thesis
    using assms sev svs d
    by (auto simp: inc_build_def wf_incident_core_def inc_ok_def get_item_ok
        dest!: as_str_ok as_opt_str_ok)
qed

section \<open>Reading the folded record\<close>

lemma inc_build_fields:
  assumes "inc_build now core s = Inr i"
  shows "i_status i = is_status s" "i_timeline i = is_timeline s"
    "is_severity s = JStr (severity_value (i_severity i))"
    "is_resolved_at s = of_opt_str (i_resolved_at i)" "is_closed_at s = of_opt_str (i_closed_at i)"
    "is_tags s = map JStr (i_tags i)" "is_gtd_ids s = map JStr (i_gtd_item_ids i)"
proof -
  show "i_status i = is_status s" "i_timeline i = is_timeline s"
    "is_severity s = JStr (severity_value (i_severity i))"
    "is_resolved_at s = of_opt_str (i_resolved_at i)" "is_closed_at s = of_opt_str (i_closed_at i)"
    "is_tags s = map JStr (i_tags i)" "is_gtd_ids s = map JStr (i_gtd_item_ids i)"
    using assms
    by (auto simp: inc_build_def as_opt_str_iff dest: as_str_list_Inr enum_of_Inr_value elim!: r_bind_InrE)
qed

lemma inc_init_inv: "inc_init core = Inr s \<Longrightarrow> inc_inv s"
  by (auto simp: inc_init_def inc_inv_def inc_tl_status_def elim!: r_bind_InrE)

lemma fold_incident_states:
  assumes "fold_incident now core es = Inr i"
  obtains s0 s where "inc_init core = Inr s0" "r_fold inc_step s0 es = Inr s" "inc_inv s0" "inc_inv s"
    "inc_build now core s = Inr i"
proof -
  from assms obtain s0 s where s: "inc_init core = Inr s0" "r_fold inc_step s0 es = Inr s"
    "inc_build now core s = Inr i"
    by (auto simp: fold_incident_def elim!: r_bind_InrE)
  then have "inc_inv s0" by (simp add: inc_init_inv)
  with s show thesis using incident_log.fold_inv [of s0 es s] that by (simp add: list_all_iff)
qed

lemma fold_incident_extend:
  assumes "fold_incident now core xs = Inr i" and "fold_incident now' core (xs @ ys) = Inr j"
  obtains s t where "inc_inv s" "inc_inv t" "inc_grows s t" "r_fold inc_step s ys = Inr t"
    "inc_build now core s = Inr i" "inc_build now' core t = Inr j"
proof -
  from assms(1) obtain s0 s where s: "inc_init core = Inr s0" "r_fold inc_step s0 xs = Inr s"
    "inc_inv s" "inc_build now core s = Inr i"
    by (rule fold_incident_states)
  from assms(2) obtain s0' t where t: "inc_init core = Inr s0'" "r_fold inc_step s0' (xs @ ys) = Inr t"
    "inc_inv t" "inc_build now' core t = Inr j"
    by (rule fold_incident_states)
  with s have step: "r_fold inc_step s ys = Inr t" by (simp add: r_fold_append)
  with s(3) have "inc_grows s t" by (auto intro: incident_log.fold_grows simp: list_all_iff)
  with s t step show thesis using that by blast
qed

lemma inc_edge_closed: "inc_edge\<^sup>*\<^sup>* Closed b \<Longrightarrow> b = Closed"
  by (induction rule: rtranclp_induct) (auto simp: inc_edge_def)

section \<open>Properties\<close>

text \<open>A core and log lines as the manager writes them, for the witnesses.\<close>

definition sample_core :: jobj where
  "sample_core = [(''id'', JStr ''inc-1''), (''title'', JStr ''db down''),
     (''severity_at_creation'', JStr ''sev3''), (''source'', JStr ''manual''),
     (''managed_by'', JStr ''ops''), (''created_by'', JStr ''ops''),
     (''detected_at'', JStr ''2026-09-01T00:00:00+00:00''), (''tags'', JList [JStr ''db''])]"

definition sample_log :: "jobj list" where
  "sample_log = [sample_event ''1'' ''created'' [(''note'', JStr ''seen'')],
     sample_event ''2'' ''status'' [(''to'', JStr ''acknowledged'')],
     sample_event ''3'' ''status'' [(''to'', JStr ''resolved'')]]"

definition sample_tail :: "jobj list" where
  "sample_tail = [sample_event ''4'' ''reopen'' [],
     sample_event ''5'' ''severity'' [(''to'', JStr ''sev1'')],
     sample_event ''6'' ''status'' [(''to'', JStr ''resolved'')],
     sample_event ''7'' ''status'' [(''to'', JStr ''closed'')],
     sample_event ''8'' ''status'' [(''to'', JStr ''closed'')]]"

text \<open>
  C29. Appending events to an incident's log only moves the folded incident forward: its status
  follows the lifecycle table and the reopen edge, its severity never drops, its timeline is
  extended and never rewritten, tags are never lost, and a closed incident stays closed whatever
  is appended.
\<close>

theorem incident_log_monotone:
  assumes "fold_incident now core xs = Inr i" and "fold_incident now' core (xs @ ys) = Inr j"
  shows "inc_edge\<^sup>*\<^sup>* (i_status i) (i_status j)
    \<and> sev_rank (JStr (severity_value (i_severity i))) \<le> sev_rank (JStr (severity_value (i_severity j)))
    \<and> take (length (i_timeline i)) (i_timeline j) = i_timeline i
    \<and> set (i_tags i) \<subseteq> set (i_tags j) \<and> set (i_gtd_item_ids i) \<subseteq> set (i_gtd_item_ids j)
    \<and> (i_status i = Closed \<longrightarrow> i_status j = Closed)"
proof -
  obtain s t where st: "inc_grows s t" "inc_build now core s = Inr i" "inc_build now' core t = Inr j"
    using assms by (rule fold_incident_extend)
  note f = inc_build_fields [OF st(2)] inc_build_fields [OF st(3)]
  have subs: "JStr ` A \<subseteq> JStr ` B \<Longrightarrow> A \<subseteq> B" for A B by auto
  from st(1) f show ?thesis
    unfolding inc_grows_def by (auto simp: subs dest: inc_edge_closed)
qed

theorem incident_log_monotone_witness:
  "\<exists>i j. fold_incident ''now'' sample_core sample_log = Inr i
     \<and> fold_incident ''now'' sample_core (sample_log @ sample_tail) = Inr j
     \<and> i_status i = Resolved \<and> i_status j = Closed \<and> inc_edge\<^sup>*\<^sup>* (i_status i) (i_status j)"
proof -
  have "map_sum id i_status (fold_incident ''now'' sample_core sample_log) = Inr Resolved"
    "map_sum id i_status (fold_incident ''now'' sample_core (sample_log @ sample_tail)) = Inr Closed"
    by code_simp+
  then obtain i j where ij: "fold_incident ''now'' sample_core sample_log = Inr i"
    "fold_incident ''now'' sample_core (sample_log @ sample_tail) = Inr j"
    "i_status i = Resolved" "i_status j = Closed"
    by (blast dest: map_sum_InrD)
  with incident_log_monotone [OF ij(1,2)] show ?thesis by blast
qed

text \<open>
  The timeline of a folded incident is a complete audit of its status: replaying the accepted
  status moves of the timeline from "detected" gives the folded status. An incident that is live
  carries no resolution or closing time, duplicate creations leave one "created" entry, and a GTD
  item is linked once.
\<close>

theorem incident_timeline_audit:
  assumes "fold_incident now core es = Inr i"
  shows "inc_tl_status (i_timeline i) = i_status i
    \<and> (i_status i \<in> set open_incident_statuses \<longrightarrow> i_resolved_at i = None \<and> i_closed_at i = None)
    \<and> length (filter is_created (i_timeline i)) \<le> 1 \<and> distinct (i_gtd_item_ids i)"
proof -
  obtain s where s: "inc_inv s" "inc_build now core s = Inr i"
    using assms by (rule fold_incident_states)
  have none: "of_opt_str x = JNull \<longleftrightarrow> x = None" for x by (cases x) auto
  have dist: "distinct (map JStr xs) = distinct xs" for xs by (simp add: distinct_map inj_on_def)
  from s show ?thesis
    by (auto simp: inc_inv_def inc_build_fields [OF s(2)] none dist open_incident_statuses_def
        dest!: sym [of "JStr _"])
qed

theorem incident_timeline_audit_witness:
  "\<exists>i. fold_incident ''now'' sample_core (sample_log @ sample_tail) = Inr i
     \<and> inc_tl_status (i_timeline i) = Closed \<and> length (i_timeline i) = 8"
proof -
  have "map_sum id (\<lambda>i. (i_status i, length (i_timeline i)))
      (fold_incident ''now'' sample_core (sample_log @ sample_tail)) = Inr (Closed, 8)"
    by code_simp
  then obtain i where i: "fold_incident ''now'' sample_core (sample_log @ sample_tail) = Inr i"
    "i_status i = Closed" "length (i_timeline i) = 8"
    by (auto dest: map_sum_InrD)
  with incident_timeline_audit [OF i(1)] show ?thesis by auto
qed

text \<open>
  C40. The fold is total on what the manager writes: over a well-formed core, every log of
  well-formed events folds to an incident, however the events of concurrent writers interleave
  and whichever transitions they ask for.
\<close>

theorem incident_fold_total:
  assumes "wf_incident_core core" and "list_all wf_event es"
  shows "\<exists>i. fold_incident now core es = Inr i"
proof -
  obtain s0 where s0: "inc_init core = Inr s0" "inc_ok s0"
    using inc_init_ok [OF assms(1)] by blast
  then obtain s where "r_fold inc_step s0 es = Inr s" "inc_ok s"
    using incident_total.fold_total assms(2) by blast
  with s0 assms(1) show ?thesis by (simp add: fold_incident_def inc_build_ok)
qed

theorem incident_fold_total_witness:
  "wf_incident_core sample_core \<and> list_all wf_event (sample_log @ sample_tail)
   \<and> (\<exists>i. fold_incident ''now'' sample_core (sample_log @ sample_tail) = Inr i)"
proof -
  have "py_or (get sample_core ''severity_at_creation'') (JStr ''sev3'') = JStr (severity_value SEV3)"
    by code_simp
  then have core: "wf_incident_core sample_core"
    unfolding wf_incident_core_def
    by (auto simp: sample_core_def has_key_def str_list_def intro!: exI [of _ SEV3])
  have log: "list_all wf_event (sample_log @ sample_tail)"
    by code_simp
  from core log incident_fold_total [OF core log] show ?thesis by blast
qed

text \<open>
  A status event that asks for a move the lifecycle does not allow is recorded as one
  conflicted timeline entry and changes nothing else of the folded incident.
\<close>

theorem incident_illegal_move_inert:
  assumes "fold_incident now core es = Inr i" and "get e ''kind'' = JStr ''status''"
    and "get e ''to'' = JStr v"
    and "v \<notin> incident_status_value ` set (incident_transitions (i_status i))"
  shows "\<exists>c. te_conflicted c
    \<and> fold_incident now core (es @ [e]) = Inr (i\<lparr>i_timeline := i_timeline i @ [c]\<rparr>)"
proof -
  obtain s0 s where s: "inc_init core = Inr s0" "r_fold inc_step s0 es = Inr s"
    "inc_build now core s = Inr i"
    using assms(1) by (rule fold_incident_states)
  have st: "is_status s = i_status i" by (simp add: inc_build_fields [OF s(3)])
  have "find (\<lambda>m. JStr (incident_status_value m) = JStr v) (incident_transitions (i_status i)) = None"
    using assms(4) by (auto simp: find_None_iff)
  then have "inc_step s e = Inr (inc_log s (conflict_entry (ev_ts e) (ev_agent e)
      (status_arrow (incident_status_value (i_status i)) v) (ev_note e) None))" (is "_ = Inr (inc_log s ?c)")
    using assms(2,3) st
    by (simp add: inc_step_def inc_on_status_def table_target_def)
  moreover have "inc_build now core (inc_log s ?c) = Inr (i\<lparr>i_timeline := i_timeline i @ [?c]\<rparr>)"
    using s(3) by (auto simp: inc_build_def inc_log_def elim!: r_bind_InrE)
  ultimately have "fold_incident now core (es @ [e]) = Inr (i\<lparr>i_timeline := i_timeline i @ [?c]\<rparr>)"
    using s by (simp add: fold_incident_def r_fold_snoc)
  then show ?thesis by (intro exI [of _ ?c]) simp
qed

theorem incident_illegal_move_inert_witness:
  "\<exists>i c. fold_incident ''now'' sample_core sample_log = Inr i \<and> te_conflicted c
     \<and> fold_incident ''now'' sample_core
         (sample_log @ [sample_event ''9'' ''status'' [(''to'', JStr ''acknowledged'')]])
       = Inr (i\<lparr>i_timeline := i_timeline i @ [c]\<rparr>)"
proof -
  have "map_sum id i_status (fold_incident ''now'' sample_core sample_log) = Inr Resolved"
    by code_simp
  then obtain i where i: "fold_incident ''now'' sample_core sample_log = Inr i" "i_status i = Resolved"
    by (blast dest: map_sum_InrD)
  have "get (sample_event ''9'' ''status'' [(''to'', JStr ''acknowledged'')]) ''kind'' = JStr ''status''"
    "get (sample_event ''9'' ''status'' [(''to'', JStr ''acknowledged'')]) ''to'' = JStr ''acknowledged''"
    by (simp_all add: sample_event_def)
  with incident_illegal_move_inert [OF i(1), of "sample_event ''9'' ''status'' [(''to'', JStr ''acknowledged'')]"
      "''acknowledged''"] i show ?thesis by auto
qed

end
