(* ===== verification/Itil_Problem.thy ===== *)
theory Itil_Problem
  imports Itil_Types
begin

text \<open>
  The problem fold (\<open>ITILManager._fold_problem\<close>): handlers, step, construction, and the lifecycle
  and audit facts of the folded record.
\<close>

section \<open>The fold\<close>

record prb_state =
  ps_status :: problem_status
  ps_timeline :: "timeline_entry list"
  ps_root_cause :: json
  ps_workaround :: json
  ps_kedb_id :: json
  ps_related_change_id :: json
  ps_tags :: "json list"
  ps_gtd_ids :: "json list"
  ps_title :: json
  ps_seen_created :: bool

definition prb_log :: "prb_state \<Rightarrow> timeline_entry \<Rightarrow> prb_state" where
  "prb_log s t = s\<lparr>ps_timeline := ps_timeline s @ [t]\<rparr>"

definition prb_init :: "jobj \<Rightarrow> prb_state result" where
  "prb_init core =
     r_bind (py_iter (py_or (get core ''tags'') (JList []))) (\<lambda>tags. Inr
      \<lparr>ps_status = Identified, ps_timeline = [],
       ps_root_cause = get core ''root_cause'', ps_workaround = get core ''workaround'',
       ps_kedb_id = get core ''kedb_id'', ps_related_change_id = get core ''related_change_id'',
       ps_tags = tags, ps_gtd_ids = [], ps_title = get_d core ''title'' (JStr []),
       ps_seen_created = False\<rparr>)"

definition prb_on_created :: "prb_state \<Rightarrow> jobj \<Rightarrow> prb_state" where
  "prb_on_created s e =
     (if ps_seen_created s then s
      else prb_log (s\<lparr>ps_seen_created := True\<rparr>)
             (entry (ev_ts e) (ev_agent e) ''created'' (ev_note e)))"

definition prb_on_status :: "prb_state \<Rightarrow> jobj \<Rightarrow> prb_state result" where
  "prb_on_status s e =
     (let to = get e ''to'';
          arrow = status_arrow (problem_status_value (ps_status s)) (py_str to)
      in r_bind (table_target problem_status_value (problem_transitions (ps_status s)) to)
           (\<lambda>target. Inr (case target of
              Some t \<Rightarrow> (prb_log s (entry (ev_ts e) (ev_agent e) arrow (ev_note e)))\<lparr>ps_status := t\<rparr>
            | None \<Rightarrow> prb_log s (conflict_entry (ev_ts e) (ev_agent e) arrow (ev_note e) None))))"

text \<open>The four kinds that overwrite one field with a non-empty payload value.\<close>

definition prb_on_field :: "prb_state \<Rightarrow> jobj \<Rightarrow> prb_state" where
  "prb_on_field s e =
     (let kind = get e ''kind''; text = get e ''text''; ident = get e ''id'' in
      if kind = JStr ''root_cause'' then (if truthy text then s\<lparr>ps_root_cause := text\<rparr> else s)
      else if kind = JStr ''workaround'' then (if truthy text then s\<lparr>ps_workaround := text\<rparr> else s)
      else if kind = JStr ''link_kedb'' then (if truthy ident then s\<lparr>ps_kedb_id := ident\<rparr> else s)
      else if kind = JStr ''link_change''
           then (if truthy ident then s\<lparr>ps_related_change_id := ident\<rparr> else s)
      else s)"

definition prb_on_title :: "prb_state \<Rightarrow> jobj \<Rightarrow> prb_state" where
  "prb_on_title s e =
     prb_log (if truthy (get e ''text'') then s\<lparr>ps_title := get e ''text''\<rparr> else s)
       (entry (ev_ts e) (ev_agent e) ''title'' (get_d e ''text'' (JStr [])))"

definition prb_on_tags :: "prb_state \<Rightarrow> jobj \<Rightarrow> prb_state result" where
  "prb_on_tags s e =
     r_bind (py_iter (py_or (get e ''add'') (JList [])))
       (\<lambda>ts. Inr (s\<lparr>ps_tags := add_all_new (ps_tags s) ts\<rparr>))"

definition prb_on_gtd_link :: "prb_state \<Rightarrow> jobj \<Rightarrow> prb_state" where
  "prb_on_gtd_link s e =
     (let gid = get e ''id'' in
      if truthy gid then s\<lparr>ps_gtd_ids := add_new (ps_gtd_ids s) gid\<rparr> else s)"

definition prb_step :: "prb_state \<Rightarrow> jobj \<Rightarrow> prb_state result" where
  "prb_step s e =
     (let kind = get e ''kind'' in
      if kind = JStr ''created'' then Inr (prb_on_created s e)
      else if kind = JStr ''status'' then prb_on_status s e
      else if kind \<in> {JStr ''root_cause'', JStr ''workaround'', JStr ''link_kedb'', JStr ''link_change''}
           then Inr (prb_on_field s e)
      else if kind = JStr ''title'' then Inr (prb_on_title s e)
      else if kind = JStr ''tags'' then prb_on_tags s e
      else if kind = JStr ''gtd_link'' then Inr (prb_on_gtd_link s e)
      else if kind = JStr ''note''
           then Inr (prb_log s (entry (ev_ts e) (ev_agent e) ''note'' (ev_note e)))
      else Inr s)"

definition prb_build :: "string \<Rightarrow> jobj \<Rightarrow> prb_state \<Rightarrow> problem result" where
  "prb_build now core s =
     r_bind (r_bind (get_item core ''id'') as_str) (\<lambda>rid.
     r_bind (as_str (ps_title s)) (\<lambda>title.
     r_bind (as_opt_str (ps_root_cause s)) (\<lambda>root_cause.
     r_bind (as_opt_str (ps_workaround s)) (\<lambda>workaround.
     r_bind (as_str (get_d core ''managed_by'' (JStr []))) (\<lambda>managed_by.
     r_bind (as_str (get_d core ''created_by'' (JStr []))) (\<lambda>created_by.
     r_bind (as_str (py_or (get core ''created_at'') (JStr now))) (\<lambda>created_at.
     r_bind (r_bind (py_iter (py_or (get core ''related_incident_ids'') (JList []))) as_str_list)
       (\<lambda>incidents.
     r_bind (as_opt_str (ps_related_change_id s)) (\<lambda>change_id.
     r_bind (as_opt_str (ps_kedb_id s)) (\<lambda>kedb_id.
     r_bind (as_str_list (ps_gtd_ids s)) (\<lambda>gtd_ids.
     r_bind (as_str_list (ps_tags s)) (\<lambda>tags.
       Inr \<lparr>p_id = rid, p_title = title, p_status = ps_status s, p_root_cause = root_cause,
            p_workaround = workaround, p_managed_by = managed_by, p_created_by = created_by,
            p_created_at = created_at, p_related_incident_ids = incidents,
            p_related_change_id = change_id, p_kedb_id = kedb_id, p_gtd_item_ids = gtd_ids,
            p_timeline = ps_timeline s, p_tags = tags\<rparr>))))))))))))"

definition fold_problem :: "string \<Rightarrow> jobj \<Rightarrow> jobj list \<Rightarrow> problem result" where
  "fold_problem now core events =
     r_bind (prb_init core) (\<lambda>s0. r_bind (r_fold prb_step s0 events) (\<lambda>s. prb_build now core s))"

section \<open>What one event may do\<close>

definition prb_edge :: "problem_status \<Rightarrow> problem_status \<Rightarrow> bool" where
  "prb_edge a b \<longleftrightarrow> b \<in> set (problem_transitions a)"

definition prb_tl_status :: "timeline_entry list \<Rightarrow> problem_status" where
  "prb_tl_status tml = tl_status problem_status_value problem_statuses Identified tml"

definition prb_inv :: "prb_state \<Rightarrow> bool" where
  "prb_inv s \<longleftrightarrow> prb_tl_status (ps_timeline s) = ps_status s \<and> distinct (ps_gtd_ids s)"

definition prb_grows :: "prb_state \<Rightarrow> prb_state \<Rightarrow> bool" where
  "prb_grows s t \<longleftrightarrow> prb_edge\<^sup>*\<^sup>* (ps_status s) (ps_status t)
     \<and> (\<exists>r. ps_timeline t = ps_timeline s @ r)
     \<and> (truthy (ps_root_cause s) \<longrightarrow> truthy (ps_root_cause t))
     \<and> (truthy (ps_kedb_id s) \<longrightarrow> truthy (ps_kedb_id t))"

lemma problem_statuses_all [simp]: "st \<in> set problem_statuses"
  by (cases st) (simp_all add: problem_statuses_def)

lemma prb_tl_snoc:
  "prb_tl_status (tml @ [t]) = tl_step problem_status_value problem_statuses (prb_tl_status tml) t"
  by (simp add: prb_tl_status_def)

lemma prb_tl_arrow:
  "tl_step problem_status_value problem_statuses st
     (entry ts a (status_arrow (problem_status_value st) (problem_status_value t)) n) = t"
  by (simp add: tl_step_arrow inj_on_def)

lemmas prb_simps = prb_inv_def prb_grows_def prb_log_def prb_tl_snoc prb_tl_arrow tl_step_other

lemma prb_on_status_cases:
  assumes "prb_on_status s e = Inr s'"
  obtains (move) t where "prb_edge (ps_status s) t"
      "s' = (prb_log s (entry (ev_ts e) (ev_agent e)
              (status_arrow (problem_status_value (ps_status s)) (problem_status_value t))
              (ev_note e)))\<lparr>ps_status := t\<rparr>"
  | (conflict) a where "s' = prb_log s (conflict_entry (ev_ts e) (ev_agent e)
              (status_arrow (problem_status_value (ps_status s)) a) (ev_note e) None)"
proof -
  from assms obtain target where
    t: "table_target problem_status_value (problem_transitions (ps_status s)) (get e ''to'')
          = Inr target"
    and s': "s' = (case target of
          Some t \<Rightarrow> (prb_log s (entry (ev_ts e) (ev_agent e)
              (status_arrow (problem_status_value (ps_status s)) (py_str (get e ''to'')))
              (ev_note e)))\<lparr>ps_status := t\<rparr>
        | None \<Rightarrow> prb_log s (conflict_entry (ev_ts e) (ev_agent e)
              (status_arrow (problem_status_value (ps_status s)) (py_str (get e ''to'')))
              (ev_note e) None))"
    unfolding prb_on_status_def Let_def by (auto elim: r_bind_InrE)
  show thesis
  proof (cases target)
    case None
    with s' show thesis by (intro conflict) auto
  next
    case (Some u)
    with t have "prb_edge (ps_status s) u" "get e ''to'' = JStr (problem_status_value u)"
      by (auto simp: prb_edge_def dest: table_target_Some)
    with s' Some show thesis by (intro move) auto
  qed
qed

lemma prb_on_status_keeps:
  assumes "prb_inv s" and "prb_on_status s e = Inr s'"
  shows "prb_inv s' \<and> prb_grows s s'"
  using assms(2)
proof (cases rule: prb_on_status_cases)
  case (move t)
  with assms(1) show ?thesis by (auto simp: prb_simps)
next
  case (conflict a)
  with assms(1) show ?thesis by (auto simp: prb_simps)
qed

lemma prb_on_field_frame:
  "ps_status (prb_on_field s e) = ps_status s" "ps_timeline (prb_on_field s e) = ps_timeline s"
  "ps_gtd_ids (prb_on_field s e) = ps_gtd_ids s"
  "truthy (ps_root_cause s) \<Longrightarrow> truthy (ps_root_cause (prb_on_field s e))"
  "truthy (ps_kedb_id s) \<Longrightarrow> truthy (ps_kedb_id (prb_on_field s e))"
  by (simp_all add: prb_on_field_def Let_def)

lemma prb_step_keeps:
  assumes "prb_inv s" and "prb_step s e = Inr s'"
  shows "prb_inv s' \<and> prb_grows s s'"
proof -
  let ?ok = "\<lambda>u. prb_inv u \<and> prb_grows s u"
  have "?ok (prb_on_created s e)"
    using assms(1) by (simp add: prb_on_created_def prb_simps)
  moreover have "?ok (prb_on_field s e)"
    using assms(1) prb_on_field_frame [of s e] by (simp add: prb_inv_def prb_grows_def)
  moreover have "?ok (prb_on_title s e)"
    using assms(1) by (simp add: prb_on_title_def prb_simps)
  moreover have "?ok (prb_on_gtd_link s e)" "?ok s"
    using assms(1) by (auto simp: prb_on_gtd_link_def prb_simps Let_def)
  moreover have "?ok (prb_log s (entry (ev_ts e) (ev_agent e) ''note'' (ev_note e)))"
    using assms(1) by (simp add: prb_simps)
  moreover have "prb_on_tags s e = Inr s' \<Longrightarrow> ?ok s'"
    using assms(1) by (auto simp: prb_on_tags_def prb_simps elim!: r_bind_InrE)
  ultimately show ?thesis
    using assms(2) prb_on_status_keeps [OF assms(1)] unfolding prb_step_def Let_def
    by (auto split: if_split_asm)
qed

interpretation problem_log: event_fold prb_step "\<lambda>_. True" prb_inv prb_grows
proof unfold_locales
  fix s t u :: prb_state and e :: jobj
  show "prb_inv s \<Longrightarrow> prb_step s e = Inr t \<Longrightarrow> prb_inv t" by (simp add: prb_step_keeps)
  show "prb_grows s s" by (auto simp: prb_grows_def)
  show "prb_grows s t \<Longrightarrow> prb_grows t u \<Longrightarrow> prb_grows s u"
    unfolding prb_grows_def by (auto dest: rtranclp_trans)
  show "prb_inv s \<Longrightarrow> prb_step s e = Inr t \<Longrightarrow> prb_grows s t" by (simp add: prb_step_keeps)
qed

section \<open>Reading the folded record\<close>

lemma prb_build_fields:
  assumes "prb_build now core s = Inr p"
  shows "p_status p = ps_status s" "p_timeline p = ps_timeline s"
    "ps_root_cause s = of_opt_str (p_root_cause p)" "ps_kedb_id s = of_opt_str (p_kedb_id p)"
  using assms by (auto simp: prb_build_def as_opt_str_iff elim!: r_bind_InrE)

lemma prb_init_inv: "prb_init core = Inr s \<Longrightarrow> prb_inv s"
  by (auto simp: prb_init_def prb_inv_def prb_tl_status_def elim!: r_bind_InrE)

lemma fold_problem_states:
  assumes "fold_problem now core es = Inr p"
  obtains s0 s where "prb_init core = Inr s0" "r_fold prb_step s0 es = Inr s" "prb_inv s"
    "prb_build now core s = Inr p"
proof -
  from assms obtain s0 s where s: "prb_init core = Inr s0" "r_fold prb_step s0 es = Inr s"
    "prb_build now core s = Inr p"
    by (auto simp: fold_problem_def elim!: r_bind_InrE)
  then have "prb_inv s0" by (simp add: prb_init_inv)
  with s show thesis using problem_log.fold_inv [of s0 es s] that by (simp add: list_all_iff)
qed

lemma prb_edge_resolved: "prb_edge\<^sup>*\<^sup>* PResolved b \<Longrightarrow> b = PResolved"
  by (induction rule: rtranclp_induct) (auto simp: prb_edge_def)

text \<open>
  A problem only moves along its lifecycle: appending events to its log extends the timeline,
  follows the transition table, keeps "resolved" final, never forgets a recorded root cause or a
  KEDB link, and the status can be recomputed from the accepted moves of the timeline.
\<close>

theorem problem_log_monotone:
  assumes "fold_problem now core xs = Inr p" and "fold_problem now' core (xs @ ys) = Inr q"
  shows "prb_edge\<^sup>*\<^sup>* (p_status p) (p_status q)
    \<and> (p_status p = PResolved \<longrightarrow> p_status q = PResolved)
    \<and> take (length (p_timeline p)) (p_timeline q) = p_timeline p
    \<and> prb_tl_status (p_timeline q) = p_status q
    \<and> (truthy (of_opt_str (p_root_cause p)) \<longrightarrow> truthy (of_opt_str (p_root_cause q)))
    \<and> (truthy (of_opt_str (p_kedb_id p)) \<longrightarrow> truthy (of_opt_str (p_kedb_id q)))"
proof -
  obtain s0 s where s: "prb_init core = Inr s0" "r_fold prb_step s0 xs = Inr s" "prb_inv s"
    "prb_build now core s = Inr p"
    using assms(1) by (rule fold_problem_states)
  obtain s0' t where t: "prb_init core = Inr s0'" "r_fold prb_step s0' (xs @ ys) = Inr t"
    "prb_inv t" "prb_build now' core t = Inr q"
    using assms(2) by (rule fold_problem_states)
  from s t have "r_fold prb_step s ys = Inr t" by (simp add: r_fold_append)
  with s(3) have "prb_grows s t" by (auto intro: problem_log.fold_grows simp: list_all_iff)
  with t(3) show ?thesis
    by (auto simp: prb_grows_def prb_inv_def prb_build_fields [OF s(4)] prb_build_fields [OF t(4)]
        dest: prb_edge_resolved)
qed

definition sample_problem_core :: jobj where
  "sample_problem_core = [(''id'', JStr ''prb-1''), (''title'', JStr ''leak'')]"

definition sample_problem_log :: "jobj list" where
  "sample_problem_log =
     [[(''ts'', JStr ''1''), (''kind'', JStr ''created''), (''writer'', JStr ''a'')],
      [(''ts'', JStr ''2''), (''kind'', JStr ''status''), (''to'', JStr ''analyzing'')],
      [(''ts'', JStr ''3''), (''kind'', JStr ''root_cause''), (''text'', JStr ''cache'')],
      [(''ts'', JStr ''4''), (''kind'', JStr ''status''), (''to'', JStr ''resolved'')]]"

theorem problem_log_monotone_witness:
  "\<exists>p q. fold_problem ''n'' sample_problem_core sample_problem_log = Inr p
     \<and> fold_problem ''n'' sample_problem_core (sample_problem_log
         @ [[(''kind'', JStr ''status''), (''to'', JStr ''analyzing'')]]) = Inr q
     \<and> p_status p = PResolved \<and> p_status q = PResolved"
proof -
  have "map_sum id p_status (fold_problem ''n'' sample_problem_core sample_problem_log) = Inr PResolved"
    "\<not> isl (fold_problem ''n'' sample_problem_core (sample_problem_log
       @ [[(''kind'', JStr ''status''), (''to'', JStr ''analyzing'')]]))"
    by code_simp+
  then obtain p q where pq:
    "fold_problem ''n'' sample_problem_core sample_problem_log = Inr p" "p_status p = PResolved"
    "fold_problem ''n'' sample_problem_core (sample_problem_log
       @ [[(''kind'', JStr ''status''), (''to'', JStr ''analyzing'')]]) = Inr q"
    by (auto dest!: map_sum_InrD simp: isl_def) (metis sum.exhaust)
  with problem_log_monotone [OF pq(1,3)] show ?thesis by blast
qed

end
