(* ===== verification/Isotime.thy ===== *)
theory Isotime
  imports Prelude
begin

text \<open>
  The part of Python's \<open>datetime\<close> that the source uses: \<open>datetime.fromisoformat\<close> on the extended
  ISO 8601 format (date, one separator, hours with optional minutes, seconds and fraction, and an
  optional offset \<open>Z\<close> or \<open>+HH:MM\<close> with optional seconds), and the instants that comparisons and
  differences of aware values use. A value is its local time in microseconds since 0001-01-01 and
  its offset in microseconds, none for a naive value. The basic format without separators and
  week dates are read as unparseable.
\<close>

record datetime =
  dt_local :: int
  dt_offset :: "int option"

definition is_leap :: "int \<Rightarrow> bool" where
  "is_leap y \<longleftrightarrow> y mod 4 = 0 \<and> (y mod 100 \<noteq> 0 \<or> y mod 400 = 0)"

definition days_in_month :: "int \<Rightarrow> int \<Rightarrow> int" where
  "days_in_month y m =
     (if m = 2 then (if is_leap y then 29 else 28)
      else if m \<in> {4, 6, 9, 11} then 30 else 31)"

definition days_before_year :: "int \<Rightarrow> int" where
  "days_before_year y = (let p = y - 1 in p * 365 + p div 4 - p div 100 + p div 400)"

definition days_before_month :: "int \<Rightarrow> int \<Rightarrow> int" where
  "days_before_month y m =
     (let base = [0, 31, 59, 90, 120, 151, 181, 212, 243, 273, 304, 334] ! nat (m - 1)
      in base + (if 2 < m \<and> is_leap y then 1 else 0))"

definition valid_date :: "int \<Rightarrow> int \<Rightarrow> int \<Rightarrow> bool" where
  "valid_date y m d \<longleftrightarrow> 1 \<le> y \<and> y \<le> 9999 \<and> 1 \<le> m \<and> m \<le> 12 \<and> 1 \<le> d \<and> d \<le> days_in_month y m"

definition day_number :: "int \<Rightarrow> int \<Rightarrow> int \<Rightarrow> int" where
  "day_number y m d = days_before_year y + days_before_month y m + (d - 1)"

abbreviation micros_per_second :: int where
  "micros_per_second \<equiv> 1000000"

section \<open>Reading digits\<close>

definition digit_of :: "char \<Rightarrow> nat option" where
  "digit_of c = (let n = (of_char c :: nat) in if 48 \<le> n \<and> n \<le> 57 then Some (n - 48) else None)"

text \<open>Exactly \<open>n\<close> digits from the front.\<close>

fun take_number :: "nat \<Rightarrow> nat \<Rightarrow> string \<Rightarrow> (nat \<times> string) option" where
  "take_number 0 acc s = Some (acc, s)"
| "take_number (Suc n) acc [] = None"
| "take_number (Suc n) acc (c # s) =
     (case digit_of c of None \<Rightarrow> None | Some d \<Rightarrow> take_number n (10 * acc + d) s)"

text \<open>A fraction of a second in microseconds: at least one digit, digits past the sixth ignored.\<close>

fun take_fraction :: "nat \<Rightarrow> nat \<Rightarrow> string \<Rightarrow> nat \<times> string" where
  "take_fraction w acc [] = (acc, [])"
| "take_fraction w acc (c # s) =
     (case digit_of c of None \<Rightarrow> (acc, c # s) | Some d \<Rightarrow> take_fraction (w div 10) (acc + w * d) s)"

definition parse_fraction :: "string \<Rightarrow> (int \<times> string) option" where
  "parse_fraction s =
     (case s of c # _ \<Rightarrow> if digit_of c = None then None
        else (let (f, r) = take_fraction 100000 0 s in Some (int f, r))
      | [] \<Rightarrow> None)"

text \<open>\<open>HH[:MM[:SS[.f]]]\<close> in microseconds, with the rest of the text.\<close>

definition parse_clock :: "string \<Rightarrow> (int \<times> string) option" where
  "parse_clock s =
     (case take_number 2 0 s of None \<Rightarrow> None | Some (h, s1) \<Rightarrow>
      if 23 < h then None else
      case s1 of CHR '':'' # s2 \<Rightarrow>
        (case take_number 2 0 s2 of None \<Rightarrow> None | Some (mi, s3) \<Rightarrow>
         if 59 < mi then None else
         case s3 of CHR '':'' # s4 \<Rightarrow>
           (case take_number 2 0 s4 of None \<Rightarrow> None | Some (sec, s5) \<Rightarrow>
            if 59 < sec then None else
            let secs = int (h * 3600 + mi * 60 + sec) * micros_per_second in
            case s5 of CHR ''.'' # s6 \<Rightarrow>
              (case parse_fraction s6 of None \<Rightarrow> None | Some (f, r) \<Rightarrow> Some (secs + f, r))
            | _ \<Rightarrow> Some (secs, s5))
         | _ \<Rightarrow> Some (int (h * 3600 + mi * 60) * micros_per_second, s3))
      | _ \<Rightarrow> Some (int (h * 3600) * micros_per_second, s1))"

text \<open>The whole rest must be an offset or empty.\<close>

definition parse_offset :: "string \<Rightarrow> int option option" where
  "parse_offset s =
     (case s of [] \<Rightarrow> Some None
      | CHR ''Z'' # r \<Rightarrow> if r = [] then Some (Some 0) else None
      | CHR ''+'' # r \<Rightarrow> (case parse_clock r of Some (t, []) \<Rightarrow> Some (Some t) | _ \<Rightarrow> None)
      | CHR ''-'' # r \<Rightarrow> (case parse_clock r of Some (t, []) \<Rightarrow> Some (Some (- t)) | _ \<Rightarrow> None)
      | _ \<Rightarrow> None)"

definition parse_date :: "string \<Rightarrow> (int \<times> string) option" where
  "parse_date s =
     (case take_number 4 0 s of Some (y, CHR ''-'' # s1) \<Rightarrow>
        (case take_number 2 0 s1 of Some (m, CHR ''-'' # s2) \<Rightarrow>
           (case take_number 2 0 s2 of Some (d, r) \<Rightarrow>
              if valid_date (int y) (int m) (int d)
              then Some (day_number (int y) (int m) (int d) * 86400 * micros_per_second, r)
              else None
            | None \<Rightarrow> None)
         | _ \<Rightarrow> None)
      | _ \<Rightarrow> None)"

text \<open>\<open>datetime.fromisoformat\<close>; \<open>None\<close> is its \<open>ValueError\<close>.\<close>

definition fromisoformat :: "string \<Rightarrow> datetime option" where
  "fromisoformat s =
     (case parse_date s of None \<Rightarrow> None
      | Some (day, []) \<Rightarrow> Some \<lparr>dt_local = day, dt_offset = None\<rparr>
      | Some (day, sep # r) \<Rightarrow>
          (case parse_clock r of None \<Rightarrow> None
           | Some (t, r') \<Rightarrow>
               (case parse_offset r' of None \<Rightarrow> None
                | Some off \<Rightarrow> Some \<lparr>dt_local = day + t, dt_offset = off\<rparr>)))"

text \<open>The instant of an aware value in UTC microseconds; naive values have none.\<close>

definition instant :: "datetime \<Rightarrow> int option" where
  "instant d = map_option (\<lambda>off. dt_local d - off) (dt_offset d)"

text \<open>\<open>text.replace("Z", "+00:00")\<close>.\<close>

definition replace_Z :: "string \<Rightarrow> string" where
  "replace_Z s = concat (map (\<lambda>c. if c = CHR ''Z'' then ''+00:00'' else [c]) s)"

lemma instant_None_iff: "instant d = None \<longleftrightarrow> dt_offset d = None"
  by (simp add: instant_def)

end
