(* ===== verification/Itil_Change.thy ===== *)
theory Itil_Change
  imports Itil_Types Isotime
begin

text \<open>
  Changes and the change advisory board: which votes count (\<open>_is_human_approval\<close> and the legacy
  rule), the derivation of approval from votes (\<open>_cab_resolved_status\<close>), and the change fold
  (\<open>ITILManager._fold_change\<close>) with its handlers, its derivations after the loop and the folded
  record.
\<close>

section \<open>Votes\<close>

definition legacy_cab_provenance_cutoff :: int where
  "legacy_cab_provenance_cutoff =
     (case fromisoformat ''2026-08-21T00:00:00+00:00'' of
        Some d \<Rightarrow> (case instant d of Some t \<Rightarrow> t | None \<Rightarrow> 0)
      | None \<Rightarrow> 0)"

definition is_legacy_unprovenanced_approval :: "cab_decision \<Rightarrow> bool" where
  "is_legacy_unprovenanced_approval v =
     (if v_subject_role v \<noteq> [] \<or> v_subject_fingerprint v \<noteq> [] \<or> v_authorization_id v \<noteq> []
      then False
      else case fromisoformat (v_decided_at v) of
             None \<Rightarrow> False
           | Some d \<Rightarrow> (case instant d of
                 None \<Rightarrow> False
               | Some t \<Rightarrow> t < legacy_cab_provenance_cutoff))"

definition is_human_approval :: "cab_decision \<Rightarrow> bool" where
  "is_human_approval v =
     (if v_agent v = ''human'' \<or> v_subject_role v \<in> {''owner'', ''approver''} then True
      else is_legacy_unprovenanced_approval v)"

definition rejections :: "cab_decision list \<Rightarrow> cab_decision list" where
  "rejections votes = filter (\<lambda>v. v_decision v = CabRejected) votes"

text \<open>Approvals that count: the drafter's own is dropped.\<close>

definition approvals :: "cab_decision list \<Rightarrow> json \<Rightarrow> cab_decision list" where
  "approvals votes prepared_by =
     filter (\<lambda>v. v_decision v = CabApproved \<and> JStr (v_agent v) \<noteq> prepared_by) votes"

text \<open>The auto-normal condition; the rollback plan is stripped only after the other tests.\<close>

definition auto_normal :: "json \<Rightarrow> json list \<Rightarrow> jobj \<Rightarrow> cab_decision list \<Rightarrow> bool result" where
  "auto_normal change_type tags core votes =
     (if change_type = JStr ''normal'' \<and> JStr ''auto-normal'' \<in> set tags
         \<and> get core ''created_by'' = JStr ''operator''
         \<and> get_d core ''risk'' (JStr ''medium'') \<noteq> JStr ''high''
      then r_bind (py_strip (py_or (get core ''rollback_plan'') (JStr [])))
             (\<lambda>plan. Inr (plan \<noteq> [] \<and> rejections votes = []))
      else Inr False)"

definition cab_resolved_status ::
    "change_status \<Rightarrow> json \<Rightarrow> json list \<Rightarrow> jobj \<Rightarrow> cab_decision list \<Rightarrow> json \<Rightarrow> change_status result" where
  "cab_resolved_status status change_type tags core votes prepared_by =
     (if status \<notin> {Proposed, Reviewing} then Inr status
      else if change_type = JStr ''standard'' then Inr Approved
      else r_bind (auto_normal change_type tags core votes) (\<lambda>auto. Inr
        (if auto then Approved
         else if rejections votes \<noteq> [] then Rejected
         else if list_ex is_human_approval (approvals votes prepared_by) then Approved
         else status)))"

section \<open>The fold\<close>

record chg_state =
  cs_status :: change_status
  cs_timeline :: "timeline_entry list"
  cs_tags :: "json list"
  cs_gtd_ids :: "json list"
  cs_title :: json
  cs_related_problem_id :: json
  cs_seen_created :: bool
  cs_prepared_pr :: "jobj option"
  cs_prepared_by :: json
  cs_validation :: "jobj option"
  cs_scheduled_window :: "jobj option"

definition chg_change_type :: "jobj \<Rightarrow> json" where
  "chg_change_type core = get_d core ''change_type'' (JStr ''normal'')"

definition chg_log :: "chg_state \<Rightarrow> timeline_entry \<Rightarrow> chg_state" where
  "chg_log s t = s\<lparr>cs_timeline := cs_timeline s @ [t]\<rparr>"

definition chg_init :: "jobj \<Rightarrow> chg_state result" where
  "chg_init core =
     r_bind (py_iter (py_or (get core ''tags'') (JList []))) (\<lambda>tags. Inr
      \<lparr>cs_status = Proposed, cs_timeline = [], cs_tags = tags, cs_gtd_ids = [],
       cs_title = get_d core ''title'' (JStr []),
       cs_related_problem_id = get core ''related_problem_id'', cs_seen_created = False,
       cs_prepared_pr = None, cs_prepared_by = JNull, cs_validation = None,
       cs_scheduled_window = None\<rparr>)"

definition cab_conflict_reason :: string where
  "cab_conflict_reason = ''CAB approval required: approval comes from a qualifying vote '' @
     ''(submit_cab_vote) or a standard/auto-normal derivation, never from a raw status event''"

text \<open>The status a transition is validated against in the middle of the loop.\<close>

definition chg_gate :: "jobj \<Rightarrow> cab_decision list \<Rightarrow> chg_state \<Rightarrow> change_status result" where
  "chg_gate core votes s =
     cab_resolved_status (cs_status s) (chg_change_type core) (cs_tags s) core votes (cs_prepared_by s)"

definition chg_on_created :: "chg_state \<Rightarrow> jobj \<Rightarrow> chg_state" where
  "chg_on_created s e =
     (if cs_seen_created s then s
      else chg_log (s\<lparr>cs_seen_created := True\<rparr>)
             (entry (ev_ts e) (ev_agent e) ''proposed'' (ev_note e)))"

definition chg_on_status :: "jobj \<Rightarrow> cab_decision list \<Rightarrow> chg_state \<Rightarrow> jobj \<Rightarrow> chg_state result" where
  "chg_on_status core votes s e =
     (let to = get e ''to'' in
      r_bind (chg_gate core votes s) (\<lambda>gate.
      let pir_gated = (gate = Deployed \<and> to = JStr ''verified'');
          rollback_gated = (gate = Failed \<and> to = JStr ''closed'');
          cab_gated = (to = JStr ''approved'' \<and> gate \<in> {Proposed, Reviewing}
                       \<and> get e ''node'' \<noteq> JStr ''migrated'');
          conflict = (\<lambda>reason. chg_log s (conflict_entry (ev_ts e) (ev_agent e)
                       (status_arrow (change_status_value gate) (py_str to)) (ev_note e) reason))
      in r_bind (table_target change_status_value (change_transitions gate) to) (\<lambda>target.
         r_bind (if pir_gated \<or> rollback_gated
                 then r_bind (py_strip (ev_note e)) (\<lambda>n. Inr (n = []))
                 else Inr False) (\<lambda>note_missing. Inr
           (case target of
              Some t \<Rightarrow>
                (if \<not> note_missing \<and> \<not> cab_gated
                 then (chg_log s (entry (ev_ts e) (ev_agent e)
                         (status_arrow (change_status_value gate) (py_str to)) (ev_note e)))
                       \<lparr>cs_status := t\<rparr>
                 else if cab_gated then conflict (Some cab_conflict_reason)
                 else conflict (Some (if pir_gated then ''PIR note required''
                                      else ''rollback note required'')))
            | None \<Rightarrow>
                (if cab_gated then conflict (Some cab_conflict_reason) else conflict None))))))"

definition chg_on_link_problem :: "chg_state \<Rightarrow> jobj \<Rightarrow> chg_state" where
  "chg_on_link_problem s e =
     (if truthy (get e ''id'') then s\<lparr>cs_related_problem_id := get e ''id''\<rparr> else s)"

definition chg_on_title :: "chg_state \<Rightarrow> jobj \<Rightarrow> chg_state" where
  "chg_on_title s e =
     chg_log (if truthy (get e ''text'') then s\<lparr>cs_title := get e ''text''\<rparr> else s)
       (entry (ev_ts e) (ev_agent e) ''title'' (get_d e ''text'' (JStr [])))"

definition chg_on_tags :: "chg_state \<Rightarrow> jobj \<Rightarrow> chg_state result" where
  "chg_on_tags s e =
     r_bind (py_iter (py_or (get e ''add'') (JList [])))
       (\<lambda>ts. Inr (s\<lparr>cs_tags := add_all_new (cs_tags s) ts\<rparr>))"

definition chg_on_gtd_link :: "chg_state \<Rightarrow> jobj \<Rightarrow> chg_state" where
  "chg_on_gtd_link s e =
     (let gid = get e ''id'' in
      if truthy gid then s\<lparr>cs_gtd_ids := add_new (cs_gtd_ids s) gid\<rparr> else s)"

definition chg_on_note :: "chg_state \<Rightarrow> jobj \<Rightarrow> chg_state" where
  "chg_on_note s e =
     chg_log s (entry (ev_ts e) (ev_agent e)
       (if get e ''kind'' = JStr ''auto-approved'' then ''auto-approved'' else ''note'') (ev_note e))"

definition chg_on_pr_link :: "chg_state \<Rightarrow> jobj \<Rightarrow> chg_state" where
  "chg_on_pr_link s e =
     chg_log (s\<lparr>cs_prepared_pr := Some [(''url'', get e ''url''), (''branch'', get e ''branch''),
                   (''run_id'', get e ''run_id''), (''head_sha'', get e ''head_sha'')],
               cs_prepared_by := ev_agent e\<rparr>)
       (entry (ev_ts e) (ev_agent e) ''pr_link'' (get_d e ''url'' (JStr [])))"

definition chg_on_validation :: "chg_state \<Rightarrow> jobj \<Rightarrow> chg_state" where
  "chg_on_validation s e =
     (let passed = truthy (get e ''passed'');
          s1 = chg_log (s\<lparr>cs_validation := Some [(''passed'', JBool passed),
                   (''head_sha'', get e ''head_sha''), (''url'', get e ''url''),
                   (''summary'', get e ''summary''), (''checks'', get e ''checks'')]\<rparr>)
                 (entry (ev_ts e) (ev_agent e) ''validation''
                   (JStr (if passed then ''passed'' else ''failed'')))
      in if passed \<and> cs_status s1 = Proposed
         then (chg_log s1 (entry (ev_ts e) (ev_agent e) ''status:proposed->reviewing''
                 (JStr ''validation passed'')))\<lparr>cs_status := Reviewing\<rparr>
         else s1)"

definition chg_window :: "jobj \<Rightarrow> jobj" where
  "chg_window e =
     [(''window_start'', get e ''window_start''), (''window_end'', get e ''window_end''),
      (''asap'', JBool (truthy (get_d e ''asap'' (JBool False)))),
      (''deploy_mode'', py_or (get e ''deploy_mode'') (JStr ''confirm''))]"

definition chg_on_schedule :: "jobj \<Rightarrow> cab_decision list \<Rightarrow> chg_state \<Rightarrow> jobj \<Rightarrow> chg_state result" where
  "chg_on_schedule core votes s e =
     r_bind (chg_gate core votes s) (\<lambda>gate. Inr
       (if gate = Approved \<and> Scheduled \<in> set (change_transitions gate)
        then (chg_log (s\<lparr>cs_scheduled_window := Some (chg_window e)\<rparr>)
               (entry (ev_ts e) (ev_agent e)
                 (status_arrow (change_status_value gate) ''scheduled'')
                 (py_or (ev_note e)
                   (JStr (if truthy (get_d e ''asap'' (JBool False)) then ''ASAP'' else [])))))
              \<lparr>cs_status := Scheduled\<rparr>
        else chg_log s (conflict_entry (ev_ts e) (ev_agent e)
               (''schedule:'' @ change_status_value gate) (ev_note e) None)))"

text \<open>
  The two events that take a change off its schedule differ only in their wording: an operator's
  \<open>unschedule\<close> and the runner's \<open>window_missed\<close>.
\<close>

definition chg_unwind :: "string \<Rightarrow> string \<Rightarrow> chg_state \<Rightarrow> jobj \<Rightarrow> chg_state" where
  "chg_unwind word dflt s e =
     (if cs_status s = Scheduled \<and> Approved \<in> set (change_transitions (cs_status s))
      then (chg_log s (entry (ev_ts e) (ev_agent e)
             (status_arrow (change_status_value (cs_status s)) ''approved'')
             (py_or (ev_note e) (JStr dflt))))
            \<lparr>cs_status := Approved, cs_scheduled_window := None\<rparr>
      else chg_log s (conflict_entry (ev_ts e) (ev_agent e)
             (word @ '':'' @ change_status_value (cs_status s)) (ev_note e) None))"

definition chg_on_unschedule :: "chg_state \<Rightarrow> jobj \<Rightarrow> chg_state" where
  "chg_on_unschedule s e = chg_unwind ''unschedule'' ''unscheduled'' s e"

definition chg_on_window_missed :: "chg_state \<Rightarrow> jobj \<Rightarrow> chg_state" where
  "chg_on_window_missed s e = chg_unwind ''window_missed'' ''window missed'' s e"

definition chg_step :: "jobj \<Rightarrow> cab_decision list \<Rightarrow> chg_state \<Rightarrow> jobj \<Rightarrow> chg_state result" where
  "chg_step core votes s e =
     (let kind = get e ''kind'' in
      if kind = JStr ''created'' \<or> kind = JStr ''proposed'' then Inr (chg_on_created s e)
      else if kind = JStr ''status'' then chg_on_status core votes s e
      else if kind = JStr ''link_problem'' then Inr (chg_on_link_problem s e)
      else if kind = JStr ''title'' then Inr (chg_on_title s e)
      else if kind = JStr ''tags'' then chg_on_tags s e
      else if kind = JStr ''gtd_link'' then Inr (chg_on_gtd_link s e)
      else if kind = JStr ''note'' \<or> kind = JStr ''auto-approved'' then Inr (chg_on_note s e)
      else if kind = JStr ''pr_link'' then Inr (chg_on_pr_link s e)
      else if kind = JStr ''validation'' then Inr (chg_on_validation s e)
      else if kind = JStr ''schedule'' then chg_on_schedule core votes s e
      else if kind = JStr ''unschedule'' then Inr (chg_on_unschedule s e)
      else if kind = JStr ''window_missed'' then Inr (chg_on_window_missed s e)
      else Inr s)"

section \<open>Derivations after the loop\<close>

definition chg_auto_standard :: "string \<Rightarrow> jobj \<Rightarrow> chg_state \<Rightarrow> chg_state" where
  "chg_auto_standard now core s =
     (if chg_change_type core = JStr ''standard'' \<and> cs_status s = Proposed
      then (chg_log s (entry (py_or (get core ''created_at'') (JStr now))
              (get_d core ''created_by'' (JStr [])) ''auto-approved'' (JStr ''Standard change'')))
            \<lparr>cs_status := Approved\<rparr>
      else s)"

definition chg_auto_normal :: "string \<Rightarrow> jobj \<Rightarrow> cab_decision list \<Rightarrow> chg_state \<Rightarrow> chg_state result" where
  "chg_auto_normal now core votes s =
     (if cs_status s = Proposed
      then r_bind (auto_normal (chg_change_type core) (cs_tags s) core votes) (\<lambda>auto. Inr
        (if auto
         then (chg_log s (entry (py_or (get core ''created_at'') (JStr now)) (JStr ''operator'')
                 ''auto-approved''
                 (JStr ''Auto-normal (operator, risk!=high, rollback, no reject)'')))
               \<lparr>cs_status := Approved\<rparr>
         else s))
      else Inr s)"

fun max_str :: "string list \<Rightarrow> string" where
  "max_str [] = []"
| "max_str (x # xs) = foldl max x xs"

definition chg_cab :: "cab_decision list \<Rightarrow> chg_state \<Rightarrow> chg_state" where
  "chg_cab votes s =
     (if cs_status s \<in> {Proposed, Reviewing} \<and> votes \<noteq> []
      then let rej = rejections votes; app = approvals votes (cs_prepared_by s) in
        if rej \<noteq> []
        then (chg_log s (entry (JStr (max_str (map v_decided_at rej))) (JStr ''cab-system'')
                ''status:proposed->rejected''
                (JStr (''Rejected by: '' @ join '', '' (map v_agent rej)))))
              \<lparr>cs_status := Rejected\<rparr>
        else if list_ex is_human_approval app
        then (chg_log s (entry (JStr (max_str (map v_decided_at app))) (JStr ''cab-system'')
                ''status:proposed->approved''
                (JStr (''Approved by: '' @ join '', '' (map v_agent app)))))
              \<lparr>cs_status := Approved\<rparr>
        else s
      else s)"

definition chg_derive :: "string \<Rightarrow> jobj \<Rightarrow> cab_decision list \<Rightarrow> chg_state \<Rightarrow> chg_state result" where
  "chg_derive now core votes s =
     r_bind (chg_auto_normal now core votes (chg_auto_standard now core s)) (\<lambda>t. Inr (chg_cab votes t))"

definition chg_build :: "string \<Rightarrow> jobj \<Rightarrow> chg_state \<Rightarrow> change result" where
  "chg_build now core s =
     r_bind (r_bind (get_item core ''id'') as_str) (\<lambda>rid.
     r_bind (as_str (cs_title s)) (\<lambda>title.
     r_bind (enum_of change_type_value change_types (chg_change_type core)) (\<lambda>ct.
     r_bind (enum_of risk_value risks (get_d core ''risk'' (JStr ''medium''))) (\<lambda>rk.
     r_bind (as_str (get_d core ''rollback_plan'' (JStr []))) (\<lambda>rollback.
     r_bind (as_str (get_d core ''test_plan'' (JStr []))) (\<lambda>test.
     r_bind (as_str (get_d core ''managed_by'' (JStr []))) (\<lambda>managed_by.
     r_bind (as_str (get_d core ''created_by'' (JStr []))) (\<lambda>created_by.
     r_bind (as_opt_str (get core ''implementer'')) (\<lambda>implementer.
     r_bind (as_str (py_or (get core ''created_at'') (JStr now))) (\<lambda>created_at.
     r_bind (as_opt_str (cs_related_problem_id s)) (\<lambda>problem.
     r_bind (as_str_list (cs_gtd_ids s)) (\<lambda>gtd_ids.
     r_bind (as_str_list (cs_tags s)) (\<lambda>tags.
     r_bind (as_opt_str (cs_prepared_by s)) (\<lambda>prepared_by.
       Inr \<lparr>c_id = rid, c_title = title, c_change_type = ct, c_status = cs_status s, c_risk = rk,
            c_rollback_plan = rollback, c_test_plan = test, c_managed_by = managed_by,
            c_created_by = created_by, c_implementer = implementer,
            c_cab_required = truthy (get_d core ''cab_required''
               (JBool (chg_change_type core \<noteq> JStr ''standard''))),
            c_created_at = created_at, c_related_problem_id = problem, c_gtd_item_ids = gtd_ids,
            c_timeline = cs_timeline s, c_tags = tags, c_prepared_pr = cs_prepared_pr s,
            c_prepared_by = prepared_by, c_validation = cs_validation s,
            c_scheduled_window = cs_scheduled_window s\<rparr>))))))))))))))"

definition fold_change ::
    "string \<Rightarrow> jobj \<Rightarrow> jobj list \<Rightarrow> cab_decision list \<Rightarrow> change result" where
  "fold_change now core events votes =
     r_bind (chg_init core) (\<lambda>s0.
     r_bind (r_fold (chg_step core votes) s0 events) (\<lambda>s.
     r_bind (chg_derive now core votes s) (\<lambda>t. chg_build now core t)))"

section \<open>How one event can move a change\<close>

text \<open>
  The status effect of one accepted event: none, a row of the table read at the gate (with the
  board and review guards), the validation promotion, or the way back from a schedule.
\<close>

definition chg_move :: "jobj \<Rightarrow> cab_decision list \<Rightarrow> jobj \<Rightarrow> chg_state \<Rightarrow> change_status \<Rightarrow> bool" where
  "chg_move core votes e s t \<longleftrightarrow>
     t = cs_status s
   \<or> (\<exists>g. chg_gate core votes s = Inr g \<and> t \<in> set (change_transitions g)
        \<and> (t = Approved \<and> g \<in> {Proposed, Reviewing} \<longrightarrow> get e ''node'' = JStr ''migrated'')
        \<and> ((g = Deployed \<and> t = Verified) \<or> (g = Failed \<and> t = CClosed) \<longrightarrow>
             (\<exists>n. ev_note e = JStr n \<and> \<not> blank n)))
   \<or> (cs_status s = Proposed \<and> t = Reviewing)
   \<or> (cs_status s = Scheduled \<and> t = Approved)"

definition chg_grows :: "chg_state \<Rightarrow> chg_state \<Rightarrow> bool" where
  "chg_grows s t \<longleftrightarrow> (\<exists>r. cs_timeline t = cs_timeline s @ r) \<and> set (cs_tags s) \<subseteq> set (cs_tags t)"

definition chg_effect :: "jobj \<Rightarrow> cab_decision list \<Rightarrow> jobj \<Rightarrow> chg_state \<Rightarrow> chg_state \<Rightarrow> bool" where
  "chg_effect core votes e s t \<longleftrightarrow> chg_grows s t \<and> chg_move core votes e s (cs_status t)
     \<and> (cs_prepared_by t = cs_prepared_by s
        \<or> (get e ''kind'' = JStr ''pr_link'' \<and> cs_prepared_by t = ev_agent e))"

lemma chg_grows_log [simp]:
  "cs_timeline t = cs_timeline s @ r \<Longrightarrow> cs_tags t = cs_tags s \<Longrightarrow> chg_grows s t"
  by (auto simp: chg_grows_def)

lemma chg_effect_keep:
  "chg_grows s t \<Longrightarrow> cs_status t = cs_status s \<Longrightarrow> cs_prepared_by t = cs_prepared_by s
     \<Longrightarrow> chg_effect core votes e s t"
  by (simp add: chg_effect_def chg_move_def)

lemma py_strip_Inr: "py_strip v = Inr n \<Longrightarrow> \<exists>m. v = JStr m \<and> n = strip m"
  by (cases v) auto

lemma chg_on_status_effect:
  assumes "chg_on_status core votes s e = Inr s'"
  shows "chg_effect core votes e s s'"
proof -
  let ?to = "get e ''to''"
  obtain g where g: "chg_gate core votes s = Inr g"
    using assms by (auto simp: chg_on_status_def Let_def elim: r_bind_InrE)
  let ?gated = "(g = Deployed \<and> ?to = JStr ''verified'') \<or> (g = Failed \<and> ?to = JStr ''closed'')"
  obtain target where target:
    "table_target change_status_value (change_transitions g) ?to = Inr target"
    using assms g by (auto simp: chg_on_status_def Let_def elim: r_bind_InrE)
  have log: "chg_effect core votes e s (chg_log s x)" for x
    by (rule chg_effect_keep) (simp_all add: chg_log_def)
  show ?thesis
  proof (cases target)
    case None
    with assms g target log show ?thesis
      by (auto simp: chg_on_status_def Let_def elim!: r_bind_InrE split: if_splits)
  next
    case (Some t)
    from target Some have t: "t \<in> set (change_transitions g)" "?to = JStr (change_status_value t)"
      by (auto dest: table_target_Some)
    have words: "change_status_value t = ''verified'' \<longleftrightarrow> t = Verified"
      "change_status_value t = ''closed'' \<longleftrightarrow> t = CClosed"
      "change_status_value t = ''approved'' \<longleftrightarrow> t = Approved"
      by (cases t; simp)+
    obtain missing where missing:
      "(if ?gated then r_bind (py_strip (ev_note e)) (\<lambda>n. Inr (n = [])) else Inr False) = Inr missing"
      using assms g target by (auto simp: chg_on_status_def Let_def elim!: r_bind_InrE)
    have noted: "\<exists>n. ev_note e = JStr n \<and> \<not> blank n" if "?gated" "\<not> missing"
      using missing that by (auto simp: blank_def elim!: r_bind_InrE dest!: py_strip_Inr)
    let ?cab = "?to = JStr ''approved'' \<and> g \<in> {Proposed, Reviewing} \<and> get e ''node'' \<noteq> JStr ''migrated''"
    show ?thesis
    proof (cases "missing \<or> ?cab")
      case True
      then show ?thesis
        using assms g target Some missing log
        by (simp add: chg_on_status_def Let_def split: if_split_asm) (auto simp: log)
    next
      case False
      then have "s' = (chg_log s (entry (ev_ts e) (ev_agent e)
          (status_arrow (change_status_value g) (py_str ?to)) (ev_note e)))\<lparr>cs_status := t\<rparr>"
        using assms g target Some missing
        by (simp add: chg_on_status_def Let_def split: if_split_asm)
      moreover have "chg_move core votes e s t"
        unfolding chg_move_def using g t noted False words by auto
      ultimately show ?thesis by (simp add: chg_effect_def chg_log_def)
    qed
  qed
qed

lemma chg_on_schedule_effect:
  assumes "chg_on_schedule core votes s e = Inr s'"
  shows "chg_effect core votes e s s'"
proof -
  obtain g where g: "chg_gate core votes s = Inr g"
    using assms by (auto simp: chg_on_schedule_def elim: r_bind_InrE)
  show ?thesis
  proof (cases "g = Approved")
    case True
    then have "chg_move core votes e s Scheduled"
      unfolding chg_move_def using g by auto
    with assms g True show ?thesis
      by (auto simp: chg_on_schedule_def chg_effect_def chg_log_def)
  next
    case False
    with assms g show ?thesis
      by (auto simp: chg_on_schedule_def chg_log_def intro!: chg_effect_keep)
  qed
qed

lemma chg_unwind_effect: "chg_effect core votes e s (chg_unwind w d s e)"
  by (auto simp: chg_unwind_def chg_effect_def chg_move_def chg_log_def)

lemma chg_on_validation_effect: "chg_effect core votes e s (chg_on_validation s e)"
  by (auto simp: chg_on_validation_def chg_effect_def chg_move_def chg_log_def Let_def)

lemma chg_step_effect:
  assumes "chg_step core votes s e = Inr s'"
  shows "chg_effect core votes e s s'"
proof -
  have keep: "chg_effect core votes e s (chg_on_created s e)" "chg_effect core votes e s (chg_on_title s e)"
    "chg_effect core votes e s (chg_on_link_problem s e)" "chg_effect core votes e s (chg_on_gtd_link s e)"
    "chg_effect core votes e s (chg_on_note s e)" "chg_effect core votes e u u" for u
    by (rule chg_effect_keep; simp add: chg_on_created_def chg_on_title_def chg_on_link_problem_def
        chg_on_gtd_link_def chg_on_note_def chg_log_def chg_grows_def Let_def)+
  have tags: "chg_on_tags s e = Inr s' \<Longrightarrow> chg_effect core votes e s s'"
    by (auto simp: chg_on_tags_def chg_grows_def elim!: r_bind_InrE intro!: chg_effect_keep)
  have pr: "get e ''kind'' = JStr ''pr_link'' \<Longrightarrow> chg_effect core votes e s (chg_on_pr_link s e)"
    by (simp add: chg_on_pr_link_def chg_effect_def chg_move_def chg_log_def)
  show ?thesis
    using assms unfolding chg_step_def Let_def
    by (auto simp: keep pr chg_on_validation_effect chg_unwind_effect chg_on_unschedule_def
        chg_on_window_missed_def dest: tags chg_on_status_effect chg_on_schedule_effect
        split: if_split_asm)
qed

end
