(* ===== verification/Itil_Cab.thy ===== *)
theory Itil_Cab
  imports Itil_Change
begin

text \<open>
  What the change advisory board guarantees about a folded change: who can authorise it, that a
  drafter does not approve its own work, that a rejection is final, and that the gate read in the
  middle of the log agrees with the headline status derived at its end.
\<close>

section \<open>Authority\<close>

definition granted :: "change_status list" where
  "granted = [Approved, Scheduled, Implementing, Deployed, Verified, Failed]"

text \<open>The three ways a change may be approved: its type, the auto-normal rule, or a human vote.\<close>

definition cab_authority :: "jobj \<Rightarrow> cab_decision list \<Rightarrow> json list \<Rightarrow> bool" where
  "cab_authority core votes tags \<longleftrightarrow>
     chg_change_type core = JStr ''standard''
     \<or> auto_normal (chg_change_type core) tags core votes = Inr True
     \<or> (rejections votes = [] \<and> (\<exists>v\<in>set votes. v_decision v = CabApproved \<and> is_human_approval v))"

definition not_migrated :: "jobj \<Rightarrow> bool" where
  "not_migrated e \<longleftrightarrow> get e ''node'' \<noteq> JStr ''migrated''"

definition chg_auth_inv :: "jobj \<Rightarrow> cab_decision list \<Rightarrow> chg_state \<Rightarrow> bool" where
  "chg_auth_inv core votes s \<longleftrightarrow> (cs_status s \<in> set granted \<longrightarrow> cab_authority core votes (cs_tags s))"

lemma auto_normal_mono:
  "auto_normal ct tags core votes = Inr True \<Longrightarrow> set tags \<subseteq> set tags'
     \<Longrightarrow> auto_normal ct tags' core votes = Inr True"
  unfolding auto_normal_def by (auto split: if_split_asm)

lemma cab_authority_mono:
  "cab_authority core votes tags \<Longrightarrow> set tags \<subseteq> set tags' \<Longrightarrow> cab_authority core votes tags'"
  unfolding cab_authority_def using auto_normal_mono by blast

lemma approvals_authority:
  "rejections votes = [] \<Longrightarrow> list_ex is_human_approval (approvals votes p) \<Longrightarrow> cab_authority core votes tags"
  by (auto simp: approvals_def list_ex_iff cab_authority_def)

lemma gate_cases:
  assumes "chg_gate core votes s = Inr g"
  obtains (keep) "g = cs_status s"
  | (approved) "cs_status s \<in> {Proposed, Reviewing}" "g = Approved" "cab_authority core votes (cs_tags s)"
  | (rejected) "cs_status s \<in> {Proposed, Reviewing}" "g = Rejected" "rejections votes \<noteq> []"
proof (cases "cs_status s \<in> {Proposed, Reviewing} \<and> g \<noteq> cs_status s")
  case False
  with assms show thesis
    by (auto simp: chg_gate_def cab_resolved_status_def intro: keep)
next
  case True
  show thesis
  proof (cases "chg_change_type core = JStr ''standard''")
    case True
    with \<open>cs_status s \<in> _ \<and> _\<close> assms show thesis
      by (intro approved) (auto simp: chg_gate_def cab_resolved_status_def cab_authority_def)
  next
    case False
    with True assms obtain auto where a:
      "auto_normal (chg_change_type core) (cs_tags s) core votes = Inr auto"
      "g = (if auto then Approved else if rejections votes \<noteq> [] then Rejected
            else if list_ex is_human_approval (approvals votes (cs_prepared_by s)) then Approved
            else cs_status s)"
      by (auto simp: chg_gate_def cab_resolved_status_def elim!: r_bind_InrE)
    show thesis
    proof (cases "\<not> auto \<and> rejections votes \<noteq> []")
      case True
      with a \<open>cs_status s \<in> _ \<and> _\<close> show thesis by (intro rejected) auto
    next
      case False
      with a \<open>cs_status s \<in> _ \<and> _\<close> have "g = Approved" by (auto split: if_splits)
      moreover have "cab_authority core votes (cs_tags s)"
      proof (cases auto)
        case True
        with a show ?thesis by (simp add: cab_authority_def)
      next
        case no_auto: False
        with a False \<open>cs_status s \<in> _ \<and> _\<close>
        have "rejections votes = []" "list_ex is_human_approval (approvals votes (cs_prepared_by s))"
          by (auto split: if_splits)
        then show ?thesis by (rule approvals_authority)
      qed
      ultimately show thesis using \<open>cs_status s \<in> _ \<and> _\<close> by (intro approved) auto
    qed
  qed
qed

lemma chg_grows_refl: "chg_grows s s"
  by (simp add: chg_grows_def)

lemma chg_grows_trans: "chg_grows s t \<Longrightarrow> chg_grows t u \<Longrightarrow> chg_grows s u"
  by (auto simp: chg_grows_def)

lemma chg_step_grows: "chg_step core votes s e = Inr t \<Longrightarrow> chg_grows s t"
  by (drule chg_step_effect) (simp add: chg_effect_def)

lemma transitions_granted:
  "t \<in> set (change_transitions g) \<Longrightarrow> t \<in> set granted \<Longrightarrow> g \<in> set granted \<or> (t = Approved \<and> g \<in> {Proposed, Reviewing})"
  by (cases g) (auto simp: granted_def)

lemma chg_step_auth:
  assumes "chg_auth_inv core votes s" "not_migrated e" "chg_step core votes s e = Inr t"
  shows "chg_auth_inv core votes t"
proof -
  from chg_step_effect [OF assms(3)]
  have grows: "set (cs_tags s) \<subseteq> set (cs_tags t)" and move: "chg_move core votes e s (cs_status t)"
    by (auto simp: chg_effect_def chg_grows_def)
  have "cab_authority core votes (cs_tags s)" if gr: "cs_status t \<in> set granted"
    using move unfolding chg_move_def
  proof (elim disjE exE conjE)
    fix g assume g: "chg_gate core votes s = Inr g" "cs_status t \<in> set (change_transitions g)"
      "cs_status t = Approved \<and> g \<in> {Proposed, Reviewing} \<longrightarrow> get e ''node'' = JStr ''migrated''"
    with transitions_granted [OF g(2) gr] assms(2) have "g \<in> set granted"
      by (auto simp: not_migrated_def)
    with g(1) assms(1) show ?thesis
      by (cases rule: gate_cases) (auto simp: chg_auth_inv_def granted_def)
  qed (use assms(1) gr in \<open>auto simp: chg_auth_inv_def granted_def\<close>)
  with grows show ?thesis by (auto simp: chg_auth_inv_def intro: cab_authority_mono)
qed

interpretation change_authority: event_fold "chg_step core votes" not_migrated "chg_auth_inv core votes" chg_grows
  for core votes
  by unfold_locales (auto intro: chg_step_auth chg_grows_refl chg_grows_trans chg_step_grows)

section \<open>The derived headline\<close>

lemma chg_cab_status:
  "cs_status (chg_cab votes s) =
     (if cs_status s \<notin> {Proposed, Reviewing} then cs_status s
      else if rejections votes \<noteq> [] then Rejected
      else if list_ex is_human_approval (approvals votes (cs_prepared_by s)) then Approved
      else cs_status s)"
  by (cases votes) (auto simp: chg_cab_def Let_def rejections_def approvals_def)

lemma chg_derive_cases:
  assumes "chg_derive now core votes s = Inr t"
  shows "cs_tags t = cs_tags s \<and> cs_prepared_by t = cs_prepared_by s
    \<and> (cs_status s \<notin> {Proposed, Reviewing} \<longrightarrow> t = s)
    \<and> (cs_status s \<in> {Proposed, Reviewing} \<longrightarrow> cs_status t \<in> {cs_status s, Approved, Rejected}
        \<and> (cs_status t = Approved \<longrightarrow> cab_authority core votes (cs_tags s)))"
proof -
  let ?u = "chg_auto_standard now core s"
  obtain v where v: "chg_auto_normal now core votes ?u = Inr v" "t = chg_cab votes v"
    using assms by (auto simp: chg_derive_def elim!: r_bind_InrE)
  have u: "cs_tags ?u = cs_tags s" "cs_prepared_by ?u = cs_prepared_by s"
    "?u = s \<or> (cs_status s = Proposed \<and> cs_status ?u = Approved \<and> cab_authority core votes (cs_tags s))"
    by (auto simp: chg_auto_standard_def chg_log_def cab_authority_def)
  have uv: "cs_tags v = cs_tags ?u" "cs_prepared_by v = cs_prepared_by ?u"
    "v = ?u \<or> (cs_status ?u = Proposed \<and> cs_status v = Approved \<and> cab_authority core votes (cs_tags ?u))"
    using v(1) by (auto simp: chg_auto_normal_def chg_log_def cab_authority_def elim!: r_bind_InrE split: if_splits)
  have vt: "cs_tags t = cs_tags v" "cs_prepared_by t = cs_prepared_by v"
    "t = v \<or> (cs_status v \<in> {Proposed, Reviewing} \<and> (cs_status t = Rejected
        \<or> (cs_status t = Approved \<and> cab_authority core votes (cs_tags v))))"
    using v(2) by (auto simp: chg_cab_def chg_log_def Let_def intro: approvals_authority)
  from u uv vt show ?thesis by auto
qed

lemma chg_derive_status:
  "chg_derive now core votes s = Inr t \<Longrightarrow> cs_status t \<notin> {Proposed, Reviewing, Approved, Rejected}
     \<Longrightarrow> cs_status s = cs_status t"
  using chg_derive_cases [of now core votes s t] by (cases "cs_status s") auto

lemma chg_build_fields:
  assumes "chg_build now core s = Inr c"
  shows "c_status c = cs_status s" "map JStr (c_tags c) = cs_tags s"
    "of_opt_str (c_prepared_by c) = cs_prepared_by s" "c_timeline c = cs_timeline s"
    "c_scheduled_window c = cs_scheduled_window s"
  using assms by (auto simp: chg_build_def as_opt_str_iff dest: as_str_list_Inr elim!: r_bind_InrE)

lemma fold_change_states:
  assumes "fold_change now core es votes = Inr c"
  obtains s0 s t where "chg_init core = Inr s0" "r_fold (chg_step core votes) s0 es = Inr s"
    "chg_derive now core votes s = Inr t" "chg_build now core t = Inr c"
  using assms that by (auto simp: fold_change_def elim!: r_bind_InrE)

lemma chg_init_status: "chg_init core = Inr s \<Longrightarrow> cs_status s = Proposed \<and> cs_prepared_by s = JNull"
  by (auto simp: chg_init_def elim!: r_bind_InrE)

section \<open>A board that can only reject, and a drafter that cannot approve\<close>

definition ungranted :: "change_status list" where
  "ungranted = [Proposed, Reviewing, Rejected, CClosed]"

lemma granted_Approved [simp]: "Approved \<in> set granted"
  by (simp add: granted_def)

lemma ungranted_iff: "s \<in> set ungranted \<longleftrightarrow> s \<notin> set granted"
  by (cases s) (auto simp: ungranted_def granted_def)

text \<open>
  A gate that never approves: as long as it holds, no event of a live node grants the change.
\<close>

lemma chg_step_ungranted:
  assumes "cs_status s \<in> set ungranted" "not_migrated e" "chg_step core votes s e = Inr t"
    and "chg_gate core votes s \<noteq> Inr Approved"
  shows "cs_status t \<in> set ungranted"
proof -
  from chg_step_effect [OF assms(3)] have move: "chg_move core votes e s (cs_status t)"
    by (simp add: chg_effect_def)
  have gate: "g \<notin> set granted" if "chg_gate core votes s = Inr g" for g
    using that
  proof (cases rule: gate_cases)
    case keep
    with assms(1) show ?thesis by (simp add: ungranted_iff)
  next
    case approved
    with that assms(4) show ?thesis by simp
  qed (simp add: granted_def)
  show ?thesis
    using move unfolding chg_move_def
  proof (elim disjE exE conjE)
    fix g assume g: "chg_gate core votes s = Inr g" "cs_status t \<in> set (change_transitions g)"
      "cs_status t = Approved \<and> g \<in> {Proposed, Reviewing} \<longrightarrow> get e ''node'' = JStr ''migrated''"
    show ?thesis
    proof (rule ccontr)
      assume "\<not> ?thesis"
      then have "cs_status t \<in> set granted" by (simp add: ungranted_iff)
      from transitions_granted [OF g(2) this] g assms(2) gate [OF g(1)] show False
        by (auto simp: not_migrated_def)
    qed
  qed (use assms(1) in \<open>auto simp: ungranted_def\<close>)
qed

definition chg_vetoed :: "jobj \<Rightarrow> cab_decision list \<Rightarrow> chg_state \<Rightarrow> bool" where
  "chg_vetoed core votes s \<longleftrightarrow> rejections votes \<noteq> [] \<and> chg_change_type core \<noteq> JStr ''standard''
     \<and> cs_status s \<in> set ungranted"

lemma gate_rejected:
  assumes "rejections votes \<noteq> []" "chg_change_type core \<noteq> JStr ''standard''"
  shows "chg_gate core votes s = Inr g \<Longrightarrow> g = Rejected \<or> cs_status s \<notin> {Proposed, Reviewing}"
    and "cs_status s \<noteq> Approved \<Longrightarrow> chg_gate core votes s \<noteq> Inr Approved"
proof -
  have no_auto: "auto_normal ct tags core votes \<noteq> Inr True" for ct tags
    using assms(1) by (auto simp: auto_normal_def r_bind_Inr_iff split: if_splits)
  have *: "chg_gate core votes s = Inr g \<Longrightarrow> cs_status s \<in> {Proposed, Reviewing} \<Longrightarrow> g = Rejected" for g
  proof -
    assume g: "chg_gate core votes s = Inr g" and st: "cs_status s \<in> {Proposed, Reviewing}"
    then obtain a where a: "auto_normal (chg_change_type core) (cs_tags s) core votes = Inr a"
      using assms(2) by (auto simp: chg_gate_def cab_resolved_status_def elim!: r_bind_InrE)
    with no_auto [of "chg_change_type core" "cs_tags s"] have "a = False" by simp
    with g st a assms show "g = Rejected"
      by (simp add: chg_gate_def cab_resolved_status_def split: if_split_asm)
  qed
  then show "chg_gate core votes s = Inr g \<Longrightarrow> g = Rejected \<or> cs_status s \<notin> {Proposed, Reviewing}"
    by blast
  have same: "cs_status s \<notin> {Proposed, Reviewing} \<Longrightarrow> chg_gate core votes s = Inr (cs_status s)"
    by (simp add: chg_gate_def cab_resolved_status_def)
  show "cs_status s \<noteq> Approved \<Longrightarrow> chg_gate core votes s \<noteq> Inr Approved"
    using * [of Approved] same by fastforce
qed

lemma chg_step_vetoed:
  "chg_vetoed core votes s \<Longrightarrow> not_migrated e \<Longrightarrow> chg_step core votes s e = Inr t \<Longrightarrow> chg_vetoed core votes t"
  unfolding chg_vetoed_def
  by (metis chg_step_ungranted gate_rejected(2) granted_Approved ungranted_iff)

interpretation change_veto: event_fold "chg_step core votes" not_migrated "chg_vetoed core votes" chg_grows
  for core votes
  by unfold_locales (auto intro: chg_step_vetoed chg_grows_refl chg_grows_trans chg_step_grows)

text \<open>The drafter's gate: every human approval on file is by the agent that drafted the change.\<close>

definition only_by :: "string \<Rightarrow> cab_decision list \<Rightarrow> bool" where
  "only_by d votes \<longleftrightarrow>
     list_all (\<lambda>v. v_decision v = CabApproved \<and> is_human_approval v \<longrightarrow> v_agent v = d) votes"

definition drafted_by :: "string \<Rightarrow> jobj \<Rightarrow> bool" where
  "drafted_by d e \<longleftrightarrow> not_migrated e
     \<and> (get e ''kind'' = JStr ''pr_link'' \<longrightarrow> ev_agent e = JStr d)"

definition chg_drafted :: "jobj \<Rightarrow> cab_decision list \<Rightarrow> string \<Rightarrow> chg_state \<Rightarrow> bool" where
  "chg_drafted core votes d s \<longleftrightarrow> only_by d votes \<and> chg_change_type core \<noteq> JStr ''standard''
     \<and> get core ''created_by'' \<noteq> JStr ''operator''
     \<and> cs_status s \<in> set ungranted \<and> cs_prepared_by s = JStr d"

lemma drafter_no_approval:
  "only_by d votes \<Longrightarrow> \<not> list_ex is_human_approval (approvals votes (JStr d))"
  by (auto simp: only_by_def approvals_def list_ex_iff list_all_iff)

lemma drafter_gate:
  assumes "only_by d votes" "chg_change_type core \<noteq> JStr ''standard''"
    and "get core ''created_by'' \<noteq> JStr ''operator''" "cs_prepared_by s = JStr d"
    and "cs_status s \<noteq> Approved"
  shows "chg_gate core votes s \<noteq> Inr Approved"
  using assms drafter_no_approval [OF assms(1)]
  by (auto simp: chg_gate_def cab_resolved_status_def auto_normal_def)

lemma chg_step_drafted:
  assumes "chg_drafted core votes d s" "drafted_by d e" "chg_step core votes s e = Inr t"
  shows "chg_drafted core votes d t"
proof -
  from chg_step_effect [OF assms(3)] assms(1,2) have "cs_prepared_by t = JStr d"
    by (auto simp: chg_effect_def chg_drafted_def drafted_by_def)
  moreover have "cs_status s \<noteq> Approved"
    using assms(1) by (auto simp: chg_drafted_def ungranted_def)
  then have gate: "chg_gate core votes s \<noteq> Inr Approved"
    using assms(1) by (intro drafter_gate) (auto simp: chg_drafted_def)
  have "cs_status t \<in> set ungranted"
    by (rule chg_step_ungranted [OF _ _ assms(3) gate])
      (use assms(1,2) in \<open>simp_all add: chg_drafted_def drafted_by_def\<close>)
  ultimately show ?thesis using assms(1) by (simp add: chg_drafted_def)
qed

interpretation change_draft: event_fold "chg_step core votes" "drafted_by d" "chg_drafted core votes d" chg_grows
  for core votes d
  by unfold_locales (auto intro: chg_step_drafted chg_grows_refl chg_grows_trans chg_step_grows)

lemma chg_derive_drafted:
  assumes "chg_drafted core votes d s" "chg_derive now core votes s = Inr t"
  shows "cs_status t \<noteq> Approved"
proof -
  have std: "chg_auto_standard now core s = s"
    using assms(1) by (simp add: chg_auto_standard_def chg_drafted_def)
  have "auto_normal (chg_change_type core) (cs_tags s) core votes = Inr False"
    using assms(1) by (simp add: chg_drafted_def auto_normal_def)
  then have auto: "chg_auto_normal now core votes s = Inr s"
    by (simp add: chg_auto_normal_def)
  have "cs_status s \<noteq> Approved" "\<not> list_ex is_human_approval (approvals votes (cs_prepared_by s))"
    using assms(1) drafter_no_approval by (auto simp: chg_drafted_def ungranted_def)
  with assms(2) std auto show ?thesis
    by (auto simp: chg_derive_def chg_cab_status split: if_split_asm)
qed

text \<open>Before the first status or schedule event a change is being drafted or reviewed.\<close>

definition chg_prelude :: "jobj \<Rightarrow> bool" where
  "chg_prelude e \<longleftrightarrow> get e ''kind'' \<notin> {JStr ''status'', JStr ''schedule''}"

definition chg_open :: "chg_state \<Rightarrow> bool" where
  "chg_open s \<longleftrightarrow> cs_status s \<in> {Proposed, Reviewing}"

lemma chg_step_open:
  assumes "chg_open s" "chg_prelude e" "chg_step core votes s e = Inr t"
  shows "chg_open t"
proof -
  have tags: "chg_on_tags s e = Inr t \<Longrightarrow> cs_status t = cs_status s"
    by (auto simp: chg_on_tags_def elim!: r_bind_InrE)
  have rest: "cs_status (chg_on_created s e) = cs_status s" "cs_status (chg_on_title s e) = cs_status s"
    "cs_status (chg_on_link_problem s e) = cs_status s" "cs_status (chg_on_gtd_link s e) = cs_status s"
    "cs_status (chg_on_note s e) = cs_status s" "cs_status (chg_on_pr_link s e) = cs_status s"
    by (simp_all add: chg_on_created_def chg_on_title_def chg_on_link_problem_def chg_on_gtd_link_def
        chg_on_note_def chg_on_pr_link_def chg_log_def Let_def)
  have val: "chg_open (chg_on_validation s e)"
    using assms(1) by (auto simp: chg_on_validation_def chg_open_def chg_log_def Let_def)
  have off: "cs_status (chg_on_unschedule s e) = cs_status s" "cs_status (chg_on_window_missed s e) = cs_status s"
    using assms(1) by (auto simp: chg_on_unschedule_def chg_on_window_missed_def chg_unwind_def chg_open_def chg_log_def)
  show ?thesis
    using assms rest val off tags unfolding chg_step_def chg_prelude_def Let_def chg_open_def
    by (auto split: if_split_asm)
qed

interpretation change_open: event_fold "chg_step core votes" chg_prelude chg_open chg_grows
  for core votes
  by unfold_locales (auto intro: chg_step_open chg_grows_refl chg_grows_trans chg_step_grows)

text \<open>With a rejecting vote on file, the derived headline of an ungranted change is a rejection.\<close>

lemma rejection_blocks:
  assumes "fold_change now core es votes = Inr c" and "list_all not_migrated es"
    and "rejections votes \<noteq> []" and "chg_change_type core \<noteq> JStr ''standard''"
  shows "c_status c \<in> {Rejected, CClosed}"
proof -
  obtain s0 s t where s: "chg_init core = Inr s0" "r_fold (chg_step core votes) s0 es = Inr s"
    "chg_derive now core votes s = Inr t" "chg_build now core t = Inr c"
    using assms(1) by (rule fold_change_states)
  have "chg_vetoed core votes s0"
    using chg_init_status [OF s(1)] assms by (simp add: chg_vetoed_def ungranted_def)
  then have "chg_vetoed core votes s"
    using assms(2) s(2) by (rule change_veto.fold_inv)
  then have "cs_status s \<in> set ungranted" by (simp add: chg_vetoed_def)
  moreover have "chg_auto_standard now core s = s"
    using assms(4) by (simp add: chg_auto_standard_def)
  moreover have "chg_auto_normal now core votes s = Inr u \<Longrightarrow> u = s" for u
    using assms(3) by (auto simp: chg_auto_normal_def auto_normal_def r_bind_Inr_iff split: if_split_asm)
  ultimately have "t = chg_cab votes s"
    using s(3) by (auto simp: chg_derive_def elim!: r_bind_InrE)
  with \<open>cs_status s \<in> _\<close> assms(3) chg_build_fields(1) [OF s(4)] show ?thesis
    by (auto simp: chg_cab_status ungranted_def split: if_splits)
qed

section \<open>Properties\<close>

text \<open>Cores, votes and logs for the witnesses.\<close>

definition sample_change :: "string \<Rightarrow> jobj" where
  "sample_change ct = [(''id'', JStr ''chg-1''), (''title'', JStr ''swap disk''), (''change_type'', JStr ct),
     (''risk'', JStr ''medium''), (''created_by'', JStr ''dev''), (''managed_by'', JStr ''ops''),
     (''rollback_plan'', JStr ''restore''), (''created_at'', JStr ''2026-09-01T00:00:00+00:00'')]"

definition sample_vote :: "string \<Rightarrow> cab_decision_value \<Rightarrow> cab_decision" where
  "sample_vote agent d = \<lparr>v_change_id = ''chg-1'', v_agent = agent, v_subject_role = [],
     v_subject_fingerprint = [], v_authorization_id = [], v_decision = d, v_conditions = [],
     v_decided_at = ''2026-09-02T00:00:00+00:00''\<rparr>"

definition sample_deploy :: "jobj list" where
  "sample_deploy = [sample_event ''1'' ''proposed'' [],
     sample_event ''2'' ''schedule'' [(''asap'', JBool True)],
     sample_event ''3'' ''status'' [(''to'', JStr ''implementing'')],
     sample_event ''4'' ''status'' [(''to'', JStr ''deployed'')]]"

definition sample_verify :: "string \<Rightarrow> jobj" where
  "sample_verify note = sample_event ''5'' ''status'' [(''to'', JStr ''verified''), (''note'', JStr note)]"

lemma fold_change_status:
  assumes "map_sum id c_status (fold_change now core es votes) = Inr st"
  shows "\<exists>c. fold_change now core es votes = Inr c \<and> c_status c = st"
  using assms by (auto dest: map_sum_InrD)

text \<open>
  C5. No log can grant a change that nobody with authority approved. Unless an event is stamped as
  coming from the data migration, a folded change that is approved, scheduled, being implemented,
  deployed, verified or failed is a standard change, an auto-normal one, or has a counted human
  approval and no rejection.
\<close>

theorem change_needs_authority:
  assumes "fold_change now core es votes = Inr c" and "list_all not_migrated es"
    and "c_status c \<in> set granted"
  shows "cab_authority core votes (map JStr (c_tags c))"
proof -
  obtain s0 s t where s: "chg_init core = Inr s0" "r_fold (chg_step core votes) s0 es = Inr s"
    "chg_derive now core votes s = Inr t" "chg_build now core t = Inr c"
    using assms(1) by (rule fold_change_states)
  have "chg_auth_inv core votes s0"
    using chg_init_status [OF s(1)] by (simp add: chg_auth_inv_def granted_def)
  then have "chg_auth_inv core votes s"
    using assms(2) s(2) by (rule change_authority.fold_inv)
  with chg_derive_cases [OF s(3)] chg_build_fields [OF s(4)] assms(3) show ?thesis
    by (auto simp: chg_auth_inv_def granted_def)
qed

theorem change_needs_authority_witness:
  "\<exists>c. fold_change ''n'' (sample_change ''normal'') sample_deploy [sample_vote ''human'' CabApproved] = Inr c
     \<and> c_status c = Deployed
     \<and> cab_authority (sample_change ''normal'') [sample_vote ''human'' CabApproved] (map JStr (c_tags c))"
proof -
  have "map_sum id c_status (fold_change ''n'' (sample_change ''normal'') sample_deploy
      [sample_vote ''human'' CabApproved]) = Inr Deployed"
    by code_simp
  then obtain c where c: "fold_change ''n'' (sample_change ''normal'') sample_deploy
      [sample_vote ''human'' CabApproved] = Inr c" "c_status c = Deployed"
    by (blast dest: fold_change_status)
  have "list_all not_migrated sample_deploy" by code_simp
  with change_needs_authority [OF c(1)] c show ?thesis by (auto simp: granted_def)
qed

text \<open>
  C38. A drafter cannot approve its own change. The change is neither a standard one nor created by the
  operator; an agent linked its pull request before any status or schedule event; no later event links the
  pull request of another agent or is stamped as migrated; and every human approval on file is that agent's
  own. Then, whatever else the log holds after the link, the folded change is not granted.
\<close>

theorem drafter_cannot_self_approve:
  assumes "fold_change now core (pre @ pr # post) votes = Inr c"
    and "chg_change_type core \<noteq> JStr ''standard''" and "get core ''created_by'' \<noteq> JStr ''operator''"
    and "only_by d votes" and "list_all chg_prelude pre"
    and "get pr ''kind'' = JStr ''pr_link''" and "ev_agent pr = JStr d"
    and "list_all (drafted_by d) post"
  shows "c_status c \<notin> set granted"
proof -
  obtain s0 s t where s: "chg_init core = Inr s0" "r_fold (chg_step core votes) s0 (pre @ pr # post) = Inr s"
    "chg_derive now core votes s = Inr t" "chg_build now core t = Inr c"
    using assms(1) by (rule fold_change_states)
  then obtain u where u: "r_fold (chg_step core votes) s0 pre = Inr u"
    "r_fold (chg_step core votes) (chg_on_pr_link u pr) post = Inr s"
    using assms(6) by (auto simp: r_fold_append chg_step_def elim!: r_bind_InrE)
  have "chg_open s0"
    using chg_init_status [OF s(1)] by (simp add: chg_open_def)
  then have "chg_open u"
    using assms(5) u(1) by (rule change_open.fold_inv)
  then have "chg_drafted core votes d (chg_on_pr_link u pr)"
    using assms by (auto simp: chg_drafted_def chg_on_pr_link_def chg_log_def chg_open_def ungranted_def)
  then have inv: "chg_drafted core votes d s"
    using assms(8) u(2) by (rule change_draft.fold_inv)
  have "cs_status t \<noteq> Approved"
    using chg_derive_drafted [OF inv s(3)] .
  with inv chg_derive_cases [OF s(3)] chg_build_fields [OF s(4)] show ?thesis
    by (auto simp: chg_drafted_def ungranted_iff granted_def)
qed

definition sample_draft :: jobj where
  "sample_draft = [(''ts'', JStr ''2''), (''writer'', JStr ''bot''), (''node'', JStr ''n1''),
     (''kind'', JStr ''pr_link''), (''url'', JStr ''pr/1'')]"

theorem drafter_cannot_self_approve_witness:
  "\<exists>c. fold_change ''n'' (sample_change ''normal'')
         ([sample_event ''1'' ''proposed'' []] @ sample_draft # tl sample_deploy)
         [(sample_vote ''bot'' CabApproved)\<lparr>v_subject_role := ''approver''\<rparr>] = Inr c
     \<and> c_status c \<notin> set granted"
proof -
  let ?votes = "[(sample_vote ''bot'' CabApproved)\<lparr>v_subject_role := ''approver''\<rparr>]"
  let ?core = "sample_change ''normal''"
  have "map_sum id c_status (fold_change ''n'' ?core
      ([sample_event ''1'' ''proposed'' []] @ sample_draft # tl sample_deploy) ?votes) = Inr Proposed"
    by code_simp
  then obtain c where c: "fold_change ''n'' ?core
      ([sample_event ''1'' ''proposed'' []] @ sample_draft # tl sample_deploy) ?votes = Inr c"
    by (blast dest: fold_change_status)
  have "chg_change_type ?core \<noteq> JStr ''standard''" "get ?core ''created_by'' \<noteq> JStr ''operator''"
    "only_by ''bot'' ?votes" "list_all chg_prelude [sample_event ''1'' ''proposed'' []]"
    "get sample_draft ''kind'' = JStr ''pr_link''" "ev_agent sample_draft = JStr ''bot''"
    "list_all (drafted_by ''bot'') (tl sample_deploy)"
    by code_simp+
  with drafter_cannot_self_approve [OF c] c show ?thesis by blast
qed

text \<open>
  The two review gates of the lifecycle: whatever event it is, it moves a deployed change to
  verified, or closes a failed one, only with a note that is not blank.
\<close>

theorem review_needs_note:
  assumes "fold_change now core es votes = Inr c" and "fold_change now' core (es @ [e]) votes = Inr c'"
    and "c_status c = Deployed \<and> c_status c' = Verified \<or> c_status c = Failed \<and> c_status c' = CClosed"
  shows "\<exists>n. ev_note e = JStr n \<and> \<not> blank n"
proof -
  obtain s0 s t where s: "chg_init core = Inr s0" "r_fold (chg_step core votes) s0 es = Inr s"
    "chg_derive now core votes s = Inr t" "chg_build now core t = Inr c"
    using assms(1) by (rule fold_change_states)
  obtain s0' s' t' where s': "chg_init core = Inr s0'" "r_fold (chg_step core votes) s0' (es @ [e]) = Inr s'"
    "chg_derive now' core votes s' = Inr t'" "chg_build now' core t' = Inr c'"
    using assms(2) by (rule fold_change_states)
  have step: "chg_step core votes s e = Inr s'"
    using s s' by (simp add: r_fold_snoc)
  have c: "c_status c \<notin> {Proposed, Reviewing, Approved, Rejected}"
    "c_status c' \<notin> {Proposed, Reviewing, Approved, Rejected}"
    using assms(3) by auto
  have st: "cs_status s = c_status c" "cs_status s' = c_status c'"
    using c unfolding chg_build_fields(1) [OF s(4)] chg_build_fields(1) [OF s'(4)]
    by (blast intro: chg_derive_status [OF s(3)] chg_derive_status [OF s'(3)])+
  have "chg_move core votes e s (cs_status s')"
    using chg_step_effect [OF step] by (simp add: chg_effect_def)
  moreover have "chg_gate core votes s = Inr (c_status c)"
    using st assms(3) by (auto simp: chg_gate_def cab_resolved_status_def)
  ultimately show ?thesis
    using assms(3) unfolding chg_move_def st by (elim disjE conjE) auto
qed

theorem review_needs_note_witness:
  "\<exists>c c'. fold_change ''n'' (sample_change ''normal'') sample_deploy [sample_vote ''human'' CabApproved] = Inr c
     \<and> fold_change ''n'' (sample_change ''normal'') (sample_deploy @ [sample_verify ''all green''])
         [sample_vote ''human'' CabApproved] = Inr c'
     \<and> c_status c = Deployed \<and> c_status c' = Verified
     \<and> (\<exists>n. ev_note (sample_verify ''all green'') = JStr n \<and> \<not> blank n)"
proof -
  let ?f = "\<lambda>es. fold_change ''n'' (sample_change ''normal'') es [sample_vote ''human'' CabApproved]"
  have "map_sum id c_status (?f sample_deploy) = Inr Deployed"
    "map_sum id c_status (?f (sample_deploy @ [sample_verify ''all green''])) = Inr Verified"
    by code_simp+
  then obtain c c' where c: "?f sample_deploy = Inr c" "?f (sample_deploy @ [sample_verify ''all green'']) = Inr c'"
    "c_status c = Deployed" "c_status c' = Verified"
    by (blast dest: fold_change_status)
  with review_needs_note [OF c(1,2)] show ?thesis by blast
qed

text \<open>
  A rejection is final: with any rejecting vote on file, a change that is not standard folds to
  rejected or closed, whatever approvals stand beside it and whatever its log asks for.
\<close>

theorem rejection_final:
  assumes "fold_change now core es votes = Inr c" and "list_all not_migrated es"
    and "rejections votes \<noteq> []" and "chg_change_type core \<noteq> JStr ''standard''"
  shows "c_status c \<in> {Rejected, CClosed}"
  using assms by (rule rejection_blocks)

theorem rejection_final_witness:
  "\<exists>c. fold_change ''n'' (sample_change ''emergency'') sample_deploy
         [sample_vote ''human'' CabApproved, sample_vote ''sec'' CabRejected] = Inr c
     \<and> c_status c \<in> {Rejected, CClosed}"
proof -
  let ?votes = "[sample_vote ''human'' CabApproved, sample_vote ''sec'' CabRejected]"
  have "map_sum id c_status (fold_change ''n'' (sample_change ''emergency'') sample_deploy ?votes) = Inr Rejected"
    by code_simp
  then obtain c where c: "fold_change ''n'' (sample_change ''emergency'') sample_deploy ?votes = Inr c"
    by (blast dest: fold_change_status)
  have "list_all not_migrated sample_deploy" "rejections ?votes \<noteq> []"
    "chg_change_type (sample_change ''emergency'') \<noteq> JStr ''standard''"
    by code_simp+
  with rejection_final [OF c] c show ?thesis by blast
qed

text \<open>
  The gate that validates a transition in the middle of the log and the headline derived at
  its end agree: on every state of the fold except a standard or auto-normal change that is already
  in review, deriving the headline gives the status the gate reads.
\<close>

theorem gate_is_headline:
  assumes "cs_status s = Reviewing \<longrightarrow> chg_change_type core \<noteq> JStr ''standard''
      \<and> auto_normal (chg_change_type core) (cs_tags s) core votes = Inr False"
  shows "map_sum id cs_status (chg_derive now core votes s) = chg_gate core votes s"
proof (cases "cs_status s = Proposed")
  case False
  then have "chg_derive now core votes s = Inr (chg_cab votes s)"
    by (simp add: chg_derive_def chg_auto_standard_def chg_auto_normal_def)
  with False assms show ?thesis
    by (cases "cs_status s = Reviewing") (simp_all add: chg_cab_status chg_gate_def cab_resolved_status_def)
next
  case proposed: True
  show ?thesis
  proof (cases "chg_change_type core = JStr ''standard''")
    case True
    with proposed show ?thesis
      by (simp add: chg_derive_def chg_auto_standard_def chg_auto_normal_def chg_cab_status
          chg_gate_def cab_resolved_status_def)
  next
    case False
    with proposed show ?thesis
      by (cases "auto_normal (chg_change_type core) (cs_tags s) core votes")
        (simp_all add: chg_derive_def chg_auto_standard_def chg_auto_normal_def chg_cab_status
          chg_gate_def cab_resolved_status_def chg_log_def)
  qed
qed

definition sample_reviewing :: "chg_state" where
  "sample_reviewing = \<lparr>cs_status = Reviewing, cs_timeline = [], cs_tags = [], cs_gtd_ids = [],
     cs_title = JStr ''swap disk'', cs_related_problem_id = JNull, cs_seen_created = True,
     cs_prepared_pr = None, cs_prepared_by = JNull, cs_validation = None, cs_scheduled_window = None\<rparr>"

theorem gate_is_headline_witness:
  "map_sum id cs_status (chg_derive ''n'' (sample_change ''normal'') [sample_vote ''human'' CabApproved] sample_reviewing)
     = Inr Approved"
proof -
  have "auto_normal (chg_change_type (sample_change ''normal'')) (cs_tags sample_reviewing)
      (sample_change ''normal'') [sample_vote ''human'' CabApproved] = Inr False"
    "chg_change_type (sample_change ''normal'') \<noteq> JStr ''standard''"
    "chg_gate (sample_change ''normal'') [sample_vote ''human'' CabApproved] sample_reviewing = Inr Approved"
    by code_simp+
  with gate_is_headline [of sample_reviewing "sample_change ''normal''" "[sample_vote ''human'' CabApproved]" "''n''"]
  show ?thesis by simp
qed

text \<open>
  The exception is real: a standard change moved to review by a validation or a status event is
  accepted for implementation at the gate, while its headline status stays in review.
\<close>

lemma standard_in_review_diverges:
  "chg_gate (sample_change ''standard'') [] sample_reviewing = Inr Approved"
  "map_sum id cs_status (chg_derive ''n'' (sample_change ''standard'') [] sample_reviewing) = Inr Reviewing"
  by code_simp+

text \<open>
  A raw status event from approved to scheduled is accepted without a window, and a raw status
  event back to approved leaves the window of a scheduled change in place.
\<close>

definition sample_raw :: "string \<Rightarrow> string \<Rightarrow> jobj" where
  "sample_raw ts to = sample_event ts ''status'' [(''to'', JStr to)]"

lemma raw_status_schedules:
  "map_sum id (\<lambda>c. (c_status c, c_scheduled_window c)) (fold_change ''n'' (sample_change ''standard'')
     [sample_raw ''1'' ''scheduled''] []) = Inr (Scheduled, None)"
  "map_sum id (\<lambda>c. (c_status c, c_scheduled_window c = None)) (fold_change ''n'' (sample_change ''standard'')
     [sample_event ''1'' ''schedule'' [], sample_raw ''2'' ''approved''] []) = Inr (Approved, False)"
  by code_simp+

end
