(* ===== verification/Py_State.thy ===== *)
theory Py_State
  imports PyValue
begin

text \<open>
  Methods that read and write files: a state-passing computation that may raise. What a method
  wrote before it raised stays written, so an exception carries the state it leaves behind. The
  lemmas carry a property of the state through such a computation.
\<close>

named_theorems keeps_intros \<open>rules that show that a method keeps a property of the state\<close>

type_synonym ('s, 'a) op = "'s \<Rightarrow> 'a result \<times> 's"

definition op_return :: "'a \<Rightarrow> ('s, 'a) op" where
  "op_return x = (\<lambda>s. (Inr x, s))"

definition op_raise :: "py_error \<Rightarrow> ('s, 'a) op" where
  "op_raise e = (\<lambda>s. (Inl e, s))"

definition op_bind :: "('s, 'a) op \<Rightarrow> ('a \<Rightarrow> ('s, 'b) op) \<Rightarrow> ('s, 'b) op" where
  "op_bind m f = (\<lambda>s. case m s of (Inl e, s') \<Rightarrow> (Inl e, s') | (Inr x, s') \<Rightarrow> f x s')"

text \<open>A read of the state, one that may raise, and a write.\<close>

definition op_read :: "('s \<Rightarrow> 'a) \<Rightarrow> ('s, 'a) op" where
  "op_read f = (\<lambda>s. (Inr (f s), s))"

definition op_result :: "('s \<Rightarrow> 'a result) \<Rightarrow> ('s, 'a) op" where
  "op_result f = (\<lambda>s. (f s, s))"

definition op_write :: "('s \<Rightarrow> 's) \<Rightarrow> ('s, unit) op" where
  "op_write f = (\<lambda>s. (Inr (), f s))"

definition op_when :: "bool \<Rightarrow> ('s, unit) op \<Rightarrow> ('s, unit) op" where
  "op_when b m = (if b then m else op_return ())"

fun op_for :: "'a list \<Rightarrow> ('a \<Rightarrow> ('s, unit) op) \<Rightarrow> ('s, unit) op" where
  "op_for [] f = op_return ()"
| "op_for (x # xs) f = op_bind (f x) (\<lambda>_. op_for xs f)"

text \<open>A loop that collects what its body returns; \<open>None\<close> adds nothing.\<close>

fun op_collect :: "'a list \<Rightarrow> ('a \<Rightarrow> ('s, 'b option) op) \<Rightarrow> ('s, 'b list) op" where
  "op_collect [] f = op_return []"
| "op_collect (x # xs) f = op_bind (f x) (\<lambda>y. op_bind (op_collect xs f) (\<lambda>ys.
     op_return (case y of None \<Rightarrow> ys | Some v \<Rightarrow> v # ys)))"

text \<open>\<open>try: ... except (E1, E2): continue\<close>.\<close>

definition op_catch :: "(py_error \<Rightarrow> bool) \<Rightarrow> ('s, 'a) op \<Rightarrow> 'a \<Rightarrow> ('s, 'a) op" where
  "op_catch handles m v = (\<lambda>s. case m s of
      (Inl e, s') \<Rightarrow> (if handles e then Inr v else Inl e, s')
    | (Inr x, s') \<Rightarrow> (Inr x, s'))"

lemma op_run [simp]:
  "op_return x s = (Inr x, s)"
  "op_raise e s = (Inl e, s)"
  "op_read f s = (Inr (f s), s)"
  "op_result r s = (r s, s)"
  "op_write g s = (Inr (), g s)"
  by (simp_all add: op_return_def op_raise_def op_read_def op_result_def op_write_def)

lemma op_bind_run:
  "op_bind m f s = (case m s of (Inl e, s') \<Rightarrow> (Inl e, s') | (Inr x, s') \<Rightarrow> f x s')"
  by (simp add: op_bind_def)

lemma op_bind_simps [simp]:
  "op_bind (op_return x) f = f x"
  "op_bind (op_raise e) f = op_raise e"
  "op_bind (op_read g) f s = f (g s) s"
  "op_bind (op_write h) k s = k () (h s)"
  by (auto simp: op_bind_def op_return_def op_raise_def op_read_def op_write_def)

lemma op_bind_result: "r s = Inr x \<Longrightarrow> op_bind (op_result r) f s = f x s"
  by (simp add: op_bind_run)

lemma op_when_simps [simp]: "op_when True m = m" "op_when False m = op_return ()"
  by (simp_all add: op_when_def)

lemma op_bind_InrD:
  assumes "op_bind m f s = (Inr y, s')"
  obtains x t where "m s = (Inr x, t)" "f x t = (Inr y, s')"
proof (cases "m s")
  case (Pair r t)
  with assms that show thesis by (cases r) (auto simp: op_bind_run)
qed

section \<open>Properties of the state that a method keeps\<close>

text \<open>
  \<open>op_keeps R m\<close>: whatever the method does, raising included, the state it leaves is related to the
  state it found. For a preorder \<open>R\<close> the property composes.
\<close>

definition op_keeps :: "('s \<Rightarrow> 's \<Rightarrow> bool) \<Rightarrow> ('s, 'a) op \<Rightarrow> bool" where
  "op_keeps R m \<longleftrightarrow> (\<forall>s. R s (snd (m s)))"

lemma op_keepsD: "op_keeps R m \<Longrightarrow> R s (snd (m s))"
  by (simp add: op_keeps_def)

lemma op_keeps_run: "op_keeps R m \<Longrightarrow> m s = (r, s') \<Longrightarrow> R s s'"
  by (metis op_keepsD snd_conv)

locale op_order =
  fixes R :: "'s \<Rightarrow> 's \<Rightarrow> bool"
  assumes refl: "R s s" and trans: "R s t \<Longrightarrow> R t u \<Longrightarrow> R s u"
begin

lemma keeps_return: "op_keeps R (op_return x)"
  and keeps_raise: "op_keeps R (op_raise e)"
  and keeps_read: "op_keeps R (op_read f)"
  and keeps_result: "op_keeps R (op_result r)"
  by (simp_all add: op_keeps_def refl)

lemma keeps_bind:
  assumes "op_keeps R m" and "\<And>x. op_keeps R (f x)"
  shows "op_keeps R (op_bind m f)"
  unfolding op_keeps_def op_bind_run
proof
  fix s
  obtain r t where m: "m s = (r, t)" by (cases "m s")
  then have "R s t" using op_keeps_run [OF assms(1)] by blast
  with m show "R s (snd (case m s of (Inl e, s') \<Rightarrow> (Inl e, s') | (Inr x, s') \<Rightarrow> f x s'))"
    using op_keepsD [OF assms(2)] by (cases r) (auto intro: trans)
qed

lemma keeps_when: "op_keeps R m \<Longrightarrow> op_keeps R (op_when b m)"
  by (cases b) (simp_all add: keeps_return)

lemma keeps_for: "(\<And>x. op_keeps R (f x)) \<Longrightarrow> op_keeps R (op_for xs f)"
  by (induction xs) (simp_all add: keeps_return keeps_bind)

lemma keeps_collect: "(\<And>x. op_keeps R (f x)) \<Longrightarrow> op_keeps R (op_collect xs f)"
  by (induction xs) (simp_all add: keeps_return keeps_bind)

lemma keeps_catch: "op_keeps R m \<Longrightarrow> op_keeps R (op_catch h m v)"
  unfolding op_keeps_def op_catch_def
  by (auto split: prod.split sum.split) (metis snd_conv)+

lemmas keeps = keeps_return keeps_raise keeps_read keeps_result keeps_bind keeps_when keeps_for
  keeps_collect keeps_catch

end

lemma op_keeps_if [keeps_intros]:
  "(b \<Longrightarrow> op_keeps R m) \<Longrightarrow> (\<not> b \<Longrightarrow> op_keeps R n) \<Longrightarrow> op_keeps R (if b then m else n)"
  by simp

lemma op_keeps_option [keeps_intros]:
  "(x = None \<Longrightarrow> op_keeps R m) \<Longrightarrow> (\<And>y. x = Some y \<Longrightarrow> op_keeps R (f y))
     \<Longrightarrow> op_keeps R (case x of None \<Rightarrow> m | Some y \<Rightarrow> f y)"
  by (cases x) simp_all

lemma op_keeps_write [keeps_intros]: "(\<And>s. R s (h s)) \<Longrightarrow> op_keeps R (op_write h)"
  by (simp add: op_keeps_def)

end
