(* ===== verification/Itil_Store.thy ===== *)
theory Itil_Store
  imports Itil_Incident Itil_Problem Itil_Cab Py_State
begin

text \<open>
  The files of \<open>ITILManager\<close>: per record a write-once core, an optional redirect stub and one
  append-only event log per writer. Modelled are the file operations of the manager, from
  \<open>_writer_id\<close> to \<open>_fold_record\<close>, and the vote and known-error files. A directory is a list of
  named entries; file names are single path segments. Log files consist of complete lines.
\<close>

section \<open>Files\<close>

text \<open>The content of a JSON file: a value, or text that does not parse.\<close>

datatype json_file = FJson json | FBad

text \<open>A line of a log: a JSON value, text that does not parse, or white space.\<close>

datatype log_line = LJson json | LBad | LBlank

record record_dir =
  rd_cores :: "(string \<times> json_file) list"
  rd_redirects :: "(string \<times> json_file) list"
  rd_logs :: "(string \<times> (string \<times> log_line list) list) list"

text \<open>
  The outside of the manager: the clock (the n-th reading, as ISO text), the n-th random
  identifier in hexadecimal, the host name, the four-byte BLAKE2b digest in hexadecimal, and the
  GTD sink, which answers a capture with an item id or nothing.
\<close>

record gtd_capture =
  g_text :: string
  g_ref :: string
  g_status :: string
  g_priority :: "string option"

record itil_env =
  env_clock :: "nat \<Rightarrow> string"
  env_uuid :: "nat \<Rightarrow> string"
  env_host :: string
  env_digest :: "string \<Rightarrow> string"
  env_gtd :: "gtd_capture list \<Rightarrow> gtd_capture \<Rightarrow> string option"

text \<open>
  The state: the record directories, the vote and known-error files, how many clock readings and
  random identifiers were used, and what was sent outside, oldest first: published events,
  captured GTD items and completed GTD items. The last two fields are the lists and the archive of
  the GTD tool, which only the reconcile sweep edits directly.
\<close>

record itil =
  it_incidents :: record_dir
  it_problems :: record_dir
  it_changes :: record_dir
  it_cab :: "(string \<times> json_file) list"
  it_kedb :: "(string \<times> json_file) list"
  it_ticks :: nat
  it_ids :: nat
  it_bus :: "(string \<times> jobj) list"
  it_gtd :: "gtd_capture list"
  it_done :: "string list"
  it_lists :: "(string \<times> jobj list) list"
  it_archive :: "jobj list"

definition now_iso :: "itil_env \<Rightarrow> itil \<Rightarrow> string" where
  "now_iso env w = env_clock env (it_ticks w)"

definition writer_id :: "itil_env \<Rightarrow> string \<Rightarrow> string" where
  "writer_id env agent = (if agent = [] then ''unknown'' else agent) @ ''@'' @ env_host env"

definition record_logs :: "record_dir \<Rightarrow> string \<Rightarrow> (string \<times> log_line list) list" where
  "record_logs rd rid = (case map_of (rd_logs rd) rid of None \<Rightarrow> [] | Some fs \<Rightarrow> fs)"

definition log_file :: "record_dir \<Rightarrow> string \<Rightarrow> string \<Rightarrow> log_line list" where
  "log_file rd rid f = (case map_of (record_logs rd rid) f of None \<Rightarrow> [] | Some ls \<Rightarrow> ls)"

definition has_core :: "record_dir \<Rightarrow> string \<Rightarrow> bool" where
  "has_core rd rid = (map_of (rd_cores rd) rid \<noteq> None)"

text \<open>\<open>O_CREAT | O_EXCL\<close>: an existing core wins.\<close>

definition write_core :: "string \<Rightarrow> jobj \<Rightarrow> record_dir \<Rightarrow> record_dir" where
  "write_core rid core rd =
     (if has_core rd rid then rd
      else rd\<lparr>rd_cores := rd_cores rd @ [(rid, FJson (JObj core))]\<rparr>)"

text \<open>
  The event line: the sequence number is the line count of the writer's own file, and the payload
  is laid over the six header fields.
\<close>

definition make_event ::
    "itil_env \<Rightarrow> nat \<Rightarrow> nat \<Rightarrow> nat \<Rightarrow> string \<Rightarrow> string \<Rightarrow> jobj \<Rightarrow> jobj" where
  "make_event env ids ticks seq agent kind payload =
     fold (\<lambda>(k, v) d. set_item k v d) payload
       [(''event_id'', JStr (env_uuid env ids)), (''ts'', JStr (env_clock env ticks)),
        (''writer'', JStr agent), (''node'', JStr (env_host env)), (''seq'', JInt (int seq)),
        (''kind'', JStr kind)]"

definition append_line :: "string \<Rightarrow> string \<Rightarrow> log_line \<Rightarrow> record_dir \<Rightarrow> record_dir" where
  "append_line rid f l rd =
     rd\<lparr>rd_logs := AList.update rid (AList.update f (log_file rd rid f @ [l]) (record_logs rd rid))
                     (rd_logs rd)\<rparr>"

text \<open>A record type of the manager: where its directory is.\<close>

datatype kind_dir = Incidents | Problems | Changes

fun dir_of :: "kind_dir \<Rightarrow> itil \<Rightarrow> record_dir" where
  "dir_of Incidents w = it_incidents w"
| "dir_of Problems w = it_problems w"
| "dir_of Changes w = it_changes w"

fun put_dir :: "kind_dir \<Rightarrow> record_dir \<Rightarrow> itil \<Rightarrow> itil" where
  "put_dir Incidents rd w = w\<lparr>it_incidents := rd\<rparr>"
| "put_dir Problems rd w = w\<lparr>it_problems := rd\<rparr>"
| "put_dir Changes rd w = w\<lparr>it_changes := rd\<rparr>"

definition op_write_core :: "kind_dir \<Rightarrow> string \<Rightarrow> jobj \<Rightarrow> (itil, unit) op" where
  "op_write_core k rid core = op_write (\<lambda>w. put_dir k (write_core rid core (dir_of k w)) w)"

definition append_event ::
    "itil_env \<Rightarrow> kind_dir \<Rightarrow> string \<Rightarrow> string \<Rightarrow> string \<Rightarrow> jobj \<Rightarrow> itil \<Rightarrow> itil" where
  "append_event env k rid agent kind payload w =
     (let rd = dir_of k w; f = writer_id env agent;
          e = make_event env (it_ids w) (it_ticks w) (length (log_file rd rid f)) agent kind payload
      in (put_dir k (append_line rid f (LJson (JObj e)) rd) w)
           \<lparr>it_ticks := it_ticks w + 1, it_ids := it_ids w + 1\<rparr>)"

definition op_append ::
    "itil_env \<Rightarrow> kind_dir \<Rightarrow> string \<Rightarrow> string \<Rightarrow> string \<Rightarrow> jobj \<Rightarrow> (itil, unit) op" where
  "op_append env k rid agent kind payload = op_write (append_event env k rid agent kind payload)"

section \<open>Reading the logs\<close>

fun line_values :: "log_line list \<Rightarrow> json list" where
  "line_values [] = []"
| "line_values (LJson v # ls) = v # line_values ls"
| "line_values (LBad # ls) = line_values ls"
| "line_values (LBlank # ls) = line_values ls"

text \<open>
  The sort key \<open>(ts, node, writer, seq)\<close>. A value that is not an object has no \<open>get\<close>. Fields of
  other types than text and integer cannot be compared with the fields of an ordinary event.
\<close>

type_synonym ev_key = "string \<times> string \<times> string \<times> int"

fun as_obj :: "json \<Rightarrow> jobj result" where
  "as_obj (JObj d) = Inr d"
| "as_obj _ = Inl AttributeError"

definition event_key :: "jobj \<Rightarrow> ev_key option" where
  "event_key e =
     (case (get_d e ''ts'' (JStr []), get_d e ''node'' (JStr []), get_d e ''writer'' (JStr []),
            get_d e ''seq'' (JInt 0)) of
        (JStr a, JStr b, JStr c, JInt n) \<Rightarrow> Some (a, b, c, n)
      | _ \<Rightarrow> None)"

definition sort_events :: "jobj list \<Rightarrow> jobj list result" where
  "sort_events es =
     (if length es \<le> 1 then Inr es
      else if list_all (\<lambda>e. event_key e \<noteq> None) es then Inr (sort_key (\<lambda>e. the (event_key e)) es)
      else Inl TypeError)"

definition read_events :: "record_dir \<Rightarrow> string \<Rightarrow> jobj list result" where
  "read_events rd rid =
     r_bind (r_map as_obj (concat (map (\<lambda>(f, ls). line_values ls) (sort_key fst (record_logs rd rid)))))
       sort_events"

text \<open>The core as \<open>_load_core\<close> returns it: absent, unreadable or \<open>null\<close> is \<open>None\<close>.\<close>

definition load_core :: "record_dir \<Rightarrow> string \<Rightarrow> json option" where
  "load_core rd rid =
     (case map_of (rd_cores rd) rid of
        Some (FJson v) \<Rightarrow> (if v = JNull then None else Some v)
      | _ \<Rightarrow> None)"

text \<open>The target of a redirect stub: \<open>None\<close> when the stub cannot be read.\<close>

definition redirect_target :: "json_file \<Rightarrow> json option" where
  "redirect_target f = (case f of FJson (JObj d) \<Rightarrow> map_of d ''canonical'' | _ \<Rightarrow> None)"

text \<open>
  Redirects are followed until a core, a missing stub, an unreadable stub or a name already seen.
  Every round adds the name of an existing stub to those seen, so the chase ends.
\<close>

function resolve_from :: "record_dir \<Rightarrow> string set \<Rightarrow> string \<Rightarrow> string result" where
  "resolve_from rd seen cur =
     (if cur \<in> seen then Inr cur
      else if has_core rd cur then Inr cur
      else case map_of (rd_redirects rd) cur of
             None \<Rightarrow> Inr cur
           | Some f \<Rightarrow>
               (case redirect_target f of
                  None \<Rightarrow> Inr cur
                | Some (JStr next_id) \<Rightarrow> resolve_from rd (insert cur seen) next_id
                | Some _ \<Rightarrow> Inl TypeError))"
  by pat_completeness auto
termination
proof (relation "measure (\<lambda>(rd, seen, cur). card (fst ` set (rd_redirects rd) - seen))")
  fix rd :: record_dir and seen cur f x2 x3
  assume "cur \<notin> seen" "map_of (rd_redirects rd) cur = Some f"
  then have "cur \<in> fst ` set (rd_redirects rd) - seen"
    by (auto dest!: map_of_SomeD intro: rev_image_eqI)
  then have "fst ` set (rd_redirects rd) - insert cur seen \<subset> fst ` set (rd_redirects rd) - seen"
    by auto
  then have "card (fst ` set (rd_redirects rd) - insert cur seen) < card (fst ` set (rd_redirects rd) - seen)"
    by (intro psubset_card_mono) auto
  then show "((rd, insert cur seen, x3), rd, seen, cur)
      \<in> measure (\<lambda>(rd, seen, cur). card (fst ` set (rd_redirects rd) - seen))"
    by simp
qed simp

declare resolve_from.simps [simp del]

definition resolve_id :: "record_dir \<Rightarrow> string \<Rightarrow> string result" where
  "resolve_id rd rid = resolve_from rd {} rid"

definition record_exists :: "record_dir \<Rightarrow> string \<Rightarrow> bool result" where
  "record_exists rd rid = r_bind (resolve_id rd rid) (\<lambda>r. Inr (has_core rd r))"

text \<open>
  Only the writer's own file is read. A line that holds a value without \<open>get\<close> raises.
\<close>

fun has_kind :: "string \<Rightarrow> log_line list \<Rightarrow> bool result" where
  "has_kind kind [] = Inr False"
| "has_kind kind (LJson v # ls) =
     r_bind (as_obj v) (\<lambda>e. if get e ''kind'' = JStr kind then Inr True else has_kind kind ls)"
| "has_kind kind (LBad # ls) = has_kind kind ls"
| "has_kind kind (LBlank # ls) = has_kind kind ls"

definition writer_has_kind ::
    "itil_env \<Rightarrow> record_dir \<Rightarrow> string \<Rightarrow> string \<Rightarrow> string \<Rightarrow> bool result" where
  "writer_has_kind env rd rid agent kind = has_kind kind (log_file rd rid (writer_id env agent))"

section \<open>Folding a record\<close>

text \<open>
  \<open>_fold_record\<close>: without a readable core the redirect stub is followed. The recursive call stands
  inside the \<open>try\<close> of the caller, so whatever it raises, the exhausted stack included, is \<open>None\<close>
  there; the fuel is the stack. A log that cannot be read raises, a fold that fails is \<open>None\<close>.
\<close>

definition fold_here ::
    "(string \<Rightarrow> jobj \<Rightarrow> jobj list \<Rightarrow> 'm result) \<Rightarrow> record_dir \<Rightarrow> string \<Rightarrow> json \<Rightarrow> 'm option result" where
  "fold_here fold_model rd rid core =
     r_bind (read_events rd rid) (\<lambda>es. Inr (case core of
         JObj c \<Rightarrow> (case fold_model rid c es of Inl _ \<Rightarrow> None | Inr m \<Rightarrow> Some m)
       | _ \<Rightarrow> None))"

definition redirect_next :: "record_dir \<Rightarrow> string \<Rightarrow> string option" where
  "redirect_next rd rid =
     (if load_core rd rid \<noteq> None then None
      else case map_of (rd_redirects rd) rid of
             None \<Rightarrow> None
           | Some f \<Rightarrow>
               (case redirect_target f of
                  Some (JStr t) \<Rightarrow> (if t \<noteq> rid then Some t else None)
                | _ \<Rightarrow> None))"

fun fold_record ::
    "(string \<Rightarrow> jobj \<Rightarrow> jobj list \<Rightarrow> 'm result) \<Rightarrow> nat \<Rightarrow> record_dir \<Rightarrow> string \<Rightarrow> 'm option result" where
  "fold_record fold_model n rd rid =
     (case load_core rd rid of
        Some core \<Rightarrow> fold_here fold_model rd rid core
      | None \<Rightarrow>
          (case redirect_next rd rid of
             None \<Rightarrow> Inr None
           | Some t \<Rightarrow>
               (case n of
                  0 \<Rightarrow> Inr None
                | Suc k \<Rightarrow> (case fold_record fold_model k rd t of Inl _ \<Rightarrow> Inr None | Inr r \<Rightarrow> Inr r))))"

declare fold_record.simps [simp del]

definition fold_fuel :: "record_dir \<Rightarrow> nat" where
  "fold_fuel rd = card (set (map fst (rd_redirects rd)))"

text \<open>\<open>_load_records\<close>: every directory with a core, in the order of its name.\<close>

definition load_records ::
    "(string \<Rightarrow> jobj \<Rightarrow> jobj list \<Rightarrow> 'm result) \<Rightarrow> record_dir \<Rightarrow> 'm list result" where
  "load_records fold_model rd =
     r_bind (r_map (fold_record fold_model (fold_fuel rd) rd) (sort (map fst (rd_cores rd))))
       (\<lambda>rs. Inr (List.map_filter id rs))"

section \<open>Vote and known-error files\<close>

text \<open>\<open>model_validate\<close> of a required and of a defaulted text field.\<close>

definition req_str :: "jobj \<Rightarrow> string \<Rightarrow> string result" where
  "req_str d k = (case map_of d k of None \<Rightarrow> Inl ValidationError | Some v \<Rightarrow> as_str v)"

definition dflt_str :: "jobj \<Rightarrow> string \<Rightarrow> string \<Rightarrow> string result" where
  "dflt_str d k v0 = as_str (get_d d k (JStr v0))"

fun as_list :: "json \<Rightarrow> string list result" where
  "as_list (JList xs) = as_str_list xs"
| "as_list _ = Inl ValidationError"

definition vote_of_json :: "string \<Rightarrow> json \<Rightarrow> cab_decision result" where
  "vote_of_json now v = (case v of JObj d \<Rightarrow>
     r_bind (req_str d ''change_id'') (\<lambda>cid.
     r_bind (req_str d ''agent'') (\<lambda>agent.
     r_bind (dflt_str d ''subject_role'' []) (\<lambda>role.
     r_bind (dflt_str d ''subject_fingerprint'' []) (\<lambda>fingerprint.
     r_bind (dflt_str d ''authorization_id'' []) (\<lambda>auth.
     r_bind (enum_of cab_decision_value_str cab_decision_values
               (get_d d ''decision'' (JStr ''abstain''))) (\<lambda>decision.
     r_bind (dflt_str d ''conditions'' []) (\<lambda>conditions.
     r_bind (dflt_str d ''decided_at'' now) (\<lambda>at.
       Inr \<lparr>v_change_id = cid, v_agent = agent, v_subject_role = role,
            v_subject_fingerprint = fingerprint, v_authorization_id = auth,
            v_decision = decision, v_conditions = conditions, v_decided_at = at\<rparr>))))))))
   | _ \<Rightarrow> Inl ValidationError)"

definition vote_to_json :: "cab_decision \<Rightarrow> json" where
  "vote_to_json v = JObj
     [(''change_id'', JStr (v_change_id v)), (''agent'', JStr (v_agent v)),
      (''subject_role'', JStr (v_subject_role v)),
      (''subject_fingerprint'', JStr (v_subject_fingerprint v)),
      (''authorization_id'', JStr (v_authorization_id v)),
      (''decision'', JStr (cab_decision_value_str (v_decision v))),
      (''conditions'', JStr (v_conditions v)), (''decided_at'', JStr (v_decided_at v))]"

definition ends_with :: "string \<Rightarrow> string \<Rightarrow> bool" where
  "ends_with s p = (length p \<le> length s \<and> drop (length s - length p) s = p)"

text \<open>The glob \<open>f"{change_id}-*.json"\<close> on a file name, in the order of the directory listing.\<close>

definition vote_file_matches :: "string \<Rightarrow> string \<Rightarrow> bool" where
  "vote_file_matches change_id name =
     (starts_with name (change_id @ ''-'')
      \<and> ends_with (drop (length change_id + 1) name) ''.json'')"

fun file_json :: "json_file \<Rightarrow> json result" where
  "file_json (FJson v) = Inr v"
| "file_json FBad = Inl (ValueError ''not JSON'')"

definition valid_files :: "(json \<Rightarrow> 'a result) \<Rightarrow> (string \<times> json_file) list \<Rightarrow> 'a list" where
  "valid_files parse files =
     List.map_filter (\<lambda>(name, f). case r_bind (file_json f) parse of Inl _ \<Rightarrow> None | Inr x \<Rightarrow> Some x) files"

definition cab_votes :: "string \<Rightarrow> itil \<Rightarrow> string \<Rightarrow> cab_decision list" where
  "cab_votes now w change_id =
     valid_files (vote_of_json now) (filter (\<lambda>(name, f). vote_file_matches change_id name) (it_cab w))"

definition kedb_of_json :: "string \<Rightarrow> string \<Rightarrow> json \<Rightarrow> kedb_entry result" where
  "kedb_of_json now new_id v = (case v of JObj d \<Rightarrow>
     r_bind (dflt_str d ''id'' new_id) (\<lambda>kid.
     r_bind (req_str d ''title'') (\<lambda>title.
     r_bind (as_list (get_d d ''symptoms'' (JList []))) (\<lambda>symptoms.
     r_bind (dflt_str d ''root_cause'' []) (\<lambda>root_cause.
     r_bind (dflt_str d ''workaround'' []) (\<lambda>workaround.
     r_bind (as_opt_str (get d ''permanent_fix_change_id'')) (\<lambda>fix_id.
     r_bind (as_opt_str (get d ''related_problem_id'')) (\<lambda>problem_id.
     r_bind (dflt_str d ''managed_by'' []) (\<lambda>managed_by.
     r_bind (dflt_str d ''created_at'' now) (\<lambda>created_at.
     r_bind (as_list (get_d d ''tags'' (JList []))) (\<lambda>tags.
       Inr \<lparr>k_id = kid, k_title = title, k_symptoms = symptoms, k_root_cause = root_cause,
            k_workaround = workaround, k_permanent_fix_change_id = fix_id,
            k_related_problem_id = problem_id, k_managed_by = managed_by,
            k_created_at = created_at, k_tags = tags\<rparr>))))))))))
   | _ \<Rightarrow> Inl ValidationError)"

definition kedb_to_json :: "kedb_entry \<Rightarrow> json" where
  "kedb_to_json k = JObj
     [(''id'', JStr (k_id k)), (''title'', JStr (k_title k)),
      (''symptoms'', JList (map JStr (k_symptoms k))), (''root_cause'', JStr (k_root_cause k)),
      (''workaround'', JStr (k_workaround k)),
      (''permanent_fix_change_id'', of_opt_str (k_permanent_fix_change_id k)),
      (''related_problem_id'', of_opt_str (k_related_problem_id k)),
      (''managed_by'', JStr (k_managed_by k)), (''created_at'', JStr (k_created_at k)),
      (''tags'', JList (map JStr (k_tags k)))]"

definition load_kedb :: "string \<Rightarrow> string \<Rightarrow> itil \<Rightarrow> kedb_entry list" where
  "load_kedb now new_id w =
     valid_files (kedb_of_json now new_id)
       (sort_key fst (filter (\<lambda>(name, f). ends_with name ''.json'') (it_kedb w)))"

text \<open>The three folds over the files.\<close>

definition incident_model :: "string \<Rightarrow> string \<Rightarrow> jobj \<Rightarrow> jobj list \<Rightarrow> incident result" where
  "incident_model now rid core es = fold_incident now core es"

definition problem_model :: "string \<Rightarrow> string \<Rightarrow> jobj \<Rightarrow> jobj list \<Rightarrow> problem result" where
  "problem_model now rid core es = fold_problem now core es"

definition change_model :: "string \<Rightarrow> itil \<Rightarrow> string \<Rightarrow> jobj \<Rightarrow> jobj list \<Rightarrow> change result" where
  "change_model now w rid core es =
     fold_change now core es (cab_votes now w (py_str (get_d core ''id'' (JStr rid))))"

definition incident_at :: "itil_env \<Rightarrow> itil \<Rightarrow> string \<Rightarrow> incident option result" where
  "incident_at env w rid =
     fold_record (incident_model (now_iso env w)) (fold_fuel (it_incidents w)) (it_incidents w) rid"

definition problem_at :: "itil_env \<Rightarrow> itil \<Rightarrow> string \<Rightarrow> problem option result" where
  "problem_at env w rid =
     fold_record (problem_model (now_iso env w)) (fold_fuel (it_problems w)) (it_problems w) rid"

definition change_at :: "itil_env \<Rightarrow> itil \<Rightarrow> string \<Rightarrow> change option result" where
  "change_at env w rid =
     fold_record (change_model (now_iso env w) w) (fold_fuel (it_changes w)) (it_changes w) rid"

end
