(* ===== verification/Itil_Ops.thy ===== *)
theory Itil_Ops
  imports Itil_Store
begin

text \<open>
  The public operations of \<open>ITILManager\<close>: creating and updating incidents, problems and changes,
  votes and known errors. An operation is a computation over the manager's files, its counters
  and what it sent outside; an optional text argument that the code only tests for truth is the
  empty string when absent.
\<close>

section \<open>Clock, identifiers and the outside\<close>

definition op_now :: "itil_env \<Rightarrow> (itil, string) op" where
  "op_now env = (\<lambda>w. (Inr (env_clock env (it_ticks w)), w\<lparr>it_ticks := it_ticks w + 1\<rparr>))"

text \<open>\<open>uuid.uuid4().hex[:8]\<close>.\<close>

definition op_new_id :: "itil_env \<Rightarrow> (itil, string) op" where
  "op_new_id env = (\<lambda>w. (Inr (take 8 (env_uuid env (it_ids w))), w\<lparr>it_ids := it_ids w + 1\<rparr>))"

definition op_publish :: "string \<Rightarrow> jobj \<Rightarrow> (itil, unit) op" where
  "op_publish topic payload = op_write (\<lambda>w. w\<lparr>it_bus := it_bus w @ [(topic, payload)]\<rparr>)"

definition op_gtd_emit ::
    "itil_env \<Rightarrow> string \<Rightarrow> string \<Rightarrow> string \<Rightarrow> string option \<Rightarrow> (itil, string option) op" where
  "op_gtd_emit env text source_ref status priority =
     (let c = \<lparr>g_text = text, g_ref = source_ref, g_status = status, g_priority = priority\<rparr>
      in (\<lambda>w. (Inr (env_gtd env (it_gtd w) c), w\<lparr>it_gtd := it_gtd w @ [c]\<rparr>)))"

definition op_complete_gtd :: "string list \<Rightarrow> (itil, unit) op" where
  "op_complete_gtd ids = op_write (\<lambda>w. w\<lparr>it_done := it_done w @ ids\<rparr>)"

definition op_link_gtd :: "itil_env \<Rightarrow> kind_dir \<Rightarrow> string \<Rightarrow> string \<Rightarrow> string option \<Rightarrow> (itil, unit) op" where
  "op_link_gtd env k rid agent gid =
     (case gid of None \<Rightarrow> op_return ()
      | Some g \<Rightarrow> op_when (g \<noteq> []) (op_append env k rid agent ''gtd_link'' [(''id'', JStr g)]))"

section \<open>Slugs and deterministic identifiers\<close>

definition is_word :: "char \<Rightarrow> bool" where
  "is_word c = (let n = (of_char c :: nat) in
     (48 \<le> n \<and> n \<le> 57) \<or> (65 \<le> n \<and> n \<le> 90) \<or> n = 95 \<or> (97 \<le> n \<and> n \<le> 122)
     \<or> n \<in> {170, 178, 179, 181, 185, 186, 188, 189, 190}
     \<or> (192 \<le> n \<and> n \<noteq> 215 \<and> n \<noteq> 247))"

text \<open>\<open>re.sub("[\s_]+", "-", s)\<close>.\<close>

fun collapse_blanks :: "bool \<Rightarrow> string \<Rightarrow> string" where
  "collapse_blanks inside [] = []"
| "collapse_blanks inside (c # s) =
     (if is_space c \<or> c = CHR ''_''
      then (if inside then collapse_blanks True s else CHR ''-'' # collapse_blanks True s)
      else c # collapse_blanks False s)"

definition strip_dashes :: "string \<Rightarrow> string" where
  "strip_dashes s = rev (dropWhile (\<lambda>c. c = CHR ''-'') (rev (dropWhile (\<lambda>c. c = CHR ''-'') s)))"

definition slugify :: "string \<Rightarrow> string" where
  "slugify text =
     (let s1 = strip (lower text);
          s2 = map (\<lambda>c. if of_char c \<in> {47, 92, 58, 42, 63, 34, 60, 62, 124 :: nat} then CHR ''-'' else c) s1;
          s3 = filter (\<lambda>c. is_word c \<or> is_space c \<or> c = CHR ''-'') s2
      in take 40 (strip_dashes (collapse_blanks False s3)))"

definition auto_incident_id :: "itil_env \<Rightarrow> string \<Rightarrow> string \<Rightarrow> string \<Rightarrow> string" where
  "auto_incident_id env service failure_class day =
     ''inc-'' @ env_digest env (service @ ''|'' @ failure_class @ ''|'' @ day)"

section \<open>Incidents\<close>

text \<open>The id of a new incident and its deduplication key: deterministic for a health check.\<close>

definition op_incident_id ::
    "itil_env \<Rightarrow> string \<Rightarrow> string \<Rightarrow> string list \<Rightarrow> string \<Rightarrow> (itil, string \<times> string) op" where
  "op_incident_id env title source services failure_class =
     (if source = ''service_health''
      then let svc = (case services of [] \<Rightarrow> title | s # _ \<Rightarrow> s);
               fc = (if failure_class = [] then ''unreachable'' else failure_class)
           in op_bind (op_now env) (\<lambda>t.
              op_return (auto_incident_id env svc fc (take 10 t), svc @ '':'' @ fc))
      else op_bind (op_new_id env) (\<lambda>u. op_return (''inc-'' @ u, [])))"

definition incident_core ::
    "string \<Rightarrow> string \<Rightarrow> severity \<Rightarrow> string \<Rightarrow> string list \<Rightarrow> string \<Rightarrow> string \<Rightarrow> string \<Rightarrow> string
       \<Rightarrow> string list \<Rightarrow> string \<Rightarrow> jobj" where
  "incident_core rid title sev source services impact agent created_by at tags dkey =
     [(''id'', JStr rid), (''type'', JStr ''incident''), (''title'', JStr title),
      (''label'', JStr (slugify title)), (''severity_at_creation'', JStr (severity_value sev)),
      (''source'', JStr source), (''affected_services'', JList (map JStr services)),
      (''impact'', JStr impact), (''managed_by'', JStr agent),
      (''created_by'', JStr (if created_by = [] then agent else created_by)),
      (''detected_at'', JStr at), (''tags'', JList (map JStr tags))]
     @ (if dkey = [] then [] else [(''dedup_key'', JStr dkey)])"

definition main_agent :: "string \<Rightarrow> string \<Rightarrow> string" where
  "main_agent managed_by created_by =
     (if managed_by \<noteq> [] then managed_by else if created_by \<noteq> [] then created_by else ''unknown'')"

text \<open>A resolved incident that is detected again is reopened before the new detection is logged.\<close>

definition op_reopen_if_resolved :: "itil_env \<Rightarrow> string \<Rightarrow> string \<Rightarrow> string \<Rightarrow> (itil, unit) op" where
  "op_reopen_if_resolved env rid agent title =
     op_bind (op_result (\<lambda>w. incident_at env w rid)) (\<lambda>existing.
       case existing of
         None \<Rightarrow> op_return ()
       | Some i \<Rightarrow> op_when (i_status i = Resolved)
           (op_append env Incidents rid agent ''reopen''
              [(''note'', JStr (''Incident recurred: '' @ title))]))"

fun severity_priority :: "severity \<Rightarrow> string" where
  "severity_priority SEV1 = ''critical''"
| "severity_priority SEV2 = ''high''"
| "severity_priority SEV3 = ''medium''"
| "severity_priority SEV4 = ''low''"

definition op_gtd_for_incident :: "itil_env \<Rightarrow> incident \<Rightarrow> (itil, string option) op" where
  "op_gtd_for_incident env i =
     op_gtd_emit env (''[ITIL:'' @ i_id i @ ''] '' @ i_title i) (i_id i)
       (if i_severity i \<in> {SEV1, SEV2} then ''next'' else ''inbox'')
       (Some (severity_priority (i_severity i)))"

text \<open>Only an incident that folds back as open is mirrored into GTD.\<close>

definition op_mirror_incident :: "itil_env \<Rightarrow> string \<Rightarrow> string \<Rightarrow> (itil, unit) op" where
  "op_mirror_incident env rid agent =
     op_bind (op_result (\<lambda>w. incident_at env w rid)) (\<lambda>inc.
       case inc of
         None \<Rightarrow> op_return ()
       | Some i \<Rightarrow> (if i_status i \<in> set open_incident_statuses
           then op_bind (op_gtd_for_incident env i) (op_link_gtd env Incidents rid agent)
           else op_return ()))"

definition create_incident ::
    "itil_env \<Rightarrow> string \<Rightarrow> string \<Rightarrow> string \<Rightarrow> string list \<Rightarrow> string \<Rightarrow> string \<Rightarrow> string
       \<Rightarrow> string list \<Rightarrow> string \<Rightarrow> (itil, incident option) op" where
  "create_incident env title severity source services impact managed_by created_by tags failure_class =
     (let agent = main_agent managed_by created_by in
      op_bind (op_incident_id env title source services failure_class) (\<lambda>(rid, dkey).
      op_bind (op_result (\<lambda>w. record_exists (it_incidents w) rid)) (\<lambda>existed.
      op_bind (op_now env) (\<lambda>at.
      op_bind (op_result (\<lambda>_. enum_of severity_value severities (JStr severity))) (\<lambda>sev.
      op_bind (op_write_core Incidents rid
        (incident_core rid title sev source services impact agent created_by at tags dkey)) (\<lambda>_.
      op_bind (op_when existed (op_reopen_if_resolved env rid agent title)) (\<lambda>_.
      op_bind (op_append env Incidents rid agent ''created''
        [(''note'', JStr (''Incident detected: '' @ title))]) (\<lambda>_.
      op_bind (op_mirror_incident env rid agent) (\<lambda>_.
      op_bind (op_publish ''itil.incident.created''
        [(''id'', JStr rid), (''title'', JStr title), (''severity'', JStr (severity_value sev)),
         (''managed_by'', JStr agent)]) (\<lambda>_.
      op_result (\<lambda>w. incident_at env w rid)))))))))))"

text \<open>\<open>_resolve_id\<close> and the existence check that every updater starts with.\<close>

definition op_locate :: "kind_dir \<Rightarrow> string \<Rightarrow> string \<Rightarrow> (itil, string) op" where
  "op_locate k what rid0 =
     op_bind (op_result (\<lambda>w. resolve_id (dir_of k w) rid0)) (\<lambda>rid.
     op_bind (op_result (\<lambda>w. record_exists (dir_of k w) rid)) (\<lambda>found.
       if found then op_return rid
       else op_raise (ValueError (what @ '' '' @ rid0 @ '' not found''))))"

text \<open>\<open>folded.gtd_item_ids\<close> of a record that did not fold raises \<open>AttributeError\<close>.\<close>

definition op_incident_gtd :: "itil_env \<Rightarrow> string \<Rightarrow> (itil, string list) op" where
  "op_incident_gtd env rid =
     op_bind (op_result (\<lambda>w. incident_at env w rid)) (\<lambda>i.
       case i of None \<Rightarrow> op_raise AttributeError | Some x \<Rightarrow> op_return (i_gtd_item_ids x))"

definition update_incident ::
    "itil_env \<Rightarrow> string \<Rightarrow> string \<Rightarrow> string \<Rightarrow> string \<Rightarrow> string \<Rightarrow> string \<Rightarrow> string \<Rightarrow> string
       \<Rightarrow> (itil, incident option) op" where
  "update_incident env incident_id agent new_status severity note resolution_summary
       related_problem_id managed_by =
     op_bind (op_locate Incidents ''Incident'' incident_id) (\<lambda>rid.
     op_bind (op_when (new_status \<noteq> [])
        (op_bind (op_append env Incidents rid agent ''status''
            ([(''to'', JStr new_status), (''note'', JStr note)]
             @ (if new_status = ''resolved'' \<and> resolution_summary \<noteq> []
                then [(''resolution_summary'', JStr resolution_summary)] else []))) (\<lambda>_.
         op_when (new_status = ''resolved'')
           (op_bind (op_incident_gtd env rid) op_complete_gtd)))) (\<lambda>_.
     op_bind (op_when (severity \<noteq> [])
        (op_bind (op_append env Incidents rid agent ''severity''
            [(''to'', JStr severity), (''note'', JStr note)]) (\<lambda>_.
         op_publish ''itil.incident.escalated''
           [(''id'', JStr rid), (''new_severity'', JStr severity)]))) (\<lambda>_.
     op_bind (op_when (related_problem_id \<noteq> [])
        (op_append env Incidents rid agent ''link_problem'' [(''id'', JStr related_problem_id)])) (\<lambda>_.
     op_bind (op_when (managed_by \<noteq> [])
        (op_append env Incidents rid agent ''assignment''
           [(''to'', JStr managed_by), (''note'', JStr note)])) (\<lambda>_.
     op_bind (op_when (note \<noteq> [] \<and> new_status = [] \<and> severity = [] \<and> managed_by = [])
        (op_append env Incidents rid agent ''note'' [(''note'', JStr note)])) (\<lambda>_.
     op_result (\<lambda>w. incident_at env w rid)))))))"

definition list_incidents ::
    "itil_env \<Rightarrow> itil \<Rightarrow> string \<Rightarrow> string \<Rightarrow> string \<Rightarrow> incident list result" where
  "list_incidents env w status severity service =
     r_bind (load_records (incident_model (now_iso env w)) (it_incidents w)) (\<lambda>incs. Inr
       (let incs1 = (if status = [] then incs else filter (\<lambda>i. incident_status_value (i_status i) = status) incs);
            incs2 = (if severity = [] then incs1 else filter (\<lambda>i. severity_value (i_severity i) = severity) incs1)
        in if service = [] then incs2 else filter (\<lambda>i. service \<in> set (i_affected_services i)) incs2))"

definition find_open_incident :: "itil_env \<Rightarrow> itil \<Rightarrow> string \<Rightarrow> incident option result" where
  "find_open_incident env w service =
     r_bind (list_incidents env w [] [] []) (\<lambda>incs. Inr
       (find (\<lambda>i. i_status i \<in> set open_incident_statuses \<and> service \<in> set (i_affected_services i)) incs))"

definition note_recovery :: "itil_env \<Rightarrow> string \<Rightarrow> string \<Rightarrow> string \<Rightarrow> (itil, unit) op" where
  "note_recovery env incident_id agent note =
     op_bind (op_result (\<lambda>w. resolve_id (it_incidents w) incident_id)) (\<lambda>rid.
     op_bind (op_result (\<lambda>w. record_exists (it_incidents w) rid)) (\<lambda>found.
       if \<not> found then op_return ()
       else op_bind (op_result (\<lambda>w. writer_has_kind env (it_incidents w) rid agent ''recovery'')) (\<lambda>already.
         if already then op_return ()
         else op_append env Incidents rid agent ''recovery'' [(''note'', JStr note)])))"

section \<open>Known errors\<close>

definition create_kedb_entry ::
    "itil_env \<Rightarrow> string \<Rightarrow> string list \<Rightarrow> string \<Rightarrow> string \<Rightarrow> string option \<Rightarrow> string option \<Rightarrow> string
       \<Rightarrow> string list \<Rightarrow> string option \<Rightarrow> (itil, kedb_entry) op" where
  "create_kedb_entry env title symptoms root_cause workaround fix_id problem_id managed_by tags entry_id =
     op_bind (case entry_id of Some i \<Rightarrow> op_return i
              | None \<Rightarrow> op_bind (op_new_id env) (\<lambda>u. op_return (''ke-'' @ u))) (\<lambda>kid.
     op_bind (op_now env) (\<lambda>at.
       let k = \<lparr>k_id = kid, k_title = title, k_symptoms = symptoms, k_root_cause = root_cause,
                k_workaround = workaround, k_permanent_fix_change_id = fix_id,
                k_related_problem_id = problem_id, k_managed_by = managed_by, k_created_at = at,
                k_tags = tags\<rparr>
       in op_bind (op_write (\<lambda>w. w\<lparr>it_kedb :=
              AList.update (kid @ ''.json'') (FJson (kedb_to_json k)) (it_kedb w)\<rparr>))
            (\<lambda>_. op_return k)))"

definition kedb_text :: "kedb_entry \<Rightarrow> string" where
  "kedb_text k = lower (join '' '' [k_title k, join '' '' (k_symptoms k), k_root_cause k,
     k_workaround k, join '' '' (k_tags k)])"

definition search_kedb :: "itil_env \<Rightarrow> itil \<Rightarrow> string \<Rightarrow> kedb_entry list" where
  "search_kedb env w query =
     filter (\<lambda>k. contains (kedb_text k) (lower query))
       (load_kedb (now_iso env w) (''ke-'' @ take 8 (env_uuid env (it_ids w))) w)"

section \<open>Problems\<close>

definition problem_core ::
    "string \<Rightarrow> string \<Rightarrow> string \<Rightarrow> string \<Rightarrow> string \<Rightarrow> string list \<Rightarrow> string \<Rightarrow> string list \<Rightarrow> jobj" where
  "problem_core rid title agent created_by at incidents workaround tags =
     [(''id'', JStr rid), (''type'', JStr ''problem''), (''title'', JStr title),
      (''label'', JStr (slugify title)), (''managed_by'', JStr agent),
      (''created_by'', JStr (if created_by = [] then agent else created_by)),
      (''created_at'', JStr at), (''related_incident_ids'', JList (map JStr incidents)),
      (''workaround'', if workaround = [] then JNull else JStr workaround),
      (''tags'', JList (map JStr tags))]"

definition op_mirror_problem :: "itil_env \<Rightarrow> string \<Rightarrow> string \<Rightarrow> (itil, unit) op" where
  "op_mirror_problem env rid agent =
     op_bind (op_result (\<lambda>w. problem_at env w rid)) (\<lambda>prb.
       case prb of
         None \<Rightarrow> op_return ()
       | Some p \<Rightarrow> (if p_status p = PResolved then op_return ()
           else op_bind (op_gtd_emit env (''[ITIL:'' @ p_id p @ ''] Investigate: '' @ p_title p) (p_id p)
                  ''project'' None) (op_link_gtd env Problems rid agent)))"

definition create_problem ::
    "itil_env \<Rightarrow> string \<Rightarrow> string \<Rightarrow> string \<Rightarrow> string list \<Rightarrow> string \<Rightarrow> string list
       \<Rightarrow> (itil, problem option) op" where
  "create_problem env title managed_by created_by incidents workaround tags =
     (let agent = main_agent managed_by created_by in
      op_bind (op_new_id env) (\<lambda>u. let rid = ''prb-'' @ u in
      op_bind (op_now env) (\<lambda>at.
      op_bind (op_write_core Problems rid
        (problem_core rid title agent created_by at incidents workaround tags)) (\<lambda>_.
      op_bind (op_append env Problems rid agent ''created''
        [(''note'', JStr (''Problem identified: '' @ title))]) (\<lambda>_.
      op_bind (op_mirror_problem env rid agent) (\<lambda>_.
      op_bind (op_publish ''itil.problem.created''
        [(''id'', JStr rid), (''title'', JStr title),
         (''related_incidents'', JList (map JStr incidents))]) (\<lambda>_.
      op_result (\<lambda>w. problem_at env w rid))))))))"

text \<open>An attribute of a problem that did not fold raises.\<close>

definition op_problem :: "itil_env \<Rightarrow> string \<Rightarrow> (itil, problem) op" where
  "op_problem env rid =
     op_bind (op_result (\<lambda>w. problem_at env w rid)) (\<lambda>p.
       case p of None \<Rightarrow> op_raise AttributeError | Some x \<Rightarrow> op_return x)"

definition op_spawn_kedb :: "itil_env \<Rightarrow> string \<Rightarrow> string \<Rightarrow> (itil, unit) op" where
  "op_spawn_kedb env rid agent =
     op_bind (op_problem env rid) (\<lambda>p.
       case p_root_cause p of
         None \<Rightarrow> op_return ()
       | Some cause \<Rightarrow> op_when (cause \<noteq> [])
           (op_bind (create_kedb_entry env (p_title p) [] cause
               (case p_workaround p of None \<Rightarrow> [] | Some x \<Rightarrow> x) None (Some (p_id p)) agent [] None) (\<lambda>k.
            op_append env Problems rid agent ''link_kedb'' [(''id'', JStr (k_id k))])))"

definition update_problem ::
    "itil_env \<Rightarrow> string \<Rightarrow> string \<Rightarrow> string \<Rightarrow> string \<Rightarrow> string \<Rightarrow> string \<Rightarrow> bool
       \<Rightarrow> (itil, problem option) op" where
  "update_problem env problem_id agent new_status root_cause workaround note create_kedb =
     op_bind (op_locate Problems ''Problem'' problem_id) (\<lambda>rid.
     op_bind (op_when (new_status \<noteq> [])
        (op_bind (op_append env Problems rid agent ''status''
            [(''to'', JStr new_status), (''note'', JStr note)]) (\<lambda>_.
         op_when (new_status = ''resolved'')
           (op_bind (op_problem env rid) (\<lambda>p. op_complete_gtd (p_gtd_item_ids p)))))) (\<lambda>_.
     op_bind (op_when (root_cause \<noteq> [])
        (op_append env Problems rid agent ''root_cause'' [(''text'', JStr root_cause)])) (\<lambda>_.
     op_bind (op_when (workaround \<noteq> [])
        (op_append env Problems rid agent ''workaround'' [(''text'', JStr workaround)])) (\<lambda>_.
     op_bind (op_when (note \<noteq> [] \<and> new_status = [])
        (op_append env Problems rid agent ''note'' [(''note'', JStr note)])) (\<lambda>_.
     op_bind (op_when create_kedb (op_spawn_kedb env rid agent)) (\<lambda>_.
     op_result (\<lambda>w. problem_at env w rid)))))))"

definition list_problems :: "itil_env \<Rightarrow> itil \<Rightarrow> string \<Rightarrow> problem list result" where
  "list_problems env w status =
     r_bind (load_records (problem_model (now_iso env w)) (it_problems w)) (\<lambda>ps. Inr
       (if status = [] then ps else filter (\<lambda>p. problem_status_value (p_status p) = status) ps))"

section \<open>Changes and votes\<close>

definition change_core ::
    "string \<Rightarrow> string \<Rightarrow> change_type \<Rightarrow> risk \<Rightarrow> string \<Rightarrow> string \<Rightarrow> string \<Rightarrow> string \<Rightarrow> string option
       \<Rightarrow> string option \<Rightarrow> string \<Rightarrow> string list \<Rightarrow> jobj" where
  "change_core rid title ct rk rollback test agent created_by implementer problem_id at tags =
     [(''id'', JStr rid), (''type'', JStr ''change''), (''title'', JStr title),
      (''label'', JStr (slugify title)), (''change_type'', JStr (change_type_value ct)),
      (''risk'', JStr (risk_value rk)), (''rollback_plan'', JStr rollback),
      (''test_plan'', JStr test), (''managed_by'', JStr agent),
      (''created_by'', JStr (if created_by = [] then agent else created_by)),
      (''implementer'', of_opt_str implementer), (''cab_required'', JBool (ct \<noteq> Standard)),
      (''related_problem_id'', of_opt_str problem_id), (''created_at'', JStr at),
      (''tags'', JList (map JStr tags))]"

definition propose_change ::
    "itil_env \<Rightarrow> string \<Rightarrow> string \<Rightarrow> string \<Rightarrow> string \<Rightarrow> string \<Rightarrow> string \<Rightarrow> string \<Rightarrow> string option
       \<Rightarrow> string option \<Rightarrow> string list \<Rightarrow> (itil, change option) op" where
  "propose_change env title change_type risk rollback test managed_by created_by implementer problem_id tags =
     (let agent = main_agent managed_by created_by in
      op_bind (op_result (\<lambda>_. enum_of change_type_value change_types (JStr change_type))) (\<lambda>ct.
      op_bind (op_new_id env) (\<lambda>u. let rid = ''chg-'' @ u in
      op_bind (op_result (\<lambda>_. enum_of risk_value risks (JStr risk))) (\<lambda>rk.
      op_bind (op_now env) (\<lambda>at.
      op_bind (op_write_core Changes rid
        (change_core rid title ct rk rollback test agent created_by implementer problem_id at tags)) (\<lambda>_.
      op_bind (op_append env Changes rid agent ''created'' [(''note'', JStr (''RFC: '' @ title))]) (\<lambda>_.
      op_bind (op_publish ''itil.change.proposed''
        [(''id'', JStr rid), (''title'', JStr title), (''change_type'', JStr (change_type_value ct)),
         (''cab_required'', JBool (ct \<noteq> Standard))]) (\<lambda>_.
      op_result (\<lambda>w. change_at env w rid)))))))))"

fun core_get :: "json \<Rightarrow> string \<Rightarrow> json \<Rightarrow> json result" where
  "core_get (JObj d) k v0 = Inr (get_d d k v0)"
| "core_get _ k v0 = Inl AttributeError"

text \<open>What an accepted status move of a change announces, decided by the folded record.\<close>

definition op_announce ::
    "itil_env \<Rightarrow> string \<Rightarrow> string \<Rightarrow> json \<Rightarrow> string \<Rightarrow> change \<Rightarrow> (itil, unit) op" where
  "op_announce env rid agent core new_status c =
     (if new_status = ''approved'' \<and> c_status c = Approved
      then
        op_bind (op_result (\<lambda>_. core_get core ''title'' (JStr []))) (\<lambda>title.
        op_bind (op_result (\<lambda>_. core_get core ''implementer'' JNull)) (\<lambda>implementer.
        op_bind (op_publish ''itil.change.approved''
          [(''id'', JStr rid), (''title'', title), (''implementer'', implementer)]) (\<lambda>_.
        op_when (truthy implementer \<and> c_gtd_item_ids c = [])
          (op_bind (op_gtd_emit env (''[ITIL:'' @ rid @ ''] Implement: '' @ py_str title) rid
              ''next'' (Some ''high'')) (op_link_gtd env Changes rid agent)))))
      else if new_status = ''deployed'' \<and> c_status c = Deployed
      then op_bind (op_result (\<lambda>_. core_get core ''title'' (JStr []))) (\<lambda>title.
        op_publish ''itil.change.deployed'' [(''id'', JStr rid), (''title'', title)])
      else op_return ())"

definition update_change ::
    "itil_env \<Rightarrow> string \<Rightarrow> string \<Rightarrow> string \<Rightarrow> string \<Rightarrow> (itil, change option) op" where
  "update_change env change_id agent new_status note =
     op_bind (op_result (\<lambda>w. resolve_id (it_changes w) change_id)) (\<lambda>rid.
     op_bind (op_read (\<lambda>w. load_core (it_changes w) rid)) (\<lambda>core_opt.
       case core_opt of
         None \<Rightarrow> op_raise (ValueError (''Change '' @ change_id @ '' not found''))
       | Some core \<Rightarrow>
     op_bind (op_when (new_status \<noteq> [])
        (op_bind (op_append env Changes rid agent ''status''
            [(''to'', JStr new_status), (''note'', JStr note)]) (\<lambda>_.
         op_bind (op_result (\<lambda>w. change_at env w rid)) (\<lambda>folded.
           case folded of None \<Rightarrow> op_raise AttributeError
           | Some c \<Rightarrow> op_announce env rid agent core new_status c)))) (\<lambda>_.
     op_bind (op_when (note \<noteq> [] \<and> new_status = [])
        (op_append env Changes rid agent ''note'' [(''note'', JStr note)])) (\<lambda>_.
     op_result (\<lambda>w. change_at env w rid)))))"

definition list_changes :: "itil_env \<Rightarrow> itil \<Rightarrow> string \<Rightarrow> change list result" where
  "list_changes env w status =
     r_bind (load_records (change_model (now_iso env w) w) (it_changes w)) (\<lambda>cs. Inr
       (if status = [] then cs else filter (\<lambda>c. change_status_value (c_status c) = status) cs))"

definition submit_cab_vote ::
    "itil_env \<Rightarrow> string \<Rightarrow> string \<Rightarrow> string \<Rightarrow> string \<Rightarrow> string \<Rightarrow> string \<Rightarrow> string \<Rightarrow> string
       \<Rightarrow> (itil, cab_decision) op" where
  "submit_cab_vote env change_id agent decision conditions subject role fingerprint authorization =
     (let voter = (if subject \<noteq> [] then subject else agent) in
      if role \<noteq> [] \<and> role \<notin> {''owner'', ''operator'', ''approver'', ''implementer''}
      then op_raise (ValueError ''unsupported CAB subject role'')
      else if role \<in> {''owner'', ''approver''} \<and> subject = []
      then op_raise (ValueError ''a qualifying human role requires an authenticated subject'')
      else
        op_bind (op_result (\<lambda>_. enum_of cab_decision_value_str cab_decision_values (JStr decision))) (\<lambda>d.
        op_bind (op_now env) (\<lambda>at.
          let v = \<lparr>v_change_id = change_id, v_agent = voter, v_subject_role = role,
                   v_subject_fingerprint = fingerprint, v_authorization_id = authorization,
                   v_decision = d, v_conditions = conditions, v_decided_at = at\<rparr>
          in op_bind (op_write (\<lambda>w. w\<lparr>it_cab := AList.update (change_id @ ''-'' @ voter @ ''.json'')
                 (FJson (vote_to_json v)) (it_cab w)\<rparr>))
               (\<lambda>_. op_return v))))"

end
