(* ===== verification/Itil_Logs.thy ===== *)
theory Itil_Logs
  imports Itil_Store "HOL-Library.Multiset"
begin

text \<open>
  What the file layout guarantees: the redirect chase ends at a meaningful place, folding through
  redirects does not depend on the size of the stack, the votes and known errors read back as
  written, and the logs converge. Two replicas that hold the same events, in whatever order, read the same history,
  and an append adds one event to it without disturbing the rest.
\<close>

section \<open>Redirects\<close>

definition hop :: "record_dir \<Rightarrow> string \<Rightarrow> string \<Rightarrow> bool" where
  "hop rd a b \<longleftrightarrow> \<not> has_core rd a
     \<and> (\<exists>f. map_of (rd_redirects rd) a = Some f \<and> redirect_target f = Some (JStr b))"

lemma resolve_from_sound:
  "resolve_from rd seen cur = Inr r \<Longrightarrow> (\<And>x. x \<in> seen \<Longrightarrow> (hop rd)\<^sup>+\<^sup>+ x cur) \<Longrightarrow>
     (hop rd)\<^sup>*\<^sup>* cur r \<and> (has_core rd r \<or> \<not> (\<exists>b. hop rd r b) \<or> (hop rd)\<^sup>+\<^sup>+ r r)"
proof (induction rd seen cur rule: resolve_from.induct)
  case (1 rd seen cur)
  show ?case
  proof (cases "cur \<in> seen \<or> has_core rd cur")
    case True
    then have "r = cur"
      using 1(2) by (subst (asm) resolve_from.simps) (auto split: if_splits)
    with True 1(3) show ?thesis by auto
  next
    case False
    show ?thesis
    proof (cases "\<exists>t. hop rd cur t")
      case no: False
      with False 1(2) have "r = cur"
        by (subst (asm) resolve_from.simps) (auto simp: hop_def split: option.splits json.splits)
      with no show ?thesis by simp
    next
      case True
      then obtain f t where f: "map_of (rd_redirects rd) cur = Some f" "redirect_target f = Some (JStr t)"
        and hop: "hop rd cur t" by (auto simp: hop_def)
      with False 1(2) have r: "resolve_from rd (insert cur seen) t = Inr r"
        by (subst (asm) resolve_from.simps) simp
      have "(hop rd)\<^sup>+\<^sup>+ x t" if "x \<in> insert cur seen" for x
        using that 1(3) hop by (auto intro: tranclp.trancl_into_trancl)
      then have "(hop rd)\<^sup>*\<^sup>* t r \<and> (has_core rd r \<or> \<not> (\<exists>b. hop rd r b) \<or> (hop rd)\<^sup>+\<^sup>+ r r)"
        using 1(1) [OF _ _ f refl r] False by simp
      with hop show ?thesis by (meson converse_rtranclp_into_rtranclp)
    qed
  qed
qed

section \<open>The stack is deep enough\<close>

text \<open>\<open>ends rd k rid\<close>: after exactly k redirects there is nothing more to follow.\<close>

fun ends :: "record_dir \<Rightarrow> nat \<Rightarrow> string \<Rightarrow> bool" where
  "ends rd 0 rid = (redirect_next rd rid = None)"
| "ends rd (Suc k) rid = (case redirect_next rd rid of None \<Rightarrow> False | Some t \<Rightarrow> ends rd k t)"

lemma ends_unique: "ends rd k rid \<Longrightarrow> ends rd j rid \<Longrightarrow> j = k"
proof (induction k arbitrary: j rid)
  case 0
  then show ?case by (cases j) auto
next
  case (Suc k)
  then show ?case by (cases j) (auto split: option.splits)
qed

lemma redirect_next_dom: "redirect_next rd rid = Some t \<Longrightarrow> rid \<in> set (map fst (rd_redirects rd))"
  by (auto simp: redirect_next_def dest!: map_of_SomeD split: if_splits option.splits json.splits
      intro: rev_image_eqI)

text \<open>The names met on the way to the end are all different, so the way is no longer than the list of stubs.\<close>

lemma ends_bound:
  assumes "ends rd k rid"
  shows "k \<le> fold_fuel rd"
proof -
  define node where "node i = ((\<lambda>r. the (redirect_next rd r)) ^^ i) rid" for i
  have step: "i \<le> k \<Longrightarrow> ends rd (k - i) (node i)" for i
  proof (induction i)
    case 0
    with assms show ?case by (simp add: node_def)
  next
    case (Suc i)
    then have "ends rd (Suc (k - Suc i)) (node i)" by (simp add: Suc_diff_Suc)
    then show ?case by (auto simp: node_def split: option.splits)
  qed
  have inj: "inj_on node {..<k}"
  proof (rule inj_onI)
    fix i j assume ij: "i \<in> {..<k}" "j \<in> {..<k}" "node i = node j"
    with step [of i] step [of j] have "k - j = k - i" by (auto intro: ends_unique)
    with ij show "i = j" by auto
  qed
  have "node ` {..<k} \<subseteq> set (map fst (rd_redirects rd))"
  proof
    fix x assume "x \<in> node ` {..<k}"
    then obtain i where i: "i < k" "x = node i" by auto
    with step [of i] have "ends rd (Suc (k - Suc i)) x" by (simp add: Suc_diff_Suc)
    then show "x \<in> set (map fst (rd_redirects rd))"
      by (auto split: option.splits dest: redirect_next_dom)
  qed
  then have "card {..<k} \<le> fold_fuel rd"
    unfolding fold_fuel_def by (intro card_inj_on_le [OF inj]) auto
  then show ?thesis by simp
qed

lemma next_None_core: "load_core rd rid = Some c \<Longrightarrow> redirect_next rd rid = None"
  by (simp add: redirect_next_def)

lemma fold_record_unfold:
  "fold_record f n rd rid =
     (case redirect_next rd rid of
        None \<Rightarrow> (case load_core rd rid of Some core \<Rightarrow> fold_here f rd rid core | None \<Rightarrow> Inr None)
      | Some t \<Rightarrow> (case n of 0 \<Rightarrow> Inr None
          | Suc k \<Rightarrow> (case fold_record f k rd t of Inl _ \<Rightarrow> Inr None | Inr r \<Rightarrow> Inr r)))"
  by (subst fold_record.simps) (auto simp: next_None_core split: option.splits)

lemma fold_record_ends: "ends rd k rid \<Longrightarrow> k \<le> n \<Longrightarrow> k \<le> m \<Longrightarrow> fold_record f n rd rid = fold_record f m rd rid"
proof (induction k arbitrary: n m rid)
  case 0
  then have "redirect_next rd rid = None" by simp
  then show ?case
    unfolding fold_record_unfold [of f n rd rid] fold_record_unfold [of f m rd rid] by simp
next
  case (Suc k)
  obtain n' m' where nm: "n = Suc n'" "m = Suc m'"
    using Suc.prems(2,3) by (metis Suc_le_D)
  obtain t where t: "redirect_next rd rid = Some t" "ends rd k t"
    using Suc.prems(1) by (simp split: option.splits)
  have "fold_record f n' rd t = fold_record f m' rd t"
    using Suc.prems nm by (intro Suc.IH [OF t(2)]) simp_all
  with t(1) show ?case
    unfolding nm fold_record_unfold [of f "Suc n'" rd rid] fold_record_unfold [of f "Suc m'" rd rid]
    by simp
qed

lemma fold_record_loops: "(\<And>k. k \<le> n \<Longrightarrow> \<not> ends rd k rid) \<Longrightarrow> fold_record f n rd rid = Inr None"
proof (induction n arbitrary: rid)
  case 0
  then have "redirect_next rd rid \<noteq> None" using 0 [of 0] by simp
  then show ?case unfolding fold_record_unfold [of f 0 rd rid] by (auto split: option.split)
next
  case (Suc n)
  have "redirect_next rd rid \<noteq> None" using Suc.prems [of 0] by simp
  then obtain t where t: "redirect_next rd rid = Some t" by auto
  have "\<not> ends rd k t" if "k \<le> n" for k
    using Suc.prems [of "Suc k"] that t by simp
  then have "fold_record f n rd t = Inr None" by (rule Suc.IH)
  with t show ?case unfolding fold_record_unfold [of f "Suc n" rd rid] by simp
qed

lemma fold_record_enough: "fold_fuel rd \<le> n \<Longrightarrow> fold_record f n rd rid = fold_record f (fold_fuel rd) rd rid"
proof (cases "\<exists>k. ends rd k rid")
  case True
  then obtain k where "ends rd k rid" by blast
  then show "fold_fuel rd \<le> n \<Longrightarrow> ?thesis"
    using ends_bound fold_record_ends [of rd k rid n "fold_fuel rd" f] by fastforce
qed (simp add: fold_record_loops)

section \<open>What the vote and known-error files hold\<close>

lemma enum_of_cab_decision [simp]:
  "enum_of cab_decision_value_str cab_decision_values (JStr (cab_decision_value_str d)) = Inr d"
  by (cases d) (simp_all add: enum_of_def cab_decision_values_def)

lemma vote_round_trip: "vote_of_json now (vote_to_json v) = Inr v"
  by (simp add: vote_of_json_def vote_to_json_def req_str_def dflt_str_def)

lemma as_str_list_map [simp]: "as_str_list (map JStr xs) = Inr xs"
  by (induction xs) (auto simp: as_str_list_def)

lemma kedb_round_trip: "kedb_of_json now new_id (kedb_to_json k) = Inr k"
  by (simp add: kedb_of_json_def kedb_to_json_def req_str_def dflt_str_def)

section \<open>Convergence of the logs\<close>

definition dir_values :: "(string \<times> log_line list) list \<Rightarrow> json list" where
  "dir_values fs = concat (map (\<lambda>(f, ls). line_values ls) fs)"

text \<open>The layout the manager keeps: every event sits in its writer's file, at the line its sequence number says.\<close>

definition writer_file :: "string \<Rightarrow> string \<Rightarrow> string" where
  "writer_file agent host = (if agent = [] then ''unknown'' else agent) @ ''@'' @ host"

definition line_ok :: "string \<Rightarrow> nat \<Rightarrow> log_line \<Rightarrow> bool" where
  "line_ok f i l \<longleftrightarrow> (\<forall>v. l = LJson v \<longrightarrow>
     (\<exists>e ts host agent. v = JObj e \<and> event_key e = Some (ts, host, agent, int i)
        \<and> f = writer_file agent host))"

definition file_ok :: "string \<Rightarrow> log_line list \<Rightarrow> bool" where
  "file_ok f ls \<longleftrightarrow> (\<forall>i<length ls. line_ok f i (ls ! i))"

definition files_ok :: "(string \<times> log_line list) list \<Rightarrow> bool" where
  "files_ok fs \<longleftrightarrow> distinct (map fst fs) \<and> list_all (\<lambda>(f, ls). file_ok f ls) fs"

definition logs_ok :: "record_dir \<Rightarrow> bool" where
  "logs_ok rd \<longleftrightarrow> (\<forall>rid. files_ok (record_logs rd rid))"

definition obj_key :: "json \<Rightarrow> ev_key option" where
  "obj_key v = (case v of JObj e \<Rightarrow> event_key e | _ \<Rightarrow> None)"

lemma file_ok_Nil [simp]: "file_ok f []"
  by (simp add: file_ok_def)

lemma file_ok_snoc: "file_ok f (ls @ [l]) \<longleftrightarrow> file_ok f ls \<and> line_ok f (length ls) l"
  by (auto simp: file_ok_def nth_append less_Suc_eq)

lemma line_values_append [simp]: "line_values (xs @ ys) = line_values xs @ line_values ys"
  by (induction xs rule: line_values.induct) auto

lemma file_ok_keys:
  "file_ok f ls \<Longrightarrow> distinct (map obj_key (line_values ls))
     \<and> (\<forall>v\<in>set (line_values ls). \<exists>e ts host agent i. v = JObj e
          \<and> event_key e = Some (ts, host, agent, int i) \<and> f = writer_file agent host \<and> i < length ls)"
proof (induction ls rule: rev_induct)
  case Nil
  then show ?case by simp
next
  case (snoc l ls)
  then have IH: "distinct (map obj_key (line_values ls))"
    "\<forall>v\<in>set (line_values ls). \<exists>e ts host agent i. v = JObj e
      \<and> event_key e = Some (ts, host, agent, int i) \<and> f = writer_file agent host \<and> i < length ls"
    and l: "line_ok f (length ls) l" by (simp_all add: file_ok_snoc)
  show ?case
  proof (cases l)
    case (LJson v)
    with l obtain e ts host agent where v: "v = JObj e"
      "event_key e = Some (ts, host, agent, int (length ls))" "f = writer_file agent host"
      by (auto simp: line_ok_def)
    have "obj_key v \<notin> obj_key ` set (line_values ls)"
      using IH(2) v by (fastforce simp: obj_key_def)
    with IH v LJson show ?thesis by (fastforce simp: less_Suc_eq)
  qed (use IH in \<open>fastforce simp: less_Suc_eq\<close>)+
qed

lemma files_ok_keys:
  "files_ok fs \<Longrightarrow> distinct (map obj_key (dir_values fs))
     \<and> (\<forall>v\<in>set (dir_values fs). \<exists>e ts host agent n. v = JObj e
          \<and> event_key e = Some (ts, host, agent, n) \<and> writer_file agent host \<in> set (map fst fs))"
proof (induction fs)
  case Nil
  then show ?case by (simp add: dir_values_def)
next
  case (Cons p fs)
  obtain f ls where p: "p = (f, ls)" by (cases p)
  with Cons.prems have f: "f \<notin> set (map fst fs)" "file_ok f ls" "files_ok fs"
    by (auto simp: files_ok_def)
  note IH = Cons.IH [OF f(3)] and fk = file_ok_keys [OF f(2)]
  have "obj_key v \<noteq> obj_key u" if "v \<in> set (line_values ls)" "u \<in> set (dir_values fs)" for v u
    using IH fk that f(1) by (fastforce simp: obj_key_def)
  then have disj: "obj_key ` set (line_values ls) \<inter> obj_key ` set (dir_values fs) = {}"
    by (auto simp: disjoint_iff)
  have vals: "dir_values (p # fs) = line_values ls @ dir_values fs"
    by (simp add: dir_values_def p)
  show ?case
    unfolding vals
  proof (intro conjI ballI)
    show "distinct (map obj_key (line_values ls @ dir_values fs))"
      using IH fk disj by simp
    fix v assume "v \<in> set (line_values ls @ dir_values fs)"
    then show "\<exists>e ts host agent n. v = JObj e \<and> event_key e = Some (ts, host, agent, n)
        \<and> writer_file agent host \<in> set (map fst (p # fs))"
      using IH fk p unfolding set_append list.map set_simps by (elim UnE) (metis fst_conv insert_iff)+
  qed
qed

section \<open>Reading the log of a record\<close>

definition log_values :: "record_dir \<Rightarrow> string \<Rightarrow> json list" where
  "log_values rd rid = dir_values (record_logs rd rid)"

lemma mset_concat_perm: "mset xs = mset ys \<Longrightarrow> mset (concat xs) = mset (concat ys)"
  unfolding mset_concat sum_mset_sum_list [symmetric] by simp

lemma mset_sorted_values:
  "mset (concat (map (\<lambda>(f, ls). line_values ls) (sort_key fst fs))) = mset (dir_values fs)"
  unfolding dir_values_def by (rule mset_concat_perm) simp

lemma as_obj_map: "r_map as_obj vs = Inr es \<longleftrightarrow> vs = map JObj es"
proof -
  have eq: "as_obj v = Inr e \<longleftrightarrow> v = JObj e" for v e by (cases v) auto
  have "list_all2 (\<lambda>v e. v = JObj e) vs es \<longleftrightarrow> vs = map JObj es"
    by (induction vs arbitrary: es) (auto simp: list_all2_Cons1)
  then show ?thesis by (simp add: r_map_Inr_iff eq)
qed

text \<open>When every event of a log has its sort key, reading cannot fail: it sorts the events by their keys.\<close>

lemma read_events_sorted:
  assumes "\<forall>v\<in>set (log_values rd rid). \<exists>e k. v = JObj e \<and> event_key e = Some k"
  obtains es where "read_events rd rid = Inr es" "mset (map JObj es) = mset (log_values rd rid)"
    "sorted (map (\<lambda>e. the (event_key e)) es)" "\<forall>e\<in>set es. event_key e \<noteq> None"
proof -
  define vs where "vs = concat (map (\<lambda>(f, ls). line_values ls) (sort_key fst (record_logs rd rid)))"
  have vs: "mset vs = mset (log_values rd rid)"
    unfolding vs_def log_values_def by (rule mset_sorted_values)
  then have "set vs = set (log_values rd rid)" by (metis set_mset_mset)
  then have "\<forall>v\<in>set vs. \<exists>e. v = JObj e \<and> event_key e \<noteq> None" using assms by auto
  then have "\<exists>es. vs = map JObj es \<and> (\<forall>e\<in>set es. event_key e \<noteq> None)"
  proof (induction vs)
    case (Cons v vs)
    then obtain e es where "v = JObj e" "event_key e \<noteq> None" "vs = map JObj es"
      "\<forall>e\<in>set es. event_key e \<noteq> None" by auto
    then show ?case by (intro exI [of _ "e # es"]) simp
  qed simp
  then obtain es0 where es0: "vs = map JObj es0" "\<forall>e\<in>set es0. event_key e \<noteq> None" by blast
  have all: "list_all (\<lambda>e. event_key e \<noteq> None) es0" using es0(2) by (simp add: list_all_iff)
  have read: "read_events rd rid = sort_events es0"
    unfolding read_events_def vs_def [symmetric] using as_obj_map [of vs es0] es0(1) by simp
  define es where "es = (if length es0 \<le> 1 then es0 else sort_key (\<lambda>e. the (event_key e)) es0)"
  have "read_events rd rid = Inr es"
    using all by (simp add: read sort_events_def es_def)
  moreover have m: "mset es = mset es0" by (simp add: es_def)
  moreover have "sorted (map (\<lambda>e. the (event_key e)) es)"
    by (cases es0 rule: remdups_adj.cases) (auto simp: es_def simp del: sort_key_simps)
  moreover have "\<forall>e\<in>set es. event_key e \<noteq> None"
    using es0(2) m by (metis set_mset_mset)
  ultimately show thesis
    using that vs es0(1) by (metis mset_map)
qed

text \<open>On a log the manager wrote, the keys are distinct as well.\<close>

lemma read_events_ok:
  assumes "logs_ok rd"
  obtains es where "read_events rd rid = Inr es" "mset (map JObj es) = mset (log_values rd rid)"
    "sorted (map (\<lambda>e. the (event_key e)) es)" "distinct (map event_key es)"
    "\<forall>e\<in>set es. event_key e \<noteq> None"
proof -
  have keys: "distinct (map obj_key (log_values rd rid))"
    "\<forall>v\<in>set (log_values rd rid). \<exists>e k. v = JObj e \<and> event_key e = Some k"
    using assms files_ok_keys [of "record_logs rd rid"] unfolding logs_ok_def log_values_def by blast+
  obtain es where es: "read_events rd rid = Inr es" "mset (map JObj es) = mset (log_values rd rid)"
    "sorted (map (\<lambda>e. the (event_key e)) es)" "\<forall>e\<in>set es. event_key e \<noteq> None"
    using keys(2) by (rule read_events_sorted)
  have "distinct (map obj_key (map JObj es))"
    using keys(1) es(2) by (metis mset_map mset_eq_imp_distinct_iff)
  then have "distinct (map event_key es)" by (simp add: obj_key_def comp_def)
  with es that show thesis by blast
qed

lemma sorted_keys_unique:
  assumes "mset xs = mset ys" "distinct (map event_key xs)" "\<forall>e\<in>set xs. event_key e \<noteq> None"
    and "sorted (map (\<lambda>e. the (event_key e)) xs)" "sorted (map (\<lambda>e. the (event_key e)) ys)"
  shows "xs = ys"
proof -
  have inj: "inj_on (\<lambda>e. the (event_key e)) (set xs)"
  proof (rule inj_onI)
    fix x y assume xy: "x \<in> set xs" "y \<in> set xs" "the (event_key x) = the (event_key y)"
    with assms(3) have "event_key x = event_key y" by (metis option.expand)
    with xy assms(2) show "x = y" by (auto simp: distinct_map dest: inj_onD)
  qed
  have "sort_key (\<lambda>e. the (event_key e)) xs = ys"
    by (rule sort_key_inj_key_eq [OF assms(1) inj assms(5)])
  moreover have "sort_key (\<lambda>e. the (event_key e)) xs = xs"
    by (rule sort_key_inj_key_eq [OF refl inj assms(4)])
  ultimately show ?thesis by simp
qed

lemma map_JObj_mset: "mset (map JObj xs) = mset (map JObj ys) \<Longrightarrow> mset xs = mset ys"
proof -
  assume "mset (map JObj xs) = mset (map JObj ys)"
  then have "image_mset (\<lambda>v. case v of JObj d \<Rightarrow> d | _ \<Rightarrow> []) (mset (map JObj xs))
      = image_mset (\<lambda>v. case v of JObj d \<Rightarrow> d | _ \<Rightarrow> []) (mset (map JObj ys))" by simp
  then show ?thesis by (simp add: image_mset.compositionality comp_def)
qed

section \<open>Appending an event\<close>

definition header_fields :: "string list" where
  "header_fields = [''event_id'', ''ts'', ''writer'', ''node'', ''seq'', ''kind'']"

definition payload_ok :: "jobj \<Rightarrow> bool" where
  "payload_ok p \<longleftrightarrow> set (map fst p) \<inter> set header_fields = {}"

lemma get_d_payload:
  "x \<notin> set (map fst p) \<Longrightarrow> get_d (fold (\<lambda>(k, v) d. set_item k v d) p d) x v0 = get_d d x v0"
  by (induction p arbitrary: d) auto

lemma make_event_key:
  assumes "payload_ok p"
  shows "event_key (make_event env i t seq agent kind p) = Some (env_clock env t, env_host env, agent, int seq)"
proof -
  have "get_d (make_event env i t seq agent kind p) x v0
      = get_d [(''event_id'', JStr (env_uuid env i)), (''ts'', JStr (env_clock env t)), (''writer'', JStr agent),
          (''node'', JStr (env_host env)), (''seq'', JInt (int seq)), (''kind'', JStr kind)] x v0"
    if "x \<in> set header_fields" for x v0
    unfolding make_event_def by (rule get_d_payload) (use assms that in \<open>auto simp: payload_ok_def\<close>)
  then show ?thesis by (simp add: event_key_def header_fields_def)
qed

lemma record_logs_append:
  "record_logs (append_line rid f l rd) r =
     (if r = rid then AList.update f (log_file rd rid f @ [l]) (record_logs rd rid) else record_logs rd r)"
  by (simp add: record_logs_def append_line_def update_conv')

lemma dir_values_update:
  "mset (dir_values (AList.update f ((case map_of fs f of None \<Rightarrow> [] | Some ls \<Rightarrow> ls) @ [LJson v]) fs))
     = add_mset v (mset (dir_values fs))"
proof (induction fs)
  case Nil
  then show ?case by (simp add: dir_values_def)
next
  case (Cons p fs)
  then show ?case by (cases p) (auto simp: dir_values_def)
qed

lemma files_ok_update:
  assumes "files_ok fs" "file_ok f ls"
  shows "files_ok (AList.update f ls fs)"
proof -
  have "list_all (\<lambda>(f, ls). file_ok f ls) (AList.update f ls fs)"
    using assms unfolding files_ok_def by (induction fs) (auto split: if_splits)
  with assms(1) show ?thesis by (simp add: files_ok_def distinct_update)
qed

lemma files_ok_lookup: "files_ok fs \<Longrightarrow> file_ok f (case map_of fs f of None \<Rightarrow> [] | Some ls \<Rightarrow> ls)"
  by (auto simp: files_ok_def list_all_iff split: option.split dest!: map_of_SomeD)

lemma dir_of_put [simp]: "dir_of k (put_dir k rd w) = rd"
  by (cases k) auto

lemma dir_of_put_other [simp]: "j \<noteq> k \<Longrightarrow> dir_of j (put_dir k rd w) = dir_of j w"
  by (cases k; cases j) auto

lemma dir_of_counters [simp]: "dir_of k (w\<lparr>it_ticks := t, it_ids := i\<rparr>) = dir_of k w"
  by (cases k) auto

definition next_event :: "itil_env \<Rightarrow> kind_dir \<Rightarrow> string \<Rightarrow> string \<Rightarrow> string \<Rightarrow> jobj \<Rightarrow> itil \<Rightarrow> jobj" where
  "next_event env k rid agent kind payload w =
     make_event env (it_ids w) (it_ticks w)
       (length (log_file (dir_of k w) rid (writer_id env agent))) agent kind payload"

lemma dir_of_append:
  "dir_of k (append_event env k rid agent kind payload w)
     = append_line rid (writer_id env agent) (LJson (JObj (next_event env k rid agent kind payload w))) (dir_of k w)"
  by (simp add: append_event_def next_event_def Let_def)

lemma append_event_ok:
  assumes "logs_ok (dir_of k w)" and "payload_ok payload"
  shows "logs_ok (dir_of k (append_event env k rid agent kind payload w))"
    and "mset (log_values (dir_of k (append_event env k rid agent kind payload w)) rid)
      = add_mset (JObj (next_event env k rid agent kind payload w)) (mset (log_values (dir_of k w) rid))"
proof -
  let ?rd = "dir_of k w" and ?f = "writer_id env agent"
  let ?e = "next_event env k rid agent kind payload w"
  have "event_key ?e = Some (env_clock env (it_ticks w), env_host env, agent, int (length (log_file ?rd rid ?f)))"
    unfolding next_event_def using assms(2) by (rule make_event_key)
  then have "line_ok ?f (length (log_file ?rd rid ?f)) (LJson (JObj ?e))"
    by (auto simp: line_ok_def writer_id_def writer_file_def)
  moreover have "file_ok ?f (log_file ?rd rid ?f)"
    using assms(1) by (simp add: log_file_def logs_ok_def files_ok_lookup)
  ultimately have "file_ok ?f (log_file ?rd rid ?f @ [LJson (JObj ?e)])"
    by (simp add: file_ok_snoc)
  then show "logs_ok (dir_of k (append_event env k rid agent kind payload w))"
    using assms(1) by (simp add: logs_ok_def dir_of_append record_logs_append files_ok_update)
  show "mset (log_values (dir_of k (append_event env k rid agent kind payload w)) rid)
      = add_mset (JObj ?e) (mset (log_values ?rd rid))"
    by (simp add: dir_of_append log_values_def record_logs_append log_file_def dir_values_update)
qed

text \<open>The log after an append: the layout, the other records, and the events of this one.\<close>

lemma append_extends:
  assumes "logs_ok (dir_of k w)" and "payload_ok payload"
  shows "logs_ok (dir_of k (append_event env k rid agent kind payload w))
    \<and> (\<forall>r. r \<noteq> rid \<longrightarrow> read_events (dir_of k (append_event env k rid agent kind payload w)) r
          = read_events (dir_of k w) r)
    \<and> (\<exists>es es' e. read_events (dir_of k w) rid = Inr es
        \<and> read_events (dir_of k (append_event env k rid agent kind payload w)) rid = Inr es'
        \<and> e = next_event env k rid agent kind payload w \<and> mset es' = add_mset e (mset es)
        \<and> ((\<forall>x\<in>set es. the (event_key x) < the (event_key e)) \<longrightarrow> es' = es @ [e]))"
proof (intro conjI allI impI)
  let ?w' = "append_event env k rid agent kind payload w"
  let ?e = "next_event env k rid agent kind payload w"
  show ok: "logs_ok (dir_of k ?w')" using assms by (rule append_event_ok)
  show "read_events (dir_of k ?w') r = read_events (dir_of k w) r" if "r \<noteq> rid" for r
    using that by (simp add: read_events_def dir_of_append record_logs_append)
  obtain es where es: "read_events (dir_of k w) rid = Inr es"
    "mset (map JObj es) = mset (log_values (dir_of k w) rid)"
    "sorted (map (\<lambda>e. the (event_key e)) es)" "distinct (map event_key es)"
    "\<forall>e\<in>set es. event_key e \<noteq> None"
    using assms(1) by (rule read_events_ok)
  obtain es' where es': "read_events (dir_of k ?w') rid = Inr es'"
    "mset (map JObj es') = mset (log_values (dir_of k ?w') rid)"
    "sorted (map (\<lambda>e. the (event_key e)) es')" "distinct (map event_key es')"
    "\<forall>e\<in>set es'. event_key e \<noteq> None"
    using ok by (rule read_events_ok)
  have "mset (map JObj es') = mset (map JObj (es @ [?e]))"
    using es(2) es'(2) append_event_ok(2) [OF assms] by (simp add: ac_simps)
  then have m: "mset es' = add_mset ?e (mset es)" by (drule_tac map_JObj_mset) simp
  have "es' = es @ [?e]" if "\<forall>x\<in>set es. the (event_key x) < the (event_key ?e)"
  proof (rule sorted_keys_unique [OF _ es'(4,5,3)])
    show "mset es' = mset (es @ [?e])" using m by simp
    show "sorted (map (\<lambda>e. the (event_key e)) (es @ [?e]))"
      using es(3) that by (auto simp: sorted_append intro: less_imp_le)
  qed
  with es(1) es'(1) m show "\<exists>es es' e. read_events (dir_of k w) rid = Inr es
        \<and> read_events (dir_of k ?w') rid = Inr es'
        \<and> e = ?e \<and> mset es' = add_mset e (mset es)
        \<and> ((\<forall>x\<in>set es. the (event_key x) < the (event_key e)) \<longrightarrow> es' = es @ [e])"
    by blast
qed

section \<open>Properties\<close>

text \<open>
  The four fields of an event that fix its place in the log, and the order of the log: by time, then
  node, then writer, then number.
\<close>

definition stamped :: "json \<Rightarrow> string \<Rightarrow> string \<Rightarrow> string \<Rightarrow> int \<Rightarrow> bool" where
  "stamped v ts node writer n \<longleftrightarrow> (\<exists>e. v = JObj e \<and> get_d e ''ts'' (JStr []) = JStr ts
     \<and> get_d e ''node'' (JStr []) = JStr node \<and> get_d e ''writer'' (JStr []) = JStr writer
     \<and> get_d e ''seq'' (JInt 0) = JInt n)"

definition no_later :: "jobj \<Rightarrow> jobj \<Rightarrow> bool" where
  "no_later e f \<longleftrightarrow> (\<exists>ts node writer n ts' node' writer' n'.
     stamped (JObj e) ts node writer n \<and> stamped (JObj f) ts' node' writer' n'
     \<and> (ts < ts' \<or> ts = ts' \<and> (node < node' \<or> node = node'
          \<and> (writer < writer' \<or> writer = writer' \<and> n \<le> n'))))"

lemma stamped_key: "stamped v ts node writer n \<longleftrightarrow> (\<exists>e. v = JObj e \<and> event_key e = Some (ts, node, writer, n))"
proof -
  have "event_key e = Some (ts, node, writer, n) \<longleftrightarrow> get_d e ''ts'' (JStr []) = JStr ts
     \<and> get_d e ''node'' (JStr []) = JStr node \<and> get_d e ''writer'' (JStr []) = JStr writer
     \<and> get_d e ''seq'' (JInt 0) = JInt n" for e
    by (auto simp: event_key_def split: json.splits)
  then show ?thesis by (simp add: stamped_def)
qed

lemma no_later_key:
  assumes "event_key e \<noteq> None" and "event_key f \<noteq> None"
  shows "no_later e f \<longleftrightarrow> the (event_key e) \<le> the (event_key f)"
  using assms by (auto simp: no_later_def stamped_key less_eq_prod_def)

lemma sorted_no_later:
  assumes "\<forall>e\<in>set es. event_key e \<noteq> None" and "sorted (map (\<lambda>e. the (event_key e)) es)"
  shows "sorted_wrt no_later es"
  using assms(2) unfolding sorted_wrt_map
  by (rule sorted_wrt_mono_rel [rotated]) (use assms(1) no_later_key in blast)

text \<open>
  C30. Replicas converge. Take two copies of a record's log that hold the same events, each as often,
  in whatever files and with the lines in whatever order; every event has its time, node, writer and
  number, and no two different events share all four. Both copies read as the same sequence, so that
  every fold gives the same record on both: all the events of the log, ordered by time, then node,
  then writer, then number.
\<close>

theorem log_convergence:
  assumes "\<forall>v\<in>set (log_values rd rid). \<exists>ts node writer n. stamped v ts node writer n"
    and "\<forall>v\<in>set (log_values rd rid). \<forall>u\<in>set (log_values rd rid). \<forall>ts node writer n.
      stamped v ts node writer n \<and> stamped u ts node writer n \<longrightarrow> v = u"
    and "mset (log_values rd' rid) = mset (log_values rd rid)"
  shows "\<exists>es. read_events rd rid = Inr es \<and> read_events rd' rid = Inr es
    \<and> mset (map JObj es) = mset (log_values rd rid) \<and> sorted_wrt no_later es"
proof -
  have set: "set (log_values rd' rid) = set (log_values rd rid)" using assms(3) by (metis set_mset_mset)
  have keyed: "\<forall>v\<in>set (log_values rd rid). \<exists>e k. v = JObj e \<and> event_key e = Some k"
    using assms(1) unfolding stamped_key by blast
  obtain es where es: "read_events rd rid = Inr es" "mset (map JObj es) = mset (log_values rd rid)"
    "sorted (map (\<lambda>e. the (event_key e)) es)" "\<forall>e\<in>set es. event_key e \<noteq> None"
    using keyed by (rule read_events_sorted)
  obtain fs where fs: "read_events rd' rid = Inr fs" "mset (map JObj fs) = mset (log_values rd' rid)"
    "sorted (map (\<lambda>e. the (event_key e)) fs)"
    using keyed unfolding set [symmetric] by (rule read_events_sorted)
  have m: "mset es = mset fs"
    by (rule map_JObj_mset) (simp only: es(2) fs(2) assms(3))
  have "inj_on (\<lambda>e. the (event_key e)) (set es)"
  proof (rule inj_onI)
    fix x y assume xy: "x \<in> set es" "y \<in> set es" "the (event_key x) = the (event_key y)"
    then obtain ts node writer n where "event_key x = Some (ts, node, writer, n)" "event_key y = Some (ts, node, writer, n)"
      using es(4) by (metis option.expand option.exhaust prod_cases4)
    moreover have "JObj x \<in> set (log_values rd rid)" "JObj y \<in> set (log_values rd rid)"
      using xy es(2) by (metis image_eqI list.set_map set_mset_mset)+
    ultimately have "JObj x = JObj y" using assms(2) unfolding stamped_key by blast
    then show "x = y" by simp
  qed
  then have "sort_key (\<lambda>e. the (event_key e)) es = fs" "sort_key (\<lambda>e. the (event_key e)) es = es"
    using sort_key_inj_key_eq m es(3) fs(3) by blast+
  then show ?thesis using es fs(1) sorted_no_later by auto
qed

text \<open>
  The events of two hosts, once in a file per writer and once, the newest first, in a single file of
  a third name.
\<close>

definition host_event :: "string \<Rightarrow> string \<Rightarrow> string \<Rightarrow> int \<Rightarrow> string \<Rightarrow> log_line" where
  "host_event ts writer node n kind = LJson (JObj [(''ts'', JStr ts), (''writer'', JStr writer),
     (''node'', JStr node), (''seq'', JInt n), (''kind'', JStr kind)])"

definition log_dir :: "(string \<times> log_line list) list \<Rightarrow> record_dir" where
  "log_dir fs = \<lparr>rd_cores = [], rd_redirects = [], rd_logs = [(''inc-1'', fs)]\<rparr>"

definition two_hosts :: record_dir where
  "two_hosts = log_dir
     [(''a@n1'', [host_event ''1'' ''a'' ''n1'' 0 ''created'', LBlank, LBad, host_event ''3'' ''a'' ''n1'' 1 ''note'']),
      (''b@n2'', [host_event ''2'' ''b'' ''n2'' 0 ''note''])]"

definition merged_copy :: record_dir where
  "merged_copy = log_dir
     [(''0-conflict'', [host_event ''3'' ''a'' ''n1'' 1 ''note'', host_event ''2'' ''b'' ''n2'' 0 ''note'',
        host_event ''1'' ''a'' ''n1'' 0 ''created''])]"

theorem log_convergence_witness:
  "\<exists>es. read_events two_hosts ''inc-1'' = Inr es \<and> read_events merged_copy ''inc-1'' = Inr es
     \<and> length es = 3 \<and> sorted_wrt no_later es"
proof -
  have vals: "log_values two_hosts ''inc-1'' = [JObj [(''ts'', JStr ''1''), (''writer'', JStr ''a''), (''node'', JStr ''n1''), (''seq'', JInt 0), (''kind'', JStr ''created'')],
      JObj [(''ts'', JStr ''3''), (''writer'', JStr ''a''), (''node'', JStr ''n1''), (''seq'', JInt 1), (''kind'', JStr ''note'')],
      JObj [(''ts'', JStr ''2''), (''writer'', JStr ''b''), (''node'', JStr ''n2''), (''seq'', JInt 0), (''kind'', JStr ''note'')]]"
    by (simp add: log_values_def record_logs_def two_hosts_def log_dir_def host_event_def dir_values_def)
  have "\<exists>es. read_events two_hosts ''inc-1'' = Inr es \<and> read_events merged_copy ''inc-1'' = Inr es
      \<and> mset (map JObj es) = mset (log_values two_hosts ''inc-1'') \<and> sorted_wrt no_later es"
  proof (rule log_convergence)
    show "\<forall>v\<in>set (log_values two_hosts ''inc-1''). \<exists>ts node writer n. stamped v ts node writer n"
      unfolding vals by (simp add: stamped_def)
    show "\<forall>v\<in>set (log_values two_hosts ''inc-1''). \<forall>u\<in>set (log_values two_hosts ''inc-1''). \<forall>ts node writer n.
      stamped v ts node writer n \<and> stamped u ts node writer n \<longrightarrow> v = u"
      unfolding vals by (simp add: stamped_def)
    show "mset (log_values merged_copy ''inc-1'') = mset (log_values two_hosts ''inc-1'')"
      unfolding vals
      by (simp add: log_values_def record_logs_def merged_copy_def log_dir_def host_event_def dir_values_def)
  qed
  then obtain es where es: "read_events two_hosts ''inc-1'' = Inr es" "read_events merged_copy ''inc-1'' = Inr es"
    "mset (map JObj es) = mset (log_values two_hosts ''inc-1'')" "sorted_wrt no_later es" by blast
  have "length es = 3" using mset_eq_length [OF es(3)] unfolding vals by simp
  with es show ?thesis by blast
qed

text \<open>
  An append adds exactly one event to the record's history. The layout of the logs is kept,
  whoever writes; no event that was there is lost, moved or altered; and when the clock has passed
  the newest event of the log, the new event is read last.
\<close>

theorem append_extends_log:
  assumes "logs_ok (dir_of k w)" and "payload_ok payload"
  shows "logs_ok (dir_of k (append_event env k rid agent kind payload w))
    \<and> (\<forall>r. r \<noteq> rid \<longrightarrow> read_events (dir_of k (append_event env k rid agent kind payload w)) r
          = read_events (dir_of k w) r)
    \<and> (\<exists>es es' e. read_events (dir_of k w) rid = Inr es
        \<and> read_events (dir_of k (append_event env k rid agent kind payload w)) rid = Inr es'
        \<and> e = next_event env k rid agent kind payload w \<and> mset es' = add_mset e (mset es)
        \<and> ((\<forall>x\<in>set es. the (event_key x) < the (event_key e)) \<longrightarrow> es' = es @ [e]))"
  using assms by (rule append_extends)

definition sample_env :: itil_env where
  "sample_env = \<lparr>env_clock = (\<lambda>n. ''2026-09-0'' @ show_nat (n + 1) @ ''T00:00:00+00:00''),
     env_uuid = (\<lambda>n. ''000000'' @ show_nat (n + 10)), env_host = ''n1'', env_digest = id,
     env_gtd = (\<lambda>sent c. Some (''gtd-'' @ show_nat (length sent)))\<rparr>"

definition empty_dir :: record_dir where
  "empty_dir = \<lparr>rd_cores = [], rd_redirects = [], rd_logs = []\<rparr>"

definition empty_itil :: itil where
  "empty_itil = \<lparr>it_incidents = empty_dir, it_problems = empty_dir, it_changes = empty_dir,
     it_cab = [], it_kedb = [], it_ticks = 0, it_ids = 0, it_bus = [], it_gtd = [], it_done = [],
     it_lists = [], it_archive = []\<rparr>"

lemma empty_dir_ok [simp]: "logs_ok empty_dir"
  by (simp add: logs_ok_def record_logs_def empty_dir_def files_ok_def)

theorem append_extends_log_witness:
  "logs_ok (dir_of Incidents (append_event sample_env Incidents ''inc-1'' ''ops'' ''created'' [] empty_itil))
   \<and> (\<exists>e. read_events (dir_of Incidents (append_event sample_env Incidents ''inc-1'' ''ops'' ''created'' [] empty_itil))
        ''inc-1'' = Inr [e])"
proof -
  have "logs_ok (dir_of Incidents empty_itil)" by (simp add: empty_itil_def)
  moreover have "payload_ok []" by (simp add: payload_ok_def)
  moreover have "read_events (dir_of Incidents empty_itil) ''inc-1'' = Inr []"
    by code_simp
  ultimately show ?thesis
    using append_extends_log [of Incidents empty_itil "[]" sample_env "''inc-1''" "''ops''" "''created''"]
    by auto
qed

text \<open>
  Reading through redirects: the chase of redirect stubs always ends, at the record, at a name
  that redirects no further, or inside a cycle; and folding through stubs does not depend on how
  deep the stack is, as long as it holds one frame per stub.
\<close>

theorem redirects_followed:
  "(resolve_id rd rid = Inr r \<longrightarrow> (hop rd)\<^sup>*\<^sup>* rid r
      \<and> (has_core rd r \<or> \<not> (\<exists>b. hop rd r b) \<or> (hop rd)\<^sup>+\<^sup>+ r r))
   \<and> (fold_fuel rd \<le> n \<longrightarrow> fold_record f n rd rid = fold_record f (fold_fuel rd) rd rid)"
  unfolding resolve_id_def using resolve_from_sound [of rd "{}" rid r] fold_record_enough by blast

definition redirected_dir :: record_dir where
  "redirected_dir = \<lparr>rd_cores = [(''inc-1'', FJson (JObj sample_core))],
     rd_redirects = [(''inc-3'', FJson (JObj [(''canonical'', JStr ''inc-2'')])),
                     (''inc-2'', FJson (JObj [(''canonical'', JStr ''inc-1'')]))], rd_logs = []\<rparr>"

theorem redirects_followed_witness:
  "resolve_id redirected_dir ''inc-3'' = Inr ''inc-1'' \<and> (hop redirected_dir)\<^sup>*\<^sup>* ''inc-3'' ''inc-1''
   \<and> fold_record (incident_model ''n'') 50 redirected_dir ''inc-3''
     = fold_record (incident_model ''n'') (fold_fuel redirected_dir) redirected_dir ''inc-3''"
proof -
  have r: "resolve_id redirected_dir ''inc-3'' = Inr ''inc-1''" by code_simp
  have "fold_fuel redirected_dir \<le> 50" by code_simp
  with r redirects_followed [of redirected_dir "''inc-3''" "''inc-1''" 50 "incident_model ''n''"]
  show ?thesis by blast
qed

end
