(* ===== verification/Itil_Guarantees.thy ===== *)
theory Itil_Guarantees
  imports Itil_Ops Itil_Logs "HOL-Library.Sublist"
begin

text \<open>
  What the operations of the manager promise: history is append-only and its layout is kept by
  every operation, an update is one more event of the fold, announcements follow the folded record,
  a vote is found by the fold, a recovery is noted once.
\<close>

section \<open>History is append-only\<close>

definition dir_grows :: "record_dir \<Rightarrow> record_dir \<Rightarrow> bool" where
  "dir_grows rd rd' \<longleftrightarrow>
     (\<forall>rid f. map_of (rd_cores rd) rid = Some f \<longrightarrow> map_of (rd_cores rd') rid = Some f)
   \<and> (\<forall>rid f. prefix (log_file rd rid f) (log_file rd' rid f))
   \<and> rd_redirects rd' = rd_redirects rd"

definition itil_grows :: "itil \<Rightarrow> itil \<Rightarrow> bool" where
  "itil_grows w w' \<longleftrightarrow> (\<forall>k. dir_grows (dir_of k w) (dir_of k w'))
     \<and> prefix (it_bus w) (it_bus w') \<and> prefix (it_gtd w) (it_gtd w') \<and> prefix (it_done w) (it_done w')
     \<and> it_ticks w \<le> it_ticks w' \<and> it_ids w \<le> it_ids w'"

text \<open>The second relation: the layout of the logs, once right, stays right.\<close>

definition itil_ok :: "itil \<Rightarrow> bool" where
  "itil_ok w \<longleftrightarrow> (\<forall>k. logs_ok (dir_of k w))"

definition keeps_ok :: "itil \<Rightarrow> itil \<Rightarrow> bool" where
  "keeps_ok w w' \<longleftrightarrow> (itil_ok w \<longrightarrow> itil_ok w')"

definition sound_step :: "itil \<Rightarrow> itil \<Rightarrow> bool" where
  "sound_step w w' \<longleftrightarrow> itil_grows w w' \<and> keeps_ok w w'"

lemma dir_grows_refl: "dir_grows rd rd"
  by (simp add: dir_grows_def)

lemma dir_grows_trans: "dir_grows a b \<Longrightarrow> dir_grows b c \<Longrightarrow> dir_grows a c"
  unfolding dir_grows_def by (metis prefix_order.trans)

lemma itil_grows_refl: "itil_grows w w"
  by (simp add: itil_grows_def dir_grows_refl)

lemma itil_grows_trans: "itil_grows a b \<Longrightarrow> itil_grows b c \<Longrightarrow> itil_grows a c"
  unfolding itil_grows_def
  by (intro conjI allI) (blast intro: dir_grows_trans prefix_order.trans le_trans)+

interpretation sound: op_order sound_step
  by unfold_locales (auto simp: sound_step_def keeps_ok_def itil_grows_refl intro: itil_grows_trans)

text \<open>A write that leaves the record directories alone and only extends what was sent.\<close>

lemma sound_same_dirs:
  assumes "it_incidents w' = it_incidents w" "it_problems w' = it_problems w" "it_changes w' = it_changes w"
    and "prefix (it_bus w) (it_bus w')" "prefix (it_gtd w) (it_gtd w')" "prefix (it_done w) (it_done w')"
    and "it_ticks w \<le> it_ticks w'" "it_ids w \<le> it_ids w'"
  shows "sound_step w w'"
proof -
  have "dir_of k w' = dir_of k w" for k using assms by (cases k) simp_all
  with assms show ?thesis
    by (simp add: sound_step_def itil_grows_def keeps_ok_def itil_ok_def dir_grows_refl)
qed

lemma put_dir_fields [simp]:
  "it_bus (put_dir k rd w) = it_bus w" "it_gtd (put_dir k rd w) = it_gtd w"
  "it_done (put_dir k rd w) = it_done w" "it_ticks (put_dir k rd w) = it_ticks w"
  "it_ids (put_dir k rd w) = it_ids w" "it_cab (put_dir k rd w) = it_cab w"
  "it_kedb (put_dir k rd w) = it_kedb w"
  by (cases k; simp)+

lemma log_file_append:
  "log_file (append_line rid f l rd) r g =
     (if r = rid \<and> g = f then log_file rd rid f @ [l] else log_file rd r g)"
  by (simp add: log_file_def record_logs_append update_conv')

lemma append_line_fields [simp]:
  "rd_cores (append_line rid f l rd) = rd_cores rd" "rd_redirects (append_line rid f l rd) = rd_redirects rd"
  by (simp_all add: append_line_def)

lemma append_event_dir:
  "dir_of j (append_event env k rid agent kind p w) =
     (if j = k then append_line rid (writer_id env agent) (LJson (JObj (next_event env k rid agent kind p w)))
                      (dir_of k w)
      else dir_of j w)"
proof (cases "j = k")
  case True
  then show ?thesis by (simp add: dir_of_append)
next
  case False
  then show ?thesis by (simp add: append_event_def Let_def)
qed

lemma append_event_fields [simp]:
  "it_bus (append_event env k rid agent kind p w) = it_bus w"
  "it_gtd (append_event env k rid agent kind p w) = it_gtd w"
  "it_done (append_event env k rid agent kind p w) = it_done w"
  "it_cab (append_event env k rid agent kind p w) = it_cab w"
  "it_ticks (append_event env k rid agent kind p w) = it_ticks w + 1"
  "it_ids (append_event env k rid agent kind p w) = it_ids w + 1"
  by (simp_all add: append_event_def Let_def)

lemma sound_append:
  assumes "payload_ok p"
  shows "sound_step w (append_event env k rid agent kind p w)"
proof -
  have "dir_grows (dir_of j w) (dir_of j (append_event env k rid agent kind p w))" for j
    by (auto simp: append_event_dir dir_grows_def log_file_append)
  moreover have "keeps_ok w (append_event env k rid agent kind p w)"
  proof -
    have "logs_ok (dir_of j (append_event env k rid agent kind p w))" if "itil_ok w" for j
      using that append_event_ok(1) [OF _ assms, of k w env rid agent kind]
      by (cases "j = k") (auto simp: itil_ok_def append_event_dir)
    then show ?thesis by (simp add: keeps_ok_def itil_ok_def)
  qed
  ultimately show ?thesis by (simp add: sound_step_def itil_grows_def)
qed

lemma write_core_fields [simp]:
  "rd_logs (write_core rid core rd) = rd_logs rd" "rd_redirects (write_core rid core rd) = rd_redirects rd"
  by (simp_all add: write_core_def)

lemma write_core_logs: "record_logs (write_core rid core rd) = record_logs rd"
  by (simp add: record_logs_def fun_eq_iff)

lemma sound_write_core: "sound_step w (put_dir k (write_core rid core (dir_of k w)) w)"
proof -
  have "map_of (rd_cores rd) r = Some f \<Longrightarrow> map_of (rd_cores (write_core rid core rd)) r = Some f" for rd r f
    by (auto simp: write_core_def has_core_def map_add_def)
  then have "dir_grows rd (write_core rid core rd)" for rd
    by (simp add: dir_grows_def log_file_def write_core_logs)
  moreover have "logs_ok (write_core rid core rd) = logs_ok rd" for rd
    by (simp add: logs_ok_def write_core_logs)
  moreover have "dir_of j (put_dir k rd w) = (if j = k then rd else dir_of j w)" for j rd
    by (cases "j = k") simp_all
  ultimately have "dir_grows (dir_of j w) (dir_of j (put_dir k (write_core rid core (dir_of k w)) w))"
    "logs_ok (dir_of j (put_dir k (write_core rid core (dir_of k w)) w)) = logs_ok (dir_of j w)" for j
    by (cases "j = k"; simp add: dir_grows_refl)+
  then show ?thesis
    by (simp add: sound_step_def itil_grows_def keeps_ok_def itil_ok_def)
qed

lemma keeps_append [keeps_intros]:
  "payload_ok p \<Longrightarrow> op_keeps sound_step (op_append env k rid agent kind p)"
  unfolding op_append_def by (rule op_keeps_write) (rule sound_append)

lemma keeps_write_core [keeps_intros]: "op_keeps sound_step (op_write_core k rid core)"
  unfolding op_write_core_def by (rule op_keeps_write) (rule sound_write_core)

lemma keeps_outside [keeps_intros]:
  "op_keeps sound_step (op_now env)" "op_keeps sound_step (op_new_id env)"
  "op_keeps sound_step (op_publish topic p)" "op_keeps sound_step (op_gtd_emit env t r s pr)"
  "op_keeps sound_step (op_complete_gtd ids)"
  by (simp_all add: op_keeps_def op_now_def op_new_id_def op_publish_def op_gtd_emit_def
      op_complete_gtd_def Let_def sound_same_dirs)

lemma payload_ok_simps [simp]:
  "payload_ok []"
  "payload_ok ((k, v) # p) \<longleftrightarrow> k \<notin> set header_fields \<and> payload_ok p"
  by (auto simp: payload_ok_def)

lemma header_fields_set [simp]:
  "set header_fields = {''event_id'', ''ts'', ''writer'', ''node'', ''seq'', ''kind''}"
  by (simp add: header_fields_def)

lemma keeps_link_gtd [keeps_intros]: "op_keeps sound_step (op_link_gtd env k rid agent gid)"
  unfolding op_link_gtd_def by (intro sound.keeps keeps_intros) simp_all

lemma keeps_locate [keeps_intros]: "op_keeps sound_step (op_locate k what rid)"
  unfolding op_locate_def by (intro sound.keeps keeps_intros)

lemma keeps_incident_id: "op_keeps sound_step (op_incident_id env title source services fc)"
  unfolding op_incident_id_def Let_def by (intro sound.keeps keeps_intros)

lemma keeps_mirror_incident [keeps_intros]: "op_keeps sound_step (op_mirror_incident env rid agent)"
  unfolding op_mirror_incident_def op_gtd_for_incident_def by (intro sound.keeps keeps_intros)

lemma keeps_mirror_problem [keeps_intros]: "op_keeps sound_step (op_mirror_problem env rid agent)"
  unfolding op_mirror_problem_def by (intro sound.keeps keeps_intros)

lemma keeps_reopen [keeps_intros]: "op_keeps sound_step (op_reopen_if_resolved env rid agent title)"
  unfolding op_reopen_if_resolved_def by (intro sound.keeps keeps_intros) simp

lemma keeps_create_incident [keeps_intros]:
  "op_keeps sound_step (create_incident env title sev src svcs impact m c tags fc)"
proof -
  have split: "(\<And>a b. op_keeps sound_step (f a b)) \<Longrightarrow> op_keeps sound_step (case x of (a, b) \<Rightarrow> f a b)" for f :: "string \<Rightarrow> string \<Rightarrow> (itil, incident option) op" and x
    by (cases x) simp
  show ?thesis
    unfolding create_incident_def Let_def
    by (intro sound.keeps_bind keeps_incident_id split sound.keeps keeps_intros; simp)
qed

lemma keeps_update_incident [keeps_intros]:
  "op_keeps sound_step (update_incident env i agent st sev note res prob m)"
  unfolding update_incident_def op_incident_gtd_def by (intro sound.keeps keeps_intros) simp_all

lemma keeps_note_recovery [keeps_intros]: "op_keeps sound_step (note_recovery env i agent note)"
  unfolding note_recovery_def by (intro sound.keeps keeps_intros) simp_all

lemma keeps_kedb [keeps_intros]:
  "op_keeps sound_step (create_kedb_entry env t s rc wa fix_id prob m tags entry_id)"
  unfolding create_kedb_entry_def Let_def by (intro sound.keeps keeps_intros; simp add: sound_same_dirs)

lemma keeps_create_problem [keeps_intros]:
  "op_keeps sound_step (create_problem env title m c incs wa tags)"
  unfolding create_problem_def Let_def by (intro sound.keeps keeps_intros) simp_all

lemma keeps_update_problem [keeps_intros]:
  "op_keeps sound_step (update_problem env p agent st rc wa note kedb)"
  unfolding update_problem_def op_spawn_kedb_def op_problem_def by (intro sound.keeps keeps_intros) simp_all

lemma keeps_propose_change [keeps_intros]:
  "op_keeps sound_step (propose_change env title ct rk rb test m c impl prob tags)"
  unfolding propose_change_def Let_def by (intro sound.keeps keeps_intros) simp_all

lemma keeps_announce [keeps_intros]: "op_keeps sound_step (op_announce env rid agent core st c)"
  unfolding op_announce_def by (intro sound.keeps keeps_intros)

lemma keeps_update_change [keeps_intros]: "op_keeps sound_step (update_change env i agent st note)"
  unfolding update_change_def by (intro sound.keeps keeps_intros) simp_all

lemma keeps_vote [keeps_intros]:
  "op_keeps sound_step (submit_cab_vote env cid agent d cond subj role fp auth)"
  unfolding submit_cab_vote_def Let_def by (intro sound.keeps keeps_intros; simp add: sound_same_dirs)

section \<open>Announcements follow the fold\<close>

lemma op_link_gtd_fields:
  "it_bus (snd (op_link_gtd env k rid agent g w)) = it_bus w"
  "it_gtd (snd (op_link_gtd env k rid agent g w)) = it_gtd w"
  by (auto simp: op_link_gtd_def op_when_def op_append_def split: option.split)

text \<open>Everything one call of \<open>op_announce\<close> sends outside.\<close>

definition announced :: "change \<Rightarrow> (string \<times> jobj) list \<Rightarrow> gtd_capture list \<Rightarrow> bool" where
  "announced c new gs \<longleftrightarrow>
     (\<forall>(topic, p) \<in> set new. (topic = ''itil.change.approved'' \<and> c_status c = Approved)
        \<or> (topic = ''itil.change.deployed'' \<and> c_status c = Deployed))
   \<and> length new \<le> 1 \<and> length gs \<le> 1
   \<and> (gs \<noteq> [] \<longrightarrow> c_status c = Approved \<and> c_gtd_item_ids c = [])"

lemma op_announce_sends:
  "\<exists>new gs. it_bus (snd (op_announce env rid agent core st c w)) = it_bus w @ new
     \<and> it_gtd (snd (op_announce env rid agent core st c w)) = it_gtd w @ gs \<and> announced c new gs"
proof (cases core)
  case (JObj d)
  consider (approved) "st = ''approved''" "c_status c = Approved"
    | (deployed) "st = ''deployed''" "c_status c = Deployed"
    | (none) "\<not> (st = ''approved'' \<and> c_status c = Approved)" "\<not> (st = ''deployed'' \<and> c_status c = Deployed)"
    by blast
  then show ?thesis
  proof cases
    case approved
    then show ?thesis
      using JObj by (simp add: op_announce_def op_bind_run op_when_def op_publish_def op_gtd_emit_def
          op_link_gtd_fields announced_def Let_def)
  next
    case deployed
    then show ?thesis
      using JObj by (simp add: op_announce_def op_bind_run op_publish_def announced_def)
  qed (auto simp: op_announce_def announced_def)
qed (auto simp: op_announce_def op_bind_run announced_def)

section \<open>Votes\<close>

lemma vote_file_of: "vote_file_matches cid (cid @ ''-'' @ voter @ ''.json'')"
  by (auto simp: vote_file_matches_def starts_with_iff ends_with_def)

lemma valid_files_mem:
  "(name, FJson v) \<in> set files \<Longrightarrow> parse v = Inr x \<Longrightarrow> x \<in> set (valid_files parse files)"
  by (force simp: valid_files_def map_filter_def)

lemma update_mem: "(k, v) \<in> set (AList.update k v xs)"
  by (induction xs) auto

lemma update_other: "p \<in> set xs \<Longrightarrow> fst p \<noteq> k \<Longrightarrow> p \<in> set (AList.update k v xs)"
  by (induction xs) auto

definition role_unsupported :: "string \<Rightarrow> bool" where
  "role_unsupported role \<longleftrightarrow> role \<noteq> [] \<and> role \<notin> {''owner'', ''operator'', ''approver'', ''implementer''}"

lemma submit_cab_vote_cases:
  "submit_cab_vote env cid agent d cond subject role fp auth w =
     (if role_unsupported role then (Inl (ValueError ''unsupported CAB subject role''), w)
      else if role \<in> {''owner'', ''approver''} \<and> subject = []
      then (Inl (ValueError ''a qualifying human role requires an authenticated subject''), w)
      else case enum_of cab_decision_value_str cab_decision_values (JStr d) of
             Inl e \<Rightarrow> (Inl e, w)
           | Inr dv \<Rightarrow>
               (let v = \<lparr>v_change_id = cid, v_agent = (if subject \<noteq> [] then subject else agent),
                         v_subject_role = role, v_subject_fingerprint = fp, v_authorization_id = auth,
                         v_decision = dv, v_conditions = cond, v_decided_at = env_clock env (it_ticks w)\<rparr>
                in (Inr v, w\<lparr>it_ticks := it_ticks w + 1,
                      it_cab := AList.update (cid @ ''-'' @ v_agent v @ ''.json'') (FJson (vote_to_json v)) (it_cab w)\<rparr>)))"
  unfolding submit_cab_vote_def role_unsupported_def [symmetric] Let_def
  by (simp add: op_bind_run op_now_def split: sum.split)

lemma submit_cab_vote_run:
  assumes "submit_cab_vote env cid agent d cond subject role fp auth w = (Inr v, w')"
  shows "v_agent v = (if subject \<noteq> [] then subject else agent)" "cab_decision_value_str (v_decision v) = d"
    "role \<in> {''owner'', ''approver''} \<longrightarrow> subject \<noteq> []" "v_subject_role v = role"
    "w' = w\<lparr>it_ticks := it_ticks w + 1, it_cab := AList.update (cid @ ''-'' @ v_agent v @ ''.json'')
               (FJson (vote_to_json v)) (it_cab w)\<rparr>"
proof -
  have "\<not> role_unsupported role"
  proof
    assume "role_unsupported role"
    with assms show False unfolding submit_cab_vote_cases by simp
  qed
  note a = assms [unfolded submit_cab_vote_cases if_not_P [OF this]]
  have no: "\<not> (role \<in> {''owner'', ''approver''} \<and> subject = [])"
  proof
    assume b: "role \<in> {''owner'', ''approver''} \<and> subject = []"
    from a show False unfolding if_P [OF b] by simp
  qed
  then show "role \<in> {''owner'', ''approver''} \<longrightarrow> subject \<noteq> []" by blast
  note a = a [unfolded if_not_P [OF no]]
  then obtain dv where dv: "enum_of cab_decision_value_str cab_decision_values (JStr d) = Inr dv"
    by (auto split: sum.splits)
  then have "JStr d = JStr (cab_decision_value_str dv)" by (rule enum_of_Inr_value)
  with a dv show "v_agent v = (if subject \<noteq> [] then subject else agent)" "cab_decision_value_str (v_decision v) = d"
    "v_subject_role v = role"
    "w' = w\<lparr>it_ticks := it_ticks w + 1, it_cab := AList.update (cid @ ''-'' @ v_agent v @ ''.json'')
               (FJson (vote_to_json v)) (it_cab w)\<rparr>"
    by (auto simp: Let_def)
qed

section \<open>Properties\<close>

text \<open>
  C19. History is append-only. Whatever an operation of the manager does, raising included: every
  core that existed is unchanged, every log file only gains lines at its end, redirect stubs stay,
  what was published, captured or completed stays in that order, and the layout of the logs is kept.
\<close>

theorem history_append_only:
  "op_keeps sound_step (create_incident env title sev src svcs impact m c tags fc)
   \<and> op_keeps sound_step (update_incident env i agent st sev note res prob m)
   \<and> op_keeps sound_step (note_recovery env i agent note)
   \<and> op_keeps sound_step (create_problem env title m c incs wa tags)
   \<and> op_keeps sound_step (update_problem env i agent st rc wa note kedb)
   \<and> op_keeps sound_step (propose_change env title ct rk rb test m c impl prob' tags)
   \<and> op_keeps sound_step (update_change env i agent st note)
   \<and> op_keeps sound_step (submit_cab_vote env i agent d cond subj role fp auth)
   \<and> op_keeps sound_step (create_kedb_entry env title symptoms rc wa fix_id prob' m tags entry_id)"
  by (intro conjI keeps_intros)

text \<open>
  Announcements tell the truth. An update of a change publishes at most one event and captures
  at most one GTD task, all decided by the record folded right after the update was logged: the
  approval is announced only for a change that folds approved, the deployment only for one that
  folds deployed, and the implementation task is captured only for an approved change that has no
  task yet, whatever status was asked for.
\<close>

theorem change_announcements_true:
  assumes "resolve_id (it_changes w) change_id = Inr rid"
    and "update_change env change_id agent new_status note w = (r, w')"
  shows "\<exists>new gs. it_bus w' = it_bus w @ new \<and> it_gtd w' = it_gtd w @ gs
    \<and> (new = [] \<and> gs = []
       \<or> (\<exists>c. change_at env (append_event env Changes rid agent ''status''
               [(''to'', JStr new_status), (''note'', JStr note)] w) rid = Inr (Some c) \<and> announced c new gs))"
proof (cases "load_core (it_changes w) rid")
  case None
  with assms show ?thesis by (auto simp: update_change_def op_bind_run)
next
  case (Some core)
  show ?thesis
  proof (cases "new_status = []")
    case True
    with assms Some show ?thesis
      by (auto simp: update_change_def op_bind_run op_append_def op_when_def split: if_splits)
  next
    case False
    let ?w1 = "append_event env Changes rid agent ''status'' [(''to'', JStr new_status), (''note'', JStr note)] w"
    show ?thesis
    proof (cases "change_at env ?w1 rid")
      case (Inl e)
      with assms Some False show ?thesis
        by (auto simp: update_change_def op_bind_run op_append_def)
    next
      case (Inr folded)
      show ?thesis
      proof (cases folded)
        case None
        with assms Some False Inr show ?thesis
          by (auto simp: update_change_def op_bind_run op_append_def)
      next
        case c: (Some c)
        obtain r2 w2 where w2: "op_announce env rid agent core new_status c ?w1 = (r2, w2)"
          by (cases "op_announce env rid agent core new_status c ?w1")
        have "w' = w2"
          using assms Some False Inr c w2
          by (cases r2) (auto simp: update_change_def op_bind_run op_append_def)
        moreover obtain new gs where "it_bus w2 = it_bus ?w1 @ new" "it_gtd w2 = it_gtd ?w1 @ gs" "announced c new gs"
          using op_announce_sends [of env rid agent core new_status c ?w1] w2 by auto
        ultimately show ?thesis using Inr c by auto
      qed
    qed
  qed
qed

text \<open>
  A recovery is noted once. Whatever the writer says the second time, and whether or not the
  first call found the incident, a second recovery note of the same writer changes nothing.
\<close>

lemma has_kind_snoc:
  "has_kind kind (ls @ [LJson (JObj e)]) =
     r_bind (has_kind kind ls) (\<lambda>b. Inr (b \<or> get e ''kind'' = JStr kind))"
  by (induction kind ls rule: has_kind.induct) (auto simp: r_bind_def split: sum.split)

lemma next_event_kind: "payload_ok p \<Longrightarrow> get (next_event env k rid agent kind p w) ''kind'' = JStr kind"
proof -
  have "get d x = get_d d x JNull" for d x by (simp add: get_def get_d_def)
  then show "payload_ok p \<Longrightarrow> ?thesis"
    by (auto simp: next_event_def make_event_def get_d_payload payload_ok_def)
qed

lemma resolve_id_append: "resolve_id (append_line r f l rd) x = resolve_id rd x"
proof -
  have "resolve_from (append_line r f l rd) seen x = resolve_from rd seen x" for seen
  proof (induction rd seen x rule: resolve_from.induct)
    case (1 rd seen cur)
    then show ?case
      by (subst (1 2) resolve_from.simps) (auto simp: has_core_def split: option.split json.split)
  qed
  then show ?thesis by (simp add: resolve_id_def)
qed

theorem recovery_noted_once:
  "note_recovery env i agent note2 (snd (note_recovery env i agent note1 w))
     = (fst (note_recovery env i agent note2 (snd (note_recovery env i agent note1 w))),
        snd (note_recovery env i agent note1 w))"
proof -
  have raise: "snd (note_recovery env i agent note1 w) = w \<Longrightarrow> snd (note_recovery env i agent note2 w) = w
      \<Longrightarrow> ?thesis" by (metis prod.collapse)
  show ?thesis
  proof (cases "resolve_id (it_incidents w) i")
    case (Inl e)
    then show ?thesis by (intro raise) (simp_all add: note_recovery_def op_bind_run)
  next
    case rid: (Inr rid)
    show ?thesis
    proof (cases "record_exists (it_incidents w) rid = Inr True")
      case False
      then show ?thesis using rid
        by (intro raise; cases "record_exists (it_incidents w) rid")
          (auto simp: note_recovery_def op_bind_run)
    next
      case found: True
      show ?thesis
      proof (cases "writer_has_kind env (it_incidents w) rid agent ''recovery'' = Inr False")
        case False
        then show ?thesis using rid found
          by (intro raise; cases "writer_has_kind env (it_incidents w) rid agent ''recovery''")
            (auto simp: note_recovery_def op_bind_run)
      next
        case new: True
        let ?w1 = "append_event env Incidents rid agent ''recovery'' [(''note'', JStr note1)] w"
        have w1: "snd (note_recovery env i agent note1 w) = ?w1"
          using rid found new by (simp add: note_recovery_def op_bind_run op_append_def)
        have dir: "it_incidents ?w1 = append_line rid (writer_id env agent)
            (LJson (JObj (next_event env Incidents rid agent ''recovery'' [(''note'', JStr note1)] w))) (it_incidents w)"
          using append_event_dir [of Incidents env Incidents] by simp
        have "writer_has_kind env (it_incidents ?w1) rid agent ''recovery'' = Inr True"
          using new next_event_kind [of "[(''note'', JStr note1)]" env Incidents rid agent "''recovery''" w]
          unfolding dir writer_has_kind_def log_file_append by (simp add: has_kind_snoc)
        moreover have "resolve_id (it_incidents ?w1) i = Inr rid" "record_exists (it_incidents ?w1) rid = Inr True"
          using rid found unfolding dir by (simp_all add: resolve_id_append record_exists_def has_core_def)
        ultimately show ?thesis
          unfolding w1 by (simp add: note_recovery_def op_bind_run)
      qed
    qed
  qed
qed

text \<open>
  A rejecting vote reaches the fold. Once the board's rejection of a change that is not standard
  is submitted, that change folds to rejected or closed, whatever votes and events were there before.
\<close>

theorem reject_vote_blocks:
  assumes "submit_cab_vote env cid agent ''rejected'' cond subject role fp auth w = (Inr v, w')"
    and "load_core (it_changes w) rid = Some (JObj core)" and "get_d core ''id'' (JStr rid) = JStr cid"
    and "chg_change_type core \<noteq> JStr ''standard''"
    and "read_events (it_changes w) rid = Inr es" and "list_all not_migrated es"
    and "change_at env w' rid = Inr (Some c)"
  shows "c_status c \<in> {Rejected, CClosed}"
proof -
  note run = submit_cab_vote_run [OF assms(1)]
  have same: "it_changes w' = it_changes w" and cab: "it_cab w' =
      AList.update (cid @ ''-'' @ v_agent v @ ''.json'') (FJson (vote_to_json v)) (it_cab w)"
    using run(5) by simp_all
  let ?votes = "cab_votes (now_iso env w') w' cid"
  have "v_decision v = CabRejected" using run(2) by (cases "v_decision v") simp_all
  moreover have "v \<in> set ?votes"
    unfolding cab_votes_def cab
    by (rule valid_files_mem [where name = "cid @ ''-'' @ v_agent v @ ''.json''" and v = "vote_to_json v"])
      (use update_mem vote_file_of vote_round_trip in \<open>simp_all only: set_filter mem_Collect_eq prod.case simp_thms\<close>)
  ultimately have rej: "rejections ?votes \<noteq> []"
    by (auto simp: rejections_def filter_empty_conv)
  have "fold_change (now_iso env w') core es ?votes = Inr c"
    using assms(2,3,5,7)
    by (auto simp: change_at_def same fold_record.simps fold_here_def change_model_def
        split: sum.splits)
  then show ?thesis using assms(6) rej assms(4) by (rule rejection_blocks)
qed

definition sample_change_dir :: itil where
  "sample_change_dir = empty_itil\<lparr>it_changes := \<lparr>rd_cores = [(''chg-1'', FJson (JObj (sample_change ''normal'')))],
     rd_redirects = [], rd_logs = [(''chg-1'', [(''ops@n1'', map (\<lambda>e. LJson (JObj e)) sample_deploy)])]\<rparr>,
     it_cab := [(''chg-1-human.json'', FJson (vote_to_json (sample_vote ''human'' CabApproved)))]\<rparr>"

theorem reject_vote_blocks_witness:
  "\<exists>v w' c. submit_cab_vote sample_env ''chg-1'' ''sec'' ''rejected'' [] [] [] [] [] sample_change_dir = (Inr v, w')
     \<and> change_at sample_env w' ''chg-1'' = Inr (Some c) \<and> c_status c \<in> {Rejected, CClosed}"
proof -
  obtain r w' where w': "submit_cab_vote sample_env ''chg-1'' ''sec'' ''rejected'' [] [] [] [] [] sample_change_dir = (r, w')"
    by fastforce
  have "isl (fst (submit_cab_vote sample_env ''chg-1'' ''sec'' ''rejected'' [] [] [] [] [] sample_change_dir)) = False"
    by code_simp
  with w' obtain v where v: "r = Inr v" by (cases r) auto
  have "map_sum id (map_option c_status) (change_at sample_env
      (snd (submit_cab_vote sample_env ''chg-1'' ''sec'' ''rejected'' [] [] [] [] [] sample_change_dir)) ''chg-1'')
      = Inr (Some Rejected)"
    by code_simp
  with w' obtain c where c: "change_at sample_env w' ''chg-1'' = Inr (Some c)"
    by (auto dest!: map_sum_InrD)
  have "load_core (it_changes sample_change_dir) ''chg-1'' = Some (JObj (sample_change ''normal''))"
    "get_d (sample_change ''normal'') ''id'' (JStr ''chg-1'') = JStr ''chg-1''"
    "chg_change_type (sample_change ''normal'') \<noteq> JStr ''standard''"
    "read_events (it_changes sample_change_dir) ''chg-1'' = Inr sample_deploy"
    "list_all not_migrated sample_deploy"
    by code_simp+
  with reject_vote_blocks [of sample_env "''chg-1''" "''sec''" "[]" "[]" "[]" "[]" "[]" sample_change_dir v w' "''chg-1''"]
    w' v c show ?thesis by blast
qed

lemma resolve_id_self: "has_core rd rid \<Longrightarrow> resolve_id rd rid = Inr rid"
  by (simp add: resolve_id_def resolve_from.simps)

lemma load_core_has: "load_core rd rid = Some v \<Longrightarrow> has_core rd rid"
  by (auto simp: load_core_def has_core_def split: option.splits)

text \<open>
  An update is one more event of the fold. On a record whose log the clock has passed, asking
  for a status other than resolved appends that one event and returns the fold of the old history
  with it at the end; nothing else changes.
\<close>

theorem update_is_one_event:
  assumes "logs_ok (it_incidents w)" and "load_core (it_incidents w) rid = Some (JObj core)"
    and "read_events (it_incidents w) rid = Inr es" and "st \<noteq> []" and "st \<noteq> ''resolved''"
    and "e = next_event env Incidents rid agent ''status'' [(''to'', JStr st), (''note'', JStr note)] w"
    and "\<forall>x\<in>set es. the (event_key x) < the (event_key e)"
    and "w' = append_event env Incidents rid agent ''status'' [(''to'', JStr st), (''note'', JStr note)] w"
  shows "update_incident env rid agent st [] note [] [] [] w
    = (Inr (case fold_incident (now_iso env w') core (es @ [e]) of Inl _ \<Rightarrow> None | Inr i \<Rightarrow> Some i), w')"
proof -
  have core: "has_core (it_incidents w) rid" using assms(2) by (rule load_core_has)
  then have loc: "op_locate Incidents ''Incident'' rid w = (Inr rid, w)"
    by (simp add: op_locate_def op_bind_run resolve_id_self record_exists_def)
  have pay: "payload_ok [(''to'', JStr st), (''note'', JStr note)]" by simp
  have ok: "logs_ok (dir_of Incidents w)" using assms(1) by simp
  have read: "read_events (it_incidents w') rid = Inr (es @ [e])"
    using append_extends [OF ok pay, of env rid agent "''status''"] assms(3,6,7,8) by auto
  have "load_core (it_incidents w') rid = Some (JObj core)"
    using assms(2,8) append_event_dir [of Incidents env Incidents rid agent "''status''"]
    by (simp add: load_core_def)
  then have "incident_at env w' rid
      = Inr (case fold_incident (now_iso env w') core (es @ [e]) of Inl _ \<Rightarrow> None | Inr i \<Rightarrow> Some i)"
    using read by (simp add: incident_at_def fold_record.simps fold_here_def incident_model_def)
  with loc assms(4,5,8) show ?thesis
    by (simp add: update_incident_def op_bind_run op_append_def)
qed

definition sample_incident_dir :: itil where
  "sample_incident_dir = empty_itil\<lparr>it_incidents := \<lparr>rd_cores = [(''inc-1'', FJson (JObj sample_core))],
     rd_redirects = [], rd_logs = []\<rparr>\<rparr>"

theorem update_is_one_event_witness:
  "\<exists>i w'. update_incident sample_env ''inc-1'' ''ops'' ''acknowledged'' [] ''on it'' [] [] [] sample_incident_dir
     = (Inr (Some i), w') \<and> i_status i = Acknowledged"
proof -
  let ?p = "[(''to'', JStr ''acknowledged''), (''note'', JStr ''on it'')]"
  let ?e = "next_event sample_env Incidents ''inc-1'' ''ops'' ''status'' ?p sample_incident_dir"
  let ?w' = "append_event sample_env Incidents ''inc-1'' ''ops'' ''status'' ?p sample_incident_dir"
  have "logs_ok (it_incidents sample_incident_dir)"
    by (simp add: sample_incident_dir_def logs_ok_def record_logs_def files_ok_def)
  moreover have "load_core (it_incidents sample_incident_dir) ''inc-1'' = Some (JObj sample_core)"
    "read_events (it_incidents sample_incident_dir) ''inc-1'' = Inr []"
    by code_simp+
  ultimately have run: "update_incident sample_env ''inc-1'' ''ops'' ''acknowledged'' [] ''on it'' [] [] [] sample_incident_dir
      = (Inr (case fold_incident (now_iso sample_env ?w') sample_core ([] @ [?e]) of Inl _ \<Rightarrow> None | Inr i \<Rightarrow> Some i), ?w')"
    by (intro update_is_one_event) simp_all
  have "map_sum id i_status (fold_incident (now_iso sample_env ?w') sample_core ([] @ [?e])) = Inr Acknowledged"
    by code_simp
  with run show ?thesis by (auto dest!: map_sum_InrD)
qed

definition change_with_task :: itil where
  "change_with_task = sample_change_dir\<lparr>it_changes := (it_changes sample_change_dir)
     \<lparr>rd_cores := [(''chg-1'', FJson (JObj (set_item ''implementer'' (JStr ''bot'') (sample_change ''normal''))))],
      rd_logs := []\<rparr>\<rparr>"

theorem change_announcements_true_witness:
  "\<exists>r w' new gs. update_change sample_env ''chg-1'' ''dev'' ''approved'' [] change_with_task = (r, w')
     \<and> it_bus w' = it_bus change_with_task @ new \<and> it_gtd w' = it_gtd change_with_task @ gs \<and> length gs = 1"
proof -
  obtain r w' where w': "update_change sample_env ''chg-1'' ''dev'' ''approved'' [] change_with_task = (r, w')"
    by fastforce
  have "length (it_gtd (snd (update_change sample_env ''chg-1'' ''dev'' ''approved'' [] change_with_task))) = 1"
    "it_gtd change_with_task = []"
    by code_simp+
  moreover have "resolve_id (it_changes change_with_task) ''chg-1'' = Inr ''chg-1''" by code_simp
  ultimately show ?thesis
    using change_announcements_true [OF _ w'] w' by fastforce
qed

text \<open>
  Two corners of the operations. A health check that finds its incident of the day already closed
  logs a second creation and announces it, but the incident stays closed. A known error with a
  pinned id is overwritten by the next one with that id.
\<close>

definition closed_today :: itil where
  "closed_today = empty_itil\<lparr>it_incidents := \<lparr>rd_cores = [(''inc-db|unreachable|2026-09-01'', FJson (JObj sample_core))],
     rd_redirects = [], rd_logs = [(''inc-db|unreachable|2026-09-01'',
       [(''ops@n1'', map (\<lambda>e. LJson (JObj e)) (sample_log @ sample_tail))])]\<rparr>\<rparr>"

lemma closed_incident_stays_closed:
  "map_sum id (map_option i_status)
     (fst (create_incident sample_env ''db down'' ''sev2'' ''service_health'' [''db''] [] [] [] [] [] closed_today))
     = Inr (Some Closed)"
  "map fst (it_bus (snd (create_incident sample_env ''db down'' ''sev2'' ''service_health'' [''db''] [] [] [] [] []
       closed_today))) = [''itil.incident.created'']"
  by code_simp+

lemma pinned_kedb_overwritten:
  "length (it_kedb (snd (op_bind (create_kedb_entry sample_env ''old'' [] [] [] None None [] [] (Some ''ke-1''))
      (\<lambda>_. create_kedb_entry sample_env ''new'' [] [] [] None None [] [] (Some ''ke-1'')) empty_itil))) = 1"
  by code_simp

end
