(* ===== verification/Itil_Dashboard.thy ===== *)
theory Itil_Dashboard
  imports Itil_Guarantees
begin

text \<open>
  The read side and the scheduled tasks of \<open>ITILManager\<close>: the dashboard summary and the board text,
  auto-close, SLA breaches, and the sweep that archives GTD items without an open record. Hours and
  minutes are exact quotients of microseconds, where the code divides floating-point seconds.
\<close>

section \<open>Dashboard\<close>

record dashboard =
  db_incidents :: nat
  db_open :: nat
  db_by_severity :: "(severity \<times> nat) list"
  db_open_list :: "incident list"
  db_problems :: nat
  db_active :: nat
  db_active_list :: "problem list"
  db_changes :: nat
  db_pending :: nat
  db_pending_list :: "change list"
  db_kedb :: nat

definition pending_statuses :: "change_status list" where
  "pending_statuses = [Proposed, Reviewing, Approved, Scheduled, Implementing]"

definition get_status :: "itil_env \<Rightarrow> itil \<Rightarrow> dashboard result" where
  "get_status env w =
     r_bind (load_records (incident_model (now_iso env w)) (it_incidents w)) (\<lambda>incs.
     r_bind (load_records (problem_model (now_iso env w)) (it_problems w)) (\<lambda>prbs.
     r_bind (load_records (change_model (now_iso env w) w) (it_changes w)) (\<lambda>chgs.
       let kedb = load_kedb (now_iso env w) (''ke-'' @ take 8 (env_uuid env (it_ids w))) w;
           open_incs = filter (\<lambda>i. i_status i \<in> set open_incident_statuses) incs;
           active = filter (\<lambda>p. p_status p \<noteq> PResolved) prbs;
           pending = filter (\<lambda>c. c_status c \<in> set pending_statuses) chgs
       in Inr \<lparr>db_incidents = length incs, db_open = length open_incs,
            db_by_severity = map (\<lambda>s. (s, length (filter (\<lambda>i. i_severity i = s) open_incs))) severities,
            db_open_list = open_incs, db_problems = length prbs, db_active = length active,
            db_active_list = active, db_changes = length chgs, db_pending = length pending,
            db_pending_list = pending, db_kedb = length kedb\<rparr>)))"

section \<open>Scheduled tasks\<close>

text \<open>An ISO text read as the code reads it: \<open>datetime.fromisoformat(text.replace("Z", "+00:00"))\<close>.\<close>

definition aware_instant :: "string \<Rightarrow> int option" where
  "aware_instant s = (case fromisoformat (replace_Z s) of None \<Rightarrow> None | Some d \<Rightarrow> instant d)"

text \<open>The clock of the environment reads aware ISO text.\<close>

definition op_instant :: "itil_env \<Rightarrow> (itil, int) op" where
  "op_instant env = op_bind (op_now env) (\<lambda>t. op_return (case aware_instant t of None \<Rightarrow> 0 | Some i \<Rightarrow> i))"

abbreviation micros_per_minute :: int where "micros_per_minute \<equiv> 60000000"
abbreviation micros_per_hour :: int where "micros_per_hour \<equiv> 3600000000"

definition trunc_div :: "int \<Rightarrow> int \<Rightarrow> int" where
  "trunc_div a b = (if 0 \<le> a then a div b else - ((- a) div b))"

fun caught :: "py_error \<Rightarrow> bool" where
  "caught TypeError = True"
| "caught (ValueError m) = True"
| "caught ValidationError = True"
| "caught AttributeError = False"
| "caught (KeyError k) = False"
| "caught FileNotFoundError = False"
| "caught (RuntimeError m) = False"
| "caught (TaskUnclaimable t r) = True"
| "caught (OSError m) = False"

definition op_auto_close_one :: "itil_env \<Rightarrow> int \<Rightarrow> int \<Rightarrow> incident \<Rightarrow> (itil, string option) op" where
  "op_auto_close_one env now_i stable_hours i =
     (case i_resolved_at i of
        None \<Rightarrow> op_return None
      | Some r \<Rightarrow>
          (if r = [] then op_return None
           else case aware_instant r of
             None \<Rightarrow> op_return None
           | Some t \<Rightarrow>
               (if stable_hours * micros_per_hour \<le> now_i - t
                then op_catch caught
                  (op_bind (update_incident env (i_id i) ''auto-close'' ''closed'' []
                     (''Auto-closed after '' @ show_int (trunc_div (now_i - t) micros_per_hour) @ ''h stable'')
                     [] [] []) (\<lambda>_. op_return (Some (i_id i)))) None
                else op_return None)))"

definition auto_close_resolved :: "itil_env \<Rightarrow> int \<Rightarrow> (itil, string list) op" where
  "auto_close_resolved env stable_hours =
     op_bind (op_instant env) (\<lambda>now_i.
     op_bind (op_result (\<lambda>w. list_incidents env w ''resolved'' [] [])) (\<lambda>incs.
       op_collect incs (op_auto_close_one env now_i stable_hours)))"

fun sla_minutes :: "severity \<Rightarrow> int" where
  "sla_minutes SEV1 = 5"
| "sla_minutes SEV2 = 15"
| "sla_minutes SEV3 = 60"
| "sla_minutes SEV4 = 240"

text \<open>\<open>round\<close>: halves go to the even neighbour.\<close>

definition round_div :: "int \<Rightarrow> int \<Rightarrow> int" where
  "round_div a b =
     (let q = a div b; r = a mod b
      in if 2 * r < b then q else if b < 2 * r then q + 1 else if q mod 2 = 0 then q else q + 1)"

record breach =
  br_id :: string
  br_severity :: severity
  br_elapsed :: int
  br_limit :: int

definition op_check_one :: "itil_env \<Rightarrow> int \<Rightarrow> incident \<Rightarrow> (itil, breach option) op" where
  "op_check_one env now_i i =
     (if i_status i = Detected \<and> i_detected_at i \<noteq> []
      then case aware_instant (i_detected_at i) of
             None \<Rightarrow> op_return None
           | Some t \<Rightarrow>
               (if sla_minutes (i_severity i) * micros_per_minute < now_i - t
                then op_bind (op_publish ''itil.sla.breach''
                       [(''id'', JStr (i_id i)), (''severity'', JStr (severity_value (i_severity i))),
                        (''breach_type'', JStr ''unacknowledged'')]) (\<lambda>_.
                     op_return (Some \<lparr>br_id = i_id i, br_severity = i_severity i,
                        br_elapsed = round_div (now_i - t) micros_per_minute,
                        br_limit = sla_minutes (i_severity i)\<rparr>))
                else op_return None)
      else op_return None)"

definition check_sla_breaches :: "itil_env \<Rightarrow> (itil, breach list) op" where
  "check_sla_breaches env =
     op_bind (op_instant env) (\<lambda>now_i.
     op_bind (op_result (\<lambda>w. list_incidents env w [] [] [])) (\<lambda>incs.
       op_collect incs (op_check_one env now_i)))"

section \<open>The board\<close>

fun severity_icon :: "severity \<Rightarrow> string" where
  "severity_icon SEV1 = ''P1''"
| "severity_icon SEV2 = ''P2''"
| "severity_icon SEV3 = ''P3''"
| "severity_icon SEV4 = ''P4''"

definition board_section :: "string \<Rightarrow> string list \<Rightarrow> string \<Rightarrow> string list" where
  "board_section heading rows none_text = [heading, []] @ (if rows = [] then [none_text] else rows) @ [[]]"

text \<open>The heading time \<open>%Y-%m-%d %H:%M UTC\<close> of an ISO clock reading.\<close>

definition board_time :: "string \<Rightarrow> string" where
  "board_time at_iso = take 10 at_iso @ '' '' @ take 5 (drop 11 at_iso) @ '' UTC''"

definition board_md :: "string \<Rightarrow> dashboard \<Rightarrow> string" where
  "board_md at_iso d = join [CHR 0x0A]
     ([''# ITIL Service Management Board'',
       ''*Auto-generated '' @ board_time at_iso @ '' - do not edit manually*'', []]
      @ board_section (''## Open Incidents ('' @ show_nat (db_open d) @ '')'')
          (map (\<lambda>i. ''- **['' @ i_id i @ '']** '' @ severity_icon (i_severity i) @ '' '' @ i_title i
             @ '' ('' @ incident_status_value (i_status i) @ '') @'' @ i_managed_by i) (db_open_list d))
          ''*No open incidents*''
      @ board_section (''## Active Problems ('' @ show_nat (db_active d) @ '')'')
          (map (\<lambda>p. ''- **['' @ p_id p @ '']** '' @ p_title p @ '' ('' @ problem_status_value (p_status p)
             @ '') @'' @ p_managed_by p) (db_active_list d))
          ''*No active problems*''
      @ board_section (''## Pending Changes ('' @ show_nat (db_pending d) @ '')'')
          (map (\<lambda>c. ''- **['' @ c_id c @ '']** '' @ c_title c @ '' ('' @ change_status_value (c_status c)
             @ '', '' @ change_type_value (c_change_type c) @ '') @'' @ c_managed_by c) (db_pending_list d))
          ''*No pending changes*''
      @ [''## Known Errors ('' @ show_nat (db_kedb d) @ '')'', []])"

definition generate_board_md :: "itil_env \<Rightarrow> (itil, string) op" where
  "generate_board_md env =
     op_bind (op_result (get_status env)) (\<lambda>d.
     op_bind (op_now env) (\<lambda>t. op_return (board_md t d)))"

section \<open>Orphaned GTD items\<close>

fun ref_dir :: "string \<Rightarrow> kind_dir option" where
  "ref_dir p = (if p = ''inc'' then Some Incidents else if p = ''prb'' then Some Problems
     else if p = ''chg'' then Some Changes else None)"

definition itil_ref_is_orphan :: "itil_env \<Rightarrow> itil \<Rightarrow> string \<Rightarrow> bool result" where
  "itil_ref_is_orphan env w itil_id =
     (let prefix = takeWhile (\<lambda>c. c \<noteq> CHR ''-'') itil_id in
      case ref_dir prefix of
        None \<Rightarrow> Inr False
      | Some k \<Rightarrow>
          r_bind (resolve_id (dir_of k w) itil_id) (\<lambda>rid.
          r_bind (record_exists (dir_of k w) rid) (\<lambda>found.
            if \<not> found then Inr True
            else if prefix = ''inc''
            then r_bind (incident_at env w rid) (\<lambda>inc. Inr (case inc of
                   None \<Rightarrow> True
                 | Some i \<Rightarrow> i_status i \<notin> set open_incident_statuses))
            else Inr False)))"

text \<open>
  The search for \<open>\[ITIL:((?:inc|prb|chg)-[0-9a-f]+)\]\<close> in a text: the first place where the pattern
  matches.
\<close>

definition is_hex :: "char \<Rightarrow> bool" where
  "is_hex c = (let n = (of_char c :: nat) in (48 \<le> n \<and> n \<le> 57) \<or> (97 \<le> n \<and> n \<le> 102))"

definition ref_here :: "string \<Rightarrow> string option" where
  "ref_here s =
     (if starts_with s ''[ITIL:'' then
        (let r = drop 6 s; p = take 4 r; h = takeWhile is_hex (drop 4 r)
         in if p \<in> {''inc-'', ''prb-'', ''chg-''} \<and> h \<noteq> [] \<and> starts_with (drop (4 + length h) r) '']''
            then Some (p @ h) else None)
      else None)"

fun ref_in_text :: "string \<Rightarrow> string option" where
  "ref_in_text [] = None"
| "ref_in_text (c # s) = (case ref_here (c # s) of Some r \<Rightarrow> Some r | None \<Rightarrow> ref_in_text s)"

text \<open>The reference an item carries; a text that is not a string raises.\<close>

definition item_ref :: "jobj \<Rightarrow> json result" where
  "item_ref item =
     (let ref = py_or (get item ''itil_id'') (get item ''source_ref'') in
      if truthy ref then Inr ref
      else (case get_d item ''text'' (JStr []) of
          JStr text \<Rightarrow> (case ref_in_text text of Some r \<Rightarrow> Inr (JStr r) | None \<Rightarrow> Inr ref)
        | _ \<Rightarrow> Inl TypeError))"

definition item_is_orphan :: "itil_env \<Rightarrow> itil \<Rightarrow> jobj \<Rightarrow> bool result" where
  "item_is_orphan env w item =
     r_bind (item_ref item) (\<lambda>ref.
       if truthy ref \<and> (starts_with (py_str ref) ''inc-'' \<or> starts_with (py_str ref) ''prb-''
            \<or> starts_with (py_str ref) ''chg-'')
       then itil_ref_is_orphan env w (py_str ref)
       else Inr False)"

definition dropped_item :: "string \<Rightarrow> jobj \<Rightarrow> jobj" where
  "dropped_item at item =
     set_item ''drop_reason'' (JStr ''itil-orphan-reconcile: no open incident record'')
       (set_item ''completed_at'' (JStr at) (set_item ''status'' (JStr ''dropped'') item))"

text \<open>One list: what is kept and what is dropped, in order.\<close>

fun op_sweep :: "itil_env \<Rightarrow> jobj list \<Rightarrow> (itil, jobj list \<times> jobj list) op" where
  "op_sweep env [] = op_return ([], [])"
| "op_sweep env (item # items) =
     op_bind (op_result (\<lambda>w. item_is_orphan env w item)) (\<lambda>orphan.
       if orphan
       then op_bind (op_now env) (\<lambda>at. op_bind (op_sweep env items) (\<lambda>(keep, dropped).
              op_return (keep, dropped_item at item # dropped)))
       else op_bind (op_sweep env items) (\<lambda>(keep, dropped). op_return (item # keep, dropped)))"

definition op_sweep_list :: "itil_env \<Rightarrow> string \<Rightarrow> (itil, json list) op" where
  "op_sweep_list env name =
     op_bind (op_read (\<lambda>w. case map_of (it_lists w) name of None \<Rightarrow> [] | Some xs \<Rightarrow> xs)) (\<lambda>items.
     op_bind (op_sweep env items) (\<lambda>(keep, dropped).
     op_bind (op_when (dropped \<noteq> []) (op_write (\<lambda>w. w\<lparr>it_archive := it_archive w @ dropped,
        it_lists := AList.update name keep (it_lists w)\<rparr>))) (\<lambda>_.
     op_return (map (\<lambda>d. get d ''id'') dropped))))"

fun op_reconcile :: "itil_env \<Rightarrow> string list \<Rightarrow> (itil, json list) op" where
  "op_reconcile env [] = op_return []"
| "op_reconcile env (name # names) =
     op_bind (op_sweep_list env name) (\<lambda>r. op_bind (op_reconcile env names) (\<lambda>rs. op_return (r @ rs)))"

definition reconcile_gtd_orphans :: "itil_env \<Rightarrow> (itil, json list) op" where
  "reconcile_gtd_orphans env =
     op_bind (op_read (\<lambda>w. map fst (it_lists w))) (op_reconcile env)"

section \<open>What the scheduled tasks do\<close>

lemma op_collect_mem:
  "op_collect xs f s = (Inr ys, s') \<Longrightarrow> y \<in> set ys \<Longrightarrow> \<exists>x\<in>set xs. \<exists>t t'. f x t = (Inr (Some y), t')"
proof (induction xs arbitrary: s ys s')
  case Nil
  then show ?case by simp
next
  case (Cons x xs)
  from Cons.prems(1) obtain r t where r: "f x s = (Inr r, t)"
    "op_bind (op_collect xs f) (\<lambda>ys. op_return (case r of None \<Rightarrow> ys | Some v \<Rightarrow> v # ys)) t = (Inr ys, s')"
    by (auto elim: op_bind_InrD)
  from r(2) obtain zs where zs: "op_collect xs f t = (Inr zs, s')" "ys = (case r of None \<Rightarrow> zs | Some v \<Rightarrow> v # zs)"
    by (auto elim!: op_bind_InrD)
  with Cons.prems(2) have "y \<in> set zs \<or> r = Some y" by (auto split: option.splits)
  then show ?case
  proof
    assume "y \<in> set zs"
    from Cons.IH [OF zs(1) this] show ?case by auto
  qed (use r(1) in auto)
qed

lemma op_auto_close_one_closed:
  assumes "op_auto_close_one env n h i s = (Inr (Some y), s')"
  shows "y = i_id i \<and> (\<exists>r t. i_resolved_at i = Some r \<and> aware_instant r = Some t \<and> h * micros_per_hour \<le> n - t)"
  using assms
  by (auto simp: op_auto_close_one_def op_catch_def op_bind_run split: option.splits if_splits prod.splits sum.splits)

lemma keeps_auto_close: "op_keeps sound_step (auto_close_resolved env h)"
  unfolding auto_close_resolved_def op_auto_close_one_def op_instant_def
  by (intro sound.keeps keeps_intros)

text \<open>The clock only dates a record that carries no time: it does not change a folded status.\<close>

lemma map_sum_bind: "map_sum id g (r_bind m f) = r_bind m (\<lambda>x. map_sum id g (f x))"
  by (cases m) simp_all

lemma inc_build_now:
  "map_sum id i_status (inc_build n core s) = map_sum id i_status (inc_build n' core s)"
proof -
  have dt: "as_str (py_or (get core ''detected_at'') (JStr n))
      = (if truthy (get core ''detected_at'') then as_str (get core ''detected_at'') else Inr n)" for n
    by (simp add: py_or_def)
  show ?thesis
    unfolding inc_build_def dt
    by (cases "truthy (get core ''detected_at'')") (simp_all add: map_sum_bind)
qed

lemma fold_incident_now:
  "map_sum id i_status (fold_incident n core es) = map_sum id i_status (fold_incident n' core es)"
  unfolding fold_incident_def map_sum_bind by (simp only: inc_build_now [of n _ _ n'])

lemma fold_record_view:
  assumes "\<And>r c es. map_sum id g (f r c es) = map_sum id g (f' r c es)"
  shows "map_sum id (map_option g) (fold_record f n rd rid) = map_sum id (map_option g) (fold_record f' n rd rid)"
proof (induction n arbitrary: rid)
  have here: "map_sum id (map_option g) (fold_here f rd rid core) = map_sum id (map_option g) (fold_here f' rd rid core)" for rid core
  proof -
    have "map_option g (case f rid c es of Inl _ \<Rightarrow> None | Inr m \<Rightarrow> Some m)
        = map_option g (case f' rid c es of Inl _ \<Rightarrow> None | Inr m \<Rightarrow> Some m)" for c es
      using assms [of rid c es] by (cases "f rid c es"; cases "f' rid c es") simp_all
    then show ?thesis
      unfolding fold_here_def map_sum_bind by (cases core) simp_all
  qed
  {
    case 0
    show ?case unfolding fold_record_unfold [of _ 0]
      by (cases "redirect_next rd rid"; cases "load_core rd rid") (simp_all only: option.case nat.case here)
  next
    case (Suc n)
    have "map_sum id (map_option g) (case fold_record f n rd t of Inl _ \<Rightarrow> Inr None | Inr r \<Rightarrow> Inr r)
        = map_sum id (map_option g) (case fold_record f' n rd t of Inl _ \<Rightarrow> Inr None | Inr r \<Rightarrow> Inr r)" for t
      using Suc.IH [of t] by (cases "fold_record f n rd t"; cases "fold_record f' n rd t") simp_all
    then show ?case unfolding fold_record_unfold [of _ "Suc n"]
      by (cases "redirect_next rd rid"; cases "load_core rd rid") (simp_all only: option.case nat.case here)
  }
qed

definition at_tick :: "nat \<Rightarrow> itil \<Rightarrow> itil" where
  "at_tick t w = w\<lparr>it_ticks := t\<rparr>"

lemma at_tick_simps [simp]:
  "dir_of k (at_tick t w) = dir_of k w" "at_tick t (at_tick u w) = at_tick t w"
  "it_incidents (at_tick t w) = it_incidents w"
  by (cases k; simp add: at_tick_def)+

lemma incident_at_tick:
  "map_sum id (map_option i_status) (incident_at env (at_tick t w) rid)
     = map_sum id (map_option i_status) (incident_at env w rid)"
  unfolding incident_at_def at_tick_simps
  by (rule fold_record_view) (simp add: incident_model_def fold_incident_now [of "now_iso env (at_tick t w)" _ _ "now_iso env w"])

lemma orphan_tick: "item_is_orphan env (at_tick t w) item = item_is_orphan env w item"
proof -
  have view: "r_bind (incident_at env v rid) (\<lambda>inc. Inr (case inc of None \<Rightarrow> True
        | Some i \<Rightarrow> i_status i \<notin> set open_incident_statuses))
      = r_bind (map_sum id (map_option i_status) (incident_at env v rid)) (\<lambda>st. Inr (case st of None \<Rightarrow> True
        | Some s \<Rightarrow> s \<notin> set open_incident_statuses))" for v rid
    by (cases "incident_at env v rid") (simp_all split: option.split)
  have "itil_ref_is_orphan env (at_tick t w) x = itil_ref_is_orphan env w x" for x
    unfolding itil_ref_is_orphan_def view incident_at_tick at_tick_simps ..
  then show ?thesis unfolding item_is_orphan_def by (simp only:)
qed

lemma sweep_result:
  "op_sweep env items w = (Inr (keep, dropped), w') \<Longrightarrow>
     keep = filter (\<lambda>x. item_is_orphan env w x = Inr False) items
   \<and> (\<exists>ats. length ats = length (filter (\<lambda>x. item_is_orphan env w x = Inr True) items) \<and> dropped = map2 dropped_item ats
        (filter (\<lambda>x. item_is_orphan env w x = Inr True) items))
   \<and> (\<exists>t. w' = at_tick t w)
   \<and> (\<forall>x\<in>set items. item_is_orphan env w x \<in> {Inr False, Inr True})"
proof (induction items arbitrary: w keep dropped)
  case Nil
  then show ?case by (auto simp: at_tick_def intro: exI [of _ "it_ticks w"])
next
  case (Cons item items)
  from Cons.prems obtain b where b: "item_is_orphan env w item = Inr b"
    by (auto elim!: op_bind_InrD)
  show ?case
  proof (cases b)
    case False
    with Cons.prems b obtain keep' where k: "op_sweep env items w = (Inr (keep', dropped), w')" "keep = item # keep'"
      by (auto simp: op_bind_run split: prod.splits sum.splits)
    from Cons.IH [OF k(1)] k(2) b False show ?thesis by auto
  next
    case True
    with Cons.prems b obtain d' where d: "op_sweep env items (at_tick (it_ticks w + 1) w) = (Inr (keep, d'), w')"
      "dropped = dropped_item (env_clock env (it_ticks w)) item # d'"
      by (auto simp: op_bind_run op_now_def at_tick_def split: prod.splits sum.splits)
    from Cons.IH [OF d(1)] obtain ats where "length ats = length (filter (\<lambda>x. item_is_orphan env w x = Inr True) items)"
      "d' = map2 dropped_item ats (filter (\<lambda>x. item_is_orphan env w x = Inr True) items)"
      by (auto simp: orphan_tick)
    with Cons.IH [OF d(1)] d(2) b True show ?thesis
      by (auto simp: orphan_tick intro!: exI [of _ "env_clock env (it_ticks w) # ats"])
  qed
qed

section \<open>Properties\<close>

lemma count_by_severity:
  "sum_list (map (\<lambda>s. length (filter (\<lambda>i. i_severity i = s) xs)) severities) = length xs"
proof (induction xs)
  case Nil
  then show ?case by (simp add: severities_def)
next
  case (Cons x xs)
  then show ?case by (cases "i_severity x") (simp_all add: severities_def)
qed

text \<open>
  The dashboard is consistent: every count is the length of its list, an open incident is counted
  under exactly one severity, the counts never exceed the totals, and the listed records are in the
  states their section names.
\<close>

theorem dashboard_consistent:
  assumes "get_status env w = Inr d"
  shows "db_open d = length (db_open_list d) \<and> db_open d \<le> db_incidents d
    \<and> sum_list (map snd (db_by_severity d)) = db_open d \<and> map fst (db_by_severity d) = severities
    \<and> db_active d = length (db_active_list d) \<and> db_active d \<le> db_problems d
    \<and> db_pending d = length (db_pending_list d) \<and> db_pending d \<le> db_changes d
    \<and> (\<forall>i\<in>set (db_open_list d). i_status i \<in> set open_incident_statuses)
    \<and> (\<forall>c\<in>set (db_pending_list d). c_status c \<in> set pending_statuses)"
  using assms
  by (auto simp: get_status_def Let_def comp_def count_by_severity severities_def [symmetric]
      simp del: filter_filter elim!: r_bind_InrE)

theorem dashboard_consistent_witness:
  "\<exists>d. get_status sample_env sample_incident_dir = Inr d \<and> db_open d = 1
     \<and> sum_list (map snd (db_by_severity d)) = 1"
proof -
  have "map_sum id db_open (get_status sample_env sample_incident_dir) = Inr 1" by code_simp
  then obtain d where d: "get_status sample_env sample_incident_dir = Inr d" "db_open d = 1"
    by (blast dest: map_sum_InrD)
  with dashboard_consistent [OF d(1)] show ?thesis by auto
qed

text \<open>
  Auto-close touches only what is stable: every id it reports belongs to an incident that was
  listed as resolved, with a readable resolution time at least the given number of hours before the
  clock reading the run started with.
\<close>

theorem auto_close_only_stable:
  assumes "auto_close_resolved env hours w = (Inr ids, w')" and "x \<in> set ids"
    and "op_instant env w = (Inr n, w1)"
  shows "\<exists>incs i r t. list_incidents env w1 ''resolved'' [] [] = Inr incs \<and> i \<in> set incs \<and> i_id i = x
    \<and> i_status i = Resolved \<and> i_resolved_at i = Some r \<and> aware_instant r = Some t
    \<and> hours * micros_per_hour \<le> n - t"
proof -
  from assms(1,3) obtain incs where incs: "list_incidents env w1 ''resolved'' [] [] = Inr incs"
    "op_collect incs (op_auto_close_one env n hours) w1 = (Inr ids, w')"
    by (auto simp: auto_close_resolved_def op_bind_run split: sum.splits)
  from op_collect_mem [OF incs(2) assms(2)] obtain i s s' where i: "i \<in> set incs"
    "op_auto_close_one env n hours i s = (Inr (Some x), s')" by blast
  have "incident_status_value (i_status i) = incident_status_value Resolved"
    using incs(1) i(1) by (auto simp: list_incidents_def Let_def elim!: r_bind_InrE)
  then have "i_status i = Resolved" by (simp only: incident_status_value_inj)
  with incs(1) i op_auto_close_one_closed [OF i(2)] show ?thesis by blast
qed

definition resolved_yesterday :: itil where
  "resolved_yesterday = sample_incident_dir\<lparr>it_incidents := (it_incidents sample_incident_dir)
     \<lparr>rd_logs := [(''inc-1'', [(''ops@n1'', [LJson (JObj [(''ts'', JStr ''2026-08-30T00:00:00Z''),
        (''writer'', JStr ''ops''), (''node'', JStr ''n1''), (''seq'', JInt 0), (''kind'', JStr ''status''),
        (''to'', JStr ''resolved'')])])])]\<rparr>\<rparr>"

theorem auto_close_only_stable_witness:
  "\<exists>ids w'. auto_close_resolved sample_env 24 resolved_yesterday = (Inr ids, w') \<and> ids = [''inc-1'']
     \<and> (\<exists>n w1 incs. op_instant sample_env resolved_yesterday = (Inr n, w1)
          \<and> list_incidents sample_env w1 ''resolved'' [] [] = Inr incs \<and> (\<exists>i\<in>set incs. i_id i = ''inc-1''))"
proof -
  have "fst (auto_close_resolved sample_env 24 resolved_yesterday) = Inr [''inc-1'']" by code_simp
  then obtain w' where r: "auto_close_resolved sample_env 24 resolved_yesterday = (Inr [''inc-1''], w')"
    by (metis prod.collapse)
  have "\<not> isl (fst (op_instant sample_env resolved_yesterday))" by code_simp
  then obtain n w1 where n: "op_instant sample_env resolved_yesterday = (Inr n, w1)"
    by (cases "op_instant sample_env resolved_yesterday") (auto simp: isl_def, metis obj_sumE)
  from auto_close_only_stable [OF r _ n, of "''inc-1''"] r n show ?thesis by auto
qed

text \<open>
  The orphan sweep loses nothing and reaps only orphans: of a list it keeps, in order, exactly the
  items that are not orphans; every orphan is moved to the end of the archive, marked and dated, and
  reported by its id; the records are not touched.
\<close>

theorem sweep_reaps_only_orphans:
  assumes "op_sweep_list env name w = (Inr reaped, w')" and "map_of (it_lists w) name = Some items"
  shows "map_of (it_lists w') name = Some (filter (\<lambda>x. item_is_orphan env w x = Inr False) items)
    \<and> (\<exists>dropped. it_archive w' = it_archive w @ dropped \<and> length dropped = length (filter (\<lambda>x. item_is_orphan env w x = Inr True) items)
        \<and> reaped = map (\<lambda>d. get d ''id'') dropped)
    \<and> reaped = map (\<lambda>d. get d ''id'') (filter (\<lambda>x. item_is_orphan env w x = Inr True) items)
    \<and> (\<forall>k. dir_of k w' = dir_of k w)"
proof -
  obtain keep dropped w1 where sw: "op_sweep env items w = (Inr (keep, dropped), w1)"
    and r: "reaped = map (\<lambda>d. get d ''id'') dropped"
    and w': "w' = (if dropped = [] then w1 else w1\<lparr>it_archive := it_archive w1 @ dropped,
        it_lists := AList.update name keep (it_lists w1)\<rparr>)"
    using assms by (auto simp: op_sweep_list_def op_bind_run op_when_def split: prod.splits sum.splits if_splits)
  from sweep_result [OF sw] obtain ats t where s: "keep = filter (\<lambda>x. item_is_orphan env w x = Inr False) items"
    "length ats = length (filter (\<lambda>x. item_is_orphan env w x = Inr True) items)"
    "dropped = map2 dropped_item ats (filter (\<lambda>x. item_is_orphan env w x = Inr True) items)"
    "w1 = at_tick t w" "\<forall>x\<in>set items. item_is_orphan env w x \<in> {Inr False, Inr True}"
    by blast
  have ids: "length as = length xs \<Longrightarrow> map (\<lambda>d. get d ''id'') (map2 dropped_item as xs) = map (\<lambda>d. get d ''id'') xs" for as xs
    by (induction as xs rule: list_induct2) (simp_all add: dropped_item_def)
  have len: "length dropped = length (filter (\<lambda>x. item_is_orphan env w x = Inr True) items)"
    using s(2,3) by simp
  have keep: "dropped = [] \<Longrightarrow> keep = items"
  proof -
    assume "dropped = []"
    with len have "filter (\<lambda>x. item_is_orphan env w x = Inr True) items = []" by simp
    with s(1,5) show "keep = items" by (auto simp: filter_empty_conv filter_id_conv)
  qed
  show ?thesis
  proof (intro conjI exI allI)
    show "map_of (it_lists w') name = Some (filter (\<lambda>x. item_is_orphan env w x = Inr False) items)"
      using w' s(1,4) keep assms(2) by (auto simp: at_tick_def update_conv')
    show "it_archive w' = it_archive w @ dropped" using w' s(4) by (simp add: at_tick_def)
    show "length dropped = length (filter (\<lambda>x. item_is_orphan env w x = Inr True) items)" by (rule len)
    show "reaped = map (\<lambda>d. get d ''id'') dropped" by (rule r)
    show "reaped = map (\<lambda>d. get d ''id'') (filter (\<lambda>x. item_is_orphan env w x = Inr True) items)"
      using r s(2,3) ids by simp
    show "dir_of k w' = dir_of k w" for k using w' s(4) by (cases k) (simp_all add: at_tick_def)
  qed
qed

definition gtd_with_orphans :: itil where
  "gtd_with_orphans = sample_incident_dir\<lparr>it_lists := [(''next'',
     [[(''id'', JStr ''g1''), (''itil_id'', JStr ''inc-1'')], [(''id'', JStr ''g2''), (''text'', JStr ''[ITIL:inc-dead] old'')],
      [(''id'', JStr ''g3''), (''text'', JStr ''buy milk'')]])]\<rparr>"

theorem sweep_reaps_only_orphans_witness:
  "\<exists>w'. op_sweep_list sample_env ''next'' gtd_with_orphans = (Inr [JStr ''g2''], w')
     \<and> map (\<lambda>d. get d ''id'') (the (map_of (it_lists w') ''next'')) = [JStr ''g1'', JStr ''g3'']
     \<and> length (it_archive w') = 1"
proof -
  have "fst (op_sweep_list sample_env ''next'' gtd_with_orphans) = Inr [JStr ''g2'']" by code_simp
  then obtain w' where w': "op_sweep_list sample_env ''next'' gtd_with_orphans = (Inr [JStr ''g2''], w')"
    by (metis prod.collapse)
  obtain items where items: "map_of (it_lists gtd_with_orphans) ''next'' = Some items"
    "map (\<lambda>d. get d ''id'') (filter (\<lambda>x. item_is_orphan sample_env gtd_with_orphans x = Inr False) items)
       = [JStr ''g1'', JStr ''g3'']" "it_archive gtd_with_orphans = []"
  proof
    show "map_of (it_lists gtd_with_orphans) ''next'' = Some (snd (hd (it_lists gtd_with_orphans)))"
      by (simp add: gtd_with_orphans_def)
    show "map (\<lambda>d. get d ''id'') (filter (\<lambda>x. item_is_orphan sample_env gtd_with_orphans x = Inr False)
        (snd (hd (it_lists gtd_with_orphans)))) = [JStr ''g1'', JStr ''g3'']" by code_simp
    show "it_archive gtd_with_orphans = []" by code_simp
  qed
  from sweep_reaps_only_orphans [OF w' items(1)] w' items show ?thesis by force
qed

end
