(* ===== verification/Card_Types.thy ===== *)
theory Card_Types
  imports PyValue
begin

text \<open>
  The data of the kanban board (\<open>card.py\<close>): the kinds and columns of a card, the card itself, and
  the overlay event with its validation. A card's fields that events assign without validation are
  JSON values; the fields only its constructor sets are typed.
\<close>

datatype kind = Task | Epic | Incident | Problem | Change

fun kind_value :: "kind \<Rightarrow> string" where
  "kind_value Task = ''task''"
| "kind_value Epic = ''epic''"
| "kind_value Incident = ''incident''"
| "kind_value Problem = ''problem''"
| "kind_value Change = ''change''"

definition kinds :: "kind list" where
  "kinds = [Task, Epic, Incident, Problem, Change]"

datatype column = Backlog | Ready | Doing | Review | Done

fun column_value :: "column \<Rightarrow> string" where
  "column_value Backlog = ''backlog''"
| "column_value Ready = ''ready''"
| "column_value Doing = ''doing''"
| "column_value Review = ''review''"
| "column_value Done = ''done''"

definition columns :: "column list" where
  "columns = [Backlog, Ready, Doing, Review, Done]"

text \<open>\<open>if col in {c.value for c in Column}: Column(col)\<close>, on a value that can be hashed.\<close>

definition column_of :: "json \<Rightarrow> column option" where
  "column_of v = find (\<lambda>c. JStr (column_value c) = v) columns"

definition kind_of :: "json \<Rightarrow> kind option" where
  "kind_of v = find (\<lambda>k. JStr (kind_value k) = v) kinds"

lemma column_value_inj [simp]: "column_value a = column_value b \<longleftrightarrow> a = b"
  by (cases a; cases b) simp_all

lemma column_of_value [simp]: "column_of (JStr (column_value c)) = Some c"
  by (cases c) (simp_all add: column_of_def columns_def)

lemma column_of_Some: "column_of v = Some c \<Longrightarrow> v = JStr (column_value c)"
  by (auto simp: column_of_def find_Some_iff)

lemma set_columns [simp]: "set columns = UNIV"
proof -
  have "c \<in> set columns" for c by (cases c) (simp_all add: columns_def)
  then show ?thesis by blast
qed

lemma distinct_columns [simp]: "distinct columns"
  by (simp add: columns_def)

record card =
  cd_id :: string
  cd_kind :: kind
  cd_title :: json
  cd_description :: json
  cd_status :: column
  cd_swimlane :: json
  cd_priority :: json
  cd_originator :: string
  cd_owner :: json
  cd_order :: json
  cd_labels :: "json list"
  cd_criteria :: "json list"
  cd_dependencies :: "json list"
  cd_links :: "(json \<times> json) list"
  cd_meta :: jobj
  cd_archived :: bool
  cd_created_at :: string
  cd_updated_at :: json
  cd_source :: string

text \<open>A card with the defaults of the model's optional fields.\<close>

definition new_card :: "string \<Rightarrow> kind \<Rightarrow> string \<Rightarrow> column \<Rightarrow> string \<Rightarrow> card" where
  "new_card cid k title st lane =
     \<lparr>cd_id = cid, cd_kind = k, cd_title = JStr title, cd_description = JStr [], cd_status = st,
      cd_swimlane = JStr lane, cd_priority = JStr ''medium'', cd_originator = [], cd_owner = JNull,
      cd_order = JInt 0, cd_labels = [], cd_criteria = [], cd_dependencies = [], cd_links = [],
      cd_meta = [], cd_archived = False, cd_created_at = [], cd_updated_at = JStr [],
      cd_source = ''coord''\<rparr>"

section \<open>Overlay events\<close>

record card_event =
  ce_card_id :: string
  ce_action :: string
  ce_event_id :: "string option"
  ce_writer :: string
  ce_ts :: string
  ce_seq :: int
  ce_column :: "string option"
  ce_order :: "int option"
  ce_priority :: "string option"
  ce_swimlane :: "string option"
  ce_label :: "string option"
  ce_link_key :: "string option"
  ce_link_value :: "string option"
  ce_owner :: "string option"
  ce_title :: "string option"
  ce_description :: "string option"

definition overlay_actions :: "string list" where
  "overlay_actions = [''move'', ''set_priority'', ''set_swimlane'', ''add_label'', ''remove_label'',
     ''link'', ''assign'', ''unassign'', ''describe'', ''verdict'']"

text \<open>The payload fields of an event that are not \<open>None\<close>.\<close>

definition populated :: "card_event \<Rightarrow> string list" where
  "populated e = map fst (filter snd
     [(''column'', ce_column e \<noteq> None), (''order'', ce_order e \<noteq> None),
      (''priority'', ce_priority e \<noteq> None), (''swimlane'', ce_swimlane e \<noteq> None),
      (''label'', ce_label e \<noteq> None), (''link_key'', ce_link_key e \<noteq> None),
      (''link_value'', ce_link_value e \<noteq> None), (''owner'', ce_owner e \<noteq> None),
      (''title'', ce_title e \<noteq> None), (''description'', ce_description e \<noteq> None)])"

definition action_fields :: "string \<Rightarrow> string list" where
  "action_fields a =
     (if a = ''move'' then [''column'', ''order'']
      else if a = ''set_priority'' then [''priority'']
      else if a = ''set_swimlane'' then [''swimlane'']
      else if a = ''add_label'' \<or> a = ''remove_label'' then [''label'']
      else if a = ''link'' \<or> a = ''verdict'' then [''link_key'', ''link_value'']
      else if a = ''assign'' then [''owner'']
      else if a = ''describe'' then [''title'', ''description'']
      else [])"

text \<open>The writer identity \<open>[A-Za-z0-9][A-Za-z0-9._@:-]{0,127}\<close>, matched in full.\<close>

definition is_alnum :: "char \<Rightarrow> bool" where
  "is_alnum c = (let n = (of_char c :: nat)
     in (48 \<le> n \<and> n \<le> 57) \<or> (65 \<le> n \<and> n \<le> 90) \<or> (97 \<le> n \<and> n \<le> 122))"

definition writer_ok :: "string \<Rightarrow> bool" where
  "writer_ok w = (case w of [] \<Rightarrow> False
     | c # cs \<Rightarrow> is_alnum c \<and> list_all (\<lambda>c. is_alnum c \<or> c \<in> set ''._@:-'') cs \<and> length cs \<le> 127)"

text \<open>\<open>not str(value or "").strip()\<close> of an optional text.\<close>

definition blank_opt :: "string option \<Rightarrow> bool" where
  "blank_opt v = (case v of None \<Rightarrow> True | Some s \<Rightarrow> blank s)"

text \<open>The one field of the four single-field actions.\<close>

definition single_field :: "card_event \<Rightarrow> string option" where
  "single_field e =
     (if ce_action e = ''set_priority'' then ce_priority e
      else if ce_action e = ''set_swimlane'' then ce_swimlane e else ce_label e)"

definition validate_overlay_event :: "bool \<Rightarrow> card_event \<Rightarrow> unit result" where
  "validate_overlay_event require_writer e =
     (let a = ce_action e in
      if a \<notin> set overlay_actions then Inl (ValueError ''unsupported overlay action'')
      else if require_writer \<and> \<not> writer_ok (ce_writer e)
      then Inl (ValueError ''overlay writer must be a nonempty bounded identity'')
      else if \<not> set (populated e) \<subseteq> set (action_fields a)
      then Inl (ValueError ''overlay action carries reserved field(s)'')
      else if a = ''move'' \<and> populated e = []
      then Inl (ValueError ''overlay action move requires column or order'')
      else if a \<in> {''set_priority'', ''set_swimlane'', ''add_label'', ''remove_label''}
              \<and> blank_opt (single_field e)
      then Inl (ValueError ''overlay action requires its field'')
      else if a \<in> {''link'', ''verdict''} \<and> (blank_opt (ce_link_key e) \<or> ce_link_value e = None)
      then Inl (ValueError ''overlay action requires link_key and link_value'')
      else if a = ''verdict'' \<and> ce_link_key e \<noteq> Some ''verdict''
      then Inl (ValueError ''overlay action verdict requires link_key verdict'')
      else if a = ''assign'' \<and> blank_opt (ce_owner e)
      then Inl (ValueError ''overlay action assign requires owner'')
      else if a = ''describe'' \<and> ce_title e = None \<and> ce_description e = None
      then Inl (ValueError ''overlay action describe requires title or description'')
      else Inr ())"

end
