(* ===== verification/Card_Overlay.thy ===== *)
theory Card_Overlay
  imports Card_Types "HOL-Library.Multiset"
begin

text \<open>
  The fold of the overlay events into one patch per card (\<open>fold_overlay\<close>), and its specification:
  each field of a patch is what the card's own events, in \<open>(ts, writer, seq)\<close> order, say last.
\<close>

section \<open>The fold\<close>

record patch =
  pt_column :: "string option"
  pt_order :: "int option"
  pt_priority :: "string option"
  pt_swimlane :: "string option"
  pt_labels :: "string list"
  pt_links :: "(string \<times> string option) list"
  pt_owner :: "string option"
  pt_owner_set :: bool
  pt_title :: "string option"
  pt_description :: "string option"

definition empty_patch :: patch where
  "empty_patch = \<lparr>pt_column = None, pt_order = None, pt_priority = None, pt_swimlane = None,
     pt_labels = [], pt_links = [], pt_owner = None, pt_owner_set = False, pt_title = None,
     pt_description = None\<rparr>"

definition apply_event :: "patch \<Rightarrow> card_event \<Rightarrow> patch" where
  "apply_event p e =
     (let a = ce_action e in
      if a = ''move'' then
        p\<lparr>pt_column := (if ce_column e \<noteq> None then ce_column e else pt_column p),
          pt_order := (if ce_order e \<noteq> None then ce_order e else pt_order p)\<rparr>
      else if a = ''set_priority'' \<and> ce_priority e \<noteq> None then p\<lparr>pt_priority := ce_priority e\<rparr>
      else if a = ''set_swimlane'' \<and> ce_swimlane e \<noteq> None then p\<lparr>pt_swimlane := ce_swimlane e\<rparr>
      else if a = ''add_label'' \<and> ce_label e \<noteq> None \<and> ce_label e \<noteq> Some []
              \<and> the (ce_label e) \<notin> set (pt_labels p)
      then p\<lparr>pt_labels := pt_labels p @ [the (ce_label e)]\<rparr>
      else if a = ''remove_label'' \<and> ce_label e \<noteq> None \<and> the (ce_label e) \<in> set (pt_labels p)
      then p\<lparr>pt_labels := remove1 (the (ce_label e)) (pt_labels p)\<rparr>
      else if a = ''link'' \<and> ce_link_key e \<noteq> None
      then p\<lparr>pt_links := AList.update (the (ce_link_key e)) (ce_link_value e) (pt_links p)\<rparr>
      else if a = ''assign'' \<and> ce_owner e \<noteq> None \<and> ce_owner e \<noteq> Some []
      then p\<lparr>pt_owner := ce_owner e, pt_owner_set := True\<rparr>
      else if a = ''unassign'' then p\<lparr>pt_owner := None, pt_owner_set := True\<rparr>
      else if a = ''describe'' then
        p\<lparr>pt_title := (if ce_title e \<noteq> None then ce_title e else pt_title p),
          pt_description := (if ce_description e \<noteq> None then ce_description e else pt_description p)\<rparr>
      else p)"

definition overlay_key :: "card_event \<Rightarrow> string \<times> string \<times> int" where
  "overlay_key e = (ce_ts e, ce_writer e, ce_seq e)"

definition overlay_step :: "(string \<times> patch) list \<Rightarrow> card_event \<Rightarrow> (string \<times> patch) list" where
  "overlay_step ov e =
     AList.update (ce_card_id e)
       (apply_event (case map_of ov (ce_card_id e) of None \<Rightarrow> empty_patch | Some p \<Rightarrow> p) e) ov"

definition fold_overlay :: "card_event list \<Rightarrow> (string \<times> patch) list" where
  "fold_overlay events = foldl overlay_step [] (sort_key overlay_key events)"

section \<open>The specification of a patch\<close>

text \<open>The last value a list of events gives, if any.\<close>

definition last_some :: "('e \<Rightarrow> 'v option) \<Rightarrow> 'e list \<Rightarrow> 'v option" where
  "last_some f es = foldl (\<lambda>acc e. case f e of None \<Rightarrow> acc | Some v \<Rightarrow> Some v) None es"

lemma last_some_Nil [simp]: "last_some f [] = None"
  by (simp add: last_some_def)

lemma last_some_snoc [simp]:
  "last_some f (es @ [e]) = (case f e of None \<Rightarrow> last_some f es | Some v \<Rightarrow> Some v)"
  by (simp add: last_some_def split: option.split)

definition when_action :: "string \<Rightarrow> (card_event \<Rightarrow> 'v option) \<Rightarrow> card_event \<Rightarrow> 'v option" where
  "when_action a f e = (if ce_action e = a then f e else None)"

definition label_event :: "string \<Rightarrow> card_event \<Rightarrow> bool option" where
  "label_event l e =
     (if ce_action e = ''add_label'' \<and> ce_label e = Some l \<and> l \<noteq> [] then Some True
      else if ce_action e = ''remove_label'' \<and> ce_label e = Some l then Some False else None)"

definition owner_event :: "card_event \<Rightarrow> string option option" where
  "owner_event e =
     (if ce_action e = ''assign'' \<and> ce_owner e \<noteq> None \<and> ce_owner e \<noteq> Some [] then Some (ce_owner e)
      else if ce_action e = ''unassign'' then Some None else None)"

definition link_event :: "string \<Rightarrow> card_event \<Rightarrow> string option option" where
  "link_event k e = (if ce_action e = ''link'' \<and> ce_link_key e = Some k then Some (ce_link_value e) else None)"

definition patch_spec :: "card_event list \<Rightarrow> patch \<Rightarrow> bool" where
  "patch_spec es p \<longleftrightarrow>
     pt_column p = last_some (when_action ''move'' ce_column) es
   \<and> pt_order p = last_some (when_action ''move'' ce_order) es
   \<and> pt_priority p = last_some (when_action ''set_priority'' ce_priority) es
   \<and> pt_swimlane p = last_some (when_action ''set_swimlane'' ce_swimlane) es
   \<and> distinct (pt_labels p) \<and> (\<forall>l. l \<in> set (pt_labels p) \<longleftrightarrow> last_some (label_event l) es = Some True)
   \<and> (\<forall>k. map_of (pt_links p) k = last_some (link_event k) es)
   \<and> pt_owner_set p = (last_some owner_event es \<noteq> None)
   \<and> pt_owner p = (case last_some owner_event es of None \<Rightarrow> None | Some w \<Rightarrow> w)
   \<and> pt_title p = last_some (when_action ''describe'' ce_title) es
   \<and> pt_description p = last_some (when_action ''describe'' ce_description) es"

lemma patch_spec_empty: "patch_spec [] empty_patch"
  by (simp add: patch_spec_def empty_patch_def)

lemma when_action_simps [simp]:
  "ce_action e = a \<Longrightarrow> when_action a f e = f e"
  "ce_action e \<noteq> a \<Longrightarrow> when_action a f e = None"
  by (simp_all add: when_action_def)

text \<open>What one event does to each field.\<close>

lemma apply_event_fields:
  "pt_column (apply_event p e) = (case when_action ''move'' ce_column e of None \<Rightarrow> pt_column p | Some v \<Rightarrow> Some v)"
  "pt_order (apply_event p e) = (case when_action ''move'' ce_order e of None \<Rightarrow> pt_order p | Some v \<Rightarrow> Some v)"
  "pt_priority (apply_event p e) = (case when_action ''set_priority'' ce_priority e of None \<Rightarrow> pt_priority p | Some v \<Rightarrow> Some v)"
  "pt_swimlane (apply_event p e) = (case when_action ''set_swimlane'' ce_swimlane e of None \<Rightarrow> pt_swimlane p | Some v \<Rightarrow> Some v)"
  "pt_title (apply_event p e) = (case when_action ''describe'' ce_title e of None \<Rightarrow> pt_title p | Some v \<Rightarrow> Some v)"
  "pt_description (apply_event p e) = (case when_action ''describe'' ce_description e of None \<Rightarrow> pt_description p | Some v \<Rightarrow> Some v)"
  by (simp_all add: apply_event_def Let_def when_action_def split: option.split)

lemma apply_event_owner:
  "pt_owner (apply_event p e) = (case owner_event e of None \<Rightarrow> pt_owner p | Some w \<Rightarrow> w)"
  "pt_owner_set (apply_event p e) = (case owner_event e of None \<Rightarrow> pt_owner_set p | Some w \<Rightarrow> True)"
  by (auto simp: apply_event_def Let_def owner_event_def)

lemma apply_event_links:
  "map_of (pt_links (apply_event p e)) k = (case link_event k e of None \<Rightarrow> map_of (pt_links p) k | Some v \<Rightarrow> Some v)"
  by (auto simp: apply_event_def Let_def link_event_def update_conv')

lemma apply_event_labels:
  "pt_labels (apply_event p e) =
     (if ce_action e = ''add_label'' then
        (case ce_label e of None \<Rightarrow> pt_labels p
         | Some l \<Rightarrow> if l = [] \<or> l \<in> set (pt_labels p) then pt_labels p else pt_labels p @ [l])
      else if ce_action e = ''remove_label'' then
        (case ce_label e of None \<Rightarrow> pt_labels p | Some l \<Rightarrow> remove1 l (pt_labels p))
      else pt_labels p)"
  by (auto simp: apply_event_def Let_def remove1_idem split: option.split)

lemma patch_spec_step:
  assumes "patch_spec es p"
  shows "patch_spec (es @ [e]) (apply_event p e)"
proof -
  have lab: "distinct (pt_labels p)" "\<And>l. l \<in> set (pt_labels p) \<longleftrightarrow> last_some (label_event l) es = Some True"
    using assms by (simp_all add: patch_spec_def)
  have 1: "distinct (pt_labels (apply_event p e))"
    using lab(1) by (auto simp: apply_event_labels split: option.split)
  have 2: "l \<in> set (pt_labels (apply_event p e)) \<longleftrightarrow> last_some (label_event l) (es @ [e]) = Some True" for l
    using lab by (cases "ce_label e") (auto simp: apply_event_labels label_event_def)
  have 3: "map_of (pt_links (apply_event p e)) k = last_some (link_event k) (es @ [e])" for k
    using assms by (simp add: apply_event_links patch_spec_def split: option.split)
  have 4: "pt_owner_set (apply_event p e) = (last_some owner_event (es @ [e]) \<noteq> None)"
    "pt_owner (apply_event p e) = (case last_some owner_event (es @ [e]) of None \<Rightarrow> None | Some w \<Rightarrow> w)"
    using assms by (simp_all add: apply_event_owner patch_spec_def split: option.split)
  show ?thesis
    unfolding patch_spec_def using assms 1 2 3 4
    by (simp add: apply_event_fields patch_spec_def split: option.split)
qed

lemma patch_spec_fold: "patch_spec es (foldl apply_event empty_patch es)"
  by (induction es rule: rev_induct) (simp_all add: patch_spec_empty patch_spec_step)

text \<open>A card's patch is folded from its own events alone.\<close>

definition own_events :: "string \<Rightarrow> card_event list \<Rightarrow> card_event list" where
  "own_events c es = filter (\<lambda>e. ce_card_id e = c) es"

lemma overlay_steps_own:
  "map_of (foldl overlay_step [] es) c =
     (if own_events c es = [] then None else Some (foldl apply_event empty_patch (own_events c es)))"
proof (induction es rule: rev_induct)
  case Nil
  then show ?case by (simp add: own_events_def)
next
  case (snoc e es)
  then show ?case
    by (cases "own_events c es = []") (auto simp: own_events_def overlay_step_def update_conv')
qed

lemma overlay_keys_distinct: "distinct (map fst (foldl overlay_step [] es))"
  by (induction es rule: rev_induct) (simp_all add: overlay_step_def distinct_update)

section \<open>Properties\<close>

definition sample_overlay :: "string \<Rightarrow> int \<Rightarrow> string \<Rightarrow> card_event" where
  "sample_overlay c n a = \<lparr>ce_card_id = c, ce_action = a, ce_event_id = None, ce_writer = ''w'',
     ce_ts = ''t'' @ show_int n, ce_seq = n, ce_column = None, ce_order = None, ce_priority = None,
     ce_swimlane = None, ce_label = None, ce_link_key = None, ce_link_value = None, ce_owner = None,
     ce_title = None, ce_description = None\<rparr>"

text \<open>
  C10. The overlay fold implements its specification: a card has a patch exactly if it has events, and
  every field of it is the last word of the card's own events in time order, with labels added and
  removed one by one, no label twice, and links merged key by key; events of other cards play no part.
\<close>

theorem overlay_implements_spec:
  "distinct (map fst (fold_overlay events))
   \<and> (case map_of (fold_overlay events) c of
        None \<Rightarrow> own_events c events = []
      | Some p \<Rightarrow> own_events c events \<noteq> [] \<and> patch_spec (own_events c (sort_key overlay_key events)) p)"
proof -
  have "own_events c (sort_key overlay_key events) = [] \<longleftrightarrow> own_events c events = []"
    by (simp add: own_events_def filter_empty_conv)
  then show ?thesis
    using overlay_keys_distinct patch_spec_fold
    by (simp add: fold_overlay_def overlay_steps_own)
qed

text \<open>
  Overlays converge: two hosts that hold the same events, in whatever order their shards were
  read, fold the same patches, as long as no two events share timestamp, writer and sequence number.
\<close>

theorem overlay_convergence:
  assumes "mset es = mset es'" and "inj_on overlay_key (set es)"
  shows "fold_overlay es = fold_overlay es'"
proof -
  have "sort_key overlay_key es = sort_key overlay_key es'"
    using assms by (intro sort_key_inj_key_eq) simp_all
  then show ?thesis by (simp add: fold_overlay_def)
qed

theorem overlay_convergence_witness:
  "fold_overlay [(sample_overlay ''c1'' 2 ''add_label'')\<lparr>ce_label := Some ''x''\<rparr>, sample_overlay ''c1'' 1 ''unassign'']
   = fold_overlay [sample_overlay ''c1'' 1 ''unassign'', (sample_overlay ''c1'' 2 ''add_label'')\<lparr>ce_label := Some ''x''\<rparr>]"
  by (rule overlay_convergence) (auto simp: inj_on_def overlay_key_def sample_overlay_def)

text \<open>
  Validation admits only events that mean something: an accepted event carries no field of another
  action; and except for "verdict", applying it gives every field it carries to the patch, so the board
  fold drops no accepted event silently. An accepted "verdict" leaves the patch as it was.
\<close>

theorem accepted_events_take_effect:
  assumes "validate_overlay_event b e = Inr ()"
  shows "set (populated e) \<subseteq> set (action_fields (ce_action e))
    \<and> (ce_action e = ''verdict'' \<longrightarrow> apply_event p e = p)
    \<and> (ce_action e = ''move'' \<longrightarrow> (ce_column e \<noteq> None \<or> ce_order e \<noteq> None)
        \<and> (ce_column e \<noteq> None \<longrightarrow> pt_column (apply_event p e) = ce_column e)
        \<and> (ce_order e \<noteq> None \<longrightarrow> pt_order (apply_event p e) = ce_order e))
    \<and> (ce_action e = ''set_priority'' \<longrightarrow> ce_priority e \<noteq> None \<and> pt_priority (apply_event p e) = ce_priority e)
    \<and> (ce_action e = ''set_swimlane'' \<longrightarrow> ce_swimlane e \<noteq> None \<and> pt_swimlane (apply_event p e) = ce_swimlane e)
    \<and> (ce_action e = ''add_label'' \<longrightarrow> (\<exists>l. ce_label e = Some l \<and> l \<in> set (pt_labels (apply_event p e))))
    \<and> (ce_action e = ''remove_label'' \<longrightarrow> (\<exists>l. ce_label e = Some l
        \<and> (distinct (pt_labels p) \<longrightarrow> l \<notin> set (pt_labels (apply_event p e)))))
    \<and> (ce_action e = ''link'' \<longrightarrow> (\<exists>k v. ce_link_key e = Some k \<and> ce_link_value e = Some v
        \<and> map_of (pt_links (apply_event p e)) k = Some (Some v)))
    \<and> (ce_action e = ''assign'' \<longrightarrow> (\<exists>w. ce_owner e = Some w \<and> w \<noteq> [] \<and> pt_owner (apply_event p e) = Some w))
    \<and> (ce_action e = ''unassign'' \<longrightarrow> pt_owner_set (apply_event p e) \<and> pt_owner (apply_event p e) = None)
    \<and> (ce_action e = ''describe'' \<longrightarrow> (ce_title e \<noteq> None \<longrightarrow> pt_title (apply_event p e) = ce_title e)
        \<and> (ce_description e \<noteq> None \<longrightarrow> pt_description (apply_event p e) = ce_description e))"
proof -
  have key: "blank_opt v = False \<Longrightarrow> \<exists>x. v = Some x \<and> x \<noteq> []" for v
    by (cases v) (auto simp: blank_opt_def)
  have sub: "set (populated e) \<subseteq> set (action_fields (ce_action e))"
    using assms by (simp add: validate_overlay_event_def Let_def split: if_split_asm)
  have verdict: "ce_action e = ''verdict'' \<Longrightarrow> apply_event p e = p"
    by (simp add: apply_event_def)
  have move: "ce_action e = ''move'' \<Longrightarrow> ce_column e \<noteq> None \<or> ce_order e \<noteq> None"
    using assms by (auto simp: validate_overlay_event_def Let_def populated_def action_fields_def split: if_split_asm)
  have single: "ce_action e \<in> {''set_priority'', ''set_swimlane'', ''add_label'', ''remove_label''}
      \<Longrightarrow> \<exists>x. single_field e = Some x \<and> x \<noteq> []"
    using assms by (intro key) (simp add: validate_overlay_event_def Let_def split: if_split_asm)
  have link: "ce_action e = ''link'' \<Longrightarrow> \<exists>k v. ce_link_key e = Some k \<and> ce_link_value e = Some v"
    using assms key by (auto simp: validate_overlay_event_def Let_def split: if_split_asm)
  have assign: "ce_action e = ''assign'' \<Longrightarrow> \<exists>w. ce_owner e = Some w \<and> w \<noteq> []"
    using assms by (intro key) (simp add: validate_overlay_event_def Let_def split: if_split_asm)
  show ?thesis
  proof (intro conjI impI)
    show "set (populated e) \<subseteq> set (action_fields (ce_action e))" by (rule sub)
  next
    assume "ce_action e = ''verdict''"
    then show "apply_event p e = p" by (rule verdict)
  next
    assume "ce_action e = ''move''"
    then show "ce_column e \<noteq> None \<or> ce_order e \<noteq> None" by (rule move)
  next
    assume "ce_action e = ''set_priority''"
    with single show "ce_priority e \<noteq> None" "pt_priority (apply_event p e) = ce_priority e"
      by (auto simp: single_field_def apply_event_fields)
  next
    assume "ce_action e = ''set_swimlane''"
    with single show "ce_swimlane e \<noteq> None" "pt_swimlane (apply_event p e) = ce_swimlane e"
      by (auto simp: single_field_def apply_event_fields)
  next
    assume "ce_action e = ''add_label''"
    with single show "\<exists>l. ce_label e = Some l \<and> l \<in> set (pt_labels (apply_event p e))"
      by (auto simp: single_field_def apply_event_labels)
  next
    assume "ce_action e = ''remove_label''"
    with single show "\<exists>l. ce_label e = Some l
        \<and> (distinct (pt_labels p) \<longrightarrow> l \<notin> set (pt_labels (apply_event p e)))"
      by (auto simp: single_field_def apply_event_labels)
  next
    assume "ce_action e = ''link''"
    with link show "\<exists>k v. ce_link_key e = Some k \<and> ce_link_value e = Some v
        \<and> map_of (pt_links (apply_event p e)) k = Some (Some v)"
      by (auto simp: apply_event_links link_event_def)
  next
    assume "ce_action e = ''assign''"
    with assign show "\<exists>w. ce_owner e = Some w \<and> w \<noteq> [] \<and> pt_owner (apply_event p e) = Some w"
      by (auto simp: apply_event_owner owner_event_def)
  qed (auto simp: apply_event_fields apply_event_owner owner_event_def)
qed

theorem accepted_events_take_effect_witness:
  "validate_overlay_event True ((sample_overlay ''c1'' 1 ''add_label'')\<lparr>ce_label := Some ''x''\<rparr>) = Inr ()
   \<and> (\<exists>l. ce_label ((sample_overlay ''c1'' 1 ''add_label'')\<lparr>ce_label := Some ''x''\<rparr>) = Some l
        \<and> l \<in> set (pt_labels (apply_event empty_patch ((sample_overlay ''c1'' 1 ''add_label'')\<lparr>ce_label := Some ''x''\<rparr>))))"
proof -
  let ?e = "(sample_overlay ''c1'' 1 ''add_label'')\<lparr>ce_label := Some ''x''\<rparr>"
  have v: "validate_overlay_event True ?e = Inr ()" by code_simp
  have "ce_action ?e = ''add_label''" by (simp add: sample_overlay_def)
  with accepted_events_take_effect [OF v, of empty_patch] v show ?thesis by blast
qed

end
