(* ===== verification/Card_Projection.thy ===== *)
theory Card_Projection
  imports Card_Overlay Itil_Ops
begin

text \<open>
  The kanban projection (\<open>card.py\<close>): tasks of the coordination board and the folded ITIL records
  become cards, the overlay patches and void decisions are applied, and the cards are laid out in
  the grid of swimlanes and columns with the work-in-progress report. The ITIL side runs on the
  operations modelled in \<open>Itil_Ops\<close>; the board's task views, the archive index, the overlay events
  and the stored events of a card are inputs.
\<close>

section \<open>Tasks\<close>

datatype task_status = TOpen | TClaimed | TInProgress | TReview | TDone | TBlocked

record task_view =
  tv_id :: string
  tv_title :: string
  tv_description :: string
  tv_priority :: string
  tv_tags :: "string list"
  tv_created_by :: string
  tv_created_at :: string
  tv_criteria :: "string list"
  tv_dependencies :: "string list"
  tv_meta :: jobj
  tv_status :: task_status
  tv_claimed_by :: "string option"

fun status_to_column :: "task_status \<Rightarrow> column" where
  "status_to_column TOpen = Backlog"
| "status_to_column TClaimed = Ready"
| "status_to_column TInProgress = Doing"
| "status_to_column TReview = Review"
| "status_to_column TDone = Done"
| "status_to_column TBlocked = Doing"

definition swimlane_for_tags :: "string list \<Rightarrow> string" where
  "swimlane_for_tags tags =
     (let lowered = map lower tags in
      if ''autopilot-staged'' \<in> set lowered then ''proposed''
      else if ''bug'' \<in> set lowered then ''bug''
      else if ''security'' \<in> set lowered then ''security''
      else ''feature'')"

definition card_from_taskview :: "task_view \<Rightarrow> card" where
  "card_from_taskview v =
     (new_card (tv_id v) (if ''epic'' \<in> set (map lower (tv_tags v)) then Epic else Task) (tv_title v)
        (status_to_column (tv_status v)) (swimlane_for_tags (tv_tags v)))
     \<lparr>cd_description := JStr (tv_description v), cd_priority := JStr (tv_priority v),
      cd_originator := tv_created_by v, cd_owner := of_opt_str (tv_claimed_by v),
      cd_labels := map JStr (tv_tags v), cd_criteria := map JStr (tv_criteria v),
      cd_dependencies := map JStr (tv_dependencies v),
      cd_meta := (if tv_status v = TBlocked then set_item ''blocked'' (JBool True) (tv_meta v) else tv_meta v),
      cd_created_at := tv_created_at v\<rparr>"

section \<open>ITIL records\<close>

fun incident_column :: "incident_status \<Rightarrow> column" where
  "incident_column Detected = Doing"
| "incident_column Acknowledged = Doing"
| "incident_column Investigating = Doing"
| "incident_column Escalated = Doing"
| "incident_column Resolved = Review"
| "incident_column Closed = Done"

fun problem_column :: "problem_status \<Rightarrow> column" where
  "problem_column Identified = Ready"
| "problem_column Analyzing = Doing"
| "problem_column KnownError = Review"
| "problem_column PResolved = Done"

fun change_column :: "change_status \<Rightarrow> column" where
  "change_column Proposed = Backlog"
| "change_column Reviewing = Ready"
| "change_column Approved = Ready"
| "change_column Scheduled = Ready"
| "change_column Implementing = Doing"
| "change_column Failed = Doing"
| "change_column Deployed = Review"
| "change_column Verified = Done"
| "change_column CClosed = Done"
| "change_column Rejected = Done"

definition card_from_incident :: "incident \<Rightarrow> card" where
  "card_from_incident i =
     (new_card (i_id i) Incident (i_title i) (incident_column (i_status i)) ''expedite'')
     \<lparr>cd_priority := JStr ''high'',
      cd_meta := [(''severity'', JStr (severity_value (i_severity i))),
                  (''itil_status'', JStr (incident_status_value (i_status i)))],
      cd_source := ''itil''\<rparr>"

definition card_from_problem :: "problem \<Rightarrow> card" where
  "card_from_problem p =
     (new_card (p_id p) Problem (p_title p) (problem_column (p_status p)) ''problem'')
     \<lparr>cd_meta := [(''itil_status'', JStr (problem_status_value (p_status p)))], cd_source := ''itil''\<rparr>"

text \<open>The last schedule-lifecycle event of a raw log was a missed window.\<close>

definition lifecycle_kinds :: "json list" where
  "lifecycle_kinds = [JStr ''schedule'', JStr ''unschedule'', JStr ''window_missed'']"

definition change_window_missed :: "jobj list \<Rightarrow> bool result" where
  "change_window_missed events =
     r_bind (r_fold (\<lambda>last e. let k = get e ''kind'' in
         if \<not> hashable k then Inl TypeError
         else Inr (if k \<in> set lifecycle_kinds then k else last)) JNull events)
       (\<lambda>last. Inr (last = JStr ''window_missed''))"

fun opt_obj :: "jobj option \<Rightarrow> json" where
  "opt_obj None = JNull"
| "opt_obj (Some d) = JObj d"

definition card_from_change :: "change \<Rightarrow> jobj list option \<Rightarrow> card result" where
  "card_from_change c events =
     r_bind (case events of None \<Rightarrow> Inr False | Some es \<Rightarrow> change_window_missed es) (\<lambda>missed. Inr
       ((new_card (c_id c) Change (c_title c) (change_column (c_status c)) ''change'')
        \<lparr>cd_meta := [(''itil_status'', JStr (change_status_value (c_status c))),
           (''prepared_pr'', opt_obj (c_prepared_pr c)),
           (''prepared_by'', of_opt_str (c_prepared_by c)),
           (''validation'', opt_obj (c_validation c)),
           (''scheduled_window'', opt_obj (c_scheduled_window c)),
           (''window_missed'', JBool missed)],
         cd_source := ''itil''\<rparr>))"

text \<open>
  The ITIL half of the board, inside one \<open>try\<close>: the first exception ends it and keeps what was added.
\<close>

fun change_cards :: "record_dir \<Rightarrow> change list \<Rightarrow> card list" where
  "change_cards rd [] = []"
| "change_cards rd (c # cs) =
     (case r_bind (read_events rd (c_id c)) (\<lambda>es. card_from_change c (Some es)) of
        Inl _ \<Rightarrow> []
      | Inr kc \<Rightarrow> kc # change_cards rd cs)"

definition itil_cards :: "itil_env \<Rightarrow> itil \<Rightarrow> card list" where
  "itil_cards env w =
     (case list_incidents env w [] [] [] of Inl _ \<Rightarrow> []
      | Inr incs \<Rightarrow> map card_from_incident incs
          @ (case list_problems env w [] of Inl _ \<Rightarrow> []
             | Inr prbs \<Rightarrow> map card_from_problem prbs
                 @ (case list_changes env w [] of Inl _ \<Rightarrow> []
                    | Inr chgs \<Rightarrow> change_cards (it_changes w) chgs)))"

section \<open>The board\<close>

definition opt_json :: "string option \<Rightarrow> json \<Rightarrow> json" where
  "opt_json v old = (case v of None \<Rightarrow> old | Some s \<Rightarrow> JStr s)"

definition opt_truthy :: "string option \<Rightarrow> json \<Rightarrow> json" where
  "opt_truthy v old = (case v of None \<Rightarrow> old | Some s \<Rightarrow> if s = [] then old else JStr s)"

definition merge_links :: "(string \<times> string option) list \<Rightarrow> (json \<times> json) list \<Rightarrow> (json \<times> json) list" where
  "merge_links new old = foldl (\<lambda>d (k, v). AList.update (JStr k) (of_opt_str v) d) old new"

definition apply_patch :: "patch \<Rightarrow> card \<Rightarrow> card" where
  "apply_patch p c =
     c\<lparr>cd_status := (case pt_column p of None \<Rightarrow> cd_status c
         | Some v \<Rightarrow> (case column_of (JStr v) of None \<Rightarrow> cd_status c | Some col \<Rightarrow> col)),
       cd_order := (case pt_order p of None \<Rightarrow> cd_order c | Some n \<Rightarrow> JInt n),
       cd_priority := opt_truthy (pt_priority p) (cd_priority c),
       cd_swimlane := opt_truthy (pt_swimlane p) (cd_swimlane c),
       cd_labels := add_all_new (cd_labels c) (map JStr (pt_labels p)),
       cd_links := merge_links (pt_links p) (cd_links c),
       cd_owner := (if pt_owner_set p then of_opt_str (pt_owner p) else cd_owner c),
       cd_title := opt_json (pt_title p) (cd_title c),
       cd_description := opt_json (pt_description p) (cd_description c)\<rparr>"

definition is_voided :: "jobj list \<Rightarrow> bool" where
  "is_voided events = list_ex (\<lambda>e. get e ''action'' = JStr ''void'') events"

text \<open>A voided card is archived and disowned; its patch is not applied.\<close>

definition finish_card :: "(string \<times> patch) list \<Rightarrow> (string \<Rightarrow> jobj list) \<Rightarrow> card \<Rightarrow> card" where
  "finish_card overlay stored c =
     (if is_voided (stored (cd_id c)) then c\<lparr>cd_archived := True, cd_owner := JNull\<rparr>
      else case map_of overlay (cd_id c) of None \<Rightarrow> c | Some p \<Rightarrow> apply_patch p c)"

definition task_card :: "string list \<Rightarrow> task_view \<Rightarrow> card" where
  "task_card archived_ids v =
     (let c = card_from_taskview v
      in if cd_id c \<in> set archived_ids then c\<lparr>cd_archived := True\<rparr> else c)"

definition legacy_cards ::
    "(bool \<Rightarrow> task_view list) \<Rightarrow> string list \<Rightarrow> card list \<Rightarrow> card_event list \<Rightarrow> (string \<Rightarrow> jobj list)
       \<Rightarrow> bool \<Rightarrow> card list" where
  "legacy_cards views archived_ids itil events stored include_archived =
     (let tasks = map (task_card archived_ids) (views include_archived);
          out = map (finish_card (fold_overlay events) stored) (tasks @ itil)
      in if include_archived then out else filter (\<lambda>c. \<not> cd_archived c) out)"

text \<open>
  \<open>KanbanBoard.cards\<close>: the card store's cards when reading from it is enabled, unless it is empty
  while legacy task files exist.
\<close>

definition board_cards :: "card list option \<Rightarrow> bool \<Rightarrow> card list \<Rightarrow> card list" where
  "board_cards store legacy_files legacy =
     (case store of None \<Rightarrow> legacy
      | Some cs \<Rightarrow> if cs \<noteq> [] \<or> \<not> legacy_files then cs else legacy)"

section \<open>Grid and work in progress\<close>

definition lane_order :: "string list" where
  "lane_order = [''feature'', ''bug'', ''security'', ''expedite'', ''change'', ''problem'', ''proposed'']"

definition lane_of :: "card \<Rightarrow> string" where
  "lane_of c = (case cd_swimlane c of JStr l \<Rightarrow> if l \<in> set lane_order then l else ''feature'' | _ \<Rightarrow> ''feature'')"

definition priority_rank :: "json \<Rightarrow> int" where
  "priority_rank v = (if v = JStr ''critical'' then 0 else if v = JStr ''high'' then 1
     else if v = JStr ''medium'' then 2 else if v = JStr ''low'' then 3 else 2)"

text \<open>The sort key of a cell; an order that is unset or zero sorts as 9999.\<close>

definition cell_key :: "card \<Rightarrow> int \<times> int \<times> string" where
  "cell_key c = ((case cd_order c of JInt n \<Rightarrow> if n = 0 then 9999 else n | _ \<Rightarrow> 9999),
     priority_rank (cd_priority c), cd_id c)"

definition grid_cell :: "card list \<Rightarrow> string \<Rightarrow> column \<Rightarrow> card list" where
  "grid_cell cs lane col = sort_key cell_key (filter (\<lambda>c. lane_of c = lane \<and> cd_status c = col) cs)"

definition grid :: "card list \<Rightarrow> (string \<times> (column \<times> card list) list) list" where
  "grid cs = map (\<lambda>lane. (lane, map (\<lambda>col. (col, grid_cell cs lane col)) columns)) lane_order"

fun wip_limit :: "column \<Rightarrow> nat option" where
  "wip_limit Ready = Some 8"
| "wip_limit Doing = Some 6"
| "wip_limit Review = Some 4"
| "wip_limit Backlog = None"
| "wip_limit Done = None"

record wip_row =
  wr_count :: nat
  wr_limit :: "nat option"
  wr_over :: bool

fun count_column :: "column \<Rightarrow> card list \<Rightarrow> nat" where
  "count_column col [] = 0"
| "count_column col (c # cs) =
     (if cd_swimlane c \<noteq> JStr ''expedite'' \<and> cd_status c = col then 1 else 0) + count_column col cs"

definition wip_report :: "card list \<Rightarrow> (column \<times> wip_row) list" where
  "wip_report cs = map (\<lambda>col. (col,
     \<lparr>wr_count = count_column col cs, wr_limit = wip_limit col,
      wr_over = (case wip_limit col of None \<Rightarrow> False | Some n \<Rightarrow> n < count_column col cs)\<rparr>)) columns"

section \<open>Properties\<close>

lemma sum_cells:
  "sum_list (map (\<lambda>col. length (filter (\<lambda>c. P c \<and> cd_status c = col) cs)) columns) = length (filter P cs)"
proof (induction cs)
  case Nil
  then show ?case by (simp add: columns_def)
next
  case (Cons c cs)
  then show ?case by (cases "cd_status c") (auto simp: columns_def)
qed

lemma lane_of_mem: "lane_of c \<in> set lane_order"
proof -
  have "''feature'' \<in> set lane_order" by (simp add: lane_order_def)
  then show ?thesis by (cases "cd_swimlane c") (auto simp: lane_of_def)
qed

lemma distinct_lanes [simp]: "distinct lane_order"
  by (simp add: lane_order_def)

lemma count_by_key:
  assumes "distinct ks" "\<And>x. x \<in> set xs \<Longrightarrow> f x \<in> set ks"
  shows "sum_list (map (\<lambda>k. length (filter (\<lambda>x. f x = k) xs)) ks) = length xs"
  using assms
proof (induction ks arbitrary: xs)
  case Nil
  then show ?case by (cases xs) auto
next
  case (Cons k ks)
  let ?ys = "filter (\<lambda>x. f x \<noteq> k) xs"
  have "sum_list (map (\<lambda>j. length (filter (\<lambda>x. f x = j) xs)) ks)
      = sum_list (map (\<lambda>j. length (filter (\<lambda>x. f x = j) ?ys)) ks)"
    using Cons.prems(1) by (intro arg_cong [where f = sum_list] map_cong refl arg_cong [where f = length])
      (auto simp: filter_filter intro!: filter_cong)
  also have "\<dots> = length ?ys"
  proof (rule Cons.IH)
    show "distinct ks" using Cons.prems(1) by simp
    show "f x \<in> set ks" if "x \<in> set ?ys" for x using Cons.prems(2) [of x] that by auto
  qed
  finally show ?case
    using sum_length_filter_compl [of "\<lambda>x. f x = k" xs] by simp
qed

text \<open>
  The grid is a partition: laying the cards out loses none and shows none twice, whatever their
  swimlane says; each cell holds exactly the cards of its lane and column, in the order of explicit
  position, priority and id.
\<close>

theorem grid_partitions_cards:
  "(\<forall>lane cells. (lane, cells) \<in> set (grid cs) \<longrightarrow> map fst cells = columns
      \<and> (\<forall>col cards. (col, cards) \<in> set cells \<longrightarrow> sorted (map cell_key cards)
          \<and> mset cards = mset (filter (\<lambda>c. lane_of c = lane \<and> cd_status c = col) cs)))
   \<and> map fst (grid cs) = lane_order
   \<and> sum_list (map (\<lambda>(lane, cells). sum_list (map (\<lambda>(col, cards). length cards) cells)) (grid cs)) = length cs"
proof (intro conjI allI impI)
  fix lane cells col cards assume lc: "(lane, cells) \<in> set (grid cs)"
  then show "map fst cells = columns" by (auto simp: grid_def comp_def)
  assume "(col, cards) \<in> set cells"
  with lc have "cards = grid_cell cs lane col" by (auto simp: grid_def)
  then show "sorted (map cell_key cards)"
    "mset cards = mset (filter (\<lambda>c. lane_of c = lane \<and> cd_status c = col) cs)"
    by (simp_all add: grid_cell_def)
next
  show "map fst (grid cs) = lane_order" by (simp add: grid_def comp_def)
  have "sum_list (map (\<lambda>lane. length (filter (\<lambda>c. lane_of c = lane) cs)) lane_order) = length cs"
    by (rule count_by_key) (simp_all add: lane_of_mem)
  then show "sum_list (map (\<lambda>(lane, cells). sum_list (map (\<lambda>(col, cards). length cards) cells)) (grid cs)) = length cs"
    by (simp add: grid_def comp_def grid_cell_def sum_cells)
qed

theorem grid_partitions_cards_witness:
  "mset (grid_cell [new_card ''b'' Task ''t'' Ready ''odd'', new_card ''a'' Task ''t'' Ready ''bug''] ''feature'' Ready)
     = {#new_card ''b'' Task ''t'' Ready ''odd''#}"
proof -
  let ?cs = "[new_card ''b'' Task ''t'' Ready ''odd'', new_card ''a'' Task ''t'' Ready ''bug'']"
  let ?cells = "map (\<lambda>col. (col, grid_cell ?cs ''feature'' col)) columns"
  have "''feature'' \<in> set lane_order" by (simp add: lane_order_def)
  then have lane: "(''feature'', ?cells) \<in> set (grid ?cs)"
    unfolding grid_def set_map by (rule rev_image_eqI) simp
  have cell: "(Ready, grid_cell ?cs ''feature'' Ready) \<in> set ?cells" by simp
  have "mset (grid_cell ?cs ''feature'' Ready)
      = mset (filter (\<lambda>c. lane_of c = ''feature'' \<and> cd_status c = Ready) ?cs)"
    using grid_partitions_cards [of ?cs, THEN conjunct1, rule_format, OF lane, THEN conjunct2, rule_format, OF cell]
    by (rule conjunct2)
  also have "\<dots> = {#new_card ''b'' Task ''t'' Ready ''odd''#}"
    by (simp add: lane_of_def lane_order_def new_card_def)
  finally show ?thesis .
qed

text \<open>
  The work-in-progress report counts what the board shows: per column, the cards outside the
  expedite lane, flagged over its limit exactly if a limit is set and exceeded; the counts add up to
  the cards that are not expedited.
\<close>

theorem wip_report_exact:
  "map fst (wip_report cs) = columns
   \<and> (\<forall>col row. (col, row) \<in> set (wip_report cs) \<longrightarrow>
        wr_count row = length (filter (\<lambda>c. cd_swimlane c \<noteq> JStr ''expedite'' \<and> cd_status c = col) cs)
        \<and> (wr_over row \<longleftrightarrow> (\<exists>n. wip_limit col = Some n \<and> n < wr_count row)))
   \<and> sum_list (map (\<lambda>(col, row). wr_count row) (wip_report cs))
       = length (filter (\<lambda>c. cd_swimlane c \<noteq> JStr ''expedite'') cs)"
proof -
  have count: "count_column col xs = length (filter (\<lambda>c. cd_swimlane c \<noteq> JStr ''expedite'' \<and> cd_status c = col) xs)" for col xs
    by (induction xs) auto
  show ?thesis
    by (auto simp: wip_report_def comp_def count sum_cells split: option.splits)
qed

theorem wip_report_exact_witness:
  "\<exists>row. (Ready, row) \<in> set (wip_report (replicate 9 (new_card ''c'' Task ''t'' Ready ''feature'')))
     \<and> wr_over row"
proof -
  let ?cs = "replicate 9 (new_card ''c'' Task ''t'' Ready ''feature'')"
  have row: "(Ready, \<lparr>wr_count = 9, wr_limit = Some 8, wr_over = True\<rparr>) \<in> set (wip_report ?cs)"
    by (simp add: wip_report_def columns_def new_card_def eval_nat_numeral)
  have "wr_over \<lparr>wr_count = 9, wr_limit = Some 8, wr_over = True\<rparr> \<longleftrightarrow>
      (\<exists>n. wip_limit Ready = Some n \<and> n < 9)"
    using wip_report_exact [of ?cs, THEN conjunct2, THEN conjunct1, rule_format, OF row, THEN conjunct2] by simp
  with row show ?thesis by (metis wip_row.select_convs(3))
qed

text \<open>
  The overlay is applied safely: a voided card is archived and without owner, whatever its patch
  says, and is not shown on the active board; another card moves only to a column that exists, keeps
  its id, kind and source, and loses no label.
\<close>

theorem board_applies_overlay:
  assumes "c \<in> set (legacy_cards views archived_ids itil events stored inc)"
  shows "\<exists>d. cd_id c = cd_id d \<and> cd_kind c = cd_kind d \<and> cd_source c = cd_source d
    \<and> (d \<in> set itil \<or> (\<exists>v\<in>set (views inc). cd_id d = tv_id v))
    \<and> set (cd_labels d) \<subseteq> set (cd_labels c)
    \<and> (is_voided (stored (cd_id c)) \<longrightarrow> cd_archived c \<and> cd_owner c = JNull \<and> inc)
    \<and> (cd_status c = cd_status d \<or> (\<exists>p. map_of (fold_overlay events) (cd_id c) = Some p
         \<and> pt_column p = Some (column_value (cd_status c))))
    \<and> (\<not> inc \<longrightarrow> \<not> cd_archived c)"
proof -
  have task_id: "cd_id (task_card archived_ids v) = tv_id v" for v
    by (simp add: task_card_def Let_def card_from_taskview_def new_card_def)
  obtain d where d: "d \<in> set (map (task_card archived_ids) (views inc) @ itil)"
    "c = finish_card (fold_overlay events) stored d" "\<not> inc \<longrightarrow> \<not> cd_archived c"
    using assms by (cases inc) (fastforce simp: legacy_cards_def Let_def)+
  have origin: "d \<in> set itil \<or> (\<exists>v\<in>set (views inc). cd_id d = tv_id v)"
    using d(1) task_id by auto
  have same: "cd_id c = cd_id d" "cd_kind c = cd_kind d" "cd_source c = cd_source d"
    "set (cd_labels d) \<subseteq> set (cd_labels c)"
    unfolding d(2) by (auto simp: finish_card_def apply_patch_def split: option.split)
  have void: "is_voided (stored (cd_id c)) \<longrightarrow> cd_archived c \<and> cd_owner c = JNull"
    using same(1) unfolding d(2) by (simp add: finish_card_def)
  have status: "cd_status c = cd_status d \<or> (\<exists>p. map_of (fold_overlay events) (cd_id c) = Some p
         \<and> pt_column p = Some (column_value (cd_status c)))"
    using same(1) unfolding d(2)
    by (auto simp: finish_card_def apply_patch_def dest: column_of_Some split: option.split)
  show ?thesis using origin same void status d(3) by blast
qed

definition sample_move :: card_event where
  "sample_move = \<lparr>ce_card_id = ''c1'', ce_action = ''move'', ce_event_id = None, ce_writer = ''w'',
     ce_ts = ''t1'', ce_seq = 0, ce_column = Some ''review'', ce_order = None, ce_priority = None,
     ce_swimlane = None, ce_label = None, ce_link_key = None, ce_link_value = None, ce_owner = None,
     ce_title = None, ce_description = None\<rparr>"

theorem board_applies_overlay_witness:
  "\<exists>c. c \<in> set (legacy_cards (\<lambda>_. []) [] [new_card ''c1'' Incident ''t'' Doing ''expedite''] [sample_move]
          (\<lambda>_. []) False) \<and> cd_status c = Review \<and> cd_kind c = Incident"
proof -
  let ?c = "(new_card ''c1'' Incident ''t'' Doing ''expedite'')\<lparr>cd_status := Review\<rparr>"
  have mem: "?c \<in> set (legacy_cards (\<lambda>_. []) [] [new_card ''c1'' Incident ''t'' Doing ''expedite''] [sample_move]
          (\<lambda>_. []) False)"
    by code_simp
  have "cd_kind ?c = Incident"
    using board_applies_overlay [OF mem] by (auto simp: new_card_def)
  then show ?thesis using mem by (intro exI [of _ ?c]) (simp add: new_card_def)
qed

end
