(* ===== verification/Card_Fold.thy ===== *)
theory Card_Fold
  imports Card_Overlay
begin

text \<open>
  The fold of a stored card (\<open>CardStore.fold\<close>): the core and the merged event log give the card
  that is served. One definition per event action, the dispatcher with the terminal void, and the
  guarantees: void is terminal, a live claim cannot be taken over, a release needs the current claim,
  labels and dependencies are sets, a mirrored mutation may arrive twice, and the fold is total on
  what the store writes.
\<close>

section \<open>The card at birth\<close>

text \<open>
  \<open>dict(v)\<close> of a JSON value: an object, or a sequence of pairs. Only text keys are represented.
\<close>

fun dict_pair :: "json list \<Rightarrow> (string \<times> json) result" where
  "dict_pair [JStr k, v] = Inr (k, v)"
| "dict_pair [_, v] = Inl TypeError"
| "dict_pair _ = Inl (ValueError ''dictionary update sequence element has the wrong length'')"

fun py_dict :: "json \<Rightarrow> jobj result" where
  "py_dict (JObj d) = Inr d"
| "py_dict v = r_bind (py_iter v) (\<lambda>xs. r_fold (\<lambda>d x. r_bind (py_iter x) (\<lambda>p.
      r_bind (dict_pair p) (\<lambda>(k, w). Inr (set_item k w d)))) [] xs)"

definition claim_column :: column where "claim_column = Doing"

definition complete_column :: column where "complete_column = Done"

definition as_texts :: "json list \<Rightarrow> json list result" where
  "as_texts xs = r_bind (as_str_list xs) (\<lambda>ss. Inr (map JStr ss))"

definition card_at_birth :: "jobj \<Rightarrow> card result" where
  "card_at_birth core =
     r_bind (get_item core ''id'') (\<lambda>cid0.
     r_bind (py_iter (get_d core ''initial_labels'' (JList []))) (\<lambda>labels0.
     r_bind (py_iter (py_or (get core ''acceptance_criteria'') (JList []))) (\<lambda>criteria0.
     r_bind (py_iter (get_d core ''dependencies'' (JList []))) (\<lambda>deps0.
     r_bind (py_dict (get_d core ''meta'' (JObj []))) (\<lambda>meta.
     r_bind (as_str cid0) (\<lambda>cid.
     r_bind (as_str (get_d core ''title'' (JStr []))) (\<lambda>title.
     r_bind (as_str (get_d core ''description'' (JStr []))) (\<lambda>descr.
     r_bind (as_str (get_d core ''initial_swimlane'' (JStr ''feature''))) (\<lambda>lane.
     r_bind (as_str (get_d core ''initial_priority'' (JStr ''medium''))) (\<lambda>prio.
     r_bind (as_str (get_d core ''created_by'' (JStr []))) (\<lambda>author.
     r_bind (as_opt_str (get core ''initial_owner'')) (\<lambda>owner.
     r_bind (as_texts labels0) (\<lambda>labels.
     r_bind (as_texts criteria0) (\<lambda>criteria.
     r_bind (as_texts deps0) (\<lambda>deps.
     r_bind (as_str (get_d core ''created_at'' (JStr []))) (\<lambda>at.
     Inr ((new_card cid (case kind_of (get_d core ''kind'' (JStr ''task'')) of None \<Rightarrow> Task | Some k \<Rightarrow> k)
             title Backlog lane)
          \<lparr>cd_description := JStr descr, cd_priority := JStr prio, cd_originator := author,
           cd_owner := of_opt_str owner, cd_labels := labels, cd_criteria := criteria,
           cd_dependencies := deps, cd_meta := meta, cd_created_at := at, cd_source := ''cards''\<rparr>)))))))))))))))))"

text \<open>An owner in the core needs the revision of its claim.\<close>

definition initial_claim :: "jobj \<Rightarrow> card \<Rightarrow> card result" where
  "initial_claim core c =
     (if cd_owner c = JNull then Inr c
      else if \<not> nonempty_str (get core ''initial_claim_revision'')
      then Inl (ValueError ''card has an owner without a claim revision'')
      else Inr (c\<lparr>cd_status := claim_column,
        cd_meta := set_item ''_claim_revision'' (get core ''initial_claim_revision'') (cd_meta c)\<rparr>))"

section \<open>The handlers\<close>

type_synonym handler = "card \<Rightarrow> jobj \<Rightarrow> card result"

definition on_meta :: "(jobj \<Rightarrow> jobj) \<Rightarrow> card \<Rightarrow> card" where
  "on_meta f c = c\<lparr>cd_meta := f (cd_meta c)\<rparr>"

definition drop_revision :: "card \<Rightarrow> card" where
  "drop_revision = on_meta (pop_item ''_claim_revision'')"

text \<open>\<open>meta.setdefault(k, []).append(v)\<close>: only a list has \<open>append\<close>.\<close>

definition append_item :: "string \<Rightarrow> json \<Rightarrow> jobj \<Rightarrow> jobj result" where
  "append_item k v d =
     (case map_of d k of
        None \<Rightarrow> Inr (set_item k (JList [v]) d)
      | Some (JList xs) \<Rightarrow> Inr (set_item k (JList (xs @ [v])) d)
      | Some _ \<Rightarrow> Inl AttributeError)"

definition meta_append :: "string \<Rightarrow> json \<Rightarrow> card \<Rightarrow> card result" where
  "meta_append k v c = r_bind (append_item k v (cd_meta c)) (\<lambda>m. Inr (c\<lparr>cd_meta := m\<rparr>))"

definition cd_on_void :: handler where
  "cd_on_void c e = Inr ((on_meta (\<lambda>m. set_item ''voided_by'' (get e ''writer'')
      (set_item ''voided_at'' (get e ''ts'') (set_item ''voided'' (JBool True) (pop_item ''_claim_revision'' m)))) c)
      \<lparr>cd_archived := True, cd_owner := JNull\<rparr>)"

text \<open>\<open>if col in {c.value for c in Column}: card.status = Column(col)\<close>.\<close>

definition to_column :: "json \<Rightarrow> card \<Rightarrow> card result" where
  "to_column v c = (if \<not> hashable v then Inl TypeError
     else Inr (case column_of v of None \<Rightarrow> c | Some col \<Rightarrow> c\<lparr>cd_status := col\<rparr>))"

definition cd_on_move :: handler where
  "cd_on_move c e = r_bind (to_column (get e ''column'') c) (\<lambda>c.
     Inr (if get e ''order'' = JNull then c else c\<lparr>cd_order := get e ''order''\<rparr>))"

definition cd_on_assign :: handler where
  "cd_on_assign c e = Inr (drop_revision (c\<lparr>cd_owner := get e ''owner''\<rparr>))"

definition cd_on_unassign :: handler where
  "cd_on_unassign c e = Inr (drop_revision (c\<lparr>cd_owner := JNull\<rparr>))"

definition revision :: "card \<Rightarrow> json" where
  "revision c = get (cd_meta c) ''_claim_revision''"

definition valid_release :: "jobj \<Rightarrow> bool" where
  "valid_release e \<longleftrightarrow> nonempty_str (get e ''released_owner'') \<and> nonempty_str (get e ''expected_claim_revision'')"

definition releases_current :: "card \<Rightarrow> jobj \<Rightarrow> bool" where
  "releases_current c e \<longleftrightarrow> valid_release e \<and> cd_owner c = get e ''released_owner''
     \<and> revision c = get e ''expected_claim_revision''"

fun matches_release :: "jobj \<Rightarrow> json \<Rightarrow> bool" where
  "matches_release e (JObj d) = (get d ''owner'' = get e ''released_owner''
     \<and> get d ''claim_revision'' = get e ''expected_claim_revision'')"
| "matches_release e _ = False"

text \<open>The one recorded conflict a release names, if it was recorded against the current claim.\<close>

definition releases_conflict :: "card \<Rightarrow> jobj \<Rightarrow> json list \<Rightarrow> bool" where
  "releases_conflict c e conflicts \<longleftrightarrow> valid_release e
     \<and> (case filter (matches_release e) conflicts of
          [JObj d] \<Rightarrow> nonempty_str (revision c) \<and> cd_owner c = get d ''existing_owner''
             \<and> revision c = get d ''existing_claim_revision''
        | _ \<Rightarrow> False)"

definition release_conflict :: "card \<Rightarrow> jobj \<Rightarrow> json" where
  "release_conflict c e = JObj [(''event_id'', get e ''event_id''),
     (''reason'', JStr ''claim precondition did not match''),
     (''released_owner'', get e ''released_owner''),
     (''expected_claim_revision'', get e ''expected_claim_revision''),
     (''actual_owner'', cd_owner c), (''actual_claim_revision'', revision c)]"

definition cd_on_release :: handler where
  "cd_on_release c e =
     r_bind (py_iter (get_d (cd_meta c) ''claim_conflicts'' (JList []))) (\<lambda>conflicts.
       if releases_current c e then Inr (drop_revision (c\<lparr>cd_owner := JNull, cd_status := Backlog\<rparr>))
       else if releases_conflict c e conflicts then
         (let remaining = filter (\<lambda>x. \<not> matches_release e x) conflicts
          in Inr (if remaining \<noteq> [] then on_meta (set_item ''claim_conflicts'' (JList remaining)) c
                  else on_meta (pop_item ''claim_conflicts'') c))
       else meta_append ''release_conflicts'' (release_conflict c e) c)"

text \<open>A claim on a card that another owner is working on is recorded, not taken.\<close>

definition claim_blocked :: "card \<Rightarrow> json \<Rightarrow> bool" where
  "claim_blocked c owner \<longleftrightarrow> nonempty_str owner \<and> truthy (cd_owner c) \<and> cd_owner c \<noteq> owner
     \<and> cd_status c \<in> {Ready, Doing, Review}"

definition claim_conflict :: "card \<Rightarrow> jobj \<Rightarrow> json" where
  "claim_conflict c e = JObj [(''event_id'', get e ''event_id''), (''owner'', get e ''owner''),
     (''claim_revision'', get e ''claim_revision''), (''existing_owner'', cd_owner c),
     (''existing_claim_revision'', revision c),
     (''reason'', JStr ''concurrent claim requires explicit release or completion'')]"

definition cd_on_claim :: handler where
  "cd_on_claim c e =
     (let owner = get e ''owner''; rev = py_or (get e ''claim_revision'') (get e ''event_id'');
          was_unowned_backlog = (cd_owner c = JNull \<and> cd_status c = Backlog)
      in if claim_blocked c owner then meta_append ''claim_conflicts'' (claim_conflict c e) c
      else
        let c1 = c\<lparr>cd_owner := owner, cd_status := claim_column\<rparr>;
            c2 = (if nonempty_str rev then on_meta (set_item ''_claim_revision'' rev) c1 else drop_revision c1)
        in Inr (if was_unowned_backlog \<and> truthy owner then on_meta (pop_item ''claim_conflicts'') c2 else c2))"

definition cd_on_complete :: handler where
  "cd_on_complete c e = Inr (drop_revision (c\<lparr>cd_status := complete_column, cd_owner := JNull\<rparr>))"

definition cd_on_priority :: handler where
  "cd_on_priority c e = Inr (if truthy (get e ''priority'') then c\<lparr>cd_priority := get e ''priority''\<rparr> else c)"

definition cd_on_swimlane :: handler where
  "cd_on_swimlane c e = Inr (if truthy (get e ''swimlane'') then c\<lparr>cd_swimlane := get e ''swimlane''\<rparr> else c)"

definition cd_on_add_label :: handler where
  "cd_on_add_label c e =
     Inr (if truthy (get e ''label'') then c\<lparr>cd_labels := add_new (cd_labels c) (get e ''label'')\<rparr> else c)"

definition cd_on_remove_label :: handler where
  "cd_on_remove_label c e = Inr (c\<lparr>cd_labels := remove1 (get e ''label'') (cd_labels c)\<rparr>)"

definition cd_on_link :: handler where
  "cd_on_link c e = (let k = get e ''link_key'' in
     if k = JNull then Inr c else if \<not> hashable k then Inl TypeError
     else Inr (c\<lparr>cd_links := AList.update k (get e ''link_value'') (cd_links c)\<rparr>))"

definition cd_on_describe :: handler where
  "cd_on_describe c e =
     Inr (c\<lparr>cd_title := (if get e ''title'' = JNull then cd_title c else get e ''title''),
            cd_description := (if get e ''description'' = JNull then cd_description c
                               else get e ''description'')\<rparr>)"

fun text_value :: "json \<Rightarrow> bool" where
  "text_value (JStr s) = (\<not> blank s)"
| "text_value _ = False"

definition cd_on_amend_criteria :: handler where
  "cd_on_amend_criteria c e =
     (case get e ''criteria'' of
        JList xs \<Rightarrow> (if xs \<noteq> [] \<and> list_all text_value xs then Inr (c\<lparr>cd_criteria := xs\<rparr>)
                     else Inl (ValueError ''criteria amendment is malformed''))
      | _ \<Rightarrow> Inl (ValueError ''criteria amendment is malformed''))"

definition cd_on_add_dependency :: handler where
  "cd_on_add_dependency c e =
     Inr (if nonempty_str (get e ''dependency'')
          then c\<lparr>cd_dependencies := add_new (cd_dependencies c) (get e ''dependency'')\<rparr> else c)"

definition cd_on_remove_dependency :: handler where
  "cd_on_remove_dependency c e =
     Inr (if is_str (get e ''dependency'')
          then c\<lparr>cd_dependencies := remove1 (get e ''dependency'') (cd_dependencies c)\<rparr> else c)"

definition cd_on_note :: handler where
  "cd_on_note c e =
     (if truthy (get e ''text'')
      then meta_append ''comments'' (JObj [(''ts'', get e ''ts''), (''writer'', get e ''writer''),
             (''text'', get e ''text'')]) c
      else Inr c)"

section \<open>Agent runs\<close>

definition cd_on_run_request :: handler where
  "cd_on_run_request c e = Inr (on_meta (set_item ''agent_run'' (JObj
     [(''run_id'', get e ''run_id''), (''state'', JStr ''queued''),
      (''instruction'', get_d e ''instruction'' (JStr [])), (''agent'', get e ''run_agent''),
      (''mode'', get_d e ''mode'' (JStr ''propose'')), (''kind'', get e ''kind''),
      (''requester'', get e ''writer''), (''created_at'', get e ''ts''), (''activity'', JList []),
      (''attempts'', JInt 0), (''links'', JObj [])])) c)"

text \<open>The common guard of the run's events: the card has this run.\<close>

definition with_run :: "(jobj \<Rightarrow> jobj \<Rightarrow> jobj result) \<Rightarrow> handler" where
  "with_run f c e =
     (let r = get (cd_meta c) ''agent_run'' in
      if \<not> truthy r then Inr c
      else case r of
        JObj d \<Rightarrow> (if get d ''run_id'' = get e ''run_id''
                   then r_bind (f d e) (\<lambda>d'. Inr (on_meta (set_item ''agent_run'' (JObj d')) c)) else Inr c)
      | _ \<Rightarrow> Inl AttributeError)"

fun plus_one :: "json \<Rightarrow> json result" where
  "plus_one (JInt n) = Inr (JInt (n + 1))"
| "plus_one (JBool b) = Inr (JInt (if b then 2 else 1))"
| "plus_one _ = Inl TypeError"

definition run_claim :: "jobj \<Rightarrow> jobj \<Rightarrow> jobj result" where
  "run_claim d e = r_bind (plus_one (get_d d ''attempts'' (JInt 0))) (\<lambda>n. Inr (set_item ''attempts'' n
     (set_item ''lease_expires'' (get e ''lease_expires'')
     (set_item ''worker'' (get e ''worker'') (set_item ''state'' (JStr ''running'') d)))))"

definition run_activity :: "jobj \<Rightarrow> jobj \<Rightarrow> jobj result" where
  "run_activity d e = append_item ''activity'' (JObj [(''ts'', get e ''ts''), (''atype'', get e ''atype''),
     (''text'', get e ''text''), (''writer'', get e ''writer'')]) d"

text \<open>\<open>r.setdefault("links", {})[k] = v\<close>: a list takes no text index, other values none at all.\<close>

definition set_link :: "jobj \<Rightarrow> jobj \<Rightarrow> string \<Rightarrow> jobj result" where
  "set_link e d k =
     (if \<not> truthy (get e k) then Inr d
      else case get_d d ''links'' (JObj []) of
        JObj ls \<Rightarrow> Inr (set_item ''links'' (JObj (set_item k (get e k) ls)) d)
      | _ \<Rightarrow> Inl TypeError)"

definition run_state :: "jobj \<Rightarrow> jobj \<Rightarrow> jobj result" where
  "run_state d e =
     (let d1 = set_item ''state'' (get_d e ''state'' (get d ''state'')) d;
          d2 = (if truthy (get e ''last_error'') then set_item ''last_error'' (get e ''last_error'') d1 else d1)
      in r_fold (set_link e) d2 [''pr'', ''commit'', ''branch'', ''transcript''])"

section \<open>The dispatcher and the fold\<close>

definition cd_on_archive :: handler where
  "cd_on_archive c e = Inr ((on_meta (\<lambda>m. set_item ''archived_by'' (get e ''writer'')
      (set_item ''archived_at'' (get e ''ts'') m)) c)\<lparr>cd_archived := True\<rparr>)"

definition cd_on_reopen :: handler where
  "cd_on_reopen c e = to_column (get e ''column'') (c\<lparr>cd_archived := False\<rparr>)"

definition void_terminal_actions :: "string list" where
  "void_terminal_actions = [''move'', ''reopen'', ''assign'', ''unassign'', ''claim'', ''release_claim'', ''complete'']"

definition cd_handlers :: "(string \<times> handler) list" where
  "cd_handlers = [(''void'', cd_on_void), (''move'', cd_on_move), (''assign'', cd_on_assign),
     (''unassign'', cd_on_unassign), (''release_claim'', cd_on_release), (''claim'', cd_on_claim),
     (''complete'', cd_on_complete), (''priority'', cd_on_priority), (''swimlane'', cd_on_swimlane),
     (''add_label'', cd_on_add_label), (''remove_label'', cd_on_remove_label), (''link'', cd_on_link),
     (''describe'', cd_on_describe), (''amend_criteria'', cd_on_amend_criteria),
     (''add_dependency'', cd_on_add_dependency), (''remove_dependency'', cd_on_remove_dependency),
     (''note'', cd_on_note), (''agent_run_request'', cd_on_run_request),
     (''agent_run_claim'', with_run run_claim), (''agent_run_activity'', with_run run_activity),
     (''agent_run_state'', with_run run_state), (''archive'', cd_on_archive), (''reopen'', cd_on_reopen)]"

definition handler_of :: "json \<Rightarrow> handler" where
  "handler_of v = (case v of JStr a \<Rightarrow> (case map_of cd_handlers a of None \<Rightarrow> (\<lambda>c e. Inr c) | Some h \<Rightarrow> h)
     | _ \<Rightarrow> (\<lambda>c e. Inr c))"

definition stamp :: "jobj \<Rightarrow> card \<Rightarrow> card" where
  "stamp e c = c\<lparr>cd_updated_at := get_d e ''ts'' (cd_updated_at c)\<rparr>"

text \<open>The state of the loop: the card, and whether a void has been seen.\<close>

record card_state =
  st_card :: card
  st_voided :: bool

definition card_step :: "card_state \<Rightarrow> jobj \<Rightarrow> card_state result" where
  "card_step s e =
     (let a = get e ''action'' in
      if st_voided s \<and> \<not> hashable a then Inl TypeError
      else if st_voided s \<and> a \<in> JStr ` set void_terminal_actions
      then Inr (s\<lparr>st_card := stamp e (st_card s)\<rparr>)
      else r_bind (handler_of a (st_card s) e) (\<lambda>c.
        Inr \<lparr>st_card = stamp e c, st_voided = (st_voided s \<or> a = JStr ''void'')\<rparr>))"

text \<open>
  The order \<open>(ts, writer, seq)\<close> of a log; fields of other types than text and integer cannot be
  compared with the fields of an ordinary event.
\<close>

definition card_event_key :: "jobj \<Rightarrow> (string \<times> string \<times> int) option" where
  "card_event_key e =
     (case (get_d e ''ts'' (JStr []), get_d e ''writer'' (JStr []), get_d e ''seq'' (JInt 0)) of
        (JStr a, JStr b, JInt n) \<Rightarrow> Some (a, b, n)
      | _ \<Rightarrow> None)"

definition sort_log :: "jobj list \<Rightarrow> jobj list result" where
  "sort_log es =
     (if length es \<le> 1 then Inr es
      else if list_all (\<lambda>e. card_event_key e \<noteq> None) es then Inr (sort_key (\<lambda>e. the (card_event_key e)) es)
      else Inl TypeError)"

definition merged_log :: "jobj list \<Rightarrow> jobj list \<Rightarrow> jobj list result" where
  "merged_log events legacy = (if legacy = [] then Inr events else sort_log (events @ legacy))"

definition card_start :: "jobj \<Rightarrow> card_state result" where
  "card_start core = r_bind (card_at_birth core) (\<lambda>c. r_bind (initial_claim core c) (\<lambda>c.
     Inr \<lparr>st_card = c, st_voided = False\<rparr>))"

definition fold_card :: "jobj option \<Rightarrow> jobj list result \<Rightarrow> jobj list \<Rightarrow> card option result" where
  "fold_card core events legacy =
     (case core of None \<Rightarrow> Inr None
      | Some co \<Rightarrow>
          r_bind (card_start co) (\<lambda>s.
          r_bind events (\<lambda>es.
          r_bind (merged_log es legacy) (\<lambda>log.
          r_bind (r_fold card_step s log) (\<lambda>t.
          Inr (Some (st_card t)))))))"

end
