(* ===== verification/Card_Claims.thy ===== *)
theory Card_Claims
  imports Card_Fold
begin

text \<open>
  What the fold of a stored card guarantees: the frame of every handler, then the claims protocol
  (a void is final, a live claim is exclusive, a release needs the current claim), the set
  behaviour of labels and dependencies, tolerance of mirrored duplicates, and totality.
\<close>

section \<open>Frames of the handlers\<close>

lemmas cd_handler_defs = cd_on_void_def cd_on_move_def cd_on_assign_def cd_on_unassign_def
  cd_on_complete_def cd_on_priority_def cd_on_swimlane_def cd_on_add_label_def cd_on_remove_label_def
  cd_on_describe_def cd_on_add_dependency_def cd_on_remove_dependency_def
  cd_on_run_request_def cd_on_archive_def

lemma card_meta_frame [simp]:
  "cd_id (on_meta f c) = cd_id c" "cd_kind (on_meta f c) = cd_kind c"
  "cd_status (on_meta f c) = cd_status c" "cd_owner (on_meta f c) = cd_owner c"
  "cd_archived (on_meta f c) = cd_archived c" "cd_labels (on_meta f c) = cd_labels c"
  "cd_dependencies (on_meta f c) = cd_dependencies c" "cd_meta (on_meta f c) = f (cd_meta c)"
  "cd_created_at (on_meta f c) = cd_created_at c" "cd_originator (on_meta f c) = cd_originator c"
  by (simp_all add: on_meta_def)

lemma drop_revision_frame [simp]:
  "cd_id (drop_revision c) = cd_id c" "cd_kind (drop_revision c) = cd_kind c"
  "cd_status (drop_revision c) = cd_status c" "cd_owner (drop_revision c) = cd_owner c"
  "cd_archived (drop_revision c) = cd_archived c" "cd_labels (drop_revision c) = cd_labels c"
  "cd_dependencies (drop_revision c) = cd_dependencies c"
  "cd_meta (drop_revision c) = pop_item ''_claim_revision'' (cd_meta c)"
  "cd_created_at (drop_revision c) = cd_created_at c" "cd_originator (drop_revision c) = cd_originator c"
  "revision (drop_revision c) = JNull"
  by (simp_all add: drop_revision_def revision_def)

lemma append_item_other:
  "append_item k v d = Inr d' \<Longrightarrow> x \<noteq> k \<Longrightarrow> get d' x = get d x"
  by (auto simp: append_item_def split: option.splits json.splits)

lemma append_item_at:
  "append_item k v d = Inr d' \<Longrightarrow> \<exists>xs. get_d d k (JList []) = JList xs \<and> get d' k = JList (xs @ [v])"
  by (auto simp: append_item_def get_d_def split: option.splits json.splits)

text \<open>What a handler outside the claims protocol leaves alone.\<close>

definition same_claim :: "card \<Rightarrow> card \<Rightarrow> bool" where
  "same_claim c c' \<longleftrightarrow> cd_owner c' = cd_owner c \<and> revision c' = revision c
     \<and> get (cd_meta c') ''voided'' = get (cd_meta c) ''voided''"

lemma same_claim_refl [simp]: "same_claim c c"
  by (simp add: same_claim_def)

lemma meta_append_frame:
  "meta_append k v c = Inr c' \<Longrightarrow> k \<noteq> ''_claim_revision'' \<Longrightarrow> k \<noteq> ''voided'' \<Longrightarrow>
     same_claim c c' \<and> (\<exists>m. c' = c\<lparr>cd_meta := m\<rparr>)"
  by (auto simp: meta_append_def same_claim_def revision_def append_item_other elim!: r_bind_InrE)

lemma with_run_frame:
  "with_run f c e = Inr c' \<Longrightarrow> same_claim c c' \<and> (\<exists>m. c' = c\<lparr>cd_meta := m\<rparr>)"
  by (auto simp: with_run_def Let_def same_claim_def revision_def on_meta_def
      split: if_splits json.splits elim!: r_bind_InrE intro: exI [of _ "cd_meta c"])

lemma to_column_frame:
  "to_column v c = Inr c' \<Longrightarrow> c' = c \<or> (\<exists>col. v = JStr (column_value col) \<and> c' = c\<lparr>cd_status := col\<rparr>)"
  by (auto simp: to_column_def dest: column_of_Some split: if_splits option.splits)

text \<open>The birth facts of a card never change.\<close>

definition same_card :: "card \<Rightarrow> card \<Rightarrow> bool" where
  "same_card c c' \<longleftrightarrow> cd_id c' = cd_id c \<and> cd_kind c' = cd_kind c \<and> cd_originator c' = cd_originator c
     \<and> cd_created_at c' = cd_created_at c"

lemma same_card_meta [simp]: "same_card c (c\<lparr>cd_meta := m\<rparr>)"
  by (simp add: same_card_def)

text \<open>A fact about every handler holds of the handler that an event selects.\<close>

lemma handler_of_rule:
  assumes "list_all (\<lambda>(x, h). a = JStr x \<longrightarrow> P (h c e)) cd_handlers" and "P (Inr c)"
  shows "P (handler_of a c e)"
  using assms map_of_SomeD [of cd_handlers]
  by (fastforce simp: handler_of_def list_all_iff split: json.split option.split)

lemma handler_of_Inr:
  assumes "handler_of a c e = Inr c'"
    and "list_all (\<lambda>(x, h). a = JStr x \<longrightarrow> h c e = Inr c' \<longrightarrow> Q c') cd_handlers" and "Q c"
  shows "Q c'"
  using handler_of_rule [of a "\<lambda>r. r = Inr c' \<longrightarrow> Q c'" c e] assms by auto

definition same_sets :: "card \<Rightarrow> card \<Rightarrow> bool" where
  "same_sets c c' \<longleftrightarrow> cd_labels c' = cd_labels c \<and> cd_dependencies c' = cd_dependencies c"

lemma cd_on_release_same: "cd_on_release c e = Inr c' \<Longrightarrow> same_card c c' \<and> same_sets c c'"
  by (auto simp: cd_on_release_def Let_def same_card_def same_sets_def dest!: meta_append_frame split: if_splits elim!: r_bind_InrE)

lemma cd_on_claim_same: "cd_on_claim c e = Inr c' \<Longrightarrow> same_card c c' \<and> same_sets c c'"
  by (auto simp: cd_on_claim_def Let_def same_card_def same_sets_def dest!: meta_append_frame split: if_splits)

lemma cd_on_amend_frame: "cd_on_amend_criteria c e = Inr c' \<Longrightarrow> \<exists>xs. c' = c\<lparr>cd_criteria := xs\<rparr>"
  by (auto simp: cd_on_amend_criteria_def split: json.splits if_splits)

lemma cd_on_note_frame: "cd_on_note c e = Inr c' \<Longrightarrow> same_claim c c' \<and> (\<exists>m. c' = c\<lparr>cd_meta := m\<rparr>)"
  by (auto simp: cd_on_note_def dest: meta_append_frame split: if_splits intro: exI [of _ "cd_meta c"])

lemma cd_on_link_frame: "cd_on_link c e = Inr c' \<Longrightarrow> \<exists>ls. c' = c\<lparr>cd_links := ls\<rparr>"
  by (auto simp: cd_on_link_def Let_def split: if_splits intro: exI [of _ "cd_links c"])

lemmas cd_frames = cd_on_amend_frame cd_on_note_frame cd_on_link_frame with_run_frame to_column_frame

lemma handler_same_card:
  assumes "handler_of a c e = Inr c'"
  shows "same_card c c'"
  using assms
proof (rule handler_of_Inr)
  show "list_all (\<lambda>(x, h). a = JStr x \<longrightarrow> h c e = Inr c' \<longrightarrow> same_card c c') cd_handlers"
    unfolding cd_handlers_def list.pred_inject prod.case
    by (intro conjI impI)
      (auto simp: cd_handler_defs cd_on_reopen_def same_card_def
        dest!: cd_frames cd_on_release_same cd_on_claim_same split: if_splits elim!: r_bind_InrE)
qed (simp add: same_card_def)

lemma handler_frame:
  assumes "handler_of a c e = Inr c'" and "a \<notin> JStr ` set void_terminal_actions" and "a \<noteq> JStr ''void''"
  shows "same_claim c c' \<and> cd_status c' = cd_status c \<and> (cd_archived c \<longrightarrow> cd_archived c')"
  using assms(1)
proof (rule handler_of_Inr)
  show "list_all (\<lambda>(x, h). a = JStr x \<longrightarrow> h c e = Inr c' \<longrightarrow>
      same_claim c c' \<and> cd_status c' = cd_status c \<and> (cd_archived c \<longrightarrow> cd_archived c')) cd_handlers"
    using assms(2,3) unfolding cd_handlers_def list.pred_inject prod.case
    by (intro conjI impI)
      (auto simp: cd_handler_defs void_terminal_actions_def same_claim_def revision_def
        dest!: cd_frames split: if_splits)
qed simp

text \<open>One step of the loop: skipped after a void, or a handler and the stamp.\<close>

lemma card_stepE:
  assumes "card_step s e = Inr s'"
  obtains (skipped) "st_voided s" "get e ''action'' \<in> JStr ` set void_terminal_actions"
      "s' = s\<lparr>st_card := stamp e (st_card s)\<rparr>"
  | (handled) c where "st_voided s \<Longrightarrow> get e ''action'' \<notin> JStr ` set void_terminal_actions"
      "handler_of (get e ''action'') (st_card s) e = Inr c"
      "s' = \<lparr>st_card = stamp e c, st_voided = (st_voided s \<or> get e ''action'' = JStr ''void'')\<rparr>"
  using assms by (auto simp: card_step_def Let_def split: if_splits elim!: r_bind_InrE)

lemma stamp_frame [simp]:
  "cd_id (stamp e c) = cd_id c" "cd_kind (stamp e c) = cd_kind c" "cd_status (stamp e c) = cd_status c"
  "cd_owner (stamp e c) = cd_owner c" "cd_archived (stamp e c) = cd_archived c"
  "cd_labels (stamp e c) = cd_labels c" "cd_dependencies (stamp e c) = cd_dependencies c"
  "cd_meta (stamp e c) = cd_meta c" "revision (stamp e c) = revision c"
  "cd_originator (stamp e c) = cd_originator c" "cd_created_at (stamp e c) = cd_created_at c"
  by (simp_all add: stamp_def revision_def)

lemma handler_of_simps:
  "handler_of (JStr ''void'') = cd_on_void" "handler_of (JStr ''move'') = cd_on_move"
  "handler_of (JStr ''assign'') = cd_on_assign" "handler_of (JStr ''unassign'') = cd_on_unassign"
  "handler_of (JStr ''release_claim'') = cd_on_release" "handler_of (JStr ''claim'') = cd_on_claim"
  "handler_of (JStr ''complete'') = cd_on_complete" "handler_of (JStr ''reopen'') = cd_on_reopen"
  "handler_of (JStr ''add_label'') = cd_on_add_label" "handler_of (JStr ''remove_label'') = cd_on_remove_label"
  "handler_of (JStr ''add_dependency'') = cd_on_add_dependency"
  "handler_of (JStr ''remove_dependency'') = cd_on_remove_dependency"
  "handler_of (JStr ''priority'') = cd_on_priority" "handler_of (JStr ''swimlane'') = cd_on_swimlane"
  "handler_of (JStr ''link'') = cd_on_link" "handler_of (JStr ''describe'') = cd_on_describe"
  "handler_of (JStr ''archive'') = cd_on_archive"
  by (simp_all add: handler_of_def cd_handlers_def)

section \<open>A void is final\<close>

definition voided_card :: "card_state \<Rightarrow> bool" where
  "voided_card s \<longleftrightarrow> st_voided s \<and> cd_archived (st_card s) \<and> cd_owner (st_card s) = JNull
     \<and> revision (st_card s) = JNull \<and> get (cd_meta (st_card s)) ''voided'' = JBool True"

definition same_column :: "card_state \<Rightarrow> card_state \<Rightarrow> bool" where
  "same_column s t \<longleftrightarrow> cd_status (st_card t) = cd_status (st_card s)"

lemma cd_on_void_voids:
  "cd_on_void c e = Inr c' \<Longrightarrow> cd_archived c' \<and> cd_owner c' = JNull \<and> revision c' = JNull
     \<and> get (cd_meta c') ''voided'' = JBool True \<and> cd_status c' = cd_status c"
  by (auto simp: cd_on_void_def revision_def)

lemma voided_step:
  assumes "voided_card s" and "card_step s e = Inr s'"
  shows "voided_card s' \<and> same_column s s'"
  using assms(2)
proof (cases rule: card_stepE)
  case skipped
  with assms(1) show ?thesis by (simp add: voided_card_def same_column_def)
next
  case (handled c)
  have v: "st_voided s" using assms(1) by (simp add: voided_card_def)
  show ?thesis
  proof (cases "get e ''action'' = JStr ''void''")
    case True
    with handled cd_on_void_voids [of "st_card s" e c] v show ?thesis
      by (simp add: voided_card_def same_column_def handler_of_simps)
  next
    case False
    with handled handler_frame [OF handled(2) handled(1) [OF v]] assms(1) show ?thesis
      by (simp add: voided_card_def same_column_def same_claim_def)
  qed
qed

interpretation card_void: event_fold card_step "\<lambda>_. True" voided_card same_column
  by unfold_locales (use voided_step in \<open>auto simp: same_column_def\<close>)

section \<open>A live claim is exclusive\<close>

text \<open>The card is being worked on by \<open>o\<close> under the claim revision \<open>r\<close>.\<close>

definition held_by :: "string \<Rightarrow> string \<Rightarrow> card_state \<Rightarrow> bool" where
  "held_by o1 r s \<longleftrightarrow> \<not> st_voided s \<and> cd_owner (st_card s) = JStr o1 \<and> o1 \<noteq> [] \<and> revision (st_card s) = JStr r
     \<and> cd_status (st_card s) \<in> {Ready, Doing, Review}"

text \<open>
  A competing event: a claim for another agent, a release that does not name both the owner and the
  revision, or an event of any other kind but the six that end or move a claim by design.
\<close>

definition foreign_event :: "string \<Rightarrow> string \<Rightarrow> jobj \<Rightarrow> bool" where
  "foreign_event o1 r e \<longleftrightarrow>
     (let a = get e ''action'' in
      a \<notin> JStr ` {''void'', ''move'', ''reopen'', ''assign'', ''unassign'', ''complete''}
      \<and> (a = JStr ''claim'' \<longrightarrow> nonempty_str (get e ''owner'') \<and> get e ''owner'' \<noteq> JStr o1)
      \<and> (a = JStr ''release_claim'' \<longrightarrow>
           \<not> (get e ''released_owner'' = JStr o1 \<and> get e ''expected_claim_revision'' = JStr r)))"

definition claim_fields :: "card \<Rightarrow> json \<times> json \<times> column" where
  "claim_fields c = (cd_owner c, revision c, cd_status c)"

definition same_holder :: "card_state \<Rightarrow> card_state \<Rightarrow> bool" where
  "same_holder s t \<longleftrightarrow> claim_fields (st_card t) = claim_fields (st_card s)"

lemma meta_append_claim:
  "meta_append k v c = Inr c' \<Longrightarrow> k \<noteq> ''_claim_revision'' \<Longrightarrow> k \<noteq> ''voided'' \<Longrightarrow> claim_fields c' = claim_fields c"
  by (drule (2) meta_append_frame) (auto simp: claim_fields_def same_claim_def)

text \<open>What a release does, on every branch.\<close>

lemma cd_on_release_cases:
  assumes "cd_on_release c e = Inr c'"
  obtains (current) "releases_current c e" "c' = drop_revision (c\<lparr>cd_owner := JNull, cd_status := Backlog\<rparr>)"
  | (conflict) xs where "\<not> releases_current c e" "py_iter (get_d (cd_meta c) ''claim_conflicts'' (JList [])) = Inr xs"
      "releases_conflict c e xs" "claim_fields c' = claim_fields c"
      "get_d (cd_meta c') ''claim_conflicts'' (JList []) = JList (filter (\<lambda>x. \<not> matches_release e x) xs)"
  | (refused) xs where "\<not> releases_current c e" "py_iter (get_d (cd_meta c) ''claim_conflicts'' (JList [])) = Inr xs"
      "\<not> releases_conflict c e xs" "meta_append ''release_conflicts'' (release_conflict c e) c = Inr c'"
      "claim_fields c' = claim_fields c"
proof -
  obtain xs where xs: "py_iter (get_d (cd_meta c) ''claim_conflicts'' (JList [])) = Inr xs"
    using assms by (auto simp: cd_on_release_def elim: r_bind_InrE)
  have item: "get_d (set_item k v d) k w = v" "get_d (pop_item k d) k w = w" for k v d w
    by (simp_all add: get_d_def set_item_def update_conv' map_of_pop_item)
  consider "releases_current c e" | "\<not> releases_current c e" "releases_conflict c e xs"
    | "\<not> releases_current c e" "\<not> releases_conflict c e xs" by blast
  then show thesis
  proof cases
    case 1
    with assms xs show thesis by (intro current) (simp_all add: cd_on_release_def)
  next
    case 2
    with assms xs show thesis
      by (intro conflict [of xs])
        (auto simp: cd_on_release_def Let_def claim_fields_def revision_def item split: if_splits)
  next
    case 3
    with assms xs show thesis
      by (intro refused [of xs]) (auto simp: cd_on_release_def intro: meta_append_claim)
  qed
qed

lemma foreign_step:
  assumes "held_by o1 r s" and "foreign_event o1 r e" and "card_step s e = Inr s'"
  shows "held_by o1 r s' \<and> same_holder s s'"
  using assms(3)
proof (cases rule: card_stepE)
  case skipped
  with assms(1) show ?thesis by (simp add: held_by_def)
next
  case (handled c)
  have "claim_fields c = claim_fields (st_card s)"
  proof (cases "get e ''action'' \<in> {JStr ''claim'', JStr ''release_claim''}")
    case False
    with assms(2) have "get e ''action'' \<notin> JStr ` set void_terminal_actions" "get e ''action'' \<noteq> JStr ''void''"
      by (auto simp: foreign_event_def Let_def void_terminal_actions_def)
    with handler_frame [OF handled(2)] show ?thesis by (simp add: same_claim_def claim_fields_def)
  next
    case True
    then consider "get e ''action'' = JStr ''claim''" | "get e ''action'' = JStr ''release_claim''" by blast
    then show ?thesis
    proof cases
      case 1
      then have "claim_blocked (st_card s) (get e ''owner'')"
        using assms(1,2) by (auto simp: claim_blocked_def held_by_def foreign_event_def Let_def)
      with handled(2) 1 show ?thesis
        by (auto simp: handler_of_simps cd_on_claim_def Let_def intro: meta_append_claim)
    next
      case 2
      then have rel: "cd_on_release (st_card s) e = Inr c" using handled(2) by (simp add: handler_of_simps)
      have "\<not> releases_current (st_card s) e"
        using 2 assms(1,2) by (auto simp: releases_current_def held_by_def foreign_event_def Let_def)
      with rel show ?thesis by (cases rule: cd_on_release_cases) simp_all
    qed
  qed
  with handled assms(1,2) show ?thesis
    by (auto simp: held_by_def same_holder_def claim_fields_def foreign_event_def Let_def)
qed

interpretation card_claim: event_fold card_step "foreign_event o1 r" "held_by o1 r" same_holder for o1 r
  by unfold_locales (use foreign_step in \<open>auto simp: same_holder_def\<close>)

section \<open>Labels and dependencies\<close>

text \<open>What an event says about a label and about a dependency.\<close>

definition label_says :: "json \<Rightarrow> jobj \<Rightarrow> bool option" where
  "label_says v e =
     (if get e ''action'' = JStr ''add_label'' \<and> get e ''label'' = v \<and> truthy v then Some True
      else if get e ''action'' = JStr ''remove_label'' \<and> get e ''label'' = v then Some False else None)"

definition dependency_says :: "string \<Rightarrow> jobj \<Rightarrow> bool option" where
  "dependency_says d e =
     (if get e ''action'' = JStr ''add_dependency'' \<and> get e ''dependency'' = JStr d \<and> d \<noteq> [] then Some True
      else if get e ''action'' = JStr ''remove_dependency'' \<and> get e ''dependency'' = JStr d then Some False
      else None)"

definition set_actions :: "json set" where
  "set_actions = {JStr ''add_label'', JStr ''remove_label'', JStr ''add_dependency'', JStr ''remove_dependency''}"

lemma handler_same_sets:
  assumes "handler_of a c e = Inr c'" and "a \<notin> set_actions"
  shows "same_sets c c'"
  using assms(1)
proof (rule handler_of_Inr)
  show "list_all (\<lambda>(x, h). a = JStr x \<longrightarrow> h c e = Inr c' \<longrightarrow> same_sets c c') cd_handlers"
    using assms(2) unfolding cd_handlers_def list.pred_inject prod.case
    by (intro conjI impI)
      (auto simp: cd_handler_defs cd_on_reopen_def same_sets_def set_actions_def
        dest!: cd_frames cd_on_release_same cd_on_claim_same split: if_splits elim!: r_bind_InrE)
qed (simp add: same_sets_def)

definition tracks :: "('v \<Rightarrow> jobj \<Rightarrow> bool option) \<Rightarrow> jobj \<Rightarrow> 'v list \<Rightarrow> 'v list \<Rightarrow> bool" where
  "tracks says e xs ys \<longleftrightarrow> (distinct xs \<longrightarrow> distinct ys
     \<and> (\<forall>v. v \<in> set ys \<longleftrightarrow> (case says v e of None \<Rightarrow> v \<in> set xs | Some b \<Rightarrow> b)))"

lemma nonempty_str_iff: "nonempty_str v \<longleftrightarrow> (\<exists>s. v = JStr s \<and> s \<noteq> [])"
  by (cases v) auto

lemma is_str_iff: "is_str v \<longleftrightarrow> (\<exists>s. v = JStr s)"
  by (cases v) auto

definition dep_says :: "json \<Rightarrow> jobj \<Rightarrow> bool option" where
  "dep_says v e = (case v of JStr d \<Rightarrow> dependency_says d e | _ \<Rightarrow> None)"

lemma handler_tracks:
  assumes "handler_of (get e ''action'') c e = Inr c'"
  shows "tracks label_says e (cd_labels c) (cd_labels c')"
    and "tracks dep_says e (cd_dependencies c) (cd_dependencies c')"
proof -
  let ?a = "get e ''action''"
  have "tracks label_says e (cd_labels c) (cd_labels c') \<and> tracks dep_says e (cd_dependencies c) (cd_dependencies c')"
  proof (cases "?a \<in> set_actions")
    case False
    with handler_same_sets [OF assms] show ?thesis
      by (auto simp: same_sets_def set_actions_def tracks_def label_says_def dep_says_def dependency_says_def
          split: json.split)
  next
    case True
    then consider "?a = JStr ''add_label''" | "?a = JStr ''remove_label''"
      | "?a = JStr ''add_dependency''" | "?a = JStr ''remove_dependency''"
      by (auto simp: set_actions_def)
    then show ?thesis
    proof cases
      case 1
      with assms show ?thesis
        by (auto simp: handler_of_simps cd_on_add_label_def tracks_def label_says_def dep_says_def
            dependency_says_def split: json.split if_splits)
    next
      case 2
      with assms show ?thesis
        by (auto simp: handler_of_simps cd_on_remove_label_def tracks_def label_says_def dep_says_def
            dependency_says_def split: json.split if_splits)
    next
      case 3
      with assms show ?thesis
        by (auto simp: handler_of_simps cd_on_add_dependency_def tracks_def label_says_def dep_says_def
            dependency_says_def nonempty_str_iff split: json.split if_splits)
    next
      case 4
      with assms show ?thesis
        by (auto simp: handler_of_simps cd_on_remove_dependency_def tracks_def label_says_def dep_says_def
            dependency_says_def is_str_iff split: json.split if_splits)
    qed
  qed
  then show "tracks label_says e (cd_labels c) (cd_labels c')"
    and "tracks dep_says e (cd_dependencies c) (cd_dependencies c')" by blast+
qed

lemma step_tracks:
  assumes "card_step s e = Inr s'"
  shows "tracks label_says e (cd_labels (st_card s)) (cd_labels (st_card s'))"
    and "tracks dep_says e (cd_dependencies (st_card s)) (cd_dependencies (st_card s'))"
proof -
  have "tracks label_says e (cd_labels (st_card s)) (cd_labels (st_card s'))
      \<and> tracks dep_says e (cd_dependencies (st_card s)) (cd_dependencies (st_card s'))"
    using assms
  proof (cases rule: card_stepE)
    case skipped
    then show ?thesis
      by (auto simp: tracks_def label_says_def dep_says_def dependency_says_def void_terminal_actions_def
          split: json.split)
  next
    case (handled c)
    with handler_tracks [OF handled(2)] show ?thesis by simp
  qed
  then show "tracks label_says e (cd_labels (st_card s)) (cd_labels (st_card s'))"
    and "tracks dep_says e (cd_dependencies (st_card s)) (cd_dependencies (st_card s'))" by blast+
qed

lemma fold_tracks:
  assumes step: "\<And>s e s'. card_step s e = Inr s' \<Longrightarrow> tracks says e (f s) (f s')"
    and "r_fold card_step s log = Inr t" and "distinct (f s)"
  shows "distinct (f t) \<and> (\<forall>v. v \<in> set (f t) \<longleftrightarrow>
      (case last_some (says v) log of None \<Rightarrow> v \<in> set (f s) | Some b \<Rightarrow> b))"
  using assms(2)
proof (induction log arbitrary: t rule: rev_induct)
  case Nil
  with assms(3) show ?case by simp
next
  case (snoc e log)
  then obtain u where u: "r_fold card_step s log = Inr u" "card_step u e = Inr t"
    by (auto simp: r_fold_snoc elim: r_bind_InrE)
  from snoc.IH [OF u(1)] step [OF u(2)] show ?case
    by (auto simp: tracks_def split: option.splits)
qed

section \<open>Mirrored duplicates\<close>

text \<open>The actions the legacy paths can contribute to a card's log.\<close>

definition legacy_actions :: "string list" where
  "legacy_actions = [''move'', ''priority'', ''swimlane'', ''add_label'', ''remove_label'', ''link'',
     ''assign'', ''unassign'', ''describe'', ''archive'']"

lemma set_item_twice [simp]: "set_item k v (set_item k v d) = set_item k v d"
  unfolding set_item_def by (induction d) auto

lemma update_twice [simp]: "AList.update k v (AList.update k v d) = AList.update k v d"
  by (induction d) auto

lemma pop_item_twice [simp]: "pop_item k (pop_item k d) = pop_item k d"
  by (simp add: pop_item_def)

lemma set_item_swap_twice [simp]:
  "set_item a x (set_item b y (set_item a x (set_item b y d))) = set_item a x (set_item b y d)"
  unfolding set_item_def by (induction d) auto

lemma distinct_remove1_twice: "distinct xs \<Longrightarrow> remove1 x (remove1 x xs) = remove1 x xs"
  by (simp add: remove1_idem)

lemma handler_twice:
  assumes "handler_of (JStr a) c e = Inr c'" and "a \<in> set legacy_actions" and "distinct (cd_labels c)"
  shows "handler_of (JStr a) (stamp e c') e = Inr (stamp e c')"
proof -
  let ?goal = "\<lambda>a. handler_of (JStr a) c e = Inr c' \<longrightarrow> handler_of (JStr a) (stamp e c') e = Inr (stamp e c')"
  have "?goal ''move''"
    by (auto simp: handler_of_simps cd_on_move_def to_column_def stamp_def split: if_splits option.splits)
  moreover have "?goal ''priority''" "?goal ''swimlane''"
    by (auto simp: handler_of_simps cd_on_priority_def cd_on_swimlane_def stamp_def)
  moreover have "?goal ''describe''"
    by (auto simp: handler_of_simps cd_on_describe_def stamp_def)
  moreover have "?goal ''assign''" "?goal ''unassign''"
    by (auto simp: handler_of_simps cd_on_assign_def cd_on_unassign_def stamp_def drop_revision_def on_meta_def)
  moreover have "?goal ''archive''"
    by (auto simp: handler_of_simps cd_on_archive_def stamp_def on_meta_def)
  moreover have "?goal ''add_label''"
    by (auto simp: handler_of_simps cd_on_add_label_def stamp_def)
  moreover have "?goal ''remove_label''"
    using assms(3) by (auto simp: handler_of_simps cd_on_remove_label_def stamp_def distinct_remove1_twice)
  moreover have "?goal ''link''"
    by (auto simp: handler_of_simps cd_on_link_def stamp_def Let_def split: if_splits)
  ultimately have "list_all ?goal legacy_actions"
    unfolding legacy_actions_def by (simp only: list.pred_inject simp_thms)
  with assms(1,2) show ?thesis by (simp add: list_all_iff)
qed

lemma step_twice:
  assumes "card_step s e = Inr s'" and "get e ''action'' = JStr a" and "a \<in> set legacy_actions"
    and "distinct (cd_labels (st_card s))"
  shows "card_step s' e = Inr s'"
  using assms(1)
proof (cases rule: card_stepE)
  case skipped
  with assms(2) show ?thesis by (auto simp: card_step_def Let_def stamp_def get_d_def split: option.splits)
next
  case (handled c)
  have "a \<noteq> ''void''" using assms(3) by (auto simp: legacy_actions_def)
  moreover have "stamp e (stamp e c) = stamp e c"
    by (simp add: stamp_def get_d_def split: option.splits)
  ultimately show ?thesis
    using handled assms handler_twice [of a "st_card s" e c] by (auto simp: card_step_def Let_def)
qed

section \<open>When the fold cannot fail\<close>

definition list_at :: "string \<Rightarrow> jobj \<Rightarrow> bool" where
  "list_at k d \<longleftrightarrow> (\<exists>xs. get_d d k (JList []) = JList xs)"

definition run_ok :: "jobj \<Rightarrow> bool" where
  "run_ok d \<longleftrightarrow> (\<exists>n. get_d d ''attempts'' (JInt 0) = JInt n) \<and> list_at ''activity'' d
     \<and> (\<exists>ls. get_d d ''links'' (JObj []) = JObj ls)"

definition card_ok :: "card \<Rightarrow> bool" where
  "card_ok c \<longleftrightarrow> list_at ''claim_conflicts'' (cd_meta c) \<and> list_at ''release_conflicts'' (cd_meta c)
     \<and> list_at ''comments'' (cd_meta c)
     \<and> (get (cd_meta c) ''agent_run'' = JNull \<or> (\<exists>d. get (cd_meta c) ''agent_run'' = JObj d \<and> run_ok d))"

definition wf_log_event :: "jobj \<Rightarrow> bool" where
  "wf_log_event e \<longleftrightarrow> card_event_key e \<noteq> None \<and> hashable (get e ''action'') \<and> hashable (get e ''column'')
     \<and> hashable (get e ''link_key'')
     \<and> (get e ''action'' = JStr ''amend_criteria'' \<longrightarrow>
          (\<exists>xs. get e ''criteria'' = JList xs \<and> xs \<noteq> [] \<and> list_all text_value xs))"

lemma append_item_ok: "list_at k d \<Longrightarrow> \<exists>xs. append_item k v d = Inr (set_item k (JList xs) d)"
  by (auto simp: list_at_def get_d_def append_item_def split: option.splits)

lemma list_at_set_item [simp]: "list_at x (set_item k v d) \<longleftrightarrow> (if x = k then (\<exists>xs. v = JList xs) else list_at x d)"
  by (simp add: list_at_def)

lemma list_at_pop_item [simp]: "list_at x (pop_item k d) \<longleftrightarrow> x = k \<or> list_at x d"
  by (simp add: list_at_def)

lemma meta_append_ok:
  assumes "card_ok c" and "k \<in> {''claim_conflicts'', ''release_conflicts'', ''comments''}"
  shows "\<exists>c'. meta_append k v c = Inr c' \<and> card_ok c'"
proof -
  have "list_at k (cd_meta c)" using assms by (auto simp: card_ok_def)
  then obtain xs where "append_item k v (cd_meta c) = Inr (set_item k (JList xs) (cd_meta c))"
    using append_item_ok by blast
  with assms show ?thesis by (auto simp: meta_append_def card_ok_def)
qed

lemma card_ok_same_meta: "card_ok c \<Longrightarrow> cd_meta c' = cd_meta c \<Longrightarrow> card_ok c'"
  by (simp add: card_ok_def)

lemma to_column_ok: "card_ok c \<Longrightarrow> hashable v \<Longrightarrow> \<exists>c'. to_column v c = Inr c' \<and> card_ok c'"
  by (auto simp: to_column_def card_ok_def split: option.splits)

lemma cd_on_release_ok:
  assumes "card_ok c"
  shows "\<exists>c'. cd_on_release c e = Inr c' \<and> card_ok c'"
proof -
  obtain xs where "get_d (cd_meta c) ''claim_conflicts'' (JList []) = JList xs"
    using assms by (auto simp: card_ok_def list_at_def)
  with assms meta_append_ok [OF assms, of "''release_conflicts''" "release_conflict c e"] show ?thesis
    by (auto simp: cd_on_release_def Let_def card_ok_def)
qed

lemma cd_on_claim_ok: "card_ok c \<Longrightarrow> \<exists>c'. cd_on_claim c e = Inr c' \<and> card_ok c'"
  using meta_append_ok [of c "''claim_conflicts''" "claim_conflict c e"]
  by (auto simp: cd_on_claim_def Let_def card_ok_def)

lemma with_run_ok:
  assumes "card_ok c" and "\<And>d. run_ok d \<Longrightarrow> \<exists>d'. f d e = Inr d' \<and> run_ok d'"
  shows "\<exists>c'. with_run f c e = Inr c' \<and> card_ok c'"
proof -
  consider "get (cd_meta c) ''agent_run'' = JNull"
    | d where "get (cd_meta c) ''agent_run'' = JObj d" "run_ok d"
    using assms(1) by (auto simp: card_ok_def)
  then show ?thesis
  proof cases
    case 1
    with assms(1) show ?thesis by (simp add: with_run_def)
  next
    case 2
    then obtain d' where "f d e = Inr d'" "run_ok d'" using assms(2) by blast
    with 2 assms(1) show ?thesis by (auto simp: with_run_def Let_def card_ok_def)
  qed
qed

lemma run_claim_ok: "run_ok d \<Longrightarrow> \<exists>d'. run_claim d e = Inr d' \<and> run_ok d'"
  by (auto simp: run_claim_def run_ok_def)

lemma run_activity_ok: "run_ok d \<Longrightarrow> \<exists>d'. run_activity d e = Inr d' \<and> run_ok d'"
  using append_item_ok [of "''activity''" d] by (fastforce simp: run_activity_def run_ok_def)

interpretation run_links: total_fold "set_link e" run_ok "\<lambda>k. True" for e
  by unfold_locales (auto simp: set_link_def run_ok_def)

lemma run_state_ok: "run_ok d \<Longrightarrow> \<exists>d'. run_state d e = Inr d' \<and> run_ok d'"
  unfolding run_state_def Let_def
  by (rule run_links.fold_total) (auto simp: run_ok_def list_all_iff)

lemma cd_simple_ok:
  assumes "card_ok c"
  shows "\<exists>c'. cd_on_void c e = Inr c' \<and> card_ok c'" "\<exists>c'. cd_on_assign c e = Inr c' \<and> card_ok c'"
    "\<exists>c'. cd_on_unassign c e = Inr c' \<and> card_ok c'" "\<exists>c'. cd_on_complete c e = Inr c' \<and> card_ok c'"
    "\<exists>c'. cd_on_priority c e = Inr c' \<and> card_ok c'" "\<exists>c'. cd_on_swimlane c e = Inr c' \<and> card_ok c'"
    "\<exists>c'. cd_on_add_label c e = Inr c' \<and> card_ok c'" "\<exists>c'. cd_on_remove_label c e = Inr c' \<and> card_ok c'"
    "\<exists>c'. cd_on_describe c e = Inr c' \<and> card_ok c'" "\<exists>c'. cd_on_add_dependency c e = Inr c' \<and> card_ok c'"
    "\<exists>c'. cd_on_remove_dependency c e = Inr c' \<and> card_ok c'"
    "\<exists>c'. cd_on_run_request c e = Inr c' \<and> card_ok c'" "\<exists>c'. cd_on_archive c e = Inr c' \<and> card_ok c'"
    "\<exists>c'. cd_on_note c e = Inr c' \<and> card_ok c'"
  using assms meta_append_ok [OF assms, of "''comments''"]
  by (auto simp: cd_handler_defs cd_on_note_def drop_revision_def on_meta_def card_ok_def run_ok_def list_at_def)

lemma handler_ok:
  assumes "card_ok c" and "wf_log_event e"
  shows "\<exists>c'. handler_of (get e ''action'') c e = Inr c' \<and> card_ok c'"
proof (rule handler_of_rule)
  have wf: "hashable (get e ''column'')" "hashable (get e ''link_key'')"
    using assms(2) by (simp_all add: wf_log_event_def)
  have move: "\<exists>c'. cd_on_move c e = Inr c' \<and> card_ok c'" "\<exists>c'. cd_on_reopen c e = Inr c' \<and> card_ok c'"
    using to_column_ok [OF _ wf(1)] assms(1) by (fastforce simp: cd_on_move_def cd_on_reopen_def card_ok_def)+
  have link: "\<exists>c'. cd_on_link c e = Inr c' \<and> card_ok c'"
    using wf(2) assms(1) by (simp add: cd_on_link_def Let_def card_ok_def)
  have amend: "get e ''action'' = JStr ''amend_criteria'' \<longrightarrow> (\<exists>c'. cd_on_amend_criteria c e = Inr c' \<and> card_ok c')"
    using assms by (auto simp: wf_log_event_def cd_on_amend_criteria_def card_ok_def)
  have runs: "\<exists>c'. with_run run_claim c e = Inr c' \<and> card_ok c'"
    "\<exists>c'. with_run run_activity c e = Inr c' \<and> card_ok c'" "\<exists>c'. with_run run_state c e = Inr c' \<and> card_ok c'"
    using with_run_ok [OF assms(1)] run_claim_ok run_activity_ok run_state_ok by blast+
  show "list_all (\<lambda>(x, h). get e ''action'' = JStr x \<longrightarrow> (\<exists>c'. h c e = Inr c' \<and> card_ok c')) cd_handlers"
    unfolding cd_handlers_def list.pred_inject prod.case
    by (intro conjI) (use cd_simple_ok [OF assms(1), of e] cd_on_release_ok [OF assms(1), of e]
      cd_on_claim_ok [OF assms(1), of e] move link amend runs in \<open>simp_all only: simp_thms list.pred_inject\<close>)
qed (use assms(1) in blast)

interpretation card_total: total_fold card_step "\<lambda>s. card_ok (st_card s)" wf_log_event
proof unfold_locales
  fix s :: card_state and e assume "card_ok (st_card s)" and e: "wf_log_event e"
  then obtain c where "handler_of (get e ''action'') (st_card s) e = Inr c" "card_ok c"
    using handler_ok by blast
  moreover have "hashable (get e ''action'')" using e by (simp add: wf_log_event_def)
  ultimately show "\<exists>s'. card_step s e = Inr s' \<and> card_ok (st_card s')"
    using \<open>card_ok (st_card s)\<close> by (auto simp: card_step_def Let_def stamp_def card_ok_def)
qed

interpretation card_identity: event_fold card_step "\<lambda>_. True" "\<lambda>_. True"
  "\<lambda>s t. same_card (st_card s) (st_card t)"
  by unfold_locales (auto simp: same_card_def elim!: card_stepE dest!: handler_same_card)

lemma merged_log_ok:
  assumes "list_all (\<lambda>e. card_event_key e \<noteq> None) (es @ legacy)"
  shows "\<exists>log. merged_log es legacy = Inr log \<and> set log \<subseteq> set (es @ legacy)"
proof (cases "legacy = []")
  case True
  then show ?thesis by (simp add: merged_log_def)
next
  case False
  then have "sort_log (es @ legacy) = Inr (es @ legacy)
      \<or> sort_log (es @ legacy) = Inr (sort_key (\<lambda>e. the (card_event_key e)) (es @ legacy))"
    unfolding sort_log_def using assms by meson
  with False show ?thesis by (auto simp: merged_log_def)
qed

text \<open>A core as the store writes it.\<close>

definition wf_card_core :: "jobj \<Rightarrow> bool" where
  "wf_card_core core \<longleftrightarrow> has_key core ''id'' \<and> is_str (get core ''id'')
     \<and> is_str (get_d core ''title'' (JStr [])) \<and> is_str (get_d core ''description'' (JStr []))
     \<and> is_str (get_d core ''initial_swimlane'' (JStr ''feature''))
     \<and> is_str (get_d core ''initial_priority'' (JStr ''medium''))
     \<and> is_str (get_d core ''created_by'' (JStr [])) \<and> is_str (get_d core ''created_at'' (JStr []))
     \<and> (\<exists>xs. get_d core ''initial_labels'' (JList []) = JList xs \<and> list_all is_str xs)
     \<and> str_list (get core ''acceptance_criteria'')
     \<and> (\<exists>xs. get_d core ''dependencies'' (JList []) = JList xs \<and> list_all is_str xs)
     \<and> (\<exists>m. get_d core ''meta'' (JObj []) = JObj m \<and> card_ok ((new_card [] Task [] Backlog [])\<lparr>cd_meta := m\<rparr>))
     \<and> opt_str (get core ''initial_owner'')
     \<and> (get core ''initial_owner'' \<noteq> JNull \<longrightarrow> nonempty_str (get core ''initial_claim_revision''))"

lemma as_texts_ok: "list_all is_str xs \<Longrightarrow> as_texts xs = Inr xs"
  using as_str_list_ok [of xs] as_str_list_Inr [of xs] by (auto simp: as_texts_def)

lemma as_texts_Inr: "as_texts xs = Inr ys \<Longrightarrow> ys = xs"
  by (auto simp: as_texts_def dest: as_str_list_Inr elim!: r_bind_InrE)

lemma card_start_ok:
  assumes "wf_card_core core"
  shows "\<exists>s. card_start core = Inr s \<and> card_ok (st_card s) \<and> JStr (cd_id (st_card s)) = get core ''id''"
proof -
  obtain cs where cs: "py_iter (py_or (get core ''acceptance_criteria'') (JList [])) = Inr cs" "list_all is_str cs"
    using str_list_iter [of "get core ''acceptance_criteria''"] assms unfolding wf_card_core_def by blast
  obtain w where w: "get core ''initial_owner'' = of_opt_str w"
  proof -
    have "opt_str (get core ''initial_owner'')" using assms unfolding wf_card_core_def by (elim conjE)
    then show thesis using that as_opt_str_ok as_opt_str_iff by blast
  qed
  have fields: "is_str (get_d core ''title'' (JStr []))" "is_str (get_d core ''description'' (JStr []))"
    "is_str (get_d core ''initial_swimlane'' (JStr ''feature''))" "is_str (get_d core ''initial_priority'' (JStr ''medium''))"
    "is_str (get_d core ''created_by'' (JStr []))" "is_str (get_d core ''created_at'' (JStr []))" "is_str (get core ''id'')" "has_key core ''id''"
    using assms unfolding wf_card_core_def by simp_all
  obtain title where title: "get_d core ''title'' (JStr []) = JStr title" using fields(1) unfolding is_str_iff by (elim exE)
  obtain descr where descr: "get_d core ''description'' (JStr []) = JStr descr" using fields(2) unfolding is_str_iff by (elim exE)
  obtain lane where lane: "get_d core ''initial_swimlane'' (JStr ''feature'') = JStr lane" using fields(3) unfolding is_str_iff by (elim exE)
  obtain prio where prio: "get_d core ''initial_priority'' (JStr ''medium'') = JStr prio" using fields(4) unfolding is_str_iff by (elim exE)
  obtain author where author: "get_d core ''created_by'' (JStr []) = JStr author" using fields(5) unfolding is_str_iff by (elim exE)
  obtain at where at: "get_d core ''created_at'' (JStr []) = JStr at" using fields(6) unfolding is_str_iff by (elim exE)
  obtain cid where cid: "get core ''id'' = JStr cid" using fields(7) unfolding is_str_iff by (elim exE)
  note texts = title descr lane prio author at cid get_item_ok [OF fields(8), unfolded cid]
  obtain labels deps where lists:
    "get_d core ''initial_labels'' (JList []) = JList labels" "list_all is_str labels"
    "get_d core ''dependencies'' (JList []) = JList deps" "list_all is_str deps"
    using assms unfolding wf_card_core_def by blast
  obtain m where m: "get_d core ''meta'' (JObj []) = JObj m"
    "card_ok ((new_card [] Task [] Backlog [])\<lparr>cd_meta := m\<rparr>)"
    using assms unfolding wf_card_core_def by blast
  obtain c where birth: "card_at_birth core = Inr c" and c: "cd_id c = cid" "cd_meta c = m" "cd_owner c = of_opt_str w"
    by (simp add: card_at_birth_def texts lists cs m(1) w as_texts_ok new_card_def)
  have "w \<noteq> None \<longrightarrow> nonempty_str (get core ''initial_claim_revision'')"
    using assms w by (cases w) (simp_all add: wf_card_core_def)
  with c m(2) show ?thesis
    by (cases w) (auto simp: card_start_def birth initial_claim_def texts card_ok_def)
qed

section \<open>Properties\<close>

text \<open>
  C9. A void is final: once the log of a card contains a void, the folded card is archived, marked
  voided, without owner and without claim revision, and its column is the one it had before the
  void, whatever events follow.
\<close>

theorem void_is_final:
  assumes "fold_card (Some core) (Inr es) legacy = Inr (Some c)"
    and "merged_log es legacy = Inr (before @ v # after)" and "get v ''action'' = JStr ''void''"
  shows "cd_archived c \<and> cd_owner c = JNull \<and> revision c = JNull
    \<and> get (cd_meta c) ''voided'' = JBool True
    \<and> (\<exists>s0 s. card_start core = Inr s0 \<and> r_fold card_step s0 before = Inr s
         \<and> cd_status c = cd_status (st_card s))"
proof -
  obtain s0 s u t where run: "card_start core = Inr s0" "r_fold card_step s0 before = Inr s"
    "card_step s v = Inr u" "r_fold card_step u after = Inr t" "c = st_card t"
    using assms(1,2) by (auto simp: fold_card_def r_fold_append elim!: r_bind_InrE)
  from run(3) have "voided_card u \<and> same_column s u"
  proof (cases rule: card_stepE)
    case skipped
    with assms(3) show ?thesis by (auto simp: void_terminal_actions_def)
  next
    case (handled d)
    with assms(3) cd_on_void_voids [of "st_card s" v d] show ?thesis
      by (simp add: voided_card_def same_column_def handler_of_simps)
  qed
  moreover from this have "voided_card t \<and> same_column u t"
    using card_void.fold_keeps [OF _ _ run(4)] by (simp add: list_all_iff)
  ultimately show ?thesis
    using run by (auto simp: voided_card_def same_column_def)
qed

text \<open>A small card that its owner is working on, and an event on it.\<close>

definition sample_core :: jobj where
  "sample_core = [(''id'', JStr ''c1''), (''title'', JStr ''t''), (''initial_owner'', JStr ''ana''),
     (''initial_claim_revision'', JStr ''r1'')]"

definition sample_act :: "string \<Rightarrow> string \<Rightarrow> jobj \<Rightarrow> jobj" where
  "sample_act ts a payload = (''ts'', JStr ts) # (''writer'', JStr ''w'') # (''action'', JStr a) # payload"

theorem void_is_final_witness:
  "\<exists>c. fold_card (Some sample_core) (Inr [sample_act ''1'' ''void'' [], sample_act ''2'' ''reopen'' [(''column'', JStr ''done'')]]) []
       = Inr (Some c) \<and> cd_archived c \<and> cd_owner c = JNull"
proof -
  let ?es = "[sample_act ''1'' ''void'' [], sample_act ''2'' ''reopen'' [(''column'', JStr ''done'')]]"
  have "case fold_card (Some sample_core) (Inr ?es) [] of Inr (Some c) \<Rightarrow> True | _ \<Rightarrow> False" by code_simp
  then obtain c where c: "fold_card (Some sample_core) (Inr ?es) [] = Inr (Some c)"
    by (auto split: sum.splits option.splits)
  have "merged_log ?es [] = Inr ([] @ sample_act ''1'' ''void'' [] # [sample_act ''2'' ''reopen'' [(''column'', JStr ''done'')]])"
    by (simp add: merged_log_def)
  from void_is_final [OF c this] c show ?thesis by (simp add: sample_act_def)
qed

text \<open>
  C1. A live claim withstands competing claims: while a card is being worked on under a revision, no
  sequence of claims that name another agent, of releases that do not name both the owner and the current
  revision, and of events that are not about ownership or columns (notes, labels, links, dependencies, agent
  runs, archiving) changes its owner, its claim revision or its column. Not among them, because they end or
  move a claim by design, are void, move, reopen, assign, unassign and complete, and claims that name the
  owner itself or nobody.
\<close>

theorem live_claim_exclusive:
  assumes "fold_card (Some core) (Inr es) legacy = Inr (Some c)"
    and "merged_log es legacy = Inr (before @ after)"
    and "card_start core = Inr s0" and "r_fold card_step s0 before = Inr s"
    and "held_by o1 r s" and "list_all (foreign_event o1 r) after"
  shows "cd_owner c = JStr o1 \<and> revision c = JStr r \<and> cd_status c = cd_status (st_card s)"
proof -
  obtain t where t: "r_fold card_step s after = Inr t" "c = st_card t"
    using assms(1-4) by (auto simp: fold_card_def r_fold_append elim!: r_bind_InrE)
  from card_claim.fold_keeps [OF assms(5,6) t(1)] t(2) show ?thesis
    by (simp add: held_by_def same_holder_def claim_fields_def)
qed

theorem live_claim_exclusive_witness:
  "\<exists>c. fold_card (Some sample_core)
       (Inr [sample_act ''1'' ''claim'' [(''owner'', JStr ''bob''), (''claim_revision'', JStr ''r2'')]]) [] = Inr (Some c)
     \<and> cd_owner c = JStr ''ana'' \<and> revision c = JStr ''r1'' \<and> cd_status c = Doing"
proof -
  let ?e = "sample_act ''1'' ''claim'' [(''owner'', JStr ''bob''), (''claim_revision'', JStr ''r2'')]"
  have "case fold_card (Some sample_core) (Inr [?e]) [] of Inr (Some c) \<Rightarrow> True | _ \<Rightarrow> False" by code_simp
  then obtain c where c: "fold_card (Some sample_core) (Inr [?e]) [] = Inr (Some c)"
    by (auto split: sum.splits option.splits)
  have log: "merged_log [?e] [] = Inr ([] @ [?e])" by (simp add: merged_log_def)
  have "case card_start sample_core of Inr s \<Rightarrow> held_by ''ana'' ''r1'' s \<and> cd_status (st_card s) = Doing | _ \<Rightarrow> False"
    by code_simp
  then obtain s where s: "card_start sample_core = Inr s" "held_by ''ana'' ''r1'' s" "cd_status (st_card s) = Doing"
    by (auto split: sum.splits)
  have "list_all (foreign_event ''ana'' ''r1'') [?e]"
    by (simp add: foreign_event_def sample_act_def)
  from live_claim_exclusive [OF c log s(1) _ s(2) this] c s(3) show ?thesis by simp
qed

text \<open>What a claim and a release have to do to an unvoided card.\<close>

definition claim_spec :: "card \<Rightarrow> jobj \<Rightarrow> card \<Rightarrow> bool" where
  "claim_spec c e c' \<longleftrightarrow>
     (if claim_blocked c (get e ''owner'')
      then claim_fields c' = claim_fields c
        \<and> (\<exists>xs. get_d (cd_meta c) ''claim_conflicts'' (JList []) = JList xs
             \<and> get (cd_meta c') ''claim_conflicts'' = JList (xs @ [claim_conflict c e]))
      else claim_fields c' = (get e ''owner'',
        (let v = py_or (get e ''claim_revision'') (get e ''event_id'') in if nonempty_str v then v else JNull),
        Doing))"

definition release_spec :: "card \<Rightarrow> jobj \<Rightarrow> card \<Rightarrow> bool" where
  "release_spec c e c' \<longleftrightarrow>
     (if releases_current c e then claim_fields c' = (JNull, JNull, Backlog)
      else claim_fields c' = claim_fields c
        \<and> (\<exists>xs. py_iter (get_d (cd_meta c) ''claim_conflicts'' (JList [])) = Inr xs
             \<and> (if releases_conflict c e xs
                 then get_d (cd_meta c') ''claim_conflicts'' (JList []) = JList (filter (\<lambda>x. \<not> matches_release e x) xs)
                 else (\<exists>ys. get_d (cd_meta c) ''release_conflicts'' (JList []) = JList ys
                        \<and> get (cd_meta c') ''release_conflicts'' = JList (ys @ [release_conflict c e])))))"

lemma meta_append_at:
  "meta_append k v c = Inr c' \<Longrightarrow>
     \<exists>xs. get_d (cd_meta c) k (JList []) = JList xs \<and> get (cd_meta c') k = JList (xs @ [v])"
  by (auto simp: meta_append_def dest: append_item_at elim!: r_bind_InrE)

lemma cd_on_claim_spec:
  assumes "cd_on_claim c e = Inr c'"
  shows "claim_spec c e c'"
proof (cases "claim_blocked c (get e ''owner'')")
  case True
  with assms have "meta_append ''claim_conflicts'' (claim_conflict c e) c = Inr c'"
    by (simp add: cd_on_claim_def Let_def)
  with True show ?thesis
    using meta_append_at [of "''claim_conflicts''" _ c c'] meta_append_claim [of "''claim_conflicts''" _ c c']
    by (simp add: claim_spec_def)
next
  case False
  with assms show ?thesis
    by (auto simp: claim_spec_def cd_on_claim_def Let_def claim_fields_def revision_def claim_column_def)
qed

lemma cd_on_release_spec:
  assumes "cd_on_release c e = Inr c'"
  shows "release_spec c e c'"
  using assms
proof (cases rule: cd_on_release_cases)
  case current
  then show ?thesis by (simp add: release_spec_def claim_fields_def)
next
  case (conflict xs)
  then show ?thesis by (auto simp: release_spec_def)
next
  case (refused xs)
  with meta_append_at [OF refused(4)] show ?thesis by (auto simp: release_spec_def)
qed
























text \<open>
  Labels and dependencies are sets decided by the last word: on a card whose lists have no
  duplicates, the fold keeps them without duplicates, and a label (a dependency) is on the folded card
  exactly if the last event about it added it, or it was there at birth and no event is about it.
\<close>

theorem labels_and_dependencies_last_word:
  assumes "fold_card (Some core) (Inr es) legacy = Inr (Some c)" and "merged_log es legacy = Inr log"
    and "card_start core = Inr s" and "distinct (cd_labels (st_card s))" and "distinct (cd_dependencies (st_card s))"
  shows "distinct (cd_labels c) \<and> distinct (cd_dependencies c)
    \<and> (\<forall>v. v \<in> set (cd_labels c) \<longleftrightarrow> (case last_some (label_says v) log of
           None \<Rightarrow> v \<in> set (cd_labels (st_card s)) | Some b \<Rightarrow> b))
    \<and> (\<forall>d. JStr d \<in> set (cd_dependencies c) \<longleftrightarrow> (case last_some (dependency_says d) log of
           None \<Rightarrow> JStr d \<in> set (cd_dependencies (st_card s)) | Some b \<Rightarrow> b))"
proof -
  obtain t where t: "r_fold card_step s log = Inr t" "c = st_card t"
    using assms(1-3) by (auto simp: fold_card_def elim!: r_bind_InrE)
  have "dep_says (JStr d) = dependency_says d" for d by (simp add: dep_says_def fun_eq_iff)
  then show ?thesis
    using fold_tracks [of label_says "\<lambda>s. cd_labels (st_card s)", OF step_tracks(1) t(1) assms(4)]
      fold_tracks [of dep_says "\<lambda>s. cd_dependencies (st_card s)", OF step_tracks(2) t(1) assms(5)] t(2)
    by metis
qed

theorem labels_and_dependencies_last_word_witness:
  "\<exists>c. fold_card (Some sample_core) (Inr [sample_act ''1'' ''add_label'' [(''label'', JStr ''x'')],
        sample_act ''2'' ''add_dependency'' [(''dependency'', JStr ''c0'')]]) [] = Inr (Some c)
     \<and> JStr ''x'' \<in> set (cd_labels c) \<and> JStr ''c0'' \<in> set (cd_dependencies c)"
proof -
  let ?es = "[sample_act ''1'' ''add_label'' [(''label'', JStr ''x'')],
        sample_act ''2'' ''add_dependency'' [(''dependency'', JStr ''c0'')]]"
  have "case fold_card (Some sample_core) (Inr ?es) [] of Inr (Some c) \<Rightarrow> True | _ \<Rightarrow> False" by code_simp
  then obtain c where c: "fold_card (Some sample_core) (Inr ?es) [] = Inr (Some c)"
    by (auto split: sum.splits option.splits)
  have log: "merged_log ?es [] = Inr ?es" by (simp add: merged_log_def)
  have "case card_start sample_core of Inr s \<Rightarrow> cd_labels (st_card s) = [] \<and> cd_dependencies (st_card s) = [] | _ \<Rightarrow> False"
    by code_simp
  then obtain s where s: "card_start sample_core = Inr s" "cd_labels (st_card s) = []" "cd_dependencies (st_card s) = []"
    by (auto split: sum.splits)
  have "last_some (label_says (JStr ''x'')) ?es = Some True" "last_some (dependency_says ''c0'') ?es = Some True"
    by (simp_all add: last_some_def label_says_def dependency_says_def sample_act_def)
  with labels_and_dependencies_last_word [OF c log s(1)] s(2,3) c show ?thesis by simp
qed

text \<open>
  A mutation that reaches a card twice counts once: repeating any event that the legacy paths can
  contribute right after itself does not change the card_becomes of the fold, an exception included.
\<close>

theorem mirrored_event_counts_once:
  assumes "get e ''action'' = JStr a" and "a \<in> set legacy_actions" and "distinct (cd_labels (st_card s))"
  shows "r_fold card_step s (before @ [e, e] @ after) = r_fold card_step s (before @ [e] @ after)"
proof (cases "r_fold card_step s (before @ [e])")
  case (Inl err)
  then show ?thesis using r_fold_append [of card_step s "before @ [e]"] by simp
next
  case (Inr u)
  then obtain t where t: "r_fold card_step s before = Inr t" "card_step t e = Inr u"
    by (auto simp: r_fold_snoc elim: r_bind_InrE)
  have "distinct (cd_labels (st_card t))"
    using fold_tracks [of label_says "\<lambda>s. cd_labels (st_card s)", OF step_tracks(1) t(1) assms(3)] by blast
  then have "card_step u e = Inr u" by (rule step_twice [OF t(2) assms(1,2)])
  with t show ?thesis by (simp add: r_fold_append)
qed

theorem mirrored_event_counts_once_witness:
  "r_fold card_step \<lparr>st_card = new_card ''c1'' Task ''t'' Ready ''bug'', st_voided = False\<rparr>
       ([] @ [sample_act ''1'' ''add_label'' [(''label'', JStr ''x'')], sample_act ''1'' ''add_label'' [(''label'', JStr ''x'')]] @ [])
     = r_fold card_step \<lparr>st_card = new_card ''c1'' Task ''t'' Ready ''bug'', st_voided = False\<rparr>
       ([] @ [sample_act ''1'' ''add_label'' [(''label'', JStr ''x'')]] @ [])"
  by (rule mirrored_event_counts_once [of _ "''add_label''"])
    (simp_all add: sample_act_def legacy_actions_def new_card_def)

text \<open>
  C39. The fold of a card is total on what the store writes: for a well-formed core and well-formed
  events of its own and of the legacy paths, in any number and order, it returns a card, with the id
  of the core; without a core it returns none.
\<close>

theorem card_fold_total:
  assumes "wf_card_core core" and "list_all wf_log_event es" and "list_all wf_log_event legacy"
  shows "(\<exists>c. fold_card (Some core) (Inr es) legacy = Inr (Some c) \<and> JStr (cd_id c) = get core ''id'')
    \<and> fold_card None (Inr es) legacy = Inr None"
proof -
  have keys: "list_all (\<lambda>e. card_event_key e \<noteq> None) (es @ legacy)" and all: "list_all wf_log_event (es @ legacy)"
    using assms(2,3) by (auto simp: list_all_iff wf_log_event_def)
  obtain log where log: "merged_log es legacy = Inr log" "set log \<subseteq> set (es @ legacy)"
    using merged_log_ok [OF keys] by blast
  with all have wf: "list_all wf_log_event log" by (auto simp: list_all_iff)
  obtain s where s: "card_start core = Inr s" "card_ok (st_card s)" "JStr (cd_id (st_card s)) = get core ''id''"
    using card_start_ok [OF assms(1)] by blast
  obtain t where t: "r_fold card_step s log = Inr t"
    using card_total.fold_total [OF s(2) wf] by blast
  from card_identity.fold_grows [OF _ _ t] have "cd_id (st_card t) = cd_id (st_card s)"
    by (simp add: same_card_def list_all_iff)
  with s log t show ?thesis by (simp add: fold_card_def)
qed

theorem card_fold_total_witness:
  "\<exists>c. fold_card (Some sample_core) (Inr [sample_act ''1'' ''release_claim'' []]) [sample_act ''0'' ''archive'' []]
     = Inr (Some c) \<and> cd_id c = ''c1''"
proof -
  have "wf_card_core sample_core"
    by (simp add: wf_card_core_def sample_core_def has_key_def str_list_def card_ok_def list_at_def new_card_def)
  moreover have "list_all wf_log_event [sample_act ''1'' ''release_claim'' []]"
    "list_all wf_log_event [sample_act ''0'' ''archive'' []]"
    by (simp_all add: wf_log_event_def sample_act_def card_event_key_def)
  ultimately have "\<exists>c. fold_card (Some sample_core) (Inr [sample_act ''1'' ''release_claim'' []])
      [sample_act ''0'' ''archive'' []] = Inr (Some c) \<and> JStr (cd_id c) = get sample_core ''id''"
    using card_fold_total by blast
  then show ?thesis by (simp add: sample_core_def)
qed

end
