(* ===== verification/Abandon_Reason.thy ===== *)
theory Abandon_Reason
  imports PyValue
begin

text \<open>
  The closed vocabulary for why a worker stopped and the shape of exit gates
  (\<open>abandon_reason.py\<close>): the two validators, with the claims of the module's documentation.
\<close>

definition abandon_reasons :: "string list" where
  "abandon_reasons = [''criteria-unsatisfiable'', ''dependency-unsatisfied'', ''capability-missing'',
     ''error'', ''superseded'', ''unspecified'', ''not-abandoned'']"

text \<open>\<open>str(value).strip()\<close> of any value; \<open>None\<close> is absent.\<close>

definition validate_abandon_reason :: "json \<Rightarrow> string result" where
  "validate_abandon_reason v =
     (if v = JNull \<or> blank (py_str v) then Inr ''unspecified''
      else let n = lower (strip (py_str v)) in
        if n \<in> set abandon_reasons then Inr n
        else Inl (ValueError ''abandon_reason is not in the closed vocabulary''))"

text \<open>\<open>str(entry.get(k) or "").strip()\<close>.\<close>

definition blank_field :: "jobj \<Rightarrow> string \<Rightarrow> bool" where
  "blank_field d k = blank (py_str (py_or (get d k) (JStr [])))"

fun validate_gate :: "json \<Rightarrow> json result" where
  "validate_gate (JObj d) =
     (if blank_field d ''gate'' then Inl (ValueError ''exit_gates entry needs a gate name'')
      else if blank_field d ''owner'' then Inl (ValueError ''exit_gates entry needs an owner seat'')
      else Inr (JObj d))"
| "validate_gate _ = Inl (ValueError ''exit_gates entry must be an object'')"

fun validate_exit_gates :: "json \<Rightarrow> json list result" where
  "validate_exit_gates JNull = Inr []"
| "validate_exit_gates (JList xs) = r_map validate_gate xs"
| "validate_exit_gates _ = Inl (ValueError ''exit_gates must be a list of objects'')"

lemma r_map_same: "(\<And>x y. f x = Inr y \<Longrightarrow> y = x) \<Longrightarrow> r_map f xs = Inr ys \<Longrightarrow> ys = xs"
  by (induction xs arbitrary: ys) (auto elim!: r_bind_InrE)

lemma validate_gate_same: "validate_gate x = Inr y \<Longrightarrow> y = x"
  by (cases x) (auto split: if_splits)

section \<open>Properties\<close>

text \<open>
  The vocabulary is closed and never blocks a release: a reason that is returned is one of the
  seven members and validates to itself; an absent or blank one is "unspecified"; and
  "not-abandoned" is returned only to a caller that wrote it.
\<close>

theorem reason_vocabulary_closed:
  "(validate_abandon_reason v = Inr r \<longrightarrow> r \<in> set abandon_reasons \<and> validate_abandon_reason (JStr r) = Inr r
      \<and> (r = ''not-abandoned'' \<longrightarrow> lower (strip (py_str v)) = ''not-abandoned''))
   \<and> (v = JNull \<or> blank (py_str v) \<longrightarrow> validate_abandon_reason v = Inr ''unspecified'')"
proof -
  have self: "validate_abandon_reason (JStr x) = Inr x" if "x \<in> set abandon_reasons" for x
  proof -
    have "list_all (\<lambda>x. validate_abandon_reason (JStr x) = Inr x) abandon_reasons" by code_simp
    with that show ?thesis by (simp add: list_all_iff)
  qed
  have un: "''unspecified'' \<in> set abandon_reasons" by (simp add: abandon_reasons_def)
  have "r \<in> set abandon_reasons \<and> (r = ''not-abandoned'' \<longrightarrow> lower (strip (py_str v)) = ''not-abandoned'')"
    if "validate_abandon_reason v = Inr r"
    using that un by (auto simp: validate_abandon_reason_def Let_def split: if_splits)
  moreover have "v = JNull \<or> blank (py_str v) \<Longrightarrow> validate_abandon_reason v = Inr ''unspecified''"
    by (simp add: validate_abandon_reason_def)
  ultimately show ?thesis using self [of r] by blast
qed

theorem reason_vocabulary_closed_witness:
  "validate_abandon_reason (JStr ''  Superseded '') = Inr ''superseded'' \<and> ''superseded'' \<in> set abandon_reasons
   \<and> validate_abandon_reason (JStr ''superseded'') = Inr ''superseded''"
proof -
  have "validate_abandon_reason (JStr ''  Superseded '') = Inr ''superseded''" by code_simp
  with reason_vocabulary_closed [of "JStr ''  Superseded ''" "''superseded''"] show ?thesis by blast
qed

text \<open>
  Exit gates are validated, never changed: what passes is the list that was given, and every entry
  is an object that names its gate and its owner; an absent list is empty.
\<close>

theorem exit_gates_routable:
  "(validate_exit_gates v = Inr gs \<longrightarrow> (v = JNull \<and> gs = [] \<or> v = JList gs)
      \<and> (\<forall>g\<in>set gs. \<exists>d. g = JObj d \<and> \<not> blank_field d ''gate'' \<and> \<not> blank_field d ''owner''))
   \<and> ((\<forall>g\<in>set xs. \<exists>d. g = JObj d \<and> \<not> blank_field d ''gate'' \<and> \<not> blank_field d ''owner'')
        \<longrightarrow> validate_exit_gates (JList xs) = Inr xs)"
proof -
  have ok: "(\<exists>y. validate_gate g = Inr y) \<longleftrightarrow> (\<exists>d. g = JObj d \<and> \<not> blank_field d ''gate'' \<and> \<not> blank_field d ''owner'')" for g
    by (cases g) auto
  have mem: "r_map validate_gate ys = Inr zs \<Longrightarrow> g \<in> set ys \<Longrightarrow> \<exists>y. validate_gate g = Inr y" for ys zs g
    by (induction ys arbitrary: zs) (auto elim!: r_bind_InrE)
  have all: "(\<forall>g\<in>set ys. \<exists>y. validate_gate g = Inr y) \<Longrightarrow> r_map validate_gate ys = Inr ys" for ys
    using r_map_total [of ys validate_gate id] validate_gate_same by fastforce
  show ?thesis
  proof (intro conjI impI)
    assume v: "validate_exit_gates v = Inr gs"
    then show "v = JNull \<and> gs = [] \<or> v = JList gs"
      using r_map_same [of validate_gate] validate_gate_same by (cases v) auto
    show "\<forall>g\<in>set gs. \<exists>d. g = JObj d \<and> \<not> blank_field d ''gate'' \<and> \<not> blank_field d ''owner''"
    proof
      fix g assume "g \<in> set gs"
      with v have "\<exists>y. validate_gate g = Inr y"
        using r_map_same [of validate_gate] validate_gate_same mem by (cases v) fastforce+
      with ok show "\<exists>d. g = JObj d \<and> \<not> blank_field d ''gate'' \<and> \<not> blank_field d ''owner''" by blast
    qed
  next
    assume "\<forall>g\<in>set xs. \<exists>d. g = JObj d \<and> \<not> blank_field d ''gate'' \<and> \<not> blank_field d ''owner''"
    with ok all show "validate_exit_gates (JList xs) = Inr xs" by simp
  qed
qed

theorem exit_gates_routable_witness:
  "validate_exit_gates (JList [JObj [(''gate'', JStr ''review''), (''owner'', JStr ''qa'')]])
     = Inr [JObj [(''gate'', JStr ''review''), (''owner'', JStr ''qa'')]]"
proof -
  have "\<not> blank_field [(''gate'', JStr ''review''), (''owner'', JStr ''qa'')] ''gate''"
    "\<not> blank_field [(''gate'', JStr ''review''), (''owner'', JStr ''qa'')] ''owner''"
    by code_simp+
  with exit_gates_routable [of _ _ "[JObj [(''gate'', JStr ''review''), (''owner'', JStr ''qa'')]]"]
  show ?thesis by auto
qed

end
