(* ===== verification/Dependency_Graph.thy ===== *)
theory Dependency_Graph
  imports Prelude
begin

text \<open>
  Cycle detection on the card graph (\<open>dependency_graph.py\<close>): the depth-first search with its stack
  and its set of seen cards, its termination, and its correctness: on an acyclic graph it answers
  true exactly for the edges that would close a cycle.
\<close>

section \<open>The search\<close>

type_synonym dep_edges = "(string \<times> string list) list"

text \<open>\<open>edges.get(current, ())\<close>.\<close>

definition deps_of :: "dep_edges \<Rightarrow> string \<Rightarrow> string list" where
  "deps_of edges c = (case map_of edges c of None \<Rightarrow> [] | Some ds \<Rightarrow> ds)"

text \<open>
  The stack is a list with its top first; \<open>extend\<close> puts the last dependency on top. A round either
  pops a card for good or adds a card with dependencies to those seen.
\<close>

function cycle_search :: "dep_edges \<Rightarrow> string \<Rightarrow> string set \<Rightarrow> string list \<Rightarrow> bool" where
  "cycle_search edges target seen [] = False"
| "cycle_search edges target seen (c # stack) =
     (if c = target then True
      else if c \<in> seen then cycle_search edges target seen stack
      else cycle_search edges target (insert c seen) (rev (deps_of edges c) @ stack))"
  by pat_completeness auto
termination
proof (relation "measures [\<lambda>(e, t, seen, stack). card (fst ` set e - seen), \<lambda>(e, t, seen, stack). length stack]")
  fix edges :: dep_edges and target c :: string and seen stack
  assume new: "c \<notin> seen"
  show "((edges, target, insert c seen, rev (deps_of edges c) @ stack), edges, target, seen, c # stack)
      \<in> measures [\<lambda>(e, t, seen, stack). card (fst ` set e - seen), \<lambda>(e, t, seen, stack). length stack]"
  proof (cases "c \<in> fst ` set edges")
    case True
    with new have "fst ` set edges - insert c seen \<subset> fst ` set edges - seen" by auto
    then have "card (fst ` set edges - insert c seen) < card (fst ` set edges - seen)"
      by (intro psubset_card_mono) auto
    then show ?thesis by simp
  next
    case False
    then have "deps_of edges c = []" "fst ` set edges - insert c seen = fst ` set edges - seen"
      by (auto simp: deps_of_def split: option.split dest!: map_of_SomeD intro: rev_image_eqI)
    then show ?thesis by simp
  qed
qed simp_all

definition would_create_cycle :: "dep_edges \<Rightarrow> string \<Rightarrow> string \<Rightarrow> bool" where
  "would_create_cycle edges card_id dependency_id =
     (if card_id = dependency_id then True else cycle_search edges card_id {} [dependency_id])"

section \<open>Correctness\<close>

definition dep_rel :: "dep_edges \<Rightarrow> (string \<times> string) set" where
  "dep_rel edges = {(a, b). b \<in> set (deps_of edges a)}"

lemma cycle_search_sound: "cycle_search edges t seen stack \<Longrightarrow> \<exists>s\<in>set stack. (s, t) \<in> (dep_rel edges)\<^sup>*"
proof (induction edges t seen stack rule: cycle_search.induct)
  case (1 edges t seen)
  then show ?case by simp
next
  case (2 edges t seen c stack)
  show ?case
  proof (cases "c = t \<or> c \<in> seen")
    case True
    with 2 show ?thesis by (auto split: if_splits)
  next
    case False
    with 2 obtain s where s: "s \<in> set (deps_of edges c) \<union> set stack" "(s, t) \<in> (dep_rel edges)\<^sup>*"
      by fastforce
    show ?thesis
    proof (cases "s \<in> set stack")
      case False
      with s have "(c, s) \<in> dep_rel edges" by (simp add: dep_rel_def)
      with s(2) show ?thesis by (auto intro: converse_rtrancl_into_rtrancl)
    qed (use s in auto)
  qed
qed

text \<open>What was seen is closed: its dependencies are seen or still on the stack.\<close>

lemma cycle_search_complete:
  "\<not> cycle_search edges t seen stack \<Longrightarrow> (\<forall>a\<in>seen. a \<noteq> t \<and> set (deps_of edges a) \<subseteq> seen \<union> set stack)
     \<Longrightarrow> s \<in> seen \<union> set stack \<Longrightarrow> (s, u) \<in> (dep_rel edges)\<^sup>* \<Longrightarrow> u \<noteq> t"
proof (induction edges t seen stack arbitrary: s u rule: cycle_search.induct)
  case (1 edges t seen)
  from 1(4,3) 1(2) have "u \<in> seen"
    by (induction rule: converse_rtrancl_induct) (auto simp: dep_rel_def)
  with 1(2) show ?case by blast
next
  case (2 edges t seen c stack)
  from 2(3) have ct: "c \<noteq> t" by auto
  show ?case
  proof (cases "c \<in> seen")
    case True
    with 2(3) ct have no: "\<not> cycle_search edges t seen stack" by simp
    show ?thesis
      by (rule 2(1) [OF ct True no _ _ 2(6)]) (use 2(4,5) True in auto)
  next
    case False
    with 2(3) ct have no: "\<not> cycle_search edges t (insert c seen) (rev (deps_of edges c) @ stack)" by simp
    show ?thesis
      by (rule 2(2) [OF ct False no _ _ 2(6)]) (use 2(4,5) ct in auto)
  qed
qed

lemma cycle_search_iff: "cycle_search edges t {} [d] \<longleftrightarrow> (d, t) \<in> (dep_rel edges)\<^sup>*"
proof
  assume "cycle_search edges t {} [d]"
  from cycle_search_sound [OF this] show "(d, t) \<in> (dep_rel edges)\<^sup>*" by simp
next
  assume r: "(d, t) \<in> (dep_rel edges)\<^sup>*"
  show "cycle_search edges t {} [d]"
  proof (rule ccontr)
    assume "\<not> cycle_search edges t {} [d]"
    from cycle_search_complete [OF this _ _ r] show False by simp
  qed
qed

lemma would_create_cycle_iff: "would_create_cycle edges c d \<longleftrightarrow> (d, c) \<in> (dep_rel edges)\<^sup>*"
  unfolding would_create_cycle_def cycle_search_iff by auto

section \<open>Properties\<close>

text \<open>
  C24. The check is exact: the search ends on every graph, and when the dependencies recorded so far
  are free of cycles, it answers true for a new dependency exactly if recording it would close one.
\<close>

theorem cycle_check_exact:
  assumes "acyclic (dep_rel edges)"
  shows "would_create_cycle edges c d \<longleftrightarrow> \<not> acyclic (insert (c, d) (dep_rel edges))"
  using assms by (simp add: would_create_cycle_iff acyclic_insert)

theorem cycle_check_exact_witness:
  "would_create_cycle [(''a'', [''b'']), (''b'', [''c''])] ''c'' ''a''
   \<and> \<not> acyclic (insert (''c'', ''a'') (dep_rel [(''a'', [''b'']), (''b'', [''c''])]))"
proof -
  let ?e = "[(''a'', [''b'']), (''b'', [''c''])]"
  have rel: "dep_rel ?e = {(''a'', ''b''), (''b'', ''c'')}"
    by (auto simp: dep_rel_def deps_of_def split: if_splits)
  have "acyclic (dep_rel ?e)"
    unfolding rel by (simp add: acyclic_insert acyclic_def [of "{}"]) (auto elim: rtranclE)
  moreover have "would_create_cycle ?e ''c'' ''a''"
    by code_simp
  ultimately show ?thesis using cycle_check_exact by blast
qed

end
