(* ===== verification/Card_Store.thy ===== *)
theory Card_Store
  imports Card_Fold Abandon_Reason Dependency_Graph Py_State
begin

text \<open>
  The card store (\<open>card_store.py\<close>): cores and per-writer event files, the hash chain, the legacy
  mutations merged into every fold, appending an event, listing the board, and amending
  dependencies under the card's lock. Paths, symbolic links, permissions and the lock files are not
  modelled: an operation that holds a lock runs as one step.
\<close>

section \<open>Serialisation\<close>

text \<open>\<open>json.dumps\<close> with its defaults: ASCII only, separators \<open>", "\<close> and \<open>": "\<close>.\<close>

definition hex_char :: "nat \<Rightarrow> char" where
  "hex_char d = (if d < 10 then char_of (48 + d) else char_of (87 + d))"

definition json_char :: "char \<Rightarrow> string" where
  "json_char c = (let n = (of_char c :: nat) in
     if n = 34 then [CHR 0x5C, CHR 0x22] else if n = 92 then [CHR 0x5C, CHR 0x5C]
     else if n = 10 then CHR 0x5C # ''n'' else if n = 13 then CHR 0x5C # ''r''
     else if n = 9 then CHR 0x5C # ''t'' else if n = 8 then CHR 0x5C # ''b''
     else if n = 12 then CHR 0x5C # ''f''
     else if 32 \<le> n \<and> n \<le> 126 then [c]
     else CHR 0x5C # ''u00'' @ [hex_char (n div 16), hex_char (n mod 16)])"

text \<open>The same with the plain characters first, by the order of characters: it evaluates quickly.\<close>

lemma json_char_plain [code]:
  "json_char c =
     (if CHR 0x20 \<le> c \<and> c \<le> CHR 0x7E \<and> c \<noteq> CHR 0x22 \<and> c \<noteq> CHR 0x5C then [c]
      else let n = (of_char c :: nat) in
        if n = 34 then [CHR 0x5C, CHR 0x22] else if n = 92 then [CHR 0x5C, CHR 0x5C]
        else if n = 10 then CHR 0x5C # ''n'' else if n = 13 then CHR 0x5C # ''r''
        else if n = 9 then CHR 0x5C # ''t'' else if n = 8 then CHR 0x5C # ''b''
        else if n = 12 then CHR 0x5C # ''f''
        else CHR 0x5C # ''u00'' @ [hex_char (n div 16), hex_char (n mod 16)])"
proof -
  define n where "n = (of_char c :: nat)"
  have "c = CHR 0x22 \<longleftrightarrow> n = 34" "c = CHR 0x5C \<longleftrightarrow> n = 92"
    using of_char_eq_iff [where 'a = nat, of c "CHR 0x22"] of_char_eq_iff [where 'a = nat, of c "CHR 0x5C"]
    unfolding n_def by simp_all
  moreover have "CHR 0x20 \<le> c \<longleftrightarrow> 32 \<le> n" "c \<le> CHR 0x7E \<longleftrightarrow> n \<le> 126"
    unfolding less_eq_char_def n_def by simp_all
  ultimately show ?thesis
    unfolding json_char_def Let_def n_def [symmetric] by (cases "n < 32"; cases "n = 34"; cases "n = 92") auto
qed

definition json_quote :: "string \<Rightarrow> string" where
  "json_quote s = CHR 0x22 # concat (map json_char s) @ [CHR 0x22]"

fun json_dumps :: "json \<Rightarrow> string" where
  "json_dumps JNull = ''null''"
| "json_dumps (JBool b) = (if b then ''true'' else ''false'')"
| "json_dumps (JInt i) = show_int i"
| "json_dumps (JStr s) = json_quote s"
| "json_dumps (JList xs) = ''['' @ join '', '' (map json_dumps xs) @ '']''"
| "json_dumps (JObj d) = ''{'' @ join '', '' (map (\<lambda>(k, v). json_quote k @ '': '' @ json_dumps v) d) @ ''}''"

section \<open>The store\<close>

text \<open>
  A line of a file is its stripped text together with what \<open>json.loads\<close> makes of it (\<open>None\<close>: it
  raises). A core is absent, not readable as JSON, or a value.
\<close>

datatype store_line = SLine string "json option"

fun line_text :: "store_line \<Rightarrow> string" where
  "line_text (SLine t v) = t"

datatype core_file = CoreBad | CoreJson json

record card_dir =
  dir_core :: "core_file option"
  dir_events :: "(string \<times> store_line list) list"

record store =
  so_cards :: "(string \<times> card_dir) list"
  so_archive :: "(string \<times> store_line list) list"
  so_overlay :: "card_event list"
  so_tasks :: "string list"
  so_ticks :: nat
  so_ids :: nat

text \<open>The clock, the identifiers, the host name, and SHA-256 in hexadecimal.\<close>

record store_env =
  se_clock :: "nat \<Rightarrow> string"
  se_uuid :: "nat \<Rightarrow> string"
  se_host :: string
  se_sha :: "string \<Rightarrow> string"

definition valid_identifier :: "string \<Rightarrow> bool" where
  "valid_identifier s \<longleftrightarrow> s \<noteq> [] \<and> s \<noteq> ''.'' \<and> \<not> contains s ''..'' \<and> CHR ''/'' \<notin> set s \<and> CHR 0x5C \<notin> set s
     \<and> list_all (\<lambda>c. 32 \<le> (of_char c :: nat) \<and> (of_char c :: nat) \<noteq> 127) s \<and> length s \<le> 128"

definition store_writer_id :: "store_env \<Rightarrow> string \<Rightarrow> string" where
  "store_writer_id env agent =
     map (\<lambda>c. if c = CHR ''/'' \<or> c = CHR ''@'' then CHR ''-'' else c)
       (if agent = [] then ''unknown'' else agent) @ ''@'' @ se_host env"

definition jsonl :: "string \<Rightarrow> bool" where
  "jsonl name = (length name \<ge> 6 \<and> drop (length name - 6) name = ''.jsonl'')"

definition card_files :: "store \<Rightarrow> string \<Rightarrow> (string \<times> store_line list) list" where
  "card_files st cid = (case map_of (so_cards st) cid of None \<Rightarrow> [] | Some d \<Rightarrow> dir_events d)"

definition file_lines :: "store \<Rightarrow> string \<Rightarrow> string \<Rightarrow> store_line list" where
  "file_lines st cid f = (case map_of (card_files st cid) f of None \<Rightarrow> [] | Some ls \<Rightarrow> ls)"

section \<open>Reading\<close>

text \<open>Every access to a card's directory validates the identifier first.\<close>

definition bad_identifier :: py_error where
  "bad_identifier = ValueError ''card lock identifier must be a non-path identifier''"

definition cs_load_core :: "store \<Rightarrow> string \<Rightarrow> jobj option result" where
  "cs_load_core st cid =
     (if \<not> valid_identifier cid then Inl bad_identifier
      else case map_of (so_cards st) cid of
        None \<Rightarrow> Inr None
      | Some d \<Rightarrow> (case dir_core d of
            None \<Rightarrow> Inr None
          | Some CoreBad \<Rightarrow> Inl (ValueError ''core is malformed'')
          | Some (CoreJson (JObj c)) \<Rightarrow> Inr (Some c)
          | Some (CoreJson _) \<Rightarrow> Inl (ValueError ''core must be a JSON object'')))"

text \<open>One writer's file: the events so far and the hash of the last line that is not blank.\<close>

definition chain_step :: "store_env \<Rightarrow> jobj list \<times> string \<Rightarrow> store_line \<Rightarrow> (jobj list \<times> string) result" where
  "chain_step env s l =
     (case (s, l) of ((out, prev), SLine t v) \<Rightarrow>
        if t = [] then Inr (out, prev)
        else case v of
          None \<Rightarrow> Inl (ValueError ''event source is malformed'')
        | Some (JObj e) \<Rightarrow>
            (if nonempty_str (get e ''prev_hash'') \<and> get e ''prev_hash'' \<noteq> JStr prev
             then Inl (ValueError ''event chain broken'')
             else Inr (out @ [e], se_sha env t))
        | Some _ \<Rightarrow> Inl (ValueError ''event source must contain JSON objects''))"

definition read_chain :: "store_env \<Rightarrow> store_line list \<Rightarrow> jobj list result" where
  "read_chain env ls = map_sum id fst (r_fold (chain_step env) ([], []) ls)"

definition event_files :: "store \<Rightarrow> string \<Rightarrow> store_line list list" where
  "event_files st cid = map snd (sort_key fst (filter (\<lambda>(n, ls). jsonl n) (card_files st cid)))"

definition cs_read_events :: "store_env \<Rightarrow> store \<Rightarrow> string \<Rightarrow> jobj list result" where
  "cs_read_events env st cid =
     (if \<not> valid_identifier cid then Inl bad_identifier
      else r_bind (r_map (read_chain env) (event_files st cid)) (\<lambda>ess. sort_log (concat ess)))"

section \<open>Legacy mutations\<close>

definition overlay_to_store_action :: "(string \<times> string) list" where
  "overlay_to_store_action = [(''move'', ''move''), (''set_priority'', ''priority''), (''set_swimlane'', ''swimlane''),
     (''add_label'', ''add_label''), (''remove_label'', ''remove_label''), (''link'', ''link''),
     (''assign'', ''assign''), (''unassign'', ''unassign''), (''describe'', ''describe''), (''verdict'', ''link'')]"

definition opt_field :: "string \<Rightarrow> string option \<Rightarrow> jobj" where
  "opt_field k v = (case v of None \<Rightarrow> [] | Some s \<Rightarrow> [(k, JStr s)])"

definition overlay_payload :: "card_event \<Rightarrow> jobj" where
  "overlay_payload e = opt_field ''column'' (ce_column e)
     @ (case ce_order e of None \<Rightarrow> [] | Some n \<Rightarrow> [(''order'', JInt n)])
     @ opt_field ''priority'' (ce_priority e) @ opt_field ''swimlane'' (ce_swimlane e)
     @ opt_field ''label'' (ce_label e) @ opt_field ''link_key'' (ce_link_key e)
     @ opt_field ''link_value'' (ce_link_value e) @ opt_field ''owner'' (ce_owner e)
     @ opt_field ''title'' (ce_title e) @ opt_field ''description'' (ce_description e)"

definition overlay_mutation :: "card_event \<Rightarrow> (json \<times> jobj) list" where
  "overlay_mutation e = (case map_of overlay_to_store_action (ce_action e) of
      None \<Rightarrow> []
    | Some a \<Rightarrow> [(JStr (ce_card_id e), [(''ts'', JStr (ce_ts e)), (''writer'', JStr (ce_writer e)),
        (''seq'', JInt (ce_seq e)), (''action'', JStr a), (''origin'', JStr ''legacy-overlay'')]
        @ overlay_payload e)])"

text \<open>A line of the archive index; blank and unreadable lines are skipped.\<close>

fun archive_mutation :: "store_line \<Rightarrow> (json \<times> jobj) list result" where
  "archive_mutation (SLine t None) = Inr []"
| "archive_mutation (SLine t (Some (JObj entry))) =
     (if t = [] \<or> \<not> truthy (get entry ''id'') then Inr []
      else if \<not> hashable (get entry ''id'') then Inl TypeError
      else Inr [(get entry ''id'', [(''ts'', get_d entry ''archived_at'' (JStr [])),
        (''writer'', py_or (get entry ''archived_by'') (JStr ''archive'')), (''seq'', JInt 0),
        (''action'', JStr ''archive''), (''origin'', JStr ''legacy-archive'')])])"
| "archive_mutation (SLine t (Some _)) = (if t = [] then Inr [] else Inl AttributeError)"

definition load_legacy_mutations :: "store \<Rightarrow> (json \<times> jobj) list result" where
  "load_legacy_mutations st =
     r_bind (r_map archive_mutation (concat (map snd (sort_key fst (filter (\<lambda>(n, ls). jsonl n) (so_archive st))))))
       (\<lambda>ms. Inr (concat ms @ concat (map overlay_mutation (so_overlay st))))"

text \<open>A load that fails counts as no mutations.\<close>

definition legacy_events :: "store \<Rightarrow> string \<Rightarrow> jobj list" where
  "legacy_events st cid = (case load_legacy_mutations st of Inl _ \<Rightarrow> []
     | Inr ms \<Rightarrow> map snd (filter (\<lambda>(k, e). k = JStr cid) ms))"

definition cs_fold :: "store_env \<Rightarrow> store \<Rightarrow> string \<Rightarrow> card option result" where
  "cs_fold env st cid =
     r_bind (cs_load_core st cid) (\<lambda>core. fold_card core (cs_read_events env st cid) (legacy_events st cid))"

section \<open>Appending\<close>

text \<open>The reason of a release is normalised before anything else.\<close>

definition normalised_payload :: "string \<Rightarrow> jobj \<Rightarrow> jobj result" where
  "normalised_payload action payload =
     (if action = ''release_claim''
      then r_bind (validate_abandon_reason (get payload ''abandon_reason''))
             (\<lambda>r. Inr (set_item ''abandon_reason'' (JStr r) payload))
      else Inr payload)"

text \<open>
  Taking a card's lock validates the core under it. The identifiers that a mirror draws when its caller
  gives none are arguments here.
\<close>

definition lock_anchor :: "string \<Rightarrow> store \<Rightarrow> unit result" where
  "lock_anchor cid st =
     (if \<not> valid_identifier cid then Inl bad_identifier
      else r_bind (cs_load_core st cid) (\<lambda>core. case core of
          None \<Rightarrow> Inl (ValueError ''card has no foldable core'')
        | Some c \<Rightarrow> if get c ''id'' \<noteq> JStr cid then Inl (ValueError ''core does not match its card'') else Inr ()))"

definition require_foldable_core :: "store_env \<Rightarrow> string \<Rightarrow> store \<Rightarrow> unit result" where
  "require_foldable_core env cid st =
     r_bind (cs_fold env st cid) (\<lambda>c. case c of
        None \<Rightarrow> Inl (ValueError ''card has no foldable core'')
      | Some kc \<Rightarrow> if cd_id kc \<noteq> cid then Inl (ValueError ''card has no foldable core'') else Inr ())"

definition void_guard :: "store_env \<Rightarrow> string \<Rightarrow> string \<Rightarrow> store \<Rightarrow> unit result" where
  "void_guard env cid action st =
     (if action \<in> set void_terminal_actions
      then r_bind (cs_read_events env st cid) (\<lambda>es.
        if list_ex (\<lambda>e. get e ''action'' = JStr ''void'') es
        then Inl (ValueError ''card is voided; void is a terminal decision'') else Inr ())
      else Inr ())"

text \<open>The event of a line that already carries the caller's transition token.\<close>

fun find_transition :: "string \<Rightarrow> store_line list \<Rightarrow> jobj option result" where
  "find_transition t [] = Inr None"
| "find_transition t (SLine x None # ls) = find_transition t ls"
| "find_transition t (SLine x (Some (JObj e)) # ls) =
     (if get e ''transition_id'' = JStr t then Inr (Some e) else find_transition t ls)"
| "find_transition t (SLine x (Some v) # ls) = Inl AttributeError"

definition existing_transition :: "store_env \<Rightarrow> string \<Rightarrow> string \<Rightarrow> jobj \<Rightarrow> store \<Rightarrow> jobj option result" where
  "existing_transition env cid agent payload st =
     (case get payload ''transition_id'' of
        JStr t \<Rightarrow> if t = [] then Inr None else find_transition t (file_lines st cid (store_writer_id env agent @ ''.jsonl''))
      | _ \<Rightarrow> Inr None)"

definition store_event :: "store_env \<Rightarrow> string \<Rightarrow> string \<Rightarrow> string \<Rightarrow> jobj \<Rightarrow> store \<Rightarrow> jobj" where
  "store_event env cid action agent payload st =
     (let ls = file_lines st cid (store_writer_id env agent @ ''.jsonl'') in
      fold (\<lambda>(k, v) d. set_item k v d) payload
        [(''event_id'', JStr (se_uuid env (so_ids st))), (''ts'', JStr (se_clock env (so_ticks st))),
         (''writer'', JStr agent), (''node'', JStr (se_host env)), (''seq'', JInt (int (length ls))),
         (''action'', JStr action),
         (''prev_hash'', JStr (if ls = [] then [] else se_sha env (line_text (last ls))))])"

definition add_line :: "string \<Rightarrow> string \<Rightarrow> store_line \<Rightarrow> store \<Rightarrow> store" where
  "add_line cid f l st =
     (let d = (case map_of (so_cards st) cid of None \<Rightarrow> \<lparr>dir_core = None, dir_events = []\<rparr> | Some d \<Rightarrow> d)
      in st\<lparr>so_cards := AList.update cid (d\<lparr>dir_events := AList.update f (file_lines st cid f @ [l]) (dir_events d)\<rparr>)
              (so_cards st)\<rparr>)"

definition write_event :: "store_env \<Rightarrow> string \<Rightarrow> string \<Rightarrow> jobj \<Rightarrow> store \<Rightarrow> store" where
  "write_event env cid agent e st =
     (add_line cid (store_writer_id env agent @ ''.jsonl'') (SLine (json_dumps (JObj e)) (Some (JObj e))) st)
       \<lparr>so_ticks := so_ticks st + 1, so_ids := so_ids st + 1\<rparr>"

definition cs_append :: "store_env \<Rightarrow> string \<Rightarrow> string \<Rightarrow> string \<Rightarrow> jobj \<Rightarrow> (store, jobj) op" where
  "cs_append env cid action agent payload =
     (if \<not> valid_identifier cid then op_raise bad_identifier
      else op_bind (op_result (\<lambda>_. normalised_payload action payload)) (\<lambda>payload.
        op_bind (op_result (lock_anchor cid)) (\<lambda>_.
        op_bind (op_result (require_foldable_core env cid)) (\<lambda>_.
        op_bind (op_result (void_guard env cid action)) (\<lambda>_.
        op_bind (op_result (existing_transition env cid agent payload)) (\<lambda>old.
        case old of
          Some e \<Rightarrow> op_return e
        | None \<Rightarrow> op_bind (op_read (store_event env cid action agent payload)) (\<lambda>e.
            op_bind (op_write (write_event env cid agent e)) (\<lambda>_. op_return e))))))))"

definition has_transition :: "store_env \<Rightarrow> store \<Rightarrow> string \<Rightarrow> string \<Rightarrow> bool result" where
  "has_transition env st cid t = r_bind (cs_read_events env st cid)
     (\<lambda>es. Inr (list_ex (\<lambda>e. get e ''transition_id'' = JStr t) es))"

section \<open>Listing\<close>

definition cs_list_ids :: "store \<Rightarrow> string list result" where
  "cs_list_ids st =
     r_bind (r_map (\<lambda>(n, d). if valid_identifier n then Inr (n, d)
         else Inl bad_identifier) (sort_key fst (so_cards st)))
       (\<lambda>ds. Inr (map fst (filter (\<lambda>(n, d). dir_core d \<noteq> None) ds)))"

text \<open>
  The record that stands for a card that cannot be folded; \<open>why\<close> is the text of the exception, \<open>cls\<close> the
  name of its class.
\<close>

fun error_class :: "py_error \<Rightarrow> string" where
  "error_class TypeError = ''TypeError''"
| "error_class AttributeError = ''AttributeError''"
| "error_class (KeyError k) = ''KeyError''"
| "error_class (ValueError m) = ''ValueError''"
| "error_class ValidationError = ''ValidationError''"
| "error_class FileNotFoundError = ''FileNotFoundError''"
| "error_class (RuntimeError m) = ''RuntimeError''"
| "error_class (TaskUnclaimable t r) = ''TaskUnclaimable''"
| "error_class (OSError m) = ''OSError''"

definition unreadable_card :: "string \<Rightarrow> string \<Rightarrow> string \<Rightarrow> card" where
  "unreadable_card cid why cls =
     (let source = ''cards/'' @ cid; reason = (if blank why then cls else strip why) in
      (new_card cid Task (''UNREADABLE [source: '' @ source @ ''; reason: '' @ reason @ '']'') Backlog ''bug'')
      \<lparr>cd_description := JStr (''Source: '' @ source @ [CHR 0x0A] @ ''Reason: '' @ reason),
       cd_priority := JStr ''critical'', cd_labels := [JStr ''unreadable''],
       cd_meta := [(''unreadable'', JBool True), (''source'', JStr source), (''reason'', JStr reason)],
       cd_source := ''cards''\<rparr>)"

definition cs_list_cards :: "(py_error \<Rightarrow> string) \<Rightarrow> store_env \<Rightarrow> bool \<Rightarrow> bool \<Rightarrow> store \<Rightarrow> card list result" where
  "cs_list_cards why env include_archived degrade st =
     r_bind (cs_list_ids st) (\<lambda>ids.
     r_bind (r_map (\<lambda>cid. case cs_fold env st cid of
         Inl e \<Rightarrow> (if degrade then Inr (Some (unreadable_card cid (why e) (error_class e))) else Inl e)
       | Inr c \<Rightarrow> Inr c) ids) (\<lambda>cs.
     Inr (filter (\<lambda>c. include_archived \<or> \<not> cd_archived c) (List.map_filter id cs))))"

section \<open>Dependencies\<close>

definition texts_of :: "json list \<Rightarrow> string list" where
  "texts_of vs = List.map_filter (\<lambda>v. case v of JStr s \<Rightarrow> Some s | _ \<Rightarrow> None) vs"

text \<open>The dictionary of every card's folded dependencies; a later entry replaces an earlier one.\<close>

definition dependency_edges :: "card list \<Rightarrow> dep_edges" where
  "dependency_edges cs = rev (map (\<lambda>c. (cd_id c, texts_of (cd_dependencies c))) cs)"

definition card_exists :: "string \<Rightarrow> store \<Rightarrow> bool result" where
  "card_exists cid st = r_bind (cs_load_core st cid) (\<lambda>c. Inr (c \<noteq> None \<or> cid \<in> set (so_tasks st)))"

definition current_dependencies :: "store_env \<Rightarrow> string \<Rightarrow> string list \<Rightarrow> store \<Rightarrow> json list result" where
  "current_dependencies env cid birth st =
     r_bind (cs_fold env st cid) (\<lambda>c. Inr (case c of None \<Rightarrow> map JStr (dedup birth) | Some kc \<Rightarrow> cd_dependencies kc))"

text \<open>The checks that come before the card's lock is taken, and the one under it.\<close>

definition amend_request_ok :: "string \<Rightarrow> string \<Rightarrow> string \<Rightarrow> string \<Rightarrow> store \<Rightarrow> unit result" where
  "amend_request_ok cid dep action reason st =
     (if action \<notin> {''add_dependency'', ''remove_dependency''}
      then Inl (ValueError ''action must be add_dependency or remove_dependency'')
      else if cid = [] \<or> dep = [] then Inl (ValueError ''card and dependency identifiers are required'')
      else if cid = dep then Inl (ValueError ''a card cannot depend on itself'')
      else if blank reason then Inl (ValueError ''a dependency amendment reason is required'')
      else r_bind (card_exists cid st) (\<lambda>a. if \<not> a then Inl (ValueError ''card not found'')
        else r_bind (card_exists dep st) (\<lambda>b. if \<not> b then Inl (ValueError ''dependency not found'') else Inr ())))"

text \<open>\<open>Some True\<close>: append the event; \<open>Some False\<close>: nothing to do.\<close>

definition amend_check ::
    "(py_error \<Rightarrow> string) \<Rightarrow> store_env \<Rightarrow> string \<Rightarrow> string \<Rightarrow> string \<Rightarrow> store \<Rightarrow> bool result" where
  "amend_check why env cid dep action st =
     r_bind (current_dependencies env cid [] st) (\<lambda>deps.
       let present = JStr dep \<in> set deps in
       if action = ''add_dependency'' \<and> present \<or> action = ''remove_dependency'' \<and> \<not> present then Inr False
       else if action = ''add_dependency'' then
         r_bind (cs_list_cards why env True True st) (\<lambda>cs.
           if would_create_cycle (dependency_edges cs) cid dep
           then Inl (ValueError ''dependency would create a cycle'') else Inr True)
       else Inr True)"

definition amend_append :: "store_env \<Rightarrow> string \<Rightarrow> string \<Rightarrow> string \<Rightarrow> string \<Rightarrow> string \<Rightarrow> (store, jobj) op" where
  "amend_append env cid dep action agent reason =
     cs_append env cid action (if agent = [] then ''coord'' else agent)
       [(''dependency'', JStr dep), (''reason'', JStr (strip reason))]"

definition amend_dependency ::
    "(py_error \<Rightarrow> string) \<Rightarrow> store_env \<Rightarrow> string \<Rightarrow> string \<Rightarrow> string \<Rightarrow> string \<Rightarrow> string \<Rightarrow> (store, bool) op" where
  "amend_dependency why env cid dep action agent reason =
     op_bind (op_result (amend_request_ok cid dep action reason)) (\<lambda>_.
     op_bind (op_result (lock_anchor cid)) (\<lambda>_.
     op_bind (op_result (amend_check why env cid dep action)) (\<lambda>go.
     if \<not> go then op_return False
     else op_bind (amend_append env cid dep action agent reason) (\<lambda>_. op_return True))))"

section \<open>Claims through the store\<close>

text \<open>
  \<open>current_claim_precondition\<close>: the exact revision the owner may release, \<open>None\<close> when the release
  already happened, or an exception.
\<close>

definition conflict_of :: "json \<Rightarrow> json \<Rightarrow> bool" where
  "conflict_of owner v = (case v of JObj d \<Rightarrow> get d ''owner'' = owner | _ \<Rightarrow> False)"

definition claim_precondition :: "card \<Rightarrow> jobj list result \<Rightarrow> string \<Rightarrow> string option result" where
  "claim_precondition c events owner =
     (if cd_owner c = JStr owner then
        (case revision c of
           JStr r \<Rightarrow> if r = [] then Inl (ValueError ''claim has no revision'') else Inr (Some r)
         | _ \<Rightarrow> Inl (ValueError ''claim has no revision''))
      else r_bind (py_iter (get_d (cd_meta c) ''claim_conflicts'' (JList []))) (\<lambda>conflicts.
        case filter (conflict_of (JStr owner)) conflicts of
          [] \<Rightarrow>
            (if cd_owner c = JNull \<and> cd_status c = Backlog then
               r_bind events (\<lambda>es.
                 if list_ex (\<lambda>e. get e ''action'' = JStr ''release_claim'' \<and> get e ''released_owner'' = JStr owner) es
                 then Inr None else Inl (ValueError ''owner conflict''))
             else Inl (ValueError ''owner conflict''))
        | [JObj d] \<Rightarrow>
            (case get d ''claim_revision'' of
               JStr r \<Rightarrow> if r \<noteq> [] \<and> nonempty_str (get d ''existing_claim_revision'')
                   \<and> get d ''existing_owner'' = cd_owner c \<and> get d ''existing_claim_revision'' = revision c
                 then Inr (Some r) else Inl (ValueError ''claim conflict has no exact revision'')
             | _ \<Rightarrow> Inl (ValueError ''claim conflict has no exact revision''))
        | _ \<Rightarrow> Inl (ValueError ''claim conflict is ambiguous'')))"

definition current_claim_precondition :: "store_env \<Rightarrow> string \<Rightarrow> string \<Rightarrow> store \<Rightarrow> string option result" where
  "current_claim_precondition env cid owner st =
     r_bind (cs_fold env st cid) (\<lambda>c. case c of
        None \<Rightarrow> Inl (ValueError ''card not found'')
      | Some kc \<Rightarrow> claim_precondition kc (cs_read_events env st cid) owner)"

definition mirror_claim :: "store_env \<Rightarrow> string \<Rightarrow> string \<Rightarrow> string \<Rightarrow> string \<Rightarrow> (store, jobj) op" where
  "mirror_claim env cid agent transition rv =
     cs_append env cid ''claim'' agent
       [(''owner'', JStr agent), (''claim_revision'', JStr rv), (''transition_id'', JStr transition)]"

definition mirror_complete :: "store_env \<Rightarrow> string \<Rightarrow> string \<Rightarrow> string \<Rightarrow> (store, jobj) op" where
  "mirror_complete env cid agent transition = cs_append env cid ''complete'' agent [(''transition_id'', JStr transition)]"

definition mirror_release ::
    "store_env \<Rightarrow> string \<Rightarrow> string \<Rightarrow> string \<Rightarrow> string option \<Rightarrow> string \<Rightarrow> string option \<Rightarrow> (store, bool) op" where
  "mirror_release env cid owner actor expected transition reason =
     (case expected of
        None \<Rightarrow> op_return False
      | Some r \<Rightarrow> op_bind (cs_append env cid ''release_claim'' actor
          [(''released_owner'', JStr owner), (''expected_claim_revision'', JStr r),
           (''transition_id'', JStr transition), (''abandon_reason'', of_opt_str reason)]) (\<lambda>_. op_return True))"

definition mirror_move ::
    "store_env \<Rightarrow> string \<Rightarrow> string \<Rightarrow> string \<Rightarrow> json \<Rightarrow> string \<Rightarrow> (store, jobj) op" where
  "mirror_move env cid col agent order transition =
     cs_append env cid ''move'' (if agent = [] then ''mcp'' else agent)
       [(''column'', JStr col), (''order'', order), (''transition_id'', JStr transition)]"

definition mirror_describe ::
    "store_env \<Rightarrow> string \<Rightarrow> string \<Rightarrow> string option \<Rightarrow> string option \<Rightarrow> (store, unit) op" where
  "mirror_describe env cid agent title descr =
     (let payload = opt_field ''title'' title @ opt_field ''description'' descr in
      if payload = [] then op_return ()
      else op_bind (cs_append env cid ''describe'' (if agent = [] then ''mcp'' else agent) payload) (\<lambda>_. op_return ()))"

definition mirror_archive :: "store_env \<Rightarrow> string \<Rightarrow> string \<Rightarrow> (store, jobj) op" where
  "mirror_archive env cid agent = cs_append env cid ''archive'' (if agent = [] then ''archive'' else agent) []"

end
