(* ===== verification/Card_Store_Laws.thy ===== *)
theory Card_Store_Laws
  imports Card_Store Card_Claims
begin

text \<open>
  The guarantees of the card store's log: what the hash chain accepts, that an append keeps every file
  readable and adds exactly one event, that a rejected append and one whose token is on file write nothing, and that
  dependency amendments keep the graph free of cycles when they run one after the other.
\<close>

section \<open>The hash chain\<close>

definition nonblank :: "store_line list \<Rightarrow> store_line list" where
  "nonblank ls = filter (\<lambda>l. line_text l \<noteq> []) ls"

lemma nonblank_simps [simp]:
  "nonblank [] = []" "nonblank (ls @ ks) = nonblank ls @ nonblank ks"
  "nonblank [l] = (if line_text l = [] then [] else [l])"
  by (simp_all add: nonblank_def)

definition last_hash :: "store_env \<Rightarrow> store_line list \<Rightarrow> string" where
  "last_hash env ls = (case rev (nonblank ls) of [] \<Rightarrow> [] | l # _ \<Rightarrow> se_sha env (line_text l))"

text \<open>One accepted line: an object that names either no predecessor or the right one.\<close>

definition chained :: "string \<Rightarrow> store_line \<Rightarrow> jobj \<Rightarrow> bool" where
  "chained prev l e \<longleftrightarrow> (\<exists>t. l = SLine t (Some (JObj e)))
     \<and> (nonempty_str (get e ''prev_hash'') \<longrightarrow> get e ''prev_hash'' = JStr prev)"

lemma chain_step_iff:
  "chain_step env (out, prev) l = Inr s \<longleftrightarrow>
     (if line_text l = [] then s = (out, prev)
      else \<exists>e. chained prev l e \<and> s = (out @ [e], se_sha env (line_text l)))"
proof (cases l)
  case (SLine t v)
  then show ?thesis
    by (auto simp: chain_step_def chained_def split: option.split json.split if_splits)
qed

lemma chain_hash:
  "r_fold (chain_step env) ([], []) ls = Inr (es, h) \<Longrightarrow> h = last_hash env ls"
proof (induction ls arbitrary: es h rule: rev_induct)
  case Nil
  then show ?case by (simp add: last_hash_def)
next
  case (snoc l ls)
  then obtain out prev where "r_fold (chain_step env) ([], []) ls = Inr (out, prev)"
    "chain_step env (out, prev) l = Inr (es, h)"
    by (auto simp: r_fold_snoc elim!: r_bind_InrE)
  with snoc.IH show ?case
    by (auto simp: chain_step_iff last_hash_def split: if_splits)
qed

lemma read_chain_iff:
  "read_chain env ls = Inr es \<longleftrightarrow> r_fold (chain_step env) ([], []) ls = Inr (es, last_hash env ls)"
  using chain_hash [of env ls]
  by (cases "r_fold (chain_step env) ([], []) ls") (auto simp: read_chain_def)

lemma read_chain_snoc:
  "read_chain env (ls @ [l]) = Inr es \<longleftrightarrow>
     (if line_text l = [] then read_chain env ls = Inr es
      else \<exists>out e. read_chain env ls = Inr out \<and> chained (last_hash env ls) l e \<and> es = out @ [e])"
proof -
  have "r_fold (chain_step env) ([], []) (ls @ [l]) = Inr (es, h) \<longleftrightarrow>
      (\<exists>out. read_chain env ls = Inr out \<and> chain_step env (out, last_hash env ls) l = Inr (es, h))" for h
    using chain_hash [of env ls] by (auto simp: r_fold_snoc r_bind_Inr_iff read_chain_iff)
  then show ?thesis
    using read_chain_iff [of env "ls @ [l]" es] by (auto simp: chain_step_iff last_hash_def)
qed

text \<open>
  Line \<open>i\<close> holds event \<open>i\<close>, and if the event names a predecessor, it names the hash of the text of the
  line before it.
\<close>

definition linked :: "store_env \<Rightarrow> store_line list \<Rightarrow> jobj list \<Rightarrow> nat \<Rightarrow> bool" where
  "linked env nb es i \<longleftrightarrow> (\<exists>t. nb ! i = SLine t (Some (JObj (es ! i))))
     \<and> (nonempty_str (get (es ! i) ''prev_hash'') \<longrightarrow>
          get (es ! i) ''prev_hash'' = JStr (if i = 0 then [] else se_sha env (line_text (nb ! (i - 1)))))"

lemma linked_before: "i < length nb \<Longrightarrow> length es = length nb \<Longrightarrow> linked env (nb @ [l]) (es @ [e]) i \<longleftrightarrow> linked env nb es i"
  by (cases i) (simp_all add: linked_def nth_append)

lemma linked_at:
  "length es = length (nonblank ls) \<Longrightarrow>
     linked env (nonblank ls @ [l]) (es @ [e]) (length (nonblank ls)) \<longleftrightarrow> chained (last_hash env ls) l e"
  by (cases "nonblank ls" rule: rev_cases) (simp_all add: linked_def chained_def last_hash_def nth_append)

text \<open>
  C28. The hash chain of a writer's file is checked exactly: the file is read iff every line that is not
  blank holds an object, and every event that names a predecessor names the hash of the text of the
  line before it; what is read is those objects in order.
\<close>

theorem chain_check_exact:
  "read_chain env ls = Inr es \<longleftrightarrow>
     length es = length (nonblank ls) \<and> (\<forall>i < length es. linked env (nonblank ls) es i)"
proof (induction ls arbitrary: es rule: rev_induct)
  case Nil
  then show ?case by (auto simp: read_chain_def)
next
  case (snoc l ls)
  note IH = snoc
  show ?case
  proof (cases "line_text l = []")
    case True
    with IH show ?thesis by (simp add: read_chain_snoc)
  next
    case blank: False
    show ?thesis
    proof (cases es rule: rev_cases)
      case Nil
      with blank show ?thesis by (auto simp: read_chain_snoc)
    next
      case (snoc out e)
      have "read_chain env (ls @ [l]) = Inr es \<longleftrightarrow> length out = length (nonblank ls)
          \<and> (\<forall>i < length out. linked env (nonblank ls) out i) \<and> chained (last_hash env ls) l e"
        using blank IH [of out] by (simp add: read_chain_snoc snoc)
      also have "\<dots> \<longleftrightarrow> length out = length (nonblank ls)
          \<and> (\<forall>i < Suc (length out). linked env (nonblank ls @ [l]) (out @ [e]) i)"
        using linked_before linked_at by (simp add: All_less_Suc cong: conj_cong) blast
      finally show ?thesis using blank by (simp add: snoc)
    qed
  qed
qed

definition sample_store_env :: store_env where
  "sample_store_env = \<lparr>se_clock = (\<lambda>n. ''2026-01-01T00:00:0'' @ show_nat n), se_uuid = (\<lambda>n. ''u'' @ show_nat n),
     se_host = ''h1'', se_sha = (\<lambda>t. ''sha:'' @ t)\<rparr>"

theorem chain_check_exact_witness:
  "\<exists>err. read_chain sample_store_env [SLine ''a'' (Some (JObj [])),
     SLine ''b'' (Some (JObj [(''prev_hash'', JStr ''sha:x'')]))] = Inl err"
proof -
  let ?ls = "[SLine ''a'' (Some (JObj [])), SLine ''b'' (Some (JObj [(''prev_hash'', JStr ''sha:x'')]))]"
  have "\<not> (\<forall>i < length es. linked sample_store_env (nonblank ?ls) es i)" if "length es = length (nonblank ?ls)" for es
  proof -
    have "\<not> linked sample_store_env (nonblank ?ls) es 1"
    proof
      assume l: "linked sample_store_env (nonblank ?ls) es 1"
      have second: "nonblank ?ls ! 1 = SLine ''b'' (Some (JObj [(''prev_hash'', JStr ''sha:x'')]))"
        and first: "se_sha sample_store_env (line_text (nonblank ?ls ! (1 - 1))) = ''sha:a''"
        by (simp_all add: nonblank_def sample_store_env_def)
      from l second have "es ! 1 = [(''prev_hash'', JStr ''sha:x'')]" by (simp add: linked_def)
      with l first show False by (simp add: linked_def)
    qed
    moreover have "1 < length es" using that by (simp add: nonblank_def)
    ultimately show ?thesis by blast
  qed
  then have "read_chain sample_store_env ?ls \<noteq> Inr es" for es
    using chain_check_exact [of sample_store_env ?ls es] by blast
  then show ?thesis by (cases "read_chain sample_store_env ?ls") auto
qed

section \<open>Appending\<close>

lemma op_result_bindE:
  assumes "op_bind (op_result f) g s = (r, s')"
  obtains (raised) e where "f s = Inl e" "r = Inl e" "s' = s" | (ok) x where "f s = Inr x" "g x s = (r, s')"
  using assms by (cases "f s") (auto simp: op_bind_run)

text \<open>What an append can do: refuse, find the token, or write one event.\<close>

lemma cs_append_cases:
  assumes "cs_append env cid action agent payload st = (r, st')"
  obtains (refused) err where "r = Inl err" "st' = st"
  | (found) e p where "r = Inr e" "st' = st" "normalised_payload action payload = Inr p"
      "lock_anchor cid st = Inr ()" "void_guard env cid action st = Inr ()"
      "existing_transition env cid agent p st = Inr (Some e)"
  | (written) p where "normalised_payload action payload = Inr p" "lock_anchor cid st = Inr ()"
      "require_foldable_core env cid st = Inr ()" "void_guard env cid action st = Inr ()"
      "existing_transition env cid agent p st = Inr None"
      "r = Inr (store_event env cid action agent p st)"
      "st' = write_event env cid agent (store_event env cid action agent p st) st"
proof (cases "valid_identifier cid")
  case False
  with assms show thesis by (cases r) (auto simp: cs_append_def intro: refused)
next
  case True
  with assms have run: "op_bind (op_result (\<lambda>_. normalised_payload action payload)) (\<lambda>payload.
        op_bind (op_result (lock_anchor cid)) (\<lambda>_. op_bind (op_result (require_foldable_core env cid)) (\<lambda>_.
        op_bind (op_result (void_guard env cid action)) (\<lambda>_.
        op_bind (op_result (existing_transition env cid agent payload)) (\<lambda>old. case old of
          Some e \<Rightarrow> op_return e
        | None \<Rightarrow> op_bind (op_read (store_event env cid action agent payload)) (\<lambda>e.
            op_bind (op_write (write_event env cid agent e)) (\<lambda>_. op_return e))))))) st = (r, st')"
    by (simp add: cs_append_def)
  show thesis
  proof (rule op_result_bindE [OF run], goal_cases)
    case (2 p)
    show thesis
    proof (rule op_result_bindE [OF 2(2)], goal_cases)
      case lock: (2 u)
      show thesis
      proof (rule op_result_bindE [OF lock(2)], goal_cases)
        case fold: (2 v)
        show thesis
        proof (rule op_result_bindE [OF fold(2)], goal_cases)
          case void: (2 w)
          show thesis
            by (rule op_result_bindE [OF void(2)])
              (use 2(1) lock(1) fold(1) void(1) in \<open>auto split: option.splits intro: refused found written\<close>)
        qed (rule refused)
      qed (rule refused)
    qed (rule refused)
  qed (rule refused)
qed

lemma find_transition_snoc:
  "find_transition t ls = Inr None \<Longrightarrow> get e ''transition_id'' = JStr t \<Longrightarrow>
     find_transition t (ls @ [SLine x (Some (JObj e))]) = Inr (Some e)"
  by (induction t ls rule: find_transition.induct) (auto split: if_splits)

lemma find_transition_found: "find_transition t ls = Inr (Some e) \<Longrightarrow> get e ''transition_id'' = JStr t"
  by (induction t ls rule: find_transition.induct) (auto split: if_splits)

lemma fold_set_item_other: "k \<notin> fst ` set payload \<Longrightarrow> get (fold (\<lambda>(k, v) d. set_item k v d) payload d) k = get d k"
  by (induction payload arbitrary: d) auto

lemma fold_set_item_get:
  "distinct (map fst payload) \<Longrightarrow> k \<in> fst ` set payload \<Longrightarrow>
     get (fold (\<lambda>(k, v) d. set_item k v d) payload d) k = get payload k"
proof (induction payload arbitrary: d)
  case Nil
  then show ?case by simp
next
  case (Cons p payload)
  then show ?case by (cases p) (auto simp: fold_set_item_other)
qed

lemma file_lines_write:
  assumes "lock_anchor cid st = Inr ()"
  shows "file_lines (write_event env cid agent e st) cid (store_writer_id env agent @ ''.jsonl'')
      = file_lines st cid (store_writer_id env agent @ ''.jsonl'') @ [SLine (json_dumps (JObj e)) (Some (JObj e))]"
    and "card_files (write_event env cid agent e st) cid
      = AList.update (store_writer_id env agent @ ''.jsonl'')
          (file_lines st cid (store_writer_id env agent @ ''.jsonl'') @ [SLine (json_dumps (JObj e)) (Some (JObj e))])
          (card_files st cid)"
proof -
  obtain d where "map_of (so_cards st) cid = Some d"
    using assms by (auto simp: lock_anchor_def cs_load_core_def split: if_splits option.splits)
  then show "card_files (write_event env cid agent e st) cid
      = AList.update (store_writer_id env agent @ ''.jsonl'')
          (file_lines st cid (store_writer_id env agent @ ''.jsonl'') @ [SLine (json_dumps (JObj e)) (Some (JObj e))])
          (card_files st cid)"
    by (simp add: write_event_def add_line_def card_files_def update_conv')
  then show "file_lines (write_event env cid agent e st) cid (store_writer_id env agent @ ''.jsonl'')
      = file_lines st cid (store_writer_id env agent @ ''.jsonl'') @ [SLine (json_dumps (JObj e)) (Some (JObj e))]"
    by (simp add: file_lines_def update_conv')
qed

lemma normalised_payload_token:
  assumes "normalised_payload action payload = Inr p"
  shows "get p ''transition_id'' = get payload ''transition_id''"
    and "distinct (map fst payload) \<Longrightarrow> distinct (map fst p)"
  using assms by (auto simp: normalised_payload_def set_item_def get_def update_conv' distinct_update
      split: if_splits elim!: r_bind_InrE)

lemma append_token:
  assumes "cs_append env cid action agent payload st = (Inr e, st')" and "distinct (map fst payload)"
    and "get payload ''transition_id'' = JStr t" and "t \<noteq> []"
  shows "\<exists>e. find_transition t (file_lines st' cid (store_writer_id env agent @ ''.jsonl'')) = Inr (Some e)"
  using assms(1)
proof (cases rule: cs_append_cases)
  case (found e' p)
  with assms show ?thesis by (auto simp: existing_transition_def normalised_payload_token)
next
  case (written p)
  let ?e = "store_event env cid action agent p st"
  from written assms have p: "get p ''transition_id'' = JStr t" "distinct (map fst p)"
    by (simp_all add: normalised_payload_token)
  then have "''transition_id'' \<in> fst ` set p"
    by (metis get_def json.distinct(5) map_of_eq_None_iff option.simps(4))
  with p have "get ?e ''transition_id'' = JStr t"
    by (simp add: store_event_def Let_def fold_set_item_get)
  moreover from written p assms(4)
  have "find_transition t (file_lines st cid (store_writer_id env agent @ ''.jsonl'')) = Inr None"
    by (simp add: existing_transition_def)
  ultimately show ?thesis
    using written by (auto simp: file_lines_write(1) dest: find_transition_snoc)
qed simp

lemma append_again:
  assumes "find_transition t (file_lines st cid (store_writer_id env agent @ ''.jsonl'')) = Inr (Some e)"
    and "get payload ''transition_id'' = JStr t" and "t \<noteq> []"
    and "cs_append env cid action agent payload st = (r, st')"
  shows "st' = st"
  using assms(4)
proof (cases rule: cs_append_cases)
  case (written p)
  with assms show ?thesis by (auto simp: existing_transition_def normalised_payload_token)
qed simp_all

text \<open>Whether some line of a file is an event with the given token.\<close>

definition token_used :: "string \<Rightarrow> store_line list \<Rightarrow> bool" where
  "token_used t ls \<longleftrightarrow> (\<exists>x e. SLine x (Some (JObj e)) \<in> set ls \<and> get e ''transition_id'' = JStr t)"

lemma token_used_found: "token_used t ls \<Longrightarrow> find_transition t ls \<noteq> Inr None"
  by (induction t ls rule: find_transition.induct) (auto simp: token_used_def)

lemma found_token_used:
  "find_transition t ls = Inr (Some e) \<Longrightarrow> (\<exists>x. SLine x (Some (JObj e)) \<in> set ls) \<and> get e ''transition_id'' = JStr t"
  by (induction t ls rule: find_transition.induct) (auto split: if_splits)

text \<open>Any append of anyone, on any node, under any card and token.\<close>

definition one_append :: "store \<Rightarrow> store \<Rightarrow> bool" where
  "one_append st st' \<longleftrightarrow> (\<exists>env cid action agent payload r. cs_append env cid action agent payload st = (r, st'))"

lemma file_lines_event:
  "file_lines (write_event env cid agent e st) c f
     = file_lines st c f @ (if c = cid \<and> f = store_writer_id env agent @ ''.jsonl''
         then [SLine (json_dumps (JObj e)) (Some (JObj e))] else [])"
  by (simp add: write_event_def add_line_def file_lines_def card_files_def update_conv' split: option.split)

lemma appends_keep_token:
  assumes "one_append\<^sup>*\<^sup>* st st'" and "token_used t (file_lines st c f)"
  shows "token_used t (file_lines st' c f)"
  using assms
proof (induction rule: rtranclp_induct)
  case (step st1 st2)
  from step(2) obtain env cid action agent payload r
    where "cs_append env cid action agent payload st1 = (r, st2)" by (auto simp: one_append_def)
  then show ?case using step(3,4)
    by (cases rule: cs_append_cases) (auto simp: file_lines_event token_used_def)
qed simp

lemma append_with_token:
  assumes "token_used t (file_lines st cid (store_writer_id env agent @ ''.jsonl''))"
    and "get payload ''transition_id'' = JStr t" and "t \<noteq> []"
    and "cs_append env cid action agent payload st = (r, st')"
  shows "st' = st \<and> (\<forall>e. r = Inr e \<longrightarrow> get e ''transition_id'' = JStr t
    \<and> (\<exists>x. SLine x (Some (JObj e)) \<in> set (file_lines st cid (store_writer_id env agent @ ''.jsonl''))))"
  using assms(4)
proof (cases rule: cs_append_cases)
  case (found e p)
  then show ?thesis using assms found_token_used by (auto simp: existing_transition_def normalised_payload_token)
next
  case (written p)
  then show ?thesis using assms token_used_found by (simp add: existing_transition_def normalised_payload_token)
qed simp_all

text \<open>
  C25. A refused append and a repeated one write nothing. Whatever exception an append raises, the
  store is as before. On a card with a void in its log every claim, release, move, assignment,
  reopening and completion is refused. A token is used at most once per writer and card: when any
  line of the writer's file of that card carries it, wherever in the file, an append with that token
  leaves the store as it is and returns, if it returns, the recorded event; and once an append with a
  token has gone through, the token stays on record through any number of appends of anyone, to this
  or other cards, so that a later append of that writer with that token writes no line.
\<close>

theorem append_guards:
  "(cs_append env cid action agent payload st = (Inl err, st') \<longrightarrow> st' = st)
   \<and> (cs_read_events env st cid = Inr es \<and> (\<exists>e\<in>set es. get e ''action'' = JStr ''void'')
        \<and> action \<in> set void_terminal_actions
      \<longrightarrow> (\<exists>err. cs_append env cid action agent payload st = (Inl err, st)))
   \<and> (token_used t (file_lines st cid (store_writer_id env agent @ ''.jsonl''))
        \<and> get payload ''transition_id'' = JStr t \<and> t \<noteq> [] \<and> cs_append env cid action agent payload st = (r, st')
      \<longrightarrow> st' = st \<and> (\<forall>e. r = Inr e \<longrightarrow> get e ''transition_id'' = JStr t
            \<and> (\<exists>x. SLine x (Some (JObj e)) \<in> set (file_lines st cid (store_writer_id env agent @ ''.jsonl'')))))
   \<and> (cs_append env cid action agent payload st = (Inr e, st') \<and> distinct (map fst payload)
        \<and> get payload ''transition_id'' = JStr t \<and> t \<noteq> [] \<and> one_append\<^sup>*\<^sup>* st' st2
        \<and> get payload2 ''transition_id'' = JStr t \<and> cs_append env cid action2 agent payload2 st2 = (r2, st3)
      \<longrightarrow> st3 = st2)"
proof (intro conjI impI)
  assume "cs_append env cid action agent payload st = (Inl err, st')"
  then show "st' = st" by (cases rule: cs_append_cases) simp_all
next
  assume void: "cs_read_events env st cid = Inr es \<and> (\<exists>e\<in>set es. get e ''action'' = JStr ''void'')
        \<and> action \<in> set void_terminal_actions"
  then have "void_guard env cid action st \<noteq> Inr ()"
    by (auto simp: void_guard_def list_ex_iff)
  moreover obtain r st'' where "cs_append env cid action agent payload st = (r, st'')"
    by (cases "cs_append env cid action agent payload st")
  ultimately show "\<exists>err. cs_append env cid action agent payload st = (Inl err, st)"
    by (auto elim!: cs_append_cases)
next
  assume "token_used t (file_lines st cid (store_writer_id env agent @ ''.jsonl''))
        \<and> get payload ''transition_id'' = JStr t \<and> t \<noteq> [] \<and> cs_append env cid action agent payload st = (r, st')"
  then have "st' = st \<and> (\<forall>e. r = Inr e \<longrightarrow> get e ''transition_id'' = JStr t
      \<and> (\<exists>x. SLine x (Some (JObj e)) \<in> set (file_lines st cid (store_writer_id env agent @ ''.jsonl''))))"
    by (elim conjE) (rule append_with_token)
  then show "st' = st" and "\<forall>e. r = Inr e \<longrightarrow> get e ''transition_id'' = JStr t
      \<and> (\<exists>x. SLine x (Some (JObj e)) \<in> set (file_lines st cid (store_writer_id env agent @ ''.jsonl'')))"
    by blast+
next
  assume run: "cs_append env cid action agent payload st = (Inr e, st') \<and> distinct (map fst payload)
        \<and> get payload ''transition_id'' = JStr t \<and> t \<noteq> [] \<and> one_append\<^sup>*\<^sup>* st' st2
        \<and> get payload2 ''transition_id'' = JStr t \<and> cs_append env cid action2 agent payload2 st2 = (r2, st3)"
  then have "token_used t (file_lines st' cid (store_writer_id env agent @ ''.jsonl''))"
    using append_token found_token_used unfolding token_used_def by metis
  with run show "st3 = st2" using appends_keep_token append_with_token by blast
qed

text \<open>A store with one card and one event in its log.\<close>

definition sample_dir :: "string \<Rightarrow> jobj list \<Rightarrow> card_dir" where
  "sample_dir cid es = \<lparr>dir_core = Some (CoreJson (JObj [(''id'', JStr cid), (''title'', JStr ''t'')])),
     dir_events = [(''w.jsonl'', map (\<lambda>e. SLine (json_dumps (JObj e)) (Some (JObj e))) es)]\<rparr>"

definition sample_store :: "jobj list \<Rightarrow> store" where
  "sample_store es = \<lparr>so_cards = [(''c1'', sample_dir ''c1'' es), (''c2'', sample_dir ''c2'' [])], so_archive = [],
     so_overlay = [], so_tasks = [], so_ticks = 0, so_ids = 0\<rparr>"

theorem append_guards_witness:
  "(\<exists>err. cs_append sample_store_env ''c1'' ''claim'' ''bob'' [] (sample_store [sample_act ''1'' ''void'' []])
      = (Inl err, sample_store [sample_act ''1'' ''void'' []]))
   \<and> (\<exists>e r st1 st2 st3. cs_append sample_store_env ''c1'' ''note'' ''bob'' [(''transition_id'', JStr ''t1'')] (sample_store []) = (Inr e, st1)
        \<and> cs_append sample_store_env ''c1'' ''note'' ''bob'' [(''transition_id'', JStr ''t2'')] st1 = (r, st2)
        \<and> cs_append sample_store_env ''c1'' ''move'' ''bob'' [(''transition_id'', JStr ''t1'')] st2 = (Inr e, st3)
        \<and> so_ticks st2 = 2 \<and> st3 = st2)"
proof
  let ?st = "sample_store [sample_act ''1'' ''void'' []]"
  have "cs_read_events sample_store_env ?st ''c1'' = Inr [sample_act ''1'' ''void'' []]"
    by code_simp
  moreover have "get (sample_act ''1'' ''void'' []) ''action'' = JStr ''void''"
    by (simp add: sample_act_def)
  moreover have "''claim'' \<in> set void_terminal_actions"
    by (simp add: void_terminal_actions_def)
  ultimately show "\<exists>err. cs_append sample_store_env ''c1'' ''claim'' ''bob'' [] ?st = (Inl err, ?st)"
    using append_guards [of sample_store_env "''c1''" "''claim''" "''bob''" "[]" ?st] by auto
next
  let ?p = "[(''transition_id'', JStr ''t1'')]"
  let ?one = "cs_append sample_store_env ''c1'' ''note'' ''bob'' ?p (sample_store [])"
  let ?two = "cs_append sample_store_env ''c1'' ''note'' ''bob'' [(''transition_id'', JStr ''t2'')] (snd ?one)"
  let ?three = "cs_append sample_store_env ''c1'' ''move'' ''bob'' ?p (snd ?two)"
  have "fst ?three = fst ?one \<and> (case fst ?one of Inr e \<Rightarrow> True | _ \<Rightarrow> False) \<and> so_ticks (snd ?two) = 2"
    by code_simp
  then obtain e where e: "?one = (Inr e, snd ?one)" and three: "?three = (Inr e, snd ?three)" and ticks: "so_ticks (snd ?two) = 2"
    by (cases "fst ?one") (auto simp: prod_eq_iff)
  have "one_append\<^sup>*\<^sup>* (snd ?one) (snd ?two)"
    unfolding one_append_def by (rule r_into_rtranclp) (metis prod.collapse)
  then have "snd ?three = snd ?two"
    using append_guards [of sample_store_env "''c1''" "''note''" "''bob''" ?p "sample_store []" _ "snd ?one" _ "''t1''"
        _ e "snd ?two" ?p "''move''" "Inr e" "snd ?three"] e three
    by (simp add: get_def)
  with e three ticks show "\<exists>e r st1 st2 st3. cs_append sample_store_env ''c1'' ''note'' ''bob'' ?p (sample_store []) = (Inr e, st1)
        \<and> cs_append sample_store_env ''c1'' ''note'' ''bob'' [(''transition_id'', JStr ''t2'')] st1 = (r, st2)
        \<and> cs_append sample_store_env ''c1'' ''move'' ''bob'' ?p st2 = (Inr e, st3)
        \<and> so_ticks st2 = 2 \<and> st3 = st2"
    by (metis prod.collapse)
qed

section \<open>Reading back what was appended\<close>

lemma insort_split: "\<exists>A B. xs = A @ B \<and> insort_key k x xs = A @ x # B"
proof (induction xs)
  case (Cons y ys)
  then obtain A B where "ys = A @ B" "insort_key k x ys = A @ x # B" by blast
  then show ?case
    by (cases "k x \<le> k y") (auto intro: exI [of _ "[]"] exI [of _ "y # A"])
qed simp

lemma insort_last: "\<forall>y\<in>set xs. k y < k e \<Longrightarrow> k a < k e \<Longrightarrow> insort_key k a (xs @ [e]) = insort_key k a xs @ [e]"
  by (induction xs) (auto simp: less_imp_le)

lemma insort_greatest: "\<forall>y\<in>set xs. k y < k e \<Longrightarrow> insort_key k e xs = xs @ [e]"
  by (induction xs) (auto simp: not_le)

lemma sort_newest:
  "\<forall>y\<in>set (xs @ ys). k y < k e \<Longrightarrow> sort_key k (xs @ e # ys) = sort_key k (xs @ ys) @ [e]"
  by (induction xs) (simp_all add: insort_greatest insort_last)

lemma sort_key_values:
  assumes "\<And>x. fst (h x) = fst x"
  shows "sort_key fst (map h xs) = map h (sort_key fst xs)"
proof -
  have "insort_key fst (h x) (map h ys) = map h (insort_key fst x ys)" for x ys
    by (induction ys) (simp_all add: assms)
  then show ?thesis by (induction xs) simp_all
qed

lemma sort_key_distinct:
  assumes "mset xs = mset ys" and "distinct (map fst xs)"
  shows "sort_key fst xs = sort_key fst ys"
proof (rule map_sorted_distinct_set_unique [of fst])
  show "inj_on fst (set (sort_key fst xs) \<union> set (sort_key fst ys))"
    using assms mset_eq_setD [OF assms(1)] by (simp add: distinct_map)
  show "distinct (map fst (sort_key fst xs))" "distinct (map fst (sort_key fst ys))"
    using assms by (simp_all add: distinct_map mset_eq_imp_distinct_iff [OF assms(1)] mset_eq_setD [OF assms(1), symmetric])
  show "set (sort_key fst xs) = set (sort_key fst ys)"
    using mset_eq_setD [OF assms(1)] by simp
qed simp_all

text \<open>Replacing or adding one file keeps the order of the others.\<close>

lemma files_update:
  fixes xs :: "(string \<times> 'v) list"
  assumes "distinct (map fst xs)" and "P f"
  shows "\<exists>A B. map snd (sort_key fst (filter (\<lambda>(n, v). P n) xs))
      = A @ (case map_of xs f of None \<Rightarrow> [] | Some v \<Rightarrow> [v]) @ B
    \<and> map snd (sort_key fst (filter (\<lambda>(n, v). P n) (AList.update f new xs))) = A @ new # B"
proof (cases "map_of xs f")
  case None
  let ?ys = "filter (\<lambda>(n, v). P n) xs"
  from None have f: "f \<notin> fst ` set xs" by (simp add: map_of_eq_None_iff)
  then have "AList.update f new xs = xs @ [(f, new)]"
    by (induction xs) auto
  moreover have "distinct (map fst (?ys @ [(f, new)]))"
    using assms f by (auto simp: distinct_map intro: inj_on_subset)
  then have "sort_key fst (?ys @ [(f, new)]) = insort_key fst (f, new) (sort_key fst ?ys)"
    using sort_key_distinct [of "?ys @ [(f, new)]" "(f, new) # ?ys"] by simp
  moreover obtain A B where "sort_key fst ?ys = A @ B" "insort_key fst (f, new) (sort_key fst ?ys) = A @ (f, new) # B"
    using insort_split [of "sort_key fst ?ys" fst "(f, new)"] by blast
  ultimately show ?thesis using None assms(2)
    by - (rule exI [of _ "map snd A"], rule exI [of _ "map snd B"], simp)
next
  case (Some v)
  let ?h = "\<lambda>(n, w). (n, if n = f then new else w)"
  let ?ys = "sort_key fst (filter (\<lambda>(n, v). P n) xs)"
  have "AList.update f new xs = map ?h xs"
    using Some assms(1) by (induction xs) (force intro!: sym [OF map_idI])+
  then have "filter (\<lambda>(n, v). P n) (AList.update f new xs) = map ?h (filter (\<lambda>(n, v). P n) xs)"
    by (simp add: filter_map case_prod_unfold comp_def)
  then have new: "sort_key fst (filter (\<lambda>(n, v). P n) (AList.update f new xs)) = map ?h ?ys"
    by (simp add: sort_key_values split_def)
  have "(f, v) \<in> set ?ys" using Some assms(2) by (auto dest: map_of_SomeD)
  then obtain A B where ys: "?ys = A @ (f, v) # B" using split_list by metis
  have "distinct (map fst ?ys)" using assms(1) by (auto simp: distinct_map intro: inj_on_subset)
  with ys have "f \<notin> fst ` set A" "f \<notin> fst ` set B" by auto
  then have "map (snd \<circ> ?h) A = map snd A" "map (snd \<circ> ?h) B = map snd B" by force+
  then show ?thesis using Some ys new
    by - (rule exI [of _ "map snd A"], rule exI [of _ "map snd B"], simp)
qed

text \<open>The events of a writer's file that can be read.\<close>

definition events_of :: "store_env \<Rightarrow> store_line list \<Rightarrow> jobj list" where
  "events_of env ls = (case read_chain env ls of Inl _ \<Rightarrow> [] | Inr es \<Rightarrow> es)"

lemma r_map_events:
  "r_map (read_chain env) files = Inr ess \<longleftrightarrow>
     (\<forall>ls\<in>set files. \<exists>es. read_chain env ls = Inr es) \<and> ess = map (events_of env) files"
proof (induction files arbitrary: ess)
  case (Cons ls files)
  then show ?case by (cases "read_chain env ls") (auto simp: r_bind_Inr_iff events_of_def)
qed auto

lemma sort_log_ok: "list_all (\<lambda>e. card_event_key e \<noteq> None) es \<Longrightarrow> sort_log es = Inr (sort_key (\<lambda>e. the (card_event_key e)) es)"
  by (cases es; cases "tl es") (auto simp: sort_log_def)

lemma sort_log_mset: "sort_log es = Inr es' \<Longrightarrow> mset es' = mset es"
  by (auto simp: sort_log_def split: if_splits)

text \<open>The header fields that the caller's payload does not set.\<close>

definition plain_payload :: "jobj \<Rightarrow> bool" where
  "plain_payload payload \<longleftrightarrow> fst ` set payload \<inter> {''ts'', ''writer'', ''seq'', ''action'', ''prev_hash''} = {}"

lemma keys_set_item: "fst ` set (set_item k v d) = insert k (fst ` set d)"
  by (simp add: set_item_def dom_update)

lemma plain_normalised:
  "normalised_payload action payload = Inr p \<Longrightarrow> plain_payload payload \<Longrightarrow> plain_payload p"
proof (cases "action = ''release_claim''")
  case True
  assume "normalised_payload action payload = Inr p" and plain: "plain_payload payload"
  with True obtain v where p: "p = set_item ''abandon_reason'' v payload"
    by (auto simp: normalised_payload_def elim!: r_bind_InrE)
  show "plain_payload p"
    using plain unfolding p plain_payload_def keys_set_item by simp
qed (simp add: normalised_payload_def)

lemma store_event_header:
  assumes "plain_payload p"
  shows "get (store_event env cid action agent p st) ''action'' = JStr action"
    and "card_event_key (store_event env cid action agent p st) = Some (se_clock env (so_ticks st), agent,
           int (length (file_lines st cid (store_writer_id env agent @ ''.jsonl''))))"
    and "get (store_event env cid action agent p st) ''prev_hash'' =
           (let ls = file_lines st cid (store_writer_id env agent @ ''.jsonl'')
            in JStr (if ls = [] then [] else se_sha env (line_text (last ls))))"
proof -
  have get: "get (store_event env cid action agent p st) k = get
        [(''event_id'', JStr (se_uuid env (so_ids st))), (''ts'', JStr (se_clock env (so_ticks st))),
         (''writer'', JStr agent), (''node'', JStr (se_host env)),
         (''seq'', JInt (int (length (file_lines st cid (store_writer_id env agent @ ''.jsonl''))))),
         (''action'', JStr action),
         (''prev_hash'', JStr (if file_lines st cid (store_writer_id env agent @ ''.jsonl'') = [] then []
            else se_sha env (line_text (last (file_lines st cid (store_writer_id env agent @ ''.jsonl''))))))] k"
    if "k \<in> {''ts'', ''writer'', ''seq'', ''action'', ''prev_hash''}" for k
  proof -
    have "k \<notin> fst ` set p" using that assms unfolding plain_payload_def by blast
    then show ?thesis unfolding store_event_def Let_def by (rule fold_set_item_other)
  qed
  show "get (store_event env cid action agent p st) ''action'' = JStr action"
    by (simp add: get)
  show "get (store_event env cid action agent p st) ''prev_hash'' =
           (let ls = file_lines st cid (store_writer_id env agent @ ''.jsonl'')
            in JStr (if ls = [] then [] else se_sha env (line_text (last ls))))"
    by (simp add: get)
  have "get_d d k v0 = get d k" if "get d k \<noteq> JNull" for d k v0
    using that by (auto simp: get_d_def get_def split: option.splits)
  then show "card_event_key (store_event env cid action agent p st) = Some (se_clock env (so_ticks st), agent,
           int (length (file_lines st cid (store_writer_id env agent @ ''.jsonl''))))"
    by (simp add: card_event_key_def get)
qed

text \<open>A file to which an event can be added: its last line is not blank.\<close>

definition open_end :: "store \<Rightarrow> string \<Rightarrow> string \<Rightarrow> bool" where
  "open_end st cid f \<longleftrightarrow> (let ls = file_lines st cid f in ls = [] \<or> line_text (last ls) \<noteq> [])"

lemma last_hash_open:
  "ls \<noteq> [] \<Longrightarrow> line_text (last ls) \<noteq> [] \<Longrightarrow> last_hash env ls = se_sha env (line_text (last ls))"
  by (cases ls rule: rev_cases) (simp_all add: last_hash_def)

lemma json_dumps_obj: "json_dumps (JObj d) \<noteq> []"
  by simp

lemma jsonl_writer: "jsonl (store_writer_id env agent @ ''.jsonl'')"
  by (simp add: jsonl_def)

lemma chain_written:
  assumes "plain_payload p" and "open_end st cid (store_writer_id env agent @ ''.jsonl'')"
    and "read_chain env (file_lines st cid (store_writer_id env agent @ ''.jsonl'')) = Inr out"
  shows "read_chain env (file_lines st cid (store_writer_id env agent @ ''.jsonl'')
      @ [SLine (json_dumps (JObj (store_event env cid action agent p st))) (Some (JObj (store_event env cid action agent p st)))])
      = Inr (out @ [store_event env cid action agent p st])"
proof -
  let ?ls = "file_lines st cid (store_writer_id env agent @ ''.jsonl'')"
  have "get (store_event env cid action agent p st) ''prev_hash'' = JStr (last_hash env ?ls)"
    using assms(2) by (auto simp: store_event_header(3) [OF assms(1)] last_hash_open open_end_def Let_def)
      (simp_all add: last_hash_def)
  then show ?thesis
    using assms(3) by (simp add: read_chain_snoc chained_def json_dumps_obj del: json_dumps.simps)
qed

lemma append_files:
  fixes env cid agent action p st
  defines "e \<equiv> store_event env cid action agent p st"
  assumes "lock_anchor cid st = Inr ()" and plain: "plain_payload p"
    and "open_end st cid (store_writer_id env agent @ ''.jsonl'')"
    and dist: "distinct (map fst (card_files st cid))"
    and read: "r_map (read_chain env) (event_files st cid) = Inr ess"
  obtains A B ess' where "concat ess = A @ B"
    "r_map (read_chain env) (event_files (write_event env cid agent e st) cid) = Inr ess'" "concat ess' = A @ e # B"
proof -
  let ?f = "store_writer_id env agent @ ''.jsonl''"
  let ?ls = "file_lines st cid ?f"
  let ?new = "?ls @ [SLine (json_dumps (JObj e)) (Some (JObj e))]"
  obtain A B where old: "event_files st cid = A @ (case map_of (card_files st cid) ?f of None \<Rightarrow> [] | Some v \<Rightarrow> [v]) @ B"
    and new: "event_files (write_event env cid agent e st) cid = A @ ?new # B"
    using files_update [OF dist, of jsonl ?f ?new] jsonl_writer [of env agent]
    by (auto simp: event_files_def file_lines_write(2) [OF assms(2)])
  have all: "\<forall>ls\<in>set (event_files st cid). \<exists>es. read_chain env ls = Inr es"
    and ess: "ess = map (events_of env) (event_files st cid)"
    using read by (simp_all add: r_map_events)
  have mid: "concat (map (events_of env) (case map_of (card_files st cid) ?f of None \<Rightarrow> [] | Some v \<Rightarrow> [v])) = events_of env ?ls"
    by (simp add: file_lines_def events_of_def read_chain_def split: option.split)
  have "\<exists>out. read_chain env ?ls = Inr out"
    using all unfolding old by (auto simp: file_lines_def read_chain_def split: option.splits)
  then obtain out where out: "read_chain env ?ls = Inr out" by blast
  have "read_chain env ?new = Inr (out @ [e])"
    unfolding e_def by (rule chain_written [OF plain assms(4) out])
  with all old new have "r_map (read_chain env) (event_files (write_event env cid agent e st) cid)
      = Inr (map (events_of env) A @ (out @ [e]) # map (events_of env) B)"
    by (auto simp: r_map_events events_of_def)
  moreover have "concat ess = (concat (map (events_of env) A) @ out) @ concat (map (events_of env) B)"
    using mid out by (simp add: ess old events_of_def)
  ultimately show thesis
    using that [of "concat (map (events_of env) A) @ out" "concat (map (events_of env) B)"] by simp
qed

text \<open>The other cards do not see the write.\<close>

lemma other_cards:
  assumes "cid' \<noteq> cid"
  shows "cs_load_core (write_event env cid agent e st) cid' = cs_load_core st cid'"
    and "cs_read_events env (write_event env cid agent e st) cid' = cs_read_events env st cid'"
  using assms by (simp_all add: cs_load_core_def cs_read_events_def event_files_def card_files_def
      write_event_def add_line_def Let_def update_conv')

lemma write_same_core:
  "lock_anchor cid st = Inr () \<Longrightarrow> cs_load_core (write_event env cid agent e st) cid = cs_load_core st cid"
  by (auto simp: lock_anchor_def cs_load_core_def write_event_def add_line_def Let_def update_conv'
      split: option.splits if_splits)

lemma write_same_legacy: "legacy_events (write_event env cid agent e st) c = legacy_events st c"
  by (simp add: legacy_events_def load_legacy_mutations_def write_event_def add_line_def Let_def)

text \<open>An append whose event is the newest of the card's log puts it at the end of the log.\<close>

definition newest :: "jobj \<Rightarrow> jobj list \<Rightarrow> bool" where
  "newest e es \<longleftrightarrow> (\<forall>x\<in>set es. the (card_event_key x) < the (card_event_key e))"

lemma append_log:
  fixes env cid agent action p st
  defines "e \<equiv> store_event env cid action agent p st"
  assumes "lock_anchor cid st = Inr ()" and "plain_payload p"
    and "open_end st cid (store_writer_id env agent @ ''.jsonl'')"
    and "distinct (map fst (card_files st cid))"
    and es: "cs_read_events env st cid = Inr es" and typed: "list_all (\<lambda>x. card_event_key x \<noteq> None) es"
  obtains es' where "cs_read_events env (write_event env cid agent e st) cid = Inr es'"
    "mset es' = add_mset e (mset es)" "newest e es \<longrightarrow> es' = es @ [e]"
proof -
  let ?k = "\<lambda>x. the (card_event_key x)"
  from es obtain ess where ess: "r_map (read_chain env) (event_files st cid) = Inr ess" and log: "sort_log (concat ess) = Inr es"
    by (auto simp: cs_read_events_def elim!: r_bind_InrE split: if_splits)
  have valid: "valid_identifier cid" using assms(2) by (simp add: lock_anchor_def split: if_splits)
  obtain A B ess' where AB: "concat ess = A @ B" and ess': "concat ess' = A @ e # B"
    and read: "r_map (read_chain env) (event_files (write_event env cid agent e st) cid) = Inr ess'"
    using append_files [OF assms(2-5) ess] unfolding e_def by blast
  have perm: "mset es = mset (A @ B)" using sort_log_mset [OF log] AB by simp
  have e: "card_event_key e \<noteq> None"
    unfolding e_def by (simp add: store_event_header(2) [OF assms(3)])
  have AB_typed: "list_all (\<lambda>x. card_event_key x \<noteq> None) (A @ B)"
    using typed mset_eq_setD [OF perm] by (simp only: list_all_iff)
  with e have "list_all (\<lambda>x. card_event_key x \<noteq> None) (concat ess')"
    unfolding ess' by simp
  then have "cs_read_events env (write_event env cid agent e st) cid = Inr (sort_key ?k (A @ e # B))"
    by (simp add: cs_read_events_def valid read sort_log_ok ess' del: sort_append)
  moreover have "mset (sort_key ?k (A @ e # B)) = add_mset e (mset es)"
    by (simp add: perm)
  moreover have "es = sort_key ?k (A @ B)"
    using log AB_typed AB by (simp add: sort_log_ok)
  then have "newest e es \<longrightarrow> sort_key ?k (A @ e # B) = es @ [e]"
    using sort_newest [of A B ?k e] mset_eq_setD [OF perm] by (simp add: newest_def)
  ultimately show thesis by (rule that)
qed

text \<open>
  C3. What is appended is read back: when an append writes, the event carries the action and the
  clock, the writer and the position of its file, the card's log is the old log with that event added
  (at its end if the event is the newest), and the core, the other cards and their logs are untouched.
  The store must be one that the log can be added to: no blank line at the end of the writer's file,
  distinct file names, and a payload that does not set the header's fields.
\<close>

theorem append_reads_back:
  assumes "cs_append env cid action agent payload st = (Inr e, st')" and "st' \<noteq> st"
    and "cs_read_events env st cid = Inr es" and "list_all (\<lambda>x. card_event_key x \<noteq> None) es"
    and "plain_payload payload" and "open_end st cid (store_writer_id env agent @ ''.jsonl'')"
    and "distinct (map fst (card_files st cid))"
  shows "\<exists>es'. cs_read_events env st' cid = Inr es' \<and> mset es' = add_mset e (mset es)
      \<and> (newest e es \<longrightarrow> es' = es @ [e])
      \<and> get e ''action'' = JStr action
      \<and> card_event_key e = Some (se_clock env (so_ticks st), agent,
            int (length (file_lines st cid (store_writer_id env agent @ ''.jsonl''))))
      \<and> cs_load_core st' cid = cs_load_core st cid
      \<and> (\<forall>other. other \<noteq> cid \<longrightarrow> cs_read_events env st' other = cs_read_events env st other
            \<and> cs_load_core st' other = cs_load_core st other)"
  using assms(1)
proof (cases rule: cs_append_cases)
  case (written p)
  have plain: "plain_payload p" by (rule plain_normalised [OF written(1) assms(5)])
  have e: "e = store_event env cid action agent p st" using written by simp
  have st': "st' = write_event env cid agent e st" using written(7) by (simp add: e)
  show ?thesis
    by (rule append_log [OF written(2) plain assms(6,7,3,4), of action, folded e, folded st'])
      (use written(2) in \<open>auto simp: e store_event_header [OF plain] st' other_cards write_same_core\<close>)
qed (use assms(2) in simp_all)

theorem append_reads_back_witness:
  "\<exists>e st' es'. cs_append sample_store_env ''c1'' ''note'' ''bob'' [(''text'', JStr ''hi'')] (sample_store [sample_act ''1'' ''claim'' []])
       = (Inr e, st') \<and> cs_read_events sample_store_env st' ''c1'' = Inr es'
     \<and> mset es' = {#e, sample_act ''1'' ''claim'' []#}"
proof -
  let ?st = "sample_store [sample_act ''1'' ''claim'' []]"
  let ?run = "cs_append sample_store_env ''c1'' ''note'' ''bob'' [(''text'', JStr ''hi'')] ?st"
  have "case fst ?run of Inr e \<Rightarrow> so_ticks (snd ?run) = 1 | _ \<Rightarrow> False" by code_simp
  then obtain e where e: "?run = (Inr e, snd ?run)" and ticks: "so_ticks (snd ?run) = 1"
    by (cases "fst ?run") (auto simp: prod_eq_iff)
  from ticks have "snd ?run \<noteq> ?st" by (auto simp: sample_store_def)
  moreover have "cs_read_events sample_store_env ?st ''c1'' = Inr [sample_act ''1'' ''claim'' []]"
    and "list_all (\<lambda>x. card_event_key x \<noteq> None) [sample_act ''1'' ''claim'' []]"
    and "open_end ?st ''c1'' (store_writer_id sample_store_env ''bob'' @ ''.jsonl'')"
    and "distinct (map fst (card_files ?st ''c1''))" by code_simp+
  moreover have "plain_payload [(''text'', JStr ''hi'')]" by (simp add: plain_payload_def)
  ultimately show ?thesis using append_reads_back [OF e] e by fastforce
qed

lemma step_voided: "card_step s e = Inr t \<Longrightarrow> st_voided t \<longleftrightarrow> st_voided s \<or> get e ''action'' = JStr ''void''"
  by (erule card_stepE) (auto simp: void_terminal_actions_def)

lemma fold_voided:
  "r_fold card_step s es = Inr t \<Longrightarrow> st_voided t \<longleftrightarrow> st_voided s \<or> (\<exists>e\<in>set es. get e ''action'' = JStr ''void'')"
proof (induction es arbitrary: s)
  case (Cons e es)
  then obtain u where "card_step s e = Inr u" "r_fold card_step u es = Inr t" by (auto elim!: r_bind_InrE)
  with Cons.IH [of u] show ?case by (auto simp: step_voided)
qed simp

section \<open>Claims and releases through the store\<close>

text \<open>
  A log that events can be added to in order: no mirrored legacy events, every event with its time,
  writer and position, file names distinct, the writer's file open at its end, the clock past the log.
\<close>

definition ready_log :: "store_env \<Rightarrow> store \<Rightarrow> string \<Rightarrow> string \<Rightarrow> jobj list \<Rightarrow> bool" where
  "ready_log env st cid agent es \<longleftrightarrow> cs_read_events env st cid = Inr es \<and> legacy_events st cid = []
     \<and> list_all (\<lambda>x. card_event_key x \<noteq> None) es \<and> open_end st cid (store_writer_id env agent @ ''.jsonl'')
     \<and> distinct (map fst (card_files st cid))
     \<and> (\<forall>x\<in>set es. fst (the (card_event_key x)) < se_clock env (so_ticks st))"

lemma append_steps_fold:
  assumes run: "cs_append env cid action agent payload st = (Inr e, st')" "st' \<noteq> st"
    and "cs_fold env st cid = Inr (Some c)" and ready: "ready_log env st cid agent es"
    and "plain_payload payload"
  obtains s where "st_card s = c" "st_voided s \<longleftrightarrow> (\<exists>x\<in>set es. get x ''action'' = JStr ''void'')"
    "cs_fold env st' cid = map_sum id (\<lambda>t. Some (st_card t)) (card_step s e)"
    "action \<in> set void_terminal_actions \<Longrightarrow> \<not> st_voided s"
proof -
  from run obtain p where p: "normalised_payload action payload = Inr p" and lock: "lock_anchor cid st = Inr ()"
    and guard: "void_guard env cid action st = Inr ()"
    and e: "e = store_event env cid action agent p st" and st': "st' = write_event env cid agent e st"
    by (cases rule: cs_append_cases) simp_all
  have es: "cs_read_events env st cid = Inr es" and legacy: "legacy_events st cid = []"
    using ready by (simp_all add: ready_log_def)
  have "newest e es"
    using ready by (auto simp: newest_def ready_log_def e less_prod_def
        store_event_header(2) [OF plain_normalised [OF p assms(5)]])
  then have read: "cs_read_events env st' cid = Inr (es @ [e])"
    using append_log [OF lock plain_normalised [OF p assms(5)], of env agent es action, folded e, folded st']
      ready unfolding ready_log_def by metis
  obtain co s0 s where s: "cs_load_core st cid = Inr (Some co)" "card_start co = Inr s0" "r_fold card_step s0 es = Inr s" "st_card s = c"
    using assms(3) by (auto simp: cs_fold_def fold_card_def es legacy merged_log_def elim!: r_bind_InrE split: option.splits)
  have "cs_load_core st' cid = Inr (Some co)" "legacy_events st' cid = []"
    using s(1) legacy by (simp_all add: st' write_same_core [OF lock] write_same_legacy)
  then have "cs_fold env st' cid = map_sum id (\<lambda>t. Some (st_card t)) (card_step s e)"
    using s by (cases "card_step s e") (simp_all add: cs_fold_def fold_card_def read merged_log_def r_fold_snoc)
  moreover have "\<not> st_voided s0" using s(2) by (auto simp: card_start_def elim!: r_bind_InrE)
  then have voided: "st_voided s \<longleftrightarrow> (\<exists>x\<in>set es. get x ''action'' = JStr ''void'')"
    using fold_voided [OF s(3)] by simp
  moreover have "\<not> st_voided s" if "action \<in> set void_terminal_actions"
    using guard that es unfolding voided by (auto simp: void_guard_def list_ex_iff split: if_splits)
  ultimately show thesis using s(4) that by blast
qed

lemma store_event_payload:
  "distinct (map fst p) \<Longrightarrow> k \<in> fst ` set p \<Longrightarrow> get (store_event env cid action agent p st) k = get p k"
  unfolding store_event_def Let_def by (rule fold_set_item_get)

lemma append_event_is:
  assumes "cs_append env cid action agent payload st = (Inr e, st')" "st' \<noteq> st"
  obtains p where "normalised_payload action payload = Inr p" "e = store_event env cid action agent p st"
  using assms by (cases rule: cs_append_cases) simp_all

text \<open>
  A claim through the store takes effect: when the mirror of a claim writes its event, the card, folded from disk, belongs to the claiming agent, under the given revision, in
  Doing; unless another agent was working on it, in which case owner, revision and column stay.
\<close>

theorem claim_through_store:
  assumes "mirror_claim env cid agent transition rv st = (Inr e, st')" and "st' \<noteq> st" and "rv \<noteq> []"
    and "cs_fold env st cid = Inr (Some c)" and "ready_log env st cid agent es"
  shows "(\<not> claim_blocked c (JStr agent) \<longrightarrow>
        (\<exists>c'. cs_fold env st' cid = Inr (Some c') \<and> claim_fields c' = (JStr agent, JStr rv, Doing)))
    \<and> (claim_blocked c (JStr agent) \<longrightarrow>
        (\<forall>c'. cs_fold env st' cid = Inr (Some c') \<longrightarrow> claim_fields c' = claim_fields c))"
proof -
  let ?payload = "[(''owner'', JStr agent), (''claim_revision'', JStr rv), (''transition_id'', JStr transition)]"
  have run: "cs_append env cid ''claim'' agent ?payload st = (Inr e, st')"
    using assms(1) by (simp add: mirror_claim_def)
  have plain: "plain_payload ?payload" by (simp add: plain_payload_def)
  have e: "e = store_event env cid ''claim'' agent ?payload st"
    by (rule append_event_is [OF run assms(2)]) (simp add: normalised_payload_def)
  have get: "get e ''owner'' = JStr agent" "get e ''claim_revision'' = JStr rv" "get e ''action'' = JStr ''claim''"
    by (simp_all add: e store_event_payload store_event_header [OF plain])
  obtain s where s: "st_card s = c" "\<not> st_voided s" "cs_fold env st' cid = map_sum id (\<lambda>t. Some (st_card t)) (card_step s e)"
    by (rule append_steps_fold [OF run assms(2,4,5) plain]) (simp add: void_terminal_actions_def)
  have step: "card_step s e = map_sum id (\<lambda>d. \<lparr>st_card = stamp e d, st_voided = False\<rparr>) (cd_on_claim c e)"
    using s by (cases "cd_on_claim c e") (simp_all add: card_step_def get handler_of_simps)
  have spec: "claim_spec c e c'" if c': "cs_fold env st' cid = Inr (Some c')" for c'
  proof -
    from c' obtain d where "cd_on_claim c e = Inr d" "c' = stamp e d"
      using s(3) step by (cases "cd_on_claim c e") auto
    then show ?thesis
      using cd_on_claim_spec [of c e d] by (simp add: claim_spec_def claim_fields_def split: if_splits)
  qed
  have "\<exists>c'. cs_fold env st' cid = Inr (Some c')" if "\<not> claim_blocked c (JStr agent)"
    using that s(3) step by (simp add: cd_on_claim_def get Let_def)
  then show ?thesis
    using spec assms(3) by (auto simp: claim_spec_def get)
qed

theorem claim_through_store_witness:
  "\<exists>e st' c'. mirror_claim sample_store_env ''c1'' ''bob'' ''t1'' ''r9'' (sample_store []) = (Inr e, st')
     \<and> cs_fold sample_store_env st' ''c1'' = Inr (Some c') \<and> claim_fields c' = (JStr ''bob'', JStr ''r9'', Doing)"
proof -
  let ?st = "sample_store []"
  let ?run = "mirror_claim sample_store_env ''c1'' ''bob'' ''t1'' ''r9'' ?st"
  have "case fst ?run of Inr e \<Rightarrow> so_ticks (snd ?run) = 1 | _ \<Rightarrow> False" by code_simp
  then obtain e where e: "?run = (Inr e, snd ?run)" and ticks: "so_ticks (snd ?run) = 1"
    by (cases "fst ?run") (auto simp: prod_eq_iff)
  from ticks have "snd ?run \<noteq> ?st" by (auto simp: sample_store_def)
  moreover have "case cs_fold sample_store_env ?st ''c1'' of Inr (Some c) \<Rightarrow> \<not> claim_blocked c (JStr ''bob'') | _ \<Rightarrow> False"
    by code_simp
  then obtain c where "cs_fold sample_store_env ?st ''c1'' = Inr (Some c)" "\<not> claim_blocked c (JStr ''bob'')"
    by (auto split: sum.splits option.splits)
  moreover have "cs_read_events sample_store_env ?st ''c1'' = Inr []" and "legacy_events ?st ''c1'' = []"
    and "open_end ?st ''c1'' (store_writer_id sample_store_env ''bob'' @ ''.jsonl'')"
    and "distinct (map fst (card_files ?st ''c1''))" by code_simp+
  then have "ready_log sample_store_env ?st ''c1'' ''bob'' []" by (simp add: ready_log_def)
  ultimately show ?thesis
    using claim_through_store [OF e, of c "[]"] e by (metis list.distinct(1))
qed

text \<open>What the written release does to the card, by the claims protocol.\<close>

lemma release_event_spec:
  assumes run: "cs_append env cid ''release_claim'' actor payload st = (Inr e, st')" "st' \<noteq> st"
    and c: "cs_fold env st cid = Inr (Some c)" and ready: "ready_log env st cid actor es"
    and plain: "plain_payload payload" and dist: "distinct (map fst payload)"
    and c': "cs_fold env st' cid = Inr (Some c')"
  shows "release_spec c e c' \<and> (\<forall>k \<in> fst ` set payload - {''abandon_reason''}. get e k = get payload k)"
proof -
  obtain p where p: "normalised_payload ''release_claim'' payload = Inr p"
    and e: "e = store_event env cid ''release_claim'' actor p st"
    by (rule append_event_is [OF run])
  obtain v where v: "p = set_item ''abandon_reason'' v payload"
    using p by (auto simp: normalised_payload_def elim!: r_bind_InrE)
  have "distinct (map fst p)" using dist unfolding v set_item_def by (rule distinct_update)
  then have get: "get e k = get payload k" if "k \<in> fst ` set payload" "k \<noteq> ''abandon_reason''" for k
    using that store_event_payload [of p k] by (simp add: e v keys_set_item)
  obtain s where s: "st_card s = c" "\<not> st_voided s" "cs_fold env st' cid = map_sum id (\<lambda>t. Some (st_card t)) (card_step s e)"
    by (rule append_steps_fold [OF run c ready plain]) (simp add: void_terminal_actions_def)
  have "get e ''action'' = JStr ''release_claim''"
    using store_event_header(1) [OF plain_normalised [OF p plain]] by (simp add: e)
  then have "card_step s e = map_sum id (\<lambda>d. \<lparr>st_card = stamp e d, st_voided = False\<rparr>) (cd_on_release c e)"
    using s by (cases "cd_on_release c e") (simp_all add: card_step_def handler_of_simps)
  then obtain d where "cd_on_release c e = Inr d" "c' = stamp e d"
    using s(3) c' by (cases "cd_on_release c e") auto
  moreover have "release_spec c e (stamp e d) = release_spec c e d"
    by (simp add: release_spec_def claim_fields_def)
  ultimately have "release_spec c e c'"
    using cd_on_release_spec [of c e d] by simp
  with get show ?thesis by blast
qed

text \<open>The precondition of a release that owns the card, and of one that lost a race.\<close>

lemma claim_precondition_cases:
  assumes "claim_precondition c events owner = Inr (Some r)"
  obtains (holder) "cd_owner c = JStr owner" "revision c = JStr r" "r \<noteq> []"
  | (loser) xs d where "cd_owner c \<noteq> JStr owner" "py_iter (get_d (cd_meta c) ''claim_conflicts'' (JList [])) = Inr xs"
      "filter (conflict_of (JStr owner)) xs = [JObj d]" "get d ''claim_revision'' = JStr r" "r \<noteq> []"
      "nonempty_str (revision c)" "get d ''existing_owner'' = cd_owner c" "get d ''existing_claim_revision'' = revision c"
  using assms
  by (auto simp: claim_precondition_def split: if_splits json.splits list.splits elim!: r_bind_InrE)

lemma matches_conflict_of:
  "get e ''released_owner'' = owner \<Longrightarrow> matches_release e x \<Longrightarrow> conflict_of owner x"
  by (cases x) (auto simp: conflict_of_def)

lemma release_takes_effect:
  assumes pre: "claim_precondition c events owner = Inr (Some r)" and spec: "release_spec c e c'" and owner: "owner \<noteq> []"
    and get: "get e ''released_owner'' = JStr owner" "get e ''expected_claim_revision'' = JStr r"
  shows "if cd_owner c = JStr owner then claim_fields c' = (JNull, JNull, Backlog)
    else claim_fields c' = claim_fields c
      \<and> (\<exists>xs. get_d (cd_meta c') ''claim_conflicts'' (JList []) = JList xs \<and> filter (conflict_of (JStr owner)) xs = [])"
  using pre
proof (cases rule: claim_precondition_cases)
  case holder
  with spec get owner show ?thesis by (simp add: release_spec_def releases_current_def valid_release_def)
next
  case (loser xs d)
  have sub: "filter (matches_release e) xs = filter (matches_release e) (filter (conflict_of (JStr owner)) xs)"
    "filter (conflict_of (JStr owner)) (filter (\<lambda>x. \<not> matches_release e x) xs)
      = filter (\<lambda>x. \<not> matches_release e x) (filter (conflict_of (JStr owner)) xs)"
    using matches_conflict_of [OF get(1)] by (auto intro!: filter_cong simp: filter_filter conj_commute)
  have d: "matches_release e (JObj d)"
    using loser(3,4) get filter_eq_Cons_iff [of "conflict_of (JStr owner)" xs "JObj d" "[]"]
    by (auto simp: conflict_of_def)
  have "releases_conflict c e xs"
    using sub(1) d loser get owner by (simp add: releases_conflict_def valid_release_def)
  moreover have "\<not> releases_current c e" using loser(1) get by (simp add: releases_current_def)
  ultimately show ?thesis
    using spec loser(1,2,3) sub(2) d by (auto simp: release_spec_def)
qed

text \<open>
  A release through the store is exact: the precondition names the revision that is checked, and
  the release that is written with it either frees the card into the backlog, when the owner holds the
  card, or withdraws the owner's one recorded claim conflict and leaves the holder's claim as it is.
  When the precondition says that there is nothing to release, nothing is written.
\<close>

theorem release_through_store:
  assumes pre: "current_claim_precondition env cid owner st = Inr expected"
    and run: "mirror_release env cid owner actor expected transition reason st = (Inr b, st')"
    and c: "cs_fold env st cid = Inr (Some c)" and ready: "ready_log env st cid actor es" and owner: "owner \<noteq> []"
  shows "(expected = None \<longrightarrow> \<not> b \<and> st' = st)
    \<and> (st' \<noteq> st \<and> cs_fold env st' cid = Inr (Some c') \<longrightarrow> b
        \<and> (if cd_owner c = JStr owner then claim_fields c' = (JNull, JNull, Backlog)
           else claim_fields c' = claim_fields c
             \<and> (\<exists>xs. get_d (cd_meta c') ''claim_conflicts'' (JList []) = JList xs
                  \<and> filter (conflict_of (JStr owner)) xs = [])))"
proof (cases expected)
  case None
  with run show ?thesis by (simp add: mirror_release_def)
next
  case (Some r)
  let ?payload = "[(''released_owner'', JStr owner), (''expected_claim_revision'', JStr r),
           (''transition_id'', JStr transition), (''abandon_reason'', of_opt_str reason)]"
  have pre': "claim_precondition c (cs_read_events env st cid) owner = Inr (Some r)"
    using pre Some c by (simp add: current_claim_precondition_def)
  from run Some obtain e where e: "cs_append env cid ''release_claim'' actor ?payload st = (Inr e, st')" and b: "b"
    by (auto simp: mirror_release_def elim!: op_bind_InrD)
  have plain: "plain_payload ?payload" by (simp add: plain_payload_def)
  have "b \<and> (if cd_owner c = JStr owner then claim_fields c' = (JNull, JNull, Backlog)
      else claim_fields c' = claim_fields c
        \<and> (\<exists>xs. get_d (cd_meta c') ''claim_conflicts'' (JList []) = JList xs \<and> filter (conflict_of (JStr owner)) xs = []))"
    if "st' \<noteq> st" "cs_fold env st' cid = Inr (Some c')"
    using release_event_spec [OF e that(1) c ready plain _ that(2)] release_takes_effect [OF pre' _ owner, of e c'] b
    by simp
  with Some show ?thesis by simp
qed

theorem release_through_store_witness:
  "\<exists>st' c'. mirror_release sample_store_env ''c1'' ''bob'' ''bob'' (Some ''r1'') ''t1'' None
        (sample_store [sample_act ''1'' ''claim'' [(''owner'', JStr ''bob''), (''claim_revision'', JStr ''r1'')]]) = (Inr True, st')
     \<and> cs_fold sample_store_env st' ''c1'' = Inr (Some c') \<and> claim_fields c' = (JNull, JNull, Backlog)"
proof -
  let ?es = "[sample_act ''1'' ''claim'' [(''owner'', JStr ''bob''), (''claim_revision'', JStr ''r1'')]]"
  let ?st = "sample_store ?es"
  let ?run = "mirror_release sample_store_env ''c1'' ''bob'' ''bob'' (Some ''r1'') ''t1'' None ?st"
  have "case fst ?run of Inr b \<Rightarrow> b \<and> so_ticks (snd ?run) = 1 | _ \<Rightarrow> False" by code_simp
  then have e: "?run = (Inr True, snd ?run)" and ticks: "so_ticks (snd ?run) = 1"
    by (cases "fst ?run"; auto simp: prod_eq_iff)+
  from ticks have moved: "snd ?run \<noteq> ?st" by (auto simp: sample_store_def)
  have "case cs_fold sample_store_env (snd ?run) ''c1'' of Inr (Some c) \<Rightarrow> True | _ \<Rightarrow> False" by code_simp
  then obtain c' where c': "cs_fold sample_store_env (snd ?run) ''c1'' = Inr (Some c')"
    by (auto split: sum.splits option.splits)
  have "case cs_fold sample_store_env ?st ''c1'' of Inr (Some c) \<Rightarrow> cd_owner c = JStr ''bob'' | _ \<Rightarrow> False"
    by code_simp
  then obtain c where c: "cs_fold sample_store_env ?st ''c1'' = Inr (Some c)" "cd_owner c = JStr ''bob''"
    by (auto split: sum.splits option.splits)
  have pre: "current_claim_precondition sample_store_env ''c1'' ''bob'' ?st = Inr (Some ''r1'')" by code_simp
  have "cs_read_events sample_store_env ?st ''c1'' = Inr ?es" and "legacy_events ?st ''c1'' = []"
    and "list_all (\<lambda>x. card_event_key x \<noteq> None) ?es"
    and "open_end ?st ''c1'' (store_writer_id sample_store_env ''bob'' @ ''.jsonl'')"
    and "distinct (map fst (card_files ?st ''c1''))"
    and "list_all (\<lambda>x. fst (the (card_event_key x)) < se_clock sample_store_env (so_ticks ?st)) ?es" by code_simp+
  then have "ready_log sample_store_env ?st ''c1'' ''bob'' ?es" unfolding ready_log_def list_all_iff by blast
  from release_through_store [OF pre e c(1) this, of c'] moved c(2) c' e show ?thesis by auto
qed

text \<open>
  Why the writer's file must not end in a blank line: the append hashes the last line of the file, the
  reader the last line that is not blank. The append succeeds and the log cannot be read afterwards.
\<close>

definition blank_tail :: store where
  "blank_tail = (sample_store [])\<lparr>so_cards := [(''c1'', (sample_dir ''c1'' [])
      \<lparr>dir_events := [(''bob@h1.jsonl'', [SLine ''x'' (Some (JObj (sample_act ''1'' ''note'' []))), SLine [] None])]\<rparr>)]\<rparr>"

theorem blank_tail_breaks_log:
  "(let run = cs_append sample_store_env ''c1'' ''note'' ''bob'' [] blank_tail
    in cs_read_events sample_store_env blank_tail ''c1'' = Inr [sample_act ''1'' ''note'' []]
     \<and> isl (fst run) = False
     \<and> cs_read_events sample_store_env (snd run) ''c1'' = Inl (ValueError ''event chain broken''))"
  by code_simp

end
