(* ===== verification/Card_Dependencies.thy ===== *)
theory Card_Dependencies
  imports Card_Store_Laws
begin

text \<open>
  Dependency amendments keep the graph of the board free of cycles when each one runs from its check to
  its append before the next, and what happens when two of them interleave: the locks are per card.
\<close>

section \<open>The graph of the listed cards\<close>

definition board_cards :: "(py_error \<Rightarrow> string) \<Rightarrow> store_env \<Rightarrow> store \<Rightarrow> string list \<Rightarrow> card list" where
  "board_cards why env st ids = List.map_filter (\<lambda>cid. case cs_fold env st cid of
     Inl e \<Rightarrow> Some (unreadable_card cid (why e) (error_class e)) | Inr c \<Rightarrow> c) ids"

lemma map_filter_id: "List.map_filter id (map f xs) = List.map_filter f xs"
  by (simp add: List.map_filter_def filter_map comp_def)

lemma list_cards_all:
  "cs_list_cards why env True True st = map_sum id (board_cards why env st) (cs_list_ids st)"
proof (cases "cs_list_ids st")
  case (Inr ids)
  have "r_map (\<lambda>cid. case cs_fold env st cid of Inl e \<Rightarrow> Inr (Some (unreadable_card cid (why e) (error_class e))) | Inr c \<Rightarrow> Inr c) ids
      = Inr (map (\<lambda>cid. case cs_fold env st cid of Inl e \<Rightarrow> Some (unreadable_card cid (why e) (error_class e)) | Inr c \<Rightarrow> c) ids)"
    by (rule r_map_total) (simp split: sum.split)
  with Inr show ?thesis by (simp add: cs_list_cards_def board_cards_def map_filter_id cong del: sum.case_cong_weak)
qed (simp add: cs_list_cards_def)

text \<open>The dependencies that the last card of the list with this identifier has.\<close>

lemma deps_of_edges:
  "deps_of (dependency_edges (cs @ [c])) a = (if cd_id c = a then texts_of (cd_dependencies c) else deps_of (dependency_edges cs) a)"
  by (simp add: deps_of_def dependency_edges_def)

text \<open>Two lists of the same cards: in the second, card \<open>a\<close> has at most the dependencies \<open>D\<close> more.\<close>

definition gains :: "string \<Rightarrow> string set \<Rightarrow> card \<Rightarrow> card \<Rightarrow> bool" where
  "gains a D c c' \<longleftrightarrow> cd_id c' = cd_id c
     \<and> set (texts_of (cd_dependencies c')) \<subseteq> set (texts_of (cd_dependencies c)) \<union> (if cd_id c = a then D else {})"

lemma gains_deps:
  "list_all2 (gains a D) cs cs' \<Longrightarrow>
     set (deps_of (dependency_edges cs') x) \<subseteq> set (deps_of (dependency_edges cs) x) \<union> (if x = a then D else {})"
proof (induction cs arbitrary: cs' rule: rev_induct)
  case Nil
  then show ?case by simp
next
  case (snoc c cs)
  then obtain ds c' where cs': "cs' = ds @ [c']" and "list_all2 (gains a D) cs ds" and c': "gains a D c c'"
    by (auto simp: list_all2_append1 list_all2_Cons1)
  with snoc.IH [of ds] show ?case
    by (simp only: cs' deps_of_edges) (use c' in \<open>auto simp: gains_def split: if_splits\<close>)
qed

lemma gains_graph:
  assumes "list_all2 (gains a D) cs cs'"
  shows "dep_rel (dependency_edges cs') \<subseteq> {a} \<times> D \<union> dep_rel (dependency_edges cs)"
proof (rule subrelI)
  fix x y
  assume "(x, y) \<in> dep_rel (dependency_edges cs')"
  with gains_deps [OF assms, of x] show "(x, y) \<in> {a} \<times> D \<union> dep_rel (dependency_edges cs)"
    by (auto simp: dep_rel_def split: if_splits)
qed

section \<open>What one amendment changes\<close>

text \<open>The listing only looks at the names of the cards and at whether they have a core.\<close>

definition named_core :: "string \<times> card_dir \<Rightarrow> string \<times> bool" where
  "named_core nd = (fst nd, dir_core (snd nd) \<noteq> None)"

lemma list_ids_names:
  "map named_core (so_cards st') = map named_core (so_cards st) \<Longrightarrow> cs_list_ids st' = cs_list_ids st"
proof -
  have ids: "cs_list_ids s = (let ks = map named_core (sort_key fst (so_cards s)) in
      if list_all (valid_identifier \<circ> fst) ks then Inr (map fst (filter snd ks))
      else Inl bad_identifier)" for s
  proof -
    have "r_map (\<lambda>(n, d). if valid_identifier n then Inr (n, d)
         else Inl bad_identifier) xs
      = (if list_all (valid_identifier \<circ> fst) xs then Inr xs
         else Inl bad_identifier)" for xs :: "(string \<times> card_dir) list"
      by (induction xs) (auto split: prod.split)
    then show ?thesis
      by (simp add: cs_list_ids_def Let_def list_all_iff named_core_def filter_map comp_def case_prod_unfold)
  qed
  have "map named_core (sort_key fst (so_cards s)) = sort_key fst (map named_core (so_cards s))" for s :: store
    by (rule sort_key_values [symmetric]) (simp add: named_core_def)
  then show "map named_core (so_cards st') = map named_core (so_cards st) \<Longrightarrow> cs_list_ids st' = cs_list_ids st"
    by (simp add: ids)
qed

lemma update_named_core:
  "map_of xs k = Some d \<Longrightarrow> dir_core d' = dir_core d \<Longrightarrow> map named_core (AList.update k d' xs) = map named_core xs"
  by (induction xs) (auto simp: named_core_def split: if_splits)

lemma write_same_ids:
  assumes "lock_anchor cid st = Inr ()"
  shows "cs_list_ids (write_event env cid agent e st) = cs_list_ids st"
proof -
  obtain d where "map_of (so_cards st) cid = Some d"
    using assms by (auto simp: lock_anchor_def cs_load_core_def split: if_splits option.splits)
  then show ?thesis
    by (intro list_ids_names) (simp add: write_event_def add_line_def update_named_core)
qed

lemma write_same_fold: "c \<noteq> cid \<Longrightarrow> cs_fold env (write_event env cid agent e st) c = cs_fold env st c"
  by (simp add: cs_fold_def other_cards write_same_legacy)

lemma texts_of_set: "set (texts_of vs) = {s. JStr s \<in> set vs}"
  by (induction vs) (auto simp: texts_of_def List.map_filter_simps split: json.splits)

lemma all_steps_same_list:
  "(\<And>x. x \<in> set ids \<Longrightarrow> rel_option P (f x) (g x)) \<Longrightarrow> list_all2 P (List.map_filter f ids) (List.map_filter g ids)"
proof (induction ids)
  case Nil
  then show ?case by (simp add: List.map_filter_simps)
next
  case (Cons a ids)
  then have "rel_option P (f a) (g a)" by simp
  then show ?case
    by (cases rule: option.rel_cases) (use Cons in \<open>simp_all add: List.map_filter_simps\<close>)
qed

lemma gains_refl: "gains a D c c"
  by (simp add: gains_def)

text \<open>The card after the amendment's event.\<close>

lemma amended_card:
  assumes run: "amend_append env cid dep action agent reason st = (Inr e, st')" "st' \<noteq> st"
    and action: "action \<in> {''add_dependency'', ''remove_dependency''}"
    and c: "cs_fold env st cid = Inr (Some c)"
    and ready: "ready_log env st cid (if agent = [] then ''coord'' else agent) es"
  obtains c' where "cs_fold env st' cid = Inr (Some c')" "cd_id c' = cd_id c"
    "cd_dependencies c' = (if dep = [] \<and> action = ''add_dependency'' then cd_dependencies c
       else if action = ''add_dependency'' then add_new (cd_dependencies c) (JStr dep)
       else remove1 (JStr dep) (cd_dependencies c))"
proof -
  let ?payload = "[(''dependency'', JStr dep), (''reason'', JStr (strip reason))]"
  have run': "cs_append env cid action (if agent = [] then ''coord'' else agent) ?payload st = (Inr e, st')"
    using run(1) by (simp add: amend_append_def)
  have plain: "plain_payload ?payload" by (simp add: plain_payload_def)
  have e: "e = store_event env cid action (if agent = [] then ''coord'' else agent) ?payload st"
    by (rule append_event_is [OF run' run(2)]) (use action in \<open>auto simp: normalised_payload_def\<close>)
  have get: "get e ''dependency'' = JStr dep" "get e ''action'' = JStr action"
    by (simp_all add: e store_event_payload store_event_header [OF plain])
  obtain s where s: "st_card s = c" "cs_fold env st' cid = map_sum id (\<lambda>t. Some (st_card t)) (card_step s e)"
    by (rule append_steps_fold [OF run' run(2) c ready plain])
  have "action \<notin> set void_terminal_actions" using action by (auto simp: void_terminal_actions_def)
  then obtain d where d: "handler_of (JStr action) c e = Inr d" "cs_fold env st' cid = Inr (Some (stamp e d))"
    "cd_id d = cd_id c" "cd_dependencies d = (if dep = [] \<and> action = ''add_dependency'' then cd_dependencies c
       else if action = ''add_dependency'' then add_new (cd_dependencies c) (JStr dep)
       else remove1 (JStr dep) (cd_dependencies c))"
    using s action by (auto simp: card_step_def get handler_of_simps cd_on_add_dependency_def cd_on_remove_dependency_def
        image_iff)
  then show thesis using that by simp
qed

lemma amendment_lists:
  assumes run: "amend_append env cid dep action agent reason st = (Inr e, st')" "st' \<noteq> st"
    and action: "action \<in> {''add_dependency'', ''remove_dependency''}"
    and ready: "ready_log env st cid (if agent = [] then ''coord'' else agent) es"
    and cs: "cs_list_cards why env True True st = Inr cs"
  shows "\<exists>cs'. cs_list_cards why env True True st' = Inr cs'
    \<and> list_all2 (gains cid (if action = ''add_dependency'' then {dep} else {})) cs cs'"
proof -
  let ?D = "if action = ''add_dependency'' then {dep} else {}"
  obtain p where lock: "lock_anchor cid st = Inr ()" and core: "require_foldable_core env cid st = Inr ()"
    and st': "st' = write_event env cid (if agent = [] then ''coord'' else agent) e st"
    using run unfolding amend_append_def by (cases rule: cs_append_cases) simp_all
  from core obtain c where c: "cs_fold env st cid = Inr (Some c)" "cd_id c = cid"
    by (auto simp: require_foldable_core_def elim!: r_bind_InrE split: option.splits if_splits)
  obtain c' where c': "cs_fold env st' cid = Inr (Some c')" "cd_id c' = cd_id c"
    "cd_dependencies c' = (if dep = [] \<and> action = ''add_dependency'' then cd_dependencies c
       else if action = ''add_dependency'' then add_new (cd_dependencies c) (JStr dep)
       else remove1 (JStr dep) (cd_dependencies c))"
    by (rule amended_card [OF run action c(1) ready])
  have gained: "gains cid ?D c c'"
    using c' c(2) action notin_set_remove1 [of _ "cd_dependencies c"] by (auto simp: gains_def texts_of_set dest: notin_set_remove1)
  obtain ids where ids: "cs_list_ids st = Inr ids" and cs_ids: "cs = board_cards why env st ids"
    using cs by (auto simp: list_cards_all dest: map_sum_InrD)
  have "list_all2 (gains cid ?D) cs (board_cards why env st' ids)"
    unfolding cs_ids board_cards_def
  proof (rule all_steps_same_list)
    fix x assume "x \<in> set ids"
    show "rel_option (gains cid ?D)
        (case cs_fold env st x of Inl e \<Rightarrow> Some (unreadable_card x (why e) (error_class e)) | Inr c \<Rightarrow> c)
        (case cs_fold env st' x of Inl e \<Rightarrow> Some (unreadable_card x (why e) (error_class e)) | Inr c \<Rightarrow> c)"
    proof (cases "x = cid")
      case True
      with c c' gained show ?thesis by simp
    next
      case False
      then show ?thesis by (simp add: st' write_same_fold option.rel_refl gains_refl split: sum.split)
    qed
  qed
  then show ?thesis using ids by (simp add: list_cards_all st' write_same_ids [OF lock])
qed

section \<open>Properties\<close>

text \<open>
  C23. Dependency amendments keep the board free of cycles: an amendment that runs from its check to its
  append takes a listed graph without cycles to a listed graph without cycles, whether it adds a dependency,
  removes one, does nothing or raises.
\<close>

theorem amendments_keep_acyclic:
  assumes run: "amend_dependency why env cid dep action agent reason st = (r, st')"
    and ready: "ready_log env st cid (if agent = [] then ''coord'' else agent) es"
    and cs: "cs_list_cards why env True True st = Inr cs" and acyclic: "acyclic (dep_rel (dependency_edges cs))"
  shows "\<exists>cs'. cs_list_cards why env True True st' = Inr cs' \<and> acyclic (dep_rel (dependency_edges cs'))"
proof (cases "st' = st")
  case True
  with cs acyclic show ?thesis by simp
next
  case moved: False
  have "\<exists>e. amend_request_ok cid dep action reason st = Inr () \<and> amend_check why env cid dep action st = Inr True
      \<and> amend_append env cid dep action agent reason st = (Inr e, st')"
    using run unfolding amend_dependency_def
  proof (elim op_result_bindE, goal_cases)
    case (4 u v go)
    show ?case
    proof (cases go)
      case True
      with 4 moved show ?thesis
        by (cases "amend_append env cid dep action agent reason st"; cases "fst (amend_append env cid dep action agent reason st)")
          (auto simp: op_bind_run amend_append_def elim: cs_append_cases)
    qed (use 4 moved in simp)
  qed (use moved in simp_all)
  then obtain e where request: "amend_request_ok cid dep action reason st = Inr ()"
    and check: "amend_check why env cid dep action st = Inr True"
    and append: "amend_append env cid dep action agent reason st = (Inr e, st')" by blast
  have action: "action \<in> {''add_dependency'', ''remove_dependency''}"
    using request by (auto simp: amend_request_ok_def split: if_splits)
  obtain cs' where cs': "cs_list_cards why env True True st' = Inr cs'"
    and more: "list_all2 (gains cid (if action = ''add_dependency'' then {dep} else {})) cs cs'"
    using amendment_lists [OF append moved action ready cs] by blast
  from more have sub: "dep_rel (dependency_edges cs')
      \<subseteq> {cid} \<times> (if action = ''add_dependency'' then {dep} else {}) \<union> dep_rel (dependency_edges cs)"
    by (rule gains_graph)
  have "acyclic (dep_rel (dependency_edges cs'))"
  proof (cases "action = ''add_dependency''")
    case True
    with check cs have "\<not> would_create_cycle (dependency_edges cs) cid dep"
      by (auto simp: amend_check_def Let_def split: if_splits elim!: r_bind_InrE)
    with acyclic have "acyclic (insert (cid, dep) (dep_rel (dependency_edges cs)))"
      by (simp add: would_create_cycle_iff acyclic_insert)
    moreover have "dep_rel (dependency_edges cs') \<subseteq> insert (cid, dep) (dep_rel (dependency_edges cs))"
      using sub True by auto
    ultimately show ?thesis by (rule acyclic_subset)
  next
    case False
    with sub acyclic show ?thesis by (auto intro: acyclic_subset)
  qed
  with cs' show ?thesis by blast
qed

theorem amendments_keep_acyclic_witness:
  "\<exists>cs'. cs_list_cards (\<lambda>_. []) sample_store_env True True
        (snd (amend_dependency (\<lambda>_. []) sample_store_env ''c1'' ''c2'' ''add_dependency'' ''ana'' ''needed'' (sample_store []))) = Inr cs'
     \<and> acyclic (dep_rel (dependency_edges cs'))"
proof -
  let ?st = "sample_store []"
  let ?run = "amend_dependency (\<lambda>_. []) sample_store_env ''c1'' ''c2'' ''add_dependency'' ''ana'' ''needed'' ?st"
  have "case cs_list_cards (\<lambda>_. []) sample_store_env True True ?st of
      Inr cs \<Rightarrow> list_all (\<lambda>c. cd_dependencies c = []) cs | _ \<Rightarrow> False" by code_simp
  then obtain cs where cs: "cs_list_cards (\<lambda>_. []) sample_store_env True True ?st = Inr cs"
    and none: "list_all (\<lambda>c. cd_dependencies c = []) cs"
    by (auto split: sum.splits)
  from none have "deps_of (dependency_edges cs) x = []" for x
    by (induction cs rule: rev_induct) (auto simp: deps_of_edges texts_of_def List.map_filter_simps deps_of_def dependency_edges_def)
  then have acyclic: "acyclic (dep_rel (dependency_edges cs))" by (simp add: dep_rel_def acyclic_def)
  have "cs_read_events sample_store_env ?st ''c1'' = Inr []" and "legacy_events ?st ''c1'' = []"
    and "open_end ?st ''c1'' (store_writer_id sample_store_env ''ana'' @ ''.jsonl'')"
    and "distinct (map fst (card_files ?st ''c1''))" by code_simp+
  then have ready: "ready_log sample_store_env ?st ''c1'' (if ''ana'' = [] then ''coord'' else ''ana'') []"
    by (simp add: ready_log_def)
  show ?thesis
    by (rule amendments_keep_acyclic [OF _ ready cs acyclic]) (rule prod.collapse [symmetric])
qed

text \<open>
  Two amendments that interleave: each check sees the graph without the other's dependency, both locks
  are taken, since they are locks of different cards, and the two appends close a cycle.
\<close>

theorem interleaved_amendments_cycle:
  "(let why = (\<lambda>_. []); env = sample_store_env; st = sample_store [];
        first = amend_append env ''c1'' ''c2'' ''add_dependency'' ''ana'' ''needed'' st;
        second = amend_append env ''c2'' ''c1'' ''add_dependency'' ''bob'' ''needed'' (snd first)
    in amend_check why env ''c1'' ''c2'' ''add_dependency'' st = Inr True
     \<and> amend_check why env ''c2'' ''c1'' ''add_dependency'' st = Inr True
     \<and> map_sum id (map (\<lambda>c. (cd_id c, cd_dependencies c))) (cs_list_cards why env True True (snd second))
         = Inr [(''c1'', [JStr ''c2'']), (''c2'', [JStr ''c1''])])"
  by code_simp

end
