(* ===== verification/Board_Tasks.thy ===== *)
theory Board_Tasks
  imports Card_Store
begin

text \<open>
  The task files of the coordination board (\<open>coordination.py\<close>): finding a task's file, the one helper
  that rewrites it, and the records that the autopilot keeps in it: scores, grades, failed attempts,
  successes, edits with their old values, and the obsolete and decomposed marks. Files are named
  \<open><id>-<slug>.json\<close> or \<open><id>.json\<close>; a failing mutation leaves the files as they were.
\<close>

section \<open>Files\<close>

record task_files =
  tf_files :: "(string \<times> core_file) list"
  tf_ticks :: nat

definition json_suffix :: "string \<Rightarrow> bool" where
  "json_suffix n \<longleftrightarrow> 5 \<le> length n \<and> drop (length n - 5) n = ''.json''"

text \<open>\<open>glob(f"{task_id}-*.json")\<close> for an identifier without wildcards.\<close>

definition matches_id :: "string \<Rightarrow> string \<Rightarrow> bool" where
  "matches_id tid n \<longleftrightarrow> starts_with n (tid @ ''-'') \<and> json_suffix (drop (length tid + 1) n)"

definition task_raw_path :: "string \<Rightarrow> task_files \<Rightarrow> string result" where
  "task_raw_path tid st =
     (if \<not> valid_identifier tid then Inl bad_identifier
      else case sort (filter (matches_id tid) (map fst (tf_files st))) of
          n # _ \<Rightarrow> Inr n
        | [] \<Rightarrow> if (tid @ ''.json'') \<in> set (map fst (tf_files st)) then Inr (tid @ ''.json'') else Inl FileNotFoundError)"

definition load_task_file :: "string \<Rightarrow> task_files \<Rightarrow> json result" where
  "load_task_file n st = (case map_of (tf_files st) n of
     Some (CoreJson v) \<Rightarrow> Inr v | _ \<Rightarrow> Inl (ValueError ''JSONDecodeError''))"

definition save_task_file :: "string \<Rightarrow> json \<Rightarrow> task_files \<Rightarrow> task_files" where
  "save_task_file n v st = st\<lparr>tf_files := AList.update n (CoreJson v) (tf_files st)\<rparr>"

text \<open>The clock is read inside a mutation; each mutation here reads it once.\<close>

type_synonym mutation = "string \<Rightarrow> jobj \<Rightarrow> jobj result"

definition write_task_raw :: "(nat \<Rightarrow> string) \<Rightarrow> string \<Rightarrow> mutation \<Rightarrow> (task_files, string) op" where
  "write_task_raw clock tid mutate =
     op_bind (op_result (task_raw_path tid)) (\<lambda>n.
     op_bind (op_result (load_task_file n)) (\<lambda>v.
     op_bind (op_read (\<lambda>st. clock (tf_ticks st))) (\<lambda>ts.
     op_bind (op_result (\<lambda>_. case v of JObj d \<Rightarrow> mutate ts d | _ \<Rightarrow> Inl AttributeError)) (\<lambda>d'.
     op_bind (op_write (save_task_file n (JObj d'))) (\<lambda>_.
     op_bind (op_write (\<lambda>st. st\<lparr>tf_ticks := tf_ticks st + 1\<rparr>)) (\<lambda>_. op_return n))))))"

section \<open>The autopilot's records\<close>

text \<open>\<open>d.setdefault(k, {})\<close>, used as a dictionary.\<close>

definition sub_object :: "string \<Rightarrow> jobj \<Rightarrow> jobj result" where
  "sub_object k d = (case get_d d k (JObj []) of JObj m \<Rightarrow> Inr m | _ \<Rightarrow> Inl AttributeError)"

definition with_autopilot :: "(jobj \<Rightarrow> jobj result) \<Rightarrow> jobj \<Rightarrow> jobj result" where
  "with_autopilot f d =
     r_bind (sub_object ''meta'' d) (\<lambda>m. r_bind (sub_object ''autopilot'' m) (\<lambda>ap. r_bind (f ap) (\<lambda>ap'.
       Inr (set_item ''meta'' (JObj (set_item ''autopilot'' (JObj ap') m)) d))))"

text \<open>\<open>ap.setdefault(k, [])\<close>, searched and appended to.\<close>

definition sub_list :: "string \<Rightarrow> jobj \<Rightarrow> json list result" where
  "sub_list k d = (case get_d d k (JList []) of
      JList xs \<Rightarrow> Inr xs | JStr s \<Rightarrow> Inl AttributeError | JObj m \<Rightarrow> Inl AttributeError | _ \<Rightarrow> Inl TypeError)"

text \<open>The entry that has the same key is replaced where it stands; otherwise the new one is appended.\<close>

fun upsert :: "(jobj \<Rightarrow> bool) \<Rightarrow> json \<Rightarrow> json list \<Rightarrow> json list result" where
  "upsert same e [] = Inr [e]"
| "upsert same e (JObj d # xs) =
     (if same d then Inr (e # xs) else map_sum id (\<lambda>ys. JObj d # ys) (upsert same e xs))"
| "upsert same e (x # xs) = Inl AttributeError"

text \<open>\<open>existing.get(k) == n\<close>: a truth value equals the integer it counts as.\<close>

definition equals_int :: "json \<Rightarrow> int \<Rightarrow> bool" where
  "equals_int v n \<longleftrightarrow> (case v of JInt i \<Rightarrow> i = n | JBool b \<Rightarrow> (if b then 1 else 0) = n | _ \<Rightarrow> False)"

definition score_task :: "int \<Rightarrow> int \<Rightarrow> string \<Rightarrow> string \<Rightarrow> string option \<Rightarrow> string option \<Rightarrow> mutation" where
  "score_task round score notes harness phase ref ts = with_autopilot (\<lambda>ap.
     r_bind (sub_list ''scores'' ap) (\<lambda>scores.
     r_bind (upsert (\<lambda>x. equals_int (get x ''round'') round \<and> get x ''harness'' = JStr harness)
         (JObj [(''round'', JInt round), (''score'', JInt score), (''notes'', JStr notes), (''ts'', JStr ts),
                (''harness'', JStr harness)]) scores) (\<lambda>scores'.
       let ap1 = set_item ''scores'' (JList scores') ap;
           ap2 = (case phase of Some p \<Rightarrow> if p = [] then ap1 else set_item ''phase'' (JStr p) ap1 | None \<Rightarrow> ap1)
       in Inr (case ref of
           Some r \<Rightarrow> if r = [] then ap2
             else set_item (if starts_with r ''http'' then ''pr'' else ''artifact'') (JStr r) ap2
         | None \<Rightarrow> ap2))))"

definition grade_size_rank :: "(string \<times> nat) list" where
  "grade_size_rank = [(''S'', 0), (''M'', 1), (''L'', 2), (''XL'', 3)]"

definition grade_risk_rank :: "(string \<times> nat) list" where
  "grade_risk_rank = [(''low'', 0), (''med'', 1), (''high'', 2), (''crit'', 3)]"

definition grade_class_by_rank :: "(nat \<times> string) list" where
  "grade_class_by_rank = [(0, ''S''), (1, ''M''), (2, ''L''), (3, ''XL'')]"

record grade_request =
  gr_size :: string
  gr_risk :: string
  gr_sensitivity :: string
  gr_estimate :: json
  gr_bounty :: json
  gr_by :: string
  gr_model :: string
  gr_rubric :: int
  gr_confidence :: json
  gr_pool :: string
  gr_session :: "string option"
  gr_node :: "string option"

text \<open>The vocabulary checks come before the file is looked for.\<close>

definition grade_class :: "grade_request \<Rightarrow> string result" where
  "grade_class g =
     (case map_of grade_size_rank (gr_size g) of None \<Rightarrow> Inl (ValueError ''invalid size'')
      | Some a \<Rightarrow> (case map_of grade_risk_rank (gr_risk g) of None \<Rightarrow> Inl (ValueError ''invalid risk'')
          | Some b \<Rightarrow>
              if gr_sensitivity g \<notin> {''public'', ''internal'', ''secret''} then Inl (ValueError ''invalid sensitivity'')
              else if gr_pool g \<notin> {''private'', ''public''} then Inl (ValueError ''invalid pool'')
              else Inr (the (map_of grade_class_by_rank (max a b)))))"

definition put_grade :: "grade_request \<Rightarrow> string \<Rightarrow> mutation" where
  "put_grade g model_class ts d = r_bind (sub_object ''meta'' d) (\<lambda>m.
     let grade = [(''size'', JStr (gr_size g)), (''risk'', JStr (gr_risk g)),
           (''sensitivity'', JStr (gr_sensitivity g)), (''model_class'', JStr model_class),
           (''joule_estimate'', gr_estimate g), (''joule_bounty'', gr_bounty g),
           (''graded_by'', JStr (gr_by g)), (''grader_model'', JStr (gr_model g)),
           (''rubric_version'', JInt (gr_rubric g)), (''confidence'', gr_confidence g),
           (''pool'', JStr (gr_pool g)), (''graded_at'', JStr ts)]
           @ opt_field ''session_id'' (gr_session g) @ opt_field ''node'' (gr_node g)
     in Inr (set_item ''meta'' (JObj (set_item ''grade'' (JObj grade) m)) d))"

definition set_grade :: "(nat \<Rightarrow> string) \<Rightarrow> string \<Rightarrow> grade_request \<Rightarrow> (task_files, string) op" where
  "set_grade clock tid g = op_bind (op_result (\<lambda>_. grade_class g)) (\<lambda>c. write_task_raw clock tid (put_grade g c))"

definition max_attempts :: nat where
  "max_attempts = 10"

text \<open>\<open>xs[-n:]\<close> for a list longer than \<open>n\<close>.\<close>

definition last_n :: "nat \<Rightarrow> 'a list \<Rightarrow> 'a list" where
  "last_n n xs = drop (length xs - n) xs"

text \<open>Attempts and successes are kept alike, under different keys.\<close>

definition same_run :: "string \<Rightarrow> string \<Rightarrow> jobj \<Rightarrow> bool" where
  "same_run run_id outcome x \<longleftrightarrow> get x ''run_id'' = JStr run_id \<and> get x ''outcome'' = JStr outcome"

definition record_run :: "string \<Rightarrow> string \<Rightarrow> string \<Rightarrow> jobj \<Rightarrow> jobj \<Rightarrow> jobj result" where
  "record_run key run_id outcome entry ap =
     r_bind (sub_list key ap) (\<lambda>xs. r_bind (upsert (same_run run_id outcome) (JObj entry) xs) (\<lambda>ys.
       Inr (set_item key (JList (if max_attempts < length ys then last_n max_attempts ys else ys)) ap)))"

definition record_attempt ::
    "string \<Rightarrow> int \<Rightarrow> string \<Rightarrow> string \<Rightarrow> string \<Rightarrow> string \<Rightarrow> mutation" where
  "record_attempt run_id round outcome tried why_failed hint ts = with_autopilot (record_run ''attempts'' run_id outcome
     [(''run_id'', JStr run_id), (''ts'', JStr ts), (''round'', JInt round), (''outcome'', JStr outcome),
      (''tried'', JStr tried), (''why_failed'', JStr why_failed), (''replacement_hint'', JStr hint)])"

definition record_success ::
    "string \<Rightarrow> int \<Rightarrow> string \<Rightarrow> string \<Rightarrow> string \<Rightarrow> string \<Rightarrow> mutation" where
  "record_success run_id round outcome tried why hint ts = with_autopilot (record_run ''successes'' run_id outcome
     [(''run_id'', JStr run_id), (''ts'', JStr ts), (''round'', JInt round), (''outcome'', JStr outcome),
      (''tried'', JStr tried), (''why_succeeded'', JStr why), (''approach_hint'', JStr hint)])"

text \<open>\<open>removed.extend(ap.get("attempts") or [])\<close>, and the list is emptied.\<close>

definition cleared_attempts :: "jobj \<Rightarrow> json list result" where
  "cleared_attempts ap = py_iter (py_or (get ap ''attempts'') (JList []))"

definition drop_attempts :: mutation where
  "drop_attempts ts = with_autopilot (\<lambda>ap.
     r_bind (cleared_attempts ap) (\<lambda>_. Inr (set_item ''attempts'' (JList []) ap)))"

definition attempts_of :: "string \<Rightarrow> task_files \<Rightarrow> json list result" where
  "attempts_of tid st = r_bind (task_raw_path tid st) (\<lambda>n. r_bind (load_task_file n st) (\<lambda>v. case v of
      JObj d \<Rightarrow> r_bind (sub_object ''meta'' d) (\<lambda>m. r_bind (sub_object ''autopilot'' m) cleared_attempts)
    | _ \<Rightarrow> Inl AttributeError))"

definition clear_attempts :: "(nat \<Rightarrow> string) \<Rightarrow> string \<Rightarrow> (task_files, json list) op" where
  "clear_attempts clock tid = op_bind (op_result (attempts_of tid)) (\<lambda>removed.
     op_bind (write_task_raw clock tid drop_attempts) (\<lambda>_. op_return removed))"

text \<open>\<open>notes = d.setdefault("notes", [])\<close>; only a list is appended to.\<close>

definition add_note :: "string \<Rightarrow> jobj \<Rightarrow> jobj" where
  "add_note text d = (case get_d d ''notes'' (JList []) of
     JList xs \<Rightarrow> set_item ''notes'' (JList (xs @ [JStr text])) d | v \<Rightarrow> set_item ''notes'' v d)"

definition close_obsolete :: "string \<Rightarrow> string option \<Rightarrow> mutation" where
  "close_obsolete reason run_id ts d = r_bind (with_autopilot (\<lambda>ap. Inr (set_item ''obsolete''
       (JObj [(''reason'', JStr reason), (''run_id'', of_opt_str run_id), (''ts'', JStr ts)]) ap)) d)
     (\<lambda>d'. Inr (add_note (''[obsolete '' @ ts @ ''] '' @ reason) d'))"

definition mark_decomposed :: "string list \<Rightarrow> string option \<Rightarrow> mutation" where
  "mark_decomposed children run_id ts d = r_bind (with_autopilot (\<lambda>ap. Inr (set_item ''decomposed''
       (JObj [(''children'', JList (map JStr children)), (''run_id'', of_opt_str run_id), (''ts'', JStr ts)]) ap)) d)
     (\<lambda>d'. Inr (add_note (''[decomposed '' @ ts @ ''] into '' @ show_nat (length children) @ '' subtasks: ''
                         @ join '', '' children) d'))"

section \<open>Updating a task\<close>

record task_update =
  tu_description :: "string option"
  tu_criteria :: "string list option"
  tu_add :: "string list"
  tu_remove :: "string list"
  tu_run :: "string option"

definition edit_entry :: "string \<Rightarrow> json \<Rightarrow> json \<Rightarrow> string \<Rightarrow> string option \<Rightarrow> json" where
  "edit_entry field old new ts run_id = JObj [(''field'', JStr field), (''old'', old), (''new'', new), (''ts'', JStr ts),
     (''run_id'', of_opt_str run_id)]"

text \<open>A changed field: its name, its old and its new value.\<close>

definition changed :: "string \<Rightarrow> json \<Rightarrow> json option \<Rightarrow> (string \<times> json \<times> json) list" where
  "changed field old new = (case new of None \<Rightarrow> [] | Some v \<Rightarrow> if v = old then [] else [(field, old, v)])"

definition merged_tags :: "task_update \<Rightarrow> json list \<Rightarrow> json list result" where
  "merged_tags u existing =
     (let added = existing @ filter (\<lambda>t. t \<notin> set existing) (map JStr (tu_add u)) in
      if tu_remove u = [] then Inr added
      else if \<not> list_all hashable added then Inl TypeError
      else Inr (filter (\<lambda>t. t \<notin> JStr ` set (tu_remove u)) added))"

definition tag_change :: "task_update \<Rightarrow> jobj \<Rightarrow> (string \<times> json \<times> json) list result" where
  "tag_change u d =
     (if tu_add u = [] \<and> tu_remove u = [] then Inr []
      else r_bind (py_iter (get_d d ''tags'' (JList []))) (\<lambda>existing.
        r_bind (merged_tags u existing) (\<lambda>merged. Inr (changed ''tags'' (JList existing) (Some (JList merged))))))"

definition text_changes :: "task_update \<Rightarrow> jobj \<Rightarrow> (string \<times> json \<times> json) list" where
  "text_changes u d =
     changed ''description'' (get_d d ''description'' (JStr [])) (map_option JStr (tu_description u))
     @ changed ''acceptance_criteria'' (get_d d ''acceptance_criteria'' (JList []))
         (map_option (\<lambda>xs. JList (map JStr xs)) (tu_criteria u))"

text \<open>The snapshots are appended to the edits, and the new values are set.\<close>

definition add_edits :: "json list \<Rightarrow> jobj \<Rightarrow> jobj result" where
  "add_edits es ap = (case get_d ap ''edits'' (JList []) of
      JList xs \<Rightarrow> Inr (set_item ''edits'' (JList (xs @ es)) ap)
    | v \<Rightarrow> if es = [] then Inr (set_item ''edits'' v ap) else Inl AttributeError)"

definition snapshot :: "task_update \<Rightarrow> string \<Rightarrow> (string \<times> json \<times> json) list \<Rightarrow> jobj \<Rightarrow> jobj result" where
  "snapshot u ts cs = with_autopilot (add_edits (map (\<lambda>(f, old, new). edit_entry f old new ts (tu_run u)) cs))"

definition update_task_fields :: "task_update \<Rightarrow> mutation" where
  "update_task_fields u ts d =
     (let texts = text_changes u d in
      r_bind (snapshot u ts texts d) (\<lambda>d1.
      r_bind (tag_change u d) (\<lambda>tags.
      r_bind (snapshot u ts tags d1) (\<lambda>d2.
      Inr (fold (\<lambda>(f, old, new). set_item f new) (texts @ tags) d2)))))"

text \<open>The label events that the change of tags sends to the card store.\<close>

definition tag_events :: "json list \<Rightarrow> json list \<Rightarrow> (string \<times> json) list" where
  "tag_events existing merged = map (Pair ''add_label'') (filter (\<lambda>t. t \<notin> set existing) merged)
     @ map (Pair ''remove_label'') (filter (\<lambda>t. t \<notin> set merged) existing)"

section \<open>What a mutation leaves alone\<close>

definition autopilot_of :: "jobj \<Rightarrow> jobj result" where
  "autopilot_of d = r_bind (sub_object ''meta'' d) (sub_object ''autopilot'')"

lemma sub_object_set_item [simp]: "sub_object k (set_item x v d) = (if x = k then (case v of JObj m \<Rightarrow> Inr m | _ \<Rightarrow> Inl AttributeError) else sub_object k d)"
  by (simp add: sub_object_def)

lemma sub_list_set_item [simp]: "sub_list k (set_item x v d) = (if x = k then (case v of
      JList xs \<Rightarrow> Inr xs | JStr s \<Rightarrow> Inl AttributeError | JObj m \<Rightarrow> Inl AttributeError | _ \<Rightarrow> Inl TypeError) else sub_list k d)"
  by (simp add: sub_list_def)

lemma with_autopilotE:
  assumes "with_autopilot f d = Inr d'"
  obtains ap ap' v where "autopilot_of d = Inr ap" "f ap = Inr ap'" "autopilot_of d' = Inr ap'"
    "d' = set_item ''meta'' v d"
proof -
  from assms obtain m ap ap' where m: "sub_object ''meta'' d = Inr m" "sub_object ''autopilot'' m = Inr ap"
    and ap': "f ap = Inr ap'" and d': "d' = set_item ''meta'' (JObj (set_item ''autopilot'' (JObj ap') m)) d"
    by (auto simp: with_autopilot_def elim!: r_bind_InrE)
  from d' have "autopilot_of d' = Inr ap'" by (simp add: autopilot_of_def)
  with m ap' d' show thesis using that by (simp add: autopilot_of_def)
qed

lemma upsert_cases:
  assumes "upsert same e xs = Inr ys"
  obtains (replaced) a d b where "xs = a @ JObj d # b" "same d" "ys = a @ e # b"
  | (appended) "\<forall>d. JObj d \<in> set xs \<longrightarrow> \<not> same d" "ys = xs @ [e]"
proof -
  have "(\<exists>a d b. xs = a @ JObj d # b \<and> same d \<and> ys = a @ e # b)
      \<or> (\<forall>d. JObj d \<in> set xs \<longrightarrow> \<not> same d) \<and> ys = xs @ [e]"
    using assms
  proof (induction same e xs arbitrary: ys rule: upsert.induct)
    case (2 same e d xs)
    show ?case
    proof (cases "same d")
      case True
      with 2(2) show ?thesis by (intro disjI1 exI [of _ "[]"] exI [of _ d] exI [of _ xs]) simp
    next
      case False
      with 2(2) obtain zs where "upsert same e xs = Inr zs" "ys = JObj d # zs"
        by (auto dest: map_sum_InrD)
      with 2(1) [OF False] False show ?thesis
        by (metis append_Cons json.inject(5) set_ConsD)
    qed
  qed simp_all
  with that show thesis by blast
qed

section \<open>Properties\<close>

fun run_key :: "json \<Rightarrow> json \<times> json" where
  "run_key (JObj d) = (get d ''run_id'', get d ''outcome'')"
| "run_key _ = (JNull, JNull)"

lemma record_run_spec:
  assumes run: "record_run key run_id outcome entry ap = Inr ap'"
    and entry: "get entry ''run_id'' = JStr run_id" "get entry ''outcome'' = JStr outcome"
    and xs: "sub_list key ap = Inr xs" and ok: "length xs \<le> max_attempts" "distinct (map run_key xs)"
  shows "\<exists>ys. sub_list key ap' = Inr ys \<and> length ys \<le> max_attempts \<and> distinct (map run_key ys) \<and> JObj entry \<in> set ys
    \<and> ((JStr run_id, JStr outcome) \<in> run_key ` set xs \<longrightarrow> map run_key ys = map run_key xs)
    \<and> (\<forall>k. k \<noteq> key \<longrightarrow> get ap' k = get ap k)"
proof -
  obtain zs where zs: "upsert (same_run run_id outcome) (JObj entry) xs = Inr zs"
    and ap': "ap' = set_item key (JList (if max_attempts < length zs then last_n max_attempts zs else zs)) ap"
    using run xs by (auto simp: record_run_def elim!: r_bind_InrE)
  have key: "run_key (JObj entry) = (JStr run_id, JStr outcome)" using entry by simp
  from zs show ?thesis
  proof (cases rule: upsert_cases)
    case (replaced a d b)
    then have "run_key (JObj d) = run_key (JObj entry)" by (simp add: entry same_run_def)
    with replaced ok show ?thesis by (auto simp: ap')
  next
    case appended
    have new: "(JStr run_id, JStr outcome) \<notin> run_key ` set xs"
    proof
      assume "(JStr run_id, JStr outcome) \<in> run_key ` set xs"
      then obtain v where "v \<in> set xs" "run_key v = (JStr run_id, JStr outcome)" by force
      with appended(1) show False by (cases v) (auto simp: same_run_def)
    qed
    let ?n = "if max_attempts < length zs then length zs - max_attempts else 0"
    have ys: "ap' = set_item key (JList (drop ?n zs)) ap" by (simp add: ap' last_n_def)
    have "distinct (map run_key zs)" using ok(2) new key by (simp add: appended(2))
    then have "distinct (map run_key (drop ?n zs))" by (metis distinct_drop drop_map)
    moreover have "JObj entry \<in> set (drop ?n zs)" by (simp add: appended(2) max_attempts_def)
    moreover have "length (drop ?n zs) \<le> max_attempts" by simp
    ultimately show ?thesis
      using new by (simp add: ys)
  qed
qed

text \<open>
  C37. The failure memory of a task is bounded and idempotent: recording an attempt keeps at most ten
  entries, one per run and outcome, the new one among them; recording the same run and outcome
  again replaces the entry where it stands; nothing else in the task changes.
\<close>

theorem attempts_bounded:
  assumes "record_attempt run_id round outcome tried why hint ts d = Inr d'"
    and "autopilot_of d = Inr ap" and "sub_list ''attempts'' ap = Inr xs"
    and "length xs \<le> 10" and "distinct (map run_key xs)"
  shows "\<exists>ap' ys entry. autopilot_of d' = Inr ap' \<and> sub_list ''attempts'' ap' = Inr ys \<and> length ys \<le> 10
    \<and> distinct (map run_key ys) \<and> JObj entry \<in> set ys \<and> run_key (JObj entry) = (JStr run_id, JStr outcome)
    \<and> get entry ''why_failed'' = JStr why
    \<and> ((JStr run_id, JStr outcome) \<in> run_key ` set xs \<longrightarrow> map run_key ys = map run_key xs)
    \<and> (\<forall>k. k \<noteq> ''attempts'' \<longrightarrow> get ap' k = get ap k) \<and> (\<forall>k. k \<noteq> ''meta'' \<longrightarrow> get d' k = get d k)"
proof -
  let ?entry = "[(''run_id'', JStr run_id), (''ts'', JStr ts), (''round'', JInt round), (''outcome'', JStr outcome),
      (''tried'', JStr tried), (''why_failed'', JStr why), (''replacement_hint'', JStr hint)]"
  obtain ap' v where ap': "record_run ''attempts'' run_id outcome ?entry ap = Inr ap'" "autopilot_of d' = Inr ap'"
    "d' = set_item ''meta'' v d"
    using assms(1,2) by (auto simp: record_attempt_def elim!: with_autopilotE)
  have "get ?entry ''run_id'' = JStr run_id" "get ?entry ''outcome'' = JStr outcome" by simp_all
  from record_run_spec [OF ap'(1) this assms(3)] assms(4,5)
  obtain ys where "sub_list ''attempts'' ap' = Inr ys" "length ys \<le> 10" "distinct (map run_key ys)" "JObj ?entry \<in> set ys"
    "(JStr run_id, JStr outcome) \<in> run_key ` set xs \<longrightarrow> map run_key ys = map run_key xs"
    "\<forall>k. k \<noteq> ''attempts'' \<longrightarrow> get ap' k = get ap k"
    by (auto simp: max_attempts_def)
  with ap'(2,3) show ?thesis
    by - (rule exI [of _ ap'], rule exI [of _ ys], rule exI [of _ ?entry], simp)
qed

text \<open>Taking back edits, the newest first.\<close>

definition undo_edit :: "json \<Rightarrow> jobj \<Rightarrow> jobj" where
  "undo_edit e d = (case e of JObj x \<Rightarrow> (case get x ''field'' of JStr f \<Rightarrow> set_item f (get x ''old'') d | _ \<Rightarrow> d) | _ \<Rightarrow> d)"

definition undo_edits :: "json list \<Rightarrow> jobj \<Rightarrow> jobj" where
  "undo_edits es d = foldr undo_edit es d"

lemma undo_edit_entry [simp]: "undo_edit (edit_entry f old new ts run) d = set_item f old d"
  by (simp add: undo_edit_def edit_entry_def)

lemma undo_changes:
  "get_d (undo_edits (map (\<lambda>(f, old, new). edit_entry f old new ts run) cs) d) x v0
     = (case map_of cs x of Some (old, new) \<Rightarrow> old | None \<Rightarrow> get_d d x v0)"
  by (induction cs) (auto simp: undo_edits_def)

lemma set_changes:
  "x \<notin> fst ` set cs \<Longrightarrow> get_d (fold (\<lambda>(f, old, new). set_item f new) cs d) x v0 = get_d d x v0"
  by (induction cs arbitrary: d) auto

lemma snapshotE:
  assumes "snapshot u ts cs d = Inr d'" and "autopilot_of d = Inr ap" and "sub_list ''edits'' ap = Inr es"
  obtains ap' v where "autopilot_of d' = Inr ap'"
    "sub_list ''edits'' ap' = Inr (es @ map (\<lambda>(f, old, new). edit_entry f old new ts (tu_run u)) cs)"
    "d' = set_item ''meta'' v d"
proof -
  have es: "get_d ap ''edits'' (JList []) = JList es"
    using assms(3) by (auto simp: sub_list_def split: json.splits)
  from assms show thesis
    by (auto simp: snapshot_def add_edits_def es elim!: with_autopilotE intro!: that)
qed

text \<open>The entries of \<open>meta\<close>, and of \<open>meta.autopilot\<close>.\<close>

definition meta_entry :: "jobj \<Rightarrow> string \<Rightarrow> json option" where
  "meta_entry d k = (case get_d d ''meta'' (JObj []) of JObj m \<Rightarrow> map_of m k | _ \<Rightarrow> None)"

definition autopilot_entry :: "jobj \<Rightarrow> string \<Rightarrow> json option" where
  "autopilot_entry d k = (case meta_entry d ''autopilot'' of Some (JObj ap) \<Rightarrow> map_of ap k | _ \<Rightarrow> None)"

definition meta_kept :: "jobj \<Rightarrow> jobj \<Rightarrow> bool" where
  "meta_kept d d' \<longleftrightarrow> (\<forall>k. k \<noteq> ''autopilot'' \<longrightarrow> meta_entry d' k = meta_entry d k)
     \<and> (\<forall>k. k \<noteq> ''edits'' \<longrightarrow> autopilot_entry d' k = autopilot_entry d k)"

lemma snapshot_meta:
  assumes "snapshot u ts cs d = Inr d'"
  shows "meta_kept d d'"
proof -
  obtain m ap ap' where m: "get_d d ''meta'' (JObj []) = JObj m" "get_d m ''autopilot'' (JObj []) = JObj ap"
    and run: "add_edits (map (\<lambda>(f, old, new). edit_entry f old new ts (tu_run u)) cs) ap = Inr ap'"
    and d': "d' = set_item ''meta'' (JObj (set_item ''autopilot'' (JObj ap') m)) d"
    using assms by (auto simp: snapshot_def with_autopilot_def sub_object_def elim!: r_bind_InrE split: json.splits)
  have "\<exists>v. ap' = set_item ''edits'' v ap" using run by (auto simp: add_edits_def split: json.splits if_splits)
  then have "\<forall>k. k \<noteq> ''edits'' \<longrightarrow> map_of ap' k = map_of ap k" by (auto simp: set_item_def update_conv')
  note m d' this
  then show ?thesis
    by (auto simp: meta_kept_def meta_entry_def autopilot_entry_def set_item_def update_conv' get_d_def split: option.splits)
qed

lemma meta_kept_fields:
  "''meta'' \<notin> fst ` set cs \<Longrightarrow> meta_kept d (fold (\<lambda>(f, old, new). set_item f new) cs d') = meta_kept d d'"
  by (simp add: meta_kept_def meta_entry_def autopilot_entry_def set_changes)

lemma merged_tags:
  assumes "merged_tags u xs = Inr ys"
  shows "ys = filter (\<lambda>t. t \<notin> JStr ` set (tu_remove u)) (xs @ filter (\<lambda>t. t \<notin> set xs) (map JStr (tu_add u)))"
  using assms by (auto simp: merged_tags_def Let_def split: if_splits)

lemma changed_at:
  "get_d (fold (\<lambda>(f, old, new). set_item f new) (changed f old v) d) f v0 = (case v of Some w \<Rightarrow> if w = old then get_d d f v0 else w | None \<Rightarrow> get_d d f v0)"
  by (simp add: changed_def split: option.split)

lemma tag_changeE:
  assumes "tag_change u d = Inr cs" and "get_d d ''tags'' (JList []) = JList xs"
  shows "\<forall>c\<in>set cs. fst c = ''tags'' \<and> fst (snd c) = JList xs"
  using assms by (auto simp: tag_change_def changed_def split: if_splits elim!: r_bind_InrE)

text \<open>What the update was asked for.\<close>

lemma update_effect:
  assumes tags: "tag_change u d = Inr tags" and xs: "get_d d ''tags'' (JList []) = JList xs"
    and same: "\<And>k v0. k \<noteq> ''meta'' \<Longrightarrow> get_d d2 k v0 = get_d d k v0"
    and d': "d' = fold (\<lambda>(f, old, new). set_item f new) (text_changes u d @ tags) d2"
  shows "get_d d' ''description'' (JStr []) = (case tu_description u of None \<Rightarrow> get_d d ''description'' (JStr []) | Some s \<Rightarrow> JStr s)"
    and "get_d d' ''acceptance_criteria'' (JList []) = (case tu_criteria u of None \<Rightarrow> get_d d ''acceptance_criteria'' (JList []) | Some cs \<Rightarrow> JList (map JStr cs))"
    and "get_d d' ''tags'' (JList []) = JList (filter (\<lambda>t. t \<notin> JStr ` set (tu_remove u)) (xs @ filter (\<lambda>t. t \<notin> set xs) (map JStr (tu_add u))))"
proof -
  have t: "get_d (fold (\<lambda>(f, old, new). set_item f new) tags e) ''tags'' (JList [])
      = JList (filter (\<lambda>t. t \<notin> JStr ` set (tu_remove u)) (xs @ filter (\<lambda>t. t \<notin> set xs) (map JStr (tu_add u))))"
    if "get_d e ''tags'' (JList []) = JList xs" for e
    using tags xs that by (auto simp: tag_change_def changed_at dest!: merged_tags split: if_splits elim!: r_bind_InrE)
  have "fst ` set tags \<subseteq> {''tags''}" using tag_changeE [OF tags xs] by auto
  then have rest: "get_d (fold (\<lambda>(f, old, new). set_item f new) tags e) k v0 = get_d e k v0" if "k \<noteq> ''tags''" for e k v0
    using that by (intro set_changes) auto
  have "get_d (fold (\<lambda>(f, old, new). set_item f new) (text_changes u d) d2) ''tags'' (JList []) = JList xs"
    using xs same by (subst set_changes) (auto simp: text_changes_def changed_def split: option.splits if_splits)
  from t [OF this] show "get_d d' ''tags'' (JList []) = JList (filter (\<lambda>t. t \<notin> JStr ` set (tu_remove u)) (xs @ filter (\<lambda>t. t \<notin> set xs) (map JStr (tu_add u))))"
    by (simp add: d')
  have other: "f \<notin> fst ` set (changed g old v)" if "f \<noteq> g" for f g old v using that by (auto simp: changed_def split: option.splits if_splits)
  show "get_d d' ''description'' (JStr []) = (case tu_description u of None \<Rightarrow> get_d d ''description'' (JStr []) | Some s \<Rightarrow> JStr s)"
    "get_d d' ''acceptance_criteria'' (JList []) = (case tu_criteria u of None \<Rightarrow> get_d d ''acceptance_criteria'' (JList []) | Some cs \<Rightarrow> JList (map JStr cs))"
    by (auto simp: d' rest text_changes_def changed_at set_changes other same split: option.split)
qed

text \<open>
  C35. An update does what it was asked, and nothing else, and is reversible: description and acceptance
  criteria are the given ones, the tags get the additions they lack and lose the removals; the edits it adds to
  the history, taken back newest first, restore the three fields, and fields it did not have to their
  defaults. Every other field of the task, every other entry of \<open>meta\<close> and of \<open>meta.autopilot\<close>, and the edits that
  were there stay as they are.
\<close>

theorem update_reversible:
  assumes "update_task_fields u ts d = Inr d'" and "autopilot_of d = Inr ap" and "sub_list ''edits'' ap = Inr es"
    and "get_d d ''tags'' (JList []) = JList xs"
  shows "\<exists>ap' new. autopilot_of d' = Inr ap' \<and> sub_list ''edits'' ap' = Inr (es @ new)
    \<and> get_d (undo_edits new d') ''description'' (JStr []) = get_d d ''description'' (JStr [])
    \<and> get_d (undo_edits new d') ''acceptance_criteria'' (JList []) = get_d d ''acceptance_criteria'' (JList [])
    \<and> get_d (undo_edits new d') ''tags'' (JList []) = get_d d ''tags'' (JList [])
    \<and> get_d d' ''description'' (JStr []) = (case tu_description u of None \<Rightarrow> get_d d ''description'' (JStr []) | Some s \<Rightarrow> JStr s)
    \<and> get_d d' ''acceptance_criteria'' (JList []) = (case tu_criteria u of None \<Rightarrow> get_d d ''acceptance_criteria'' (JList []) | Some cs \<Rightarrow> JList (map JStr cs))
    \<and> get_d d' ''tags'' (JList []) = JList (filter (\<lambda>t. t \<notin> JStr ` set (tu_remove u)) (xs @ filter (\<lambda>t. t \<notin> set xs) (map JStr (tu_add u))))
    \<and> (\<forall>k. k \<notin> {''meta'', ''description'', ''acceptance_criteria'', ''tags''} \<longrightarrow> (\<forall>v0. get_d d' k v0 = get_d d k v0))
    \<and> (\<forall>k. k \<noteq> ''autopilot'' \<longrightarrow> meta_entry d' k = meta_entry d k)
    \<and> (\<forall>k. k \<noteq> ''edits'' \<longrightarrow> autopilot_entry d' k = autopilot_entry d k)"
proof -
  let ?texts = "text_changes u d"
  let ?E = "map (\<lambda>(f, old, new). edit_entry f old new ts (tu_run u))"
  obtain d1 tags d2 where d1: "snapshot u ts ?texts d = Inr d1" and tags: "tag_change u d = Inr tags"
    and d2: "snapshot u ts tags d1 = Inr d2" and d': "d' = fold (\<lambda>(f, old, new). set_item f new) (?texts @ tags) d2"
    using assms(1) by (auto simp: update_task_fields_def Let_def elim!: r_bind_InrE)
  obtain ap1 v where ap1: "autopilot_of d1 = Inr ap1" "sub_list ''edits'' ap1 = Inr (es @ ?E ?texts)" "d1 = set_item ''meta'' v d"
    by (rule snapshotE [OF d1 assms(2,3)])
  obtain ap2 w where ap2: "autopilot_of d2 = Inr ap2" "sub_list ''edits'' ap2 = Inr ((es @ ?E ?texts) @ ?E tags)"
    "d2 = set_item ''meta'' w d1"
    by (rule snapshotE [OF d2 ap1(1,2)])
  have fields: "fst ` set (?texts @ tags) \<subseteq> {''description'', ''acceptance_criteria'', ''tags''}"
    using tag_changeE [OF tags assms(4)] by (auto simp: text_changes_def changed_def split: option.splits if_splits)
  have "''meta'' \<notin> fst ` set (?texts @ tags)" using fields by auto
  then have "get_d d' ''meta'' v0 = get_d d2 ''meta'' v0" for v0
    unfolding d' by (rule set_changes)
  then have same: "autopilot_of d' = autopilot_of d2" by (simp add: autopilot_of_def sub_object_def)
  have other: "get_d d' k v0 = get_d d k v0" if "k \<notin> fst ` set (?texts @ tags)" "k \<noteq> ''meta''" for k v0
  proof -
    have "get_d d' k v0 = get_d d2 k v0" unfolding d' by (rule set_changes) (rule that(1))
    then show ?thesis using that(2) ap1(3) ap2(3) by simp
  qed
  have undo: "get_d (undo_edits (?E ?texts @ ?E tags) d') k v0 = get_d d k v0"
    if "k \<noteq> ''meta''" and "\<And>old new. map_of (?texts @ tags) k = Some (old, new) \<Longrightarrow> old = get_d d k v0" for k v0
  proof (cases "map_of (?texts @ tags) k")
    case None
    then have "k \<notin> fst ` set (?texts @ tags)" by (simp only: map_of_eq_None_iff not_False_eq_True)
    with None that(1) other show ?thesis by (simp only: map_append [symmetric] undo_changes option.case)
  next
    case (Some p)
    then show ?thesis
      using that(2) by (cases p) (simp only: map_append [symmetric] undo_changes option.case prod.case)
  qed
  have old: "map_of (?texts @ tags) k = Some (old, new) \<Longrightarrow> old = get_d d k v0"
    if "(k, v0) \<in> {(''description'', JStr []), (''acceptance_criteria'', JList []), (''tags'', JList [])}" for k v0 old new
    using that tag_changeE [OF tags assms(4)] assms(4) 
    by (auto simp: text_changes_def changed_def dest!: map_of_SomeD split: option.splits if_splits)
  have "get_d (undo_edits (?E ?texts @ ?E tags) d') ''description'' (JStr []) = get_d d ''description'' (JStr [])"
    by (rule undo) (simp, rule old, simp)
  moreover have "get_d (undo_edits (?E ?texts @ ?E tags) d') ''acceptance_criteria'' (JList []) = get_d d ''acceptance_criteria'' (JList [])"
    by (rule undo) (simp, rule old, simp)
  moreover have "get_d (undo_edits (?E ?texts @ ?E tags) d') ''tags'' (JList []) = get_d d ''tags'' (JList [])"
    by (rule undo) (simp, rule old, simp)
  moreover have "\<forall>k. k \<notin> {''meta'', ''description'', ''acceptance_criteria'', ''tags''} \<longrightarrow> (\<forall>v0. get_d d' k v0 = get_d d k v0)"
    using other fields by blast
  moreover have "meta_kept d d2" using snapshot_meta [OF d1] snapshot_meta [OF d2] by (simp add: meta_kept_def)
  then have "meta_kept d d'" unfolding d' meta_kept_fields [OF \<open>''meta'' \<notin> fst ` set (?texts @ tags)\<close>] .
  moreover have "get_d d2 k v0 = get_d d k v0" if "k \<noteq> ''meta''" for k v0 using that ap1(3) ap2(3) by simp
  note update_effect [OF tags assms(4) this d']
  ultimately show ?thesis
    using ap2(1,2) same unfolding meta_kept_def by - (rule exI [of _ ap2], rule exI [of _ "?E ?texts @ ?E tags"], simp)
qed

theorem update_reversible_witness:
  "\<exists>d' new. update_task_fields \<lparr>tu_description = Some ''new'', tu_criteria = None, tu_add = [''b''], tu_remove = [''a''], tu_run = None\<rparr> ''t''
       [(''description'', JStr ''old''), (''tags'', JList [JStr ''a''])] = Inr d'
     \<and> get d' ''description'' = JStr ''new''
     \<and> get_d (undo_edits new d') ''description'' (JStr []) = JStr ''old'' \<and> get_d (undo_edits new d') ''tags'' (JList []) = JList [JStr ''a'']"
proof -
  let ?u = "\<lparr>tu_description = Some ''new'', tu_criteria = None, tu_add = [''b''], tu_remove = [''a''], tu_run = None\<rparr>"
  let ?d = "[(''description'', JStr ''old''), (''tags'', JList [JStr ''a''])]"
  have "case update_task_fields ?u ''t'' ?d of Inr d' \<Rightarrow> get d' ''description'' = JStr ''new'' | _ \<Rightarrow> False" by code_simp
  then obtain d' where d': "update_task_fields ?u ''t'' ?d = Inr d'" "get d' ''description'' = JStr ''new''"
    by (auto split: sum.splits)
  have "autopilot_of ?d = Inr []" "sub_list ''edits'' [] = Inr []" "get_d ?d ''tags'' (JList []) = JList [JStr ''a'']"
    by (simp_all add: autopilot_of_def sub_object_def sub_list_def)
  from update_reversible [OF d'(1) this] obtain new where
    "get_d (undo_edits new d') ''description'' (JStr []) = get_d ?d ''description'' (JStr [])"
    "get_d (undo_edits new d') ''tags'' (JList []) = get_d ?d ''tags'' (JList [])" by blast
  with d' show ?thesis by (intro exI [of _ d'] exI [of _ new]) simp
qed

theorem attempts_bounded_witness:
  "\<exists>d' ap' ys. record_attempt ''r1'' 1 ''ci_red'' ''x'' ''y'' [] ''t'' [(''title'', JStr ''a'')] = Inr d'
     \<and> autopilot_of d' = Inr ap' \<and> sub_list ''attempts'' ap' = Inr ys \<and> length ys \<le> 10 \<and> get d' ''title'' = JStr ''a''"
proof -
  let ?d = "[(''title'', JStr ''a'')]"
  have "case record_attempt ''r1'' 1 ''ci_red'' ''x'' ''y'' [] ''t'' ?d of Inr d' \<Rightarrow> True | _ \<Rightarrow> False" by code_simp
  then obtain d' where d': "record_attempt ''r1'' 1 ''ci_red'' ''x'' ''y'' [] ''t'' ?d = Inr d'"
    by (auto split: sum.splits)
  have "autopilot_of ?d = Inr []" "sub_list ''attempts'' [] = Inr []"
    by (simp_all add: autopilot_of_def sub_object_def sub_list_def)
  from attempts_bounded [OF d' this] d' show ?thesis by fastforce
qed

text \<open>
  The file of a task is found by the prefix of its name: when the identifier of one task followed by a
  dash begins that of another, a mutation of the first can rewrite the file of the second.
\<close>

definition two_tasks :: task_files where
  "two_tasks = \<lparr>tf_files = [(''ab-cd-one.json'', CoreJson (JObj [(''id'', JStr ''ab-cd'')])),
     (''ab-two.json'', CoreJson (JObj [(''id'', JStr ''ab'')]))], tf_ticks = 0\<rparr>"

theorem prefix_finds_other_task:
  "(let run = write_task_raw (\<lambda>n. ''t'') ''ab'' (close_obsolete ''gone'' None) two_tasks
    in fst run = Inr ''ab-cd-one.json''
     \<and> map_of (tf_files (snd run)) ''ab-two.json'' = map_of (tf_files two_tasks) ''ab-two.json''
     \<and> map_of (tf_files (snd run)) ''ab-cd-one.json'' \<noteq> map_of (tf_files two_tasks) ''ab-cd-one.json'')"
  by code_simp

end
