(* ===== verification/Board_State.thy ===== *)
theory Board_State
  imports Card_Store Card_Projection
begin

text \<open>
  The coordination board (\<open>coordination.py\<close>): task files, agent files, the archive index and the card
  store, and the views the board derives from them: the legacy projection of tasks and agents, the
  projection of the stored cards, and the choice between the two. A task file is its parsed task, or
  \<open>None\<close> if it is malformed; an agent file is the JSON it holds.
\<close>

section \<open>Agent files\<close>

datatype agent_state = AActive | AIdle | AOffline

fun agent_state_value :: "agent_state \<Rightarrow> string" where
  "agent_state_value AActive = ''active''"
| "agent_state_value AIdle = ''idle''"
| "agent_state_value AOffline = ''offline''"

record agent_file =
  ag_name :: string
  ag_last_seen :: string
  ag_host :: string
  ag_state :: agent_state
  ag_current :: "string option"
  ag_claimed :: "string list"
  ag_completed :: "string list"
  ag_capabilities :: "string list"
  ag_itil :: "string list"
  ag_notes :: string

definition agent_name_ok :: "string \<Rightarrow> bool" where
  "agent_name_ok s \<longleftrightarrow> s \<noteq> [] \<and> is_alnum (hd s) \<and> is_alnum (last s) \<and> length s \<le> 128
     \<and> list_all (\<lambda>c. is_alnum c \<or> c \<in> set ''_.-'') s"

definition validate_agent_name :: "string \<Rightarrow> string result" where
  "validate_agent_name s = (if agent_name_ok s then Inr s
     else Inl (ValueError ''agent name must be a canonical filename stem''))"

text \<open>The outcome \<open>completed\<close> of older files counts as idle.\<close>

definition agent_state_of :: "json \<Rightarrow> agent_state result" where
  "agent_state_of v =
     (if v = JStr ''completed'' then Inr AIdle
      else case find (\<lambda>s. JStr (agent_state_value s) = v) [AActive, AIdle, AOffline] of
        Some s \<Rightarrow> Inr s | None \<Rightarrow> Inl ValidationError)"

definition text_list_field :: "string \<Rightarrow> jobj \<Rightarrow> string list result" where
  "text_list_field k d = (case get_d d k (JList []) of JList xs \<Rightarrow> as_str_list xs | _ \<Rightarrow> Inl ValidationError)"

text \<open>\<open>AgentFile.model_validate\<close>; the defaults are the time and the host.\<close>

definition parse_agent :: "string \<Rightarrow> string \<Rightarrow> json \<Rightarrow> agent_file result" where
  "parse_agent now host v =
     (case v of
        JObj d \<Rightarrow>
          r_bind (as_str (get d ''agent'')) (\<lambda>name.
          if \<not> agent_name_ok name then Inl ValidationError else
          r_bind (as_str (get_d d ''last_seen'' (JStr now))) (\<lambda>seen.
          r_bind (as_str (get_d d ''host'' (JStr host))) (\<lambda>h.
          r_bind (agent_state_of (get_d d ''state'' (JStr ''active''))) (\<lambda>st.
          r_bind (as_opt_str (get d ''current_task'')) (\<lambda>cur.
          r_bind (text_list_field ''claimed_tasks'' d) (\<lambda>claimed.
          r_bind (text_list_field ''completed_tasks'' d) (\<lambda>completed.
          r_bind (text_list_field ''capabilities'' d) (\<lambda>caps.
          r_bind (text_list_field ''itil_claims'' d) (\<lambda>itil.
          r_bind (as_str (get_d d ''notes'' (JStr []))) (\<lambda>notes.
          Inr \<lparr>ag_name = name, ag_last_seen = seen, ag_host = h, ag_state = st, ag_current = cur, ag_claimed = claimed,
               ag_completed = completed, ag_capabilities = caps, ag_itil = itil, ag_notes = notes\<rparr>))))))))))
      | _ \<Rightarrow> Inl ValidationError)"

definition dump_agent :: "agent_file \<Rightarrow> json" where
  "dump_agent a = JObj [(''agent'', JStr (ag_name a)), (''last_seen'', JStr (ag_last_seen a)), (''host'', JStr (ag_host a)),
     (''state'', JStr (agent_state_value (ag_state a))), (''current_task'', of_opt_str (ag_current a)),
     (''claimed_tasks'', JList (map JStr (ag_claimed a))), (''completed_tasks'', JList (map JStr (ag_completed a))),
     (''capabilities'', JList (map JStr (ag_capabilities a))), (''itil_claims'', JList (map JStr (ag_itil a))),
     (''notes'', JStr (ag_notes a))]"

text \<open>\<open>AgentFile(agent=name)\<close>.\<close>

definition new_agent :: "string \<Rightarrow> string \<Rightarrow> string \<Rightarrow> agent_file" where
  "new_agent now host name = \<lparr>ag_name = name, ag_last_seen = now, ag_host = host, ag_state = AActive, ag_current = None,
     ag_claimed = [], ag_completed = [], ag_capabilities = [], ag_itil = [], ag_notes = []\<rparr>"

section \<open>The board\<close>

text \<open>
  What an operation that the card store mirrors may meet from outside: nothing, an exception before
  anything is written, or one after the event is on disk.
\<close>

datatype fault = NoFault | FailBefore | FailAfter

record board_env =
  be_store :: store_env
  be_flag :: string
  be_why :: "py_error \<Rightarrow> string"
  be_fault :: "nat \<Rightarrow> fault"

record board =
  bo_store :: store
  bo_tasks :: "(string \<times> task_view option) list"
  bo_agents :: "(string \<times> core_file) list"
  bo_recovery :: "jobj list"
  bo_mirrors :: nat

text \<open>The clock, and the random identifiers.\<close>

definition board_now :: "board_env \<Rightarrow> board \<Rightarrow> string" where
  "board_now env b = se_clock (be_store env) (so_ticks (bo_store b))"

definition next_tick :: "board \<Rightarrow> board" where
  "next_tick b = b\<lparr>bo_store := (bo_store b)\<lparr>so_ticks := so_ticks (bo_store b) + 1\<rparr>\<rparr>"

definition bo_uuid :: "board_env \<Rightarrow> (board, string) op" where
  "bo_uuid env = op_bind (op_read (\<lambda>b. se_uuid (be_store env) (so_ids (bo_store b)))) (\<lambda>u.
     op_bind (op_write (\<lambda>b. b\<lparr>bo_store := (bo_store b)\<lparr>so_ids := so_ids (bo_store b) + 1\<rparr>\<rparr>)) (\<lambda>_. op_return u))"

definition on_store :: "(store, 'a) op \<Rightarrow> (board, 'a) op" where
  "on_store m = (\<lambda>b. case m (bo_store b) of (r, st) \<Rightarrow> (r, b\<lparr>bo_store := st\<rparr>))"

section \<open>Reading and writing agents\<close>

definition agent_path :: "string \<Rightarrow> string" where
  "agent_path name = name @ ''.json''"

definition read_agent :: "board_env \<Rightarrow> board \<Rightarrow> string \<Rightarrow> core_file \<Rightarrow> agent_file result" where
  "read_agent env b stem f =
     (case f of CoreBad \<Rightarrow> Inl (ValueError ''JSONDecodeError'')
      | CoreJson v \<Rightarrow> r_bind (parse_agent (board_now env b) (se_host (be_store env)) v) (\<lambda>a.
          if ag_name a \<noteq> stem then Inl (ValueError ''agent payload identity does not match its filename'') else Inr a))"

text \<open>\<open>SYNC_CONFLICT_RE.search\<close>: \<open>.sync-conflict-<8 digits>-<6 digits>-<letters and digits>\<close>, then a dot or the end.\<close>

definition is_digit :: "char \<Rightarrow> bool" where
  "is_digit c = (let n = (of_char c :: nat) in 48 \<le> n \<and> n \<le> 57)"

definition conflict_tail :: "string \<Rightarrow> bool" where
  "conflict_tail s \<longleftrightarrow> starts_with s ''.sync-conflict-''
     \<and> (let a = drop 15 s; b = drop 9 a; c = drop 7 b; w = takeWhile is_alnum c; r = dropWhile is_alnum c in
         length (takeWhile is_digit (take 8 a)) = 8 \<and> starts_with (drop 8 a) ''-''
       \<and> length (takeWhile is_digit (take 6 b)) = 6 \<and> starts_with (drop 6 b) ''-''
       \<and> w \<noteq> [] \<and> (r = [] \<or> hd r = CHR ''.'' \<or> r = [CHR 0x0A]))"

fun conflict_copy :: "string \<Rightarrow> bool" where
  "conflict_copy [] = False"
| "conflict_copy (c # s) = (conflict_tail (c # s) \<or> conflict_copy s)"

definition stem_of :: "string \<Rightarrow> string" where
  "stem_of n = take (length n - 5) n"

definition is_json_name :: "string \<Rightarrow> bool" where
  "is_json_name n \<longleftrightarrow> 5 \<le> length n \<and> drop (length n - 5) n = ''.json''"

text \<open>Malformed files are skipped.\<close>

definition load_agents :: "board_env \<Rightarrow> board \<Rightarrow> agent_file list" where
  "load_agents env b =
     List.map_filter (\<lambda>(n, f). if conflict_copy n then None
        else case read_agent env b (stem_of n) f of Inl _ \<Rightarrow> None | Inr a \<Rightarrow> Some a)
       (sort_key fst (filter (\<lambda>(n, f). is_json_name n) (bo_agents b)))"

definition load_agent :: "board_env \<Rightarrow> string \<Rightarrow> board \<Rightarrow> agent_file option result" where
  "load_agent env name b =
     r_bind (validate_agent_name name) (\<lambda>n. case map_of (bo_agents b) (agent_path n) of
        None \<Rightarrow> Inr None
      | Some f \<Rightarrow> r_bind (read_agent env b n f) (\<lambda>a. Inr (Some a)))"

definition save_agent :: "board_env \<Rightarrow> agent_file \<Rightarrow> (board, agent_file) op" where
  "save_agent env a = op_bind (op_read (\<lambda>b. a\<lparr>ag_last_seen := board_now env b\<rparr>)) (\<lambda>a'.
     op_bind (op_write next_tick) (\<lambda>_.
     op_bind (op_result (\<lambda>_. validate_agent_name (ag_name a'))) (\<lambda>n.
     op_bind (op_write (\<lambda>b. b\<lparr>bo_agents := AList.update (agent_path n) (CoreJson (dump_agent a')) (bo_agents b)\<rparr>)) (\<lambda>_.
     op_return a'))))"

section \<open>Tasks and the archive index\<close>

text \<open>One index file: the identifiers up to the first line that raises.\<close>

fun archived_in :: "store_line list \<Rightarrow> json list" where
  "archived_in [] = []"
| "archived_in (SLine t v # ls) =
     (if t = [] then archived_in ls
      else case v of
        Some (JObj d) \<Rightarrow>
          (if \<not> truthy (get d ''id'') then archived_in ls
           else if hashable (get d ''id'') then get d ''id'' # archived_in ls else [])
      | _ \<Rightarrow> [])"

definition archived_ids :: "board \<Rightarrow> json set" where
  "archived_ids b = set (concat (map (archived_in \<circ> snd) (filter (\<lambda>(n, ls). jsonl n) (so_archive (bo_store b)))))"

definition load_tasks :: "bool \<Rightarrow> board \<Rightarrow> task_view list" where
  "load_tasks include_archived b =
     filter (\<lambda>t. include_archived \<or> JStr (tv_id t) \<notin> archived_ids b)
       (List.map_filter (\<lambda>(n, t). if conflict_copy n then None else t)
         (sort_key fst (filter (\<lambda>(n, t). is_json_name n) (bo_tasks b))))"

section \<open>The legacy projection\<close>

text \<open>\<open>current_acceptance_criteria\<close>: the fold decides; a known card without a core is an error.\<close>

definition current_criteria :: "store_env \<Rightarrow> store \<Rightarrow> task_view \<Rightarrow> string list result" where
  "current_criteria env st t =
     r_bind (cs_fold env st (tv_id t)) (\<lambda>c. case c of
        Some kc \<Rightarrow> Inr (texts_of (cd_criteria kc))
      | None \<Rightarrow> if map_of (so_cards st) (tv_id t) = None then Inr (tv_criteria t)
                else Inl (ValueError ''CardStore core is missing''))"

text \<open>The dependency amendments of all tasks, or of none if one of them cannot be folded.\<close>

definition amended_tasks :: "store_env \<Rightarrow> store \<Rightarrow> task_view list \<Rightarrow> task_view list" where
  "amended_tasks env st ts =
     (case r_map (\<lambda>t. r_bind (current_dependencies env (tv_id t) (tv_dependencies t) st) (\<lambda>ds.
         Inr (t\<lparr>tv_dependencies := texts_of ds\<rparr>))) ts of Inl _ \<Rightarrow> ts | Inr ts' \<Rightarrow> ts')"

text \<open>\<open>claimed_map\<close>, and the two sets; a later agent's claim replaces an earlier one's.\<close>

definition claims_of :: "agent_file \<Rightarrow> string list" where
  "claims_of a = ag_claimed a @ (case ag_current a of None \<Rightarrow> [] | Some t \<Rightarrow> if t = [] then [] else [t])"

definition claimed_by :: "agent_file list \<Rightarrow> string \<Rightarrow> string option" where
  "claimed_by as t = map_option ag_name (find (\<lambda>a. t \<in> set (claims_of a)) (rev as))"

definition in_progress :: "agent_file list \<Rightarrow> string \<Rightarrow> bool" where
  "in_progress as t \<longleftrightarrow> t \<noteq> [] \<and> list_ex (\<lambda>a. ag_current a = Some t) as"

definition derived_status :: "agent_file list \<Rightarrow> string \<Rightarrow> task_status" where
  "derived_status as t =
     (if list_ex (\<lambda>a. t \<in> set (ag_completed a)) as then TDone
      else if in_progress as t then TInProgress
      else if claimed_by as t \<noteq> None then TClaimed
      else TOpen)"

definition legacy_task_views :: "board_env \<Rightarrow> bool \<Rightarrow> board \<Rightarrow> task_view list result" where
  "legacy_task_views env include_archived b =
     r_bind (r_map (\<lambda>t. r_bind (current_criteria (be_store env) (bo_store b) t) (\<lambda>cs. Inr (t\<lparr>tv_criteria := cs\<rparr>)))
         (load_tasks include_archived b)) (\<lambda>ts.
     let as = load_agents env b in
     Inr (map (\<lambda>t. t\<lparr>tv_status := derived_status as (tv_id t), tv_claimed_by := claimed_by as (tv_id t)\<rparr>)
       (amended_tasks (be_store env) (bo_store b) ts)))"

section \<open>The projection of the stored cards\<close>

definition card_store_write_enabled :: "board_env \<Rightarrow> bool" where
  "card_store_write_enabled env \<longleftrightarrow> lower (strip (be_flag env)) \<notin> {''0'', ''off'', ''false'', ''no''}"

definition card_store_read_enabled :: "board_env \<Rightarrow> bool" where
  "card_store_read_enabled env \<longleftrightarrow> card_store_write_enabled env \<and> lower (strip (be_flag env)) \<noteq> ''dual''"

fun column_to_status :: "column \<Rightarrow> task_status" where
  "column_to_status Backlog = TOpen"
| "column_to_status Ready = TClaimed"
| "column_to_status Doing = TInProgress"
| "column_to_status Review = TReview"
| "column_to_status Done = TDone"

definition priority_or_medium :: "json \<Rightarrow> string" where
  "priority_or_medium v = (case v of
     JStr s \<Rightarrow> if s \<in> {''critical'', ''high'', ''medium'', ''low''} then s else ''medium'' | _ \<Rightarrow> ''medium'')"

text \<open>The model's fields are validated: a card with a field of another type raises.\<close>

definition task_view_from_card :: "card \<Rightarrow> task_view result" where
  "task_view_from_card c =
     r_bind (as_str (cd_title c)) (\<lambda>title.
     r_bind (as_str (cd_description c)) (\<lambda>descr.
     r_bind (as_str_list (cd_labels c)) (\<lambda>tags.
     r_bind (as_str_list (cd_criteria c)) (\<lambda>criteria.
     r_bind (as_str_list (cd_dependencies c)) (\<lambda>deps.
     r_bind (as_opt_str (cd_owner c)) (\<lambda>owner.
     Inr \<lparr>tv_id = cd_id c, tv_title = title, tv_description = descr, tv_priority = priority_or_medium (cd_priority c),
          tv_tags = tags, tv_created_by = cd_originator c, tv_created_at = cd_created_at c, tv_criteria = criteria,
          tv_dependencies = deps,
          tv_meta = (if truthy (cd_updated_at c) \<and> \<not> has_key (cd_meta c) ''_board_updated_at''
                     then set_item ''_board_updated_at'' (cd_updated_at c) (cd_meta c) else cd_meta c),
          tv_status = column_to_status (cd_status c), tv_claimed_by = owner\<rparr>))))))"

definition task_views_from_store :: "board_env \<Rightarrow> bool \<Rightarrow> store \<Rightarrow> task_view list result" where
  "task_views_from_store env include_archived st =
     r_bind (cs_list_cards (be_why env) (be_store env) include_archived True st) (\<lambda>cs.
       r_map task_view_from_card (filter (\<lambda>c. cd_kind c \<in> {Task, Epic}) cs))"

text \<open>
  The store serves the board; an exception, or an empty result while task files exist, falls back to the
  legacy projection.
\<close>

definition get_task_views :: "board_env \<Rightarrow> bool \<Rightarrow> board \<Rightarrow> task_view list result" where
  "get_task_views env include_archived b =
     (if card_store_read_enabled env
      then case task_views_from_store env include_archived (bo_store b) of
          Inl _ \<Rightarrow> legacy_task_views env include_archived b
        | Inr vs \<Rightarrow> if vs \<noteq> [] \<or> \<not> list_ex (\<lambda>(n, t). is_json_name n) (bo_tasks b) then Inr vs
                    else legacy_task_views env include_archived b
      else legacy_task_views env include_archived b)"

end
