(* ===== verification/Board_Claims.thy ===== *)
theory Board_Claims
  imports Board_State
begin

text \<open>
  Claiming, releasing and completing a task (\<open>Board.claim_task\<close>, \<open>release_claim\<close>, \<open>complete_task\<close>): the checks,
  the agent's file, the mirror into the card store, and the recovery when the mirror fails. The board
  and card locks make each of them one step; what can fail inside is a schedule of faults.
\<close>

section \<open>Mirrors and recovery\<close>

text \<open>\<open>try: m except Exception as e: h(e)\<close>.\<close>

definition op_try :: "('s, 'a) op \<Rightarrow> (py_error \<Rightarrow> ('s, 'a) op) \<Rightarrow> ('s, 'a) op" where
  "op_try m h = (\<lambda>s. case m s of (Inl e, s') \<Rightarrow> h e s' | (Inr x, s') \<Rightarrow> (Inr x, s'))"

definition injected :: py_error where
  "injected = RuntimeError ''injected''"

text \<open>\<open>_mirror_card_store\<close> of an operation that fails closed.\<close>

definition mirrored :: "board_env \<Rightarrow> (store, 'a) op \<Rightarrow> (board, unit) op" where
  "mirrored env m =
     (if \<not> card_store_write_enabled env then op_return ()
      else op_bind (op_read bo_mirrors) (\<lambda>k. op_bind (op_write (\<lambda>b. b\<lparr>bo_mirrors := bo_mirrors b + 1\<rparr>)) (\<lambda>_.
        case be_fault env k of
          NoFault \<Rightarrow> op_bind (on_store m) (\<lambda>_. op_return ())
        | FailBefore \<Rightarrow> op_raise injected
        | FailAfter \<Rightarrow> op_bind (on_store m) (\<lambda>_. op_raise injected))))"

text \<open>A move mirrored for a task that is \<open>None\<close> stops at the identifier check.\<close>

definition demote :: "board_env \<Rightarrow> string option \<Rightarrow> string \<Rightarrow> string \<Rightarrow> (store, jobj) op" where
  "demote env tid agent transition = (case tid of None \<Rightarrow> op_raise bad_identifier
     | Some t \<Rightarrow> mirror_move (be_store env) t ''ready'' agent JNull transition)"

definition snapshot_agent :: "string \<Rightarrow> board \<Rightarrow> core_file option" where
  "snapshot_agent name b = map_of (bo_agents b) (agent_path name)"

definition restore_agent :: "string \<Rightarrow> core_file option \<Rightarrow> board \<Rightarrow> board" where
  "restore_agent name original b = b\<lparr>bo_agents := (case original of
      Some f \<Rightarrow> AList.update (agent_path name) f (bo_agents b)
    | None \<Rightarrow> filter (\<lambda>(n, f). n \<noteq> agent_path name) (bo_agents b))\<rparr>"

type_synonym transitions = "(string option \<times> string) list"

text \<open>\<open>_recover_store_failure\<close>: a record of the intent, the restored file, a record of the outcome.\<close>

definition recover_store_failure ::
    "board_env \<Rightarrow> string \<Rightarrow> string \<Rightarrow> string \<Rightarrow> string \<Rightarrow> core_file option \<Rightarrow> py_error \<Rightarrow> transitions \<Rightarrow> (board, unit) op" where
  "recover_store_failure env operation tid owner actor original err transitions =
     op_bind (bo_uuid env) (\<lambda>rid. op_bind (op_read (board_now env)) (\<lambda>now. op_bind (op_write next_tick) (\<lambda>_.
     let record = (\<lambda>phase. [(''record_id'', JStr rid), (''operation'', JStr operation), (''task_id'', JStr tid),
           (''owner'', JStr owner), (''actor'', JStr actor), (''phase'', JStr phase), (''error'', JStr (be_why env err)),
           (''legacy_snapshot_present'', JBool (original \<noteq> None)),
           (''transition_ids'', JList (map (\<lambda>(t, x). JObj [(''task_id'', of_opt_str t), (''transition_id'', JStr x)]) transitions)),
           (''recorded_at'', JStr now)])
     in op_bind (op_write (\<lambda>b. b\<lparr>bo_recovery := bo_recovery b @ [record ''card_store_write_uncertain'']\<rparr>)) (\<lambda>_.
        op_bind (op_write (restore_agent owner original)) (\<lambda>_.
        op_write (\<lambda>b. b\<lparr>bo_recovery := bo_recovery b @ [record ''legacy_restored_card_store_uncertain'']\<rparr>))))))"

definition transitions_durable :: "store_env \<Rightarrow> transitions \<Rightarrow> store \<Rightarrow> bool result" where
  "transitions_durable env ts st = r_fold (\<lambda>ok (t, x). if \<not> ok then Inr False
     else case t of None \<Rightarrow> Inl bad_identifier | Some c \<Rightarrow> has_transition env st c x) True ts"

fun states_reached :: "store_env \<Rightarrow> (string option \<times> json \<times> column) list \<Rightarrow> store \<Rightarrow> bool result" where
  "states_reached env [] st = Inr True"
| "states_reached env ((t, owner, col) # es) st =
     (case t of None \<Rightarrow> Inl bad_identifier
      | Some c \<Rightarrow> r_bind (cs_fold env st c) (\<lambda>kc. case kc of
          None \<Rightarrow> Inr False
        | Some k \<Rightarrow> if cd_owner k = owner \<and> cd_status k = col then states_reached env es st else Inr False))"

definition transitions_applied ::
    "store_env \<Rightarrow> transitions \<Rightarrow> (string option \<times> json \<times> column) list \<Rightarrow> store \<Rightarrow> bool result" where
  "transitions_applied env ts es st = r_bind (transitions_durable env ts st) (\<lambda>ok.
     if ok then states_reached env es st else Inr False)"

section \<open>The claim gate\<close>

definition terminal_refusals :: "string list" where
  "terminal_refusals = [''absent'', ''voided'', ''archived'', ''done'']"

definition unclaimable_absent :: "store_env \<Rightarrow> string \<Rightarrow> store \<Rightarrow> py_error result" where
  "unclaimable_absent env tid st = r_bind (cs_fold env st tid) (\<lambda>c. Inr (TaskUnclaimable tid (case c of
      None \<Rightarrow> ''absent''
    | Some k \<Rightarrow> if truthy (get (cd_meta k) ''voided'') then ''voided''
                else if cd_archived k then ''archived'' else ''inconsistent'')))"

definition claim_refused :: "task_view \<Rightarrow> string \<Rightarrow> bool" where
  "claim_refused v agent \<longleftrightarrow>
     (let ownerless = (tv_claimed_by v = None \<and> tv_status v \<in> {TClaimed, TInProgress, TReview}) in
      tv_status v \<in> {TDone, TClaimed, TInProgress, TReview} \<and> \<not> ownerless \<and> tv_claimed_by v \<noteq> Some agent)"

text \<open>\<open>dep_views.get(dep)\<close>: the last view with the identifier.\<close>

definition view_of :: "task_view list \<Rightarrow> string \<Rightarrow> task_view option" where
  "view_of vs t = find (\<lambda>v. tv_id v = t) (rev vs)"

definition incomplete_dependencies :: "task_view list \<Rightarrow> task_view \<Rightarrow> string list" where
  "incomplete_dependencies vs v =
     filter (\<lambda>d. case view_of vs d of None \<Rightarrow> True | Some w \<Rightarrow> tv_status w \<noteq> TDone) (tv_dependencies v)"

definition claim_gate :: "board_env \<Rightarrow> string \<Rightarrow> string \<Rightarrow> board \<Rightarrow> task_view result" where
  "claim_gate env agent tid b =
     r_bind (get_task_views env False b) (\<lambda>vs. case find (\<lambda>v. tv_id v = tid) vs of
        None \<Rightarrow> r_bind (unclaimable_absent (be_store env) tid (bo_store b)) Inl
      | Some v \<Rightarrow>
          if claim_refused v agent
          then Inl (TaskUnclaimable tid (if tv_status v = TDone then ''done'' else ''owned''))
          else if tv_dependencies v = [] then Inr v
          else r_bind (get_task_views env True b) (\<lambda>ds.
            if incomplete_dependencies ds v \<noteq> [] then Inl (TaskUnclaimable tid ''dependencies'') else Inr v))"

definition bumped_task :: "agent_file \<Rightarrow> string \<Rightarrow> string option" where
  "bumped_task a tid = (case ag_current a of None \<Rightarrow> None | Some c \<Rightarrow> if c = tid then None else Some c)"

definition take_task :: "agent_file \<Rightarrow> string \<Rightarrow> bool \<Rightarrow> agent_file" where
  "take_task a tid drop_bumped =
     (let kept = (if drop_bumped \<and> bumped_task a tid \<noteq> None
                  then filter (\<lambda>t. Some t \<noteq> bumped_task a tid) (ag_claimed a) else ag_claimed a)
      in a\<lparr>ag_claimed := add_new kept tid, ag_current := Some tid, ag_state := AActive\<rparr>)"

definition agent_or_new :: "board_env \<Rightarrow> string \<Rightarrow> board \<Rightarrow> agent_file result" where
  "agent_or_new env name b = r_bind (load_agent env name b) (\<lambda>a. case a of
     Some x \<Rightarrow> Inr x
   | None \<Rightarrow> r_bind (validate_agent_name name) (\<lambda>n. Inr (new_agent (board_now env b) (se_host (be_store env)) n)))"

definition claim_projection :: "board_env \<Rightarrow> string \<Rightarrow> string \<Rightarrow> bool \<Rightarrow> (board, agent_file \<times> string option) op" where
  "claim_projection env name tid drop_bumped =
     op_bind (op_result (claim_gate env name tid)) (\<lambda>_.
     op_bind (op_result (agent_or_new env name)) (\<lambda>a.
     op_bind (save_agent env (take_task a tid drop_bumped)) (\<lambda>a'.
     op_return (a', bumped_task a tid))))"

section \<open>Claiming\<close>

definition card_lock :: "board_env \<Rightarrow> string \<Rightarrow> board \<Rightarrow> unit result" where
  "card_lock env cid b =
     (if \<not> valid_identifier cid then Inl bad_identifier
      else if card_store_write_enabled env then lock_anchor cid (bo_store b) else Inr ())"

definition fold_if :: "bool \<Rightarrow> board_env \<Rightarrow> string option \<Rightarrow> board \<Rightarrow> card option result" where
  "fold_if enabled env tid b = (case tid of None \<Rightarrow> Inr None
     | Some t \<Rightarrow> if enabled then cs_fold (be_store env) (bo_store b) t else Inr None)"

text \<open>The card, if the agent owns it in one of the given columns.\<close>

definition owned_in :: "column set \<Rightarrow> string \<Rightarrow> card option \<Rightarrow> bool" where
  "owned_in cols name c = (case c of None \<Rightarrow> False | Some k \<Rightarrow> cd_owner k = JStr name \<and> cd_status k \<in> cols)"

definition existing_revision :: "string \<Rightarrow> card option \<Rightarrow> json" where
  "existing_revision name c = (if owned_in {Doing, Review} name c
     then (case c of Some k \<Rightarrow> revision k | None \<Rightarrow> JNull) else JNull)"

text \<open>A failed mirror: applied after all, or recorded and restored, and raised.\<close>

definition settle_failure ::
    "board_env \<Rightarrow> string \<Rightarrow> string \<Rightarrow> string \<Rightarrow> string \<Rightarrow> core_file option \<Rightarrow> transitions
       \<Rightarrow> (string option \<times> json \<times> column) list \<Rightarrow> (board, transitions) op \<Rightarrow> 'a \<Rightarrow> py_error \<Rightarrow> (board, 'a) op" where
  "settle_failure env operation tid owner actor original ts es compensate result err =
     op_bind (op_result (\<lambda>b. transitions_applied (be_store env) ts es (bo_store b))) (\<lambda>applied.
     if applied then op_return result
     else op_bind compensate (\<lambda>more.
       op_bind (recover_store_failure env operation tid owner actor original err (ts @ more)) (\<lambda>_. op_raise err)))"

text \<open>
  \<open>_compensate_partial_claim\<close>: release the claim that went through, give the card back to the owner of
  the snapshot, move it back to its column and order.
\<close>

definition card_matches :: "card \<Rightarrow> card option \<Rightarrow> bool" where
  "card_matches snap c = (case c of None \<Rightarrow> False
     | Some k \<Rightarrow> cd_owner k = cd_owner snap \<and> cd_status k = cd_status snap \<and> cd_order k = cd_order snap)"

definition give_back :: "board_env \<Rightarrow> string \<Rightarrow> card \<Rightarrow> transitions \<Rightarrow> (board, transitions) op" where
  "give_back env tid snap ts =
     (if cd_owner snap = JNull then op_return ts
      else op_bind (bo_uuid env) (\<lambda>t. op_bind (bo_uuid env) (\<lambda>r.
        op_bind (case cd_owner snap of JStr o1 \<Rightarrow> mirrored env (mirror_claim (be_store env) tid o1 t r)
          | _ \<Rightarrow> op_raise AttributeError) (\<lambda>_. op_return (ts @ [(Some tid, t)])))))"

definition put_back :: "board_env \<Rightarrow> string \<Rightarrow> string \<Rightarrow> card \<Rightarrow> transitions \<Rightarrow> (board, transitions) op" where
  "put_back env tid owner snap ts =
     op_bind (op_result (\<lambda>b. cs_fold (be_store env) (bo_store b) tid)) (\<lambda>c. case c of
       None \<Rightarrow> op_raise (RuntimeError ''claim compensation could not fold the target card'')
     | Some k \<Rightarrow> if cd_status k \<noteq> cd_status snap \<or> cd_order k \<noteq> cd_order snap
         then op_bind (bo_uuid env) (\<lambda>t.
           op_bind (mirrored env (mirror_move (be_store env) tid (column_value (cd_status snap)) owner (cd_order snap) t)) (\<lambda>_.
           op_return (ts @ [(Some tid, t)])))
         else op_return ts)"

definition compensate_partial_claim ::
    "board_env \<Rightarrow> string \<Rightarrow> string \<Rightarrow> string \<Rightarrow> string \<Rightarrow> card option \<Rightarrow> (board, transitions) op" where
  "compensate_partial_claim env tid owner rv transition snapshot =
     (case snapshot of None \<Rightarrow> op_return []
      | Some snap \<Rightarrow>
          op_bind (op_result (\<lambda>b. transitions_durable (be_store env) [(Some tid, transition)] (bo_store b))) (\<lambda>ok.
          if \<not> ok then op_return []
          else op_bind (op_result (\<lambda>b. cs_fold (be_store env) (bo_store b) tid)) (\<lambda>c.
          if \<not> owned_in {Doing} owner c then op_return []
          else op_bind (bo_uuid env) (\<lambda>t.
            op_bind (op_try (mirrored env (mirror_release (be_store env) tid owner owner (Some rv) t None)) (\<lambda>e.
              op_bind (op_result (\<lambda>b. transitions_applied (be_store env) [(Some tid, t)] [(Some tid, JNull, Backlog)] (bo_store b)))
                (\<lambda>applied. if applied then op_return () else op_raise e))) (\<lambda>_.
            op_bind (give_back env tid snap [(Some tid, t)]) (\<lambda>ts1.
            op_bind (put_back env tid owner snap ts1) (\<lambda>ts2.
            op_bind (op_result (\<lambda>b. cs_fold (be_store env) (bo_store b) tid)) (\<lambda>now.
            if card_matches snap now then op_return ts2
            else op_raise (RuntimeError ''claim compensation did not restore the target card'')))))))))"

text \<open>The compensation under the claim: its own failure is recorded and restored like the mirror's.\<close>

definition compensate_or_recover ::
    "board_env \<Rightarrow> string \<Rightarrow> string \<Rightarrow> core_file option \<Rightarrow> transitions \<Rightarrow> (board, transitions) op \<Rightarrow> (board, transitions) op" where
  "compensate_or_recover env tid owner original ts m = op_try m (\<lambda>e.
     op_bind (recover_store_failure env ''claim'' tid owner owner original e ts) (\<lambda>_.
     op_raise (RuntimeError ''claim compensation failed; board is fail-closed'')))"

section \<open>The two ways to claim\<close>

text \<open>The agent already holds the card under a revision: only the agent's file and the bumped card move.\<close>

definition reclaim_bumping :: "board_env \<Rightarrow> string \<Rightarrow> string \<Rightarrow> string option \<Rightarrow> (board, agent_file) op" where
  "reclaim_bumping env name tid bumped0 =
     op_bind (op_result (fold_if True env bumped0)) (\<lambda>bumped_card.
     op_bind (op_read (snapshot_agent name)) (\<lambda>original.
     op_bind (claim_projection env name tid (\<not> owned_in {Ready, Doing, Review} name bumped_card)) (\<lambda>(a, bumped).
     if bumped = None \<or> \<not> owned_in {Doing, Review} name bumped_card then op_return a
     else op_bind (bo_uuid env) (\<lambda>t.
       op_try (op_bind (mirrored env (demote env bumped name t)) (\<lambda>_. op_return a))
         (settle_failure env ''claim'' tid name name original [(bumped, t)] [(bumped, JStr name, Ready)] (op_return []) a)))))"

definition reclaim :: "board_env \<Rightarrow> string \<Rightarrow> string \<Rightarrow> agent_file option \<Rightarrow> (board, agent_file) op" where
  "reclaim env name tid current =
     (case current of
        Some a \<Rightarrow> if ag_current a = Some tid then op_return a else reclaim_bumping env name tid (ag_current a)
      | None \<Rightarrow> reclaim_bumping env name tid None)"

text \<open>The claim and, if one is due, the demotion of the bumped card are mirrored.\<close>

definition demotion :: "board_env \<Rightarrow> string \<Rightarrow> transitions \<Rightarrow> (board, unit) op" where
  "demotion env name ts = (case ts of [] \<Rightarrow> op_return () | (x, t) # _ \<Rightarrow> mirrored env (demote env x name t))"

definition claim_mirrors ::
    "board_env \<Rightarrow> string \<Rightarrow> string \<Rightarrow> core_file option \<Rightarrow> card option \<Rightarrow> bool \<Rightarrow> agent_file \<Rightarrow> string option
       \<Rightarrow> (board, agent_file) op" where
  "claim_mirrors env name tid original target demotes a bumped =
     op_bind (bo_uuid env) (\<lambda>t1. op_bind (bo_uuid env) (\<lambda>rv.
     op_bind (if demotes then op_bind (bo_uuid env) (\<lambda>t. op_return [(bumped, t)]) else op_return []) (\<lambda>demotions.
     op_try (op_bind (mirrored env (mirror_claim (be_store env) tid name t1 rv)) (\<lambda>_.
         op_bind (demotion env name demotions) (\<lambda>_. op_return a)))
       (settle_failure env ''claim'' tid name name original ((Some tid, t1) # demotions)
         ((Some tid, JStr name, Doing) # (if demotes then [(bumped, JStr name, Ready)] else []))
         (if demotes then compensate_or_recover env tid name original ((Some tid, t1) # demotions)
             (compensate_partial_claim env tid name rv t1 target) else op_return []) a))))"

text \<open>
  Whether a demotion is due is decided on the current task as it is before the claim, even if that is the
  claimed task itself.
\<close>

definition fresh_claim ::
    "board_env \<Rightarrow> string \<Rightarrow> string \<Rightarrow> core_file option \<Rightarrow> card option \<Rightarrow> string option \<Rightarrow> (board, agent_file) op" where
  "fresh_claim env name tid original target bumped0 =
     (let enabled = card_store_write_enabled env in
      op_bind (op_result (fold_if enabled env bumped0)) (\<lambda>bumped_card.
      op_bind (claim_projection env name tid
          (enabled \<and> bumped0 \<noteq> None \<and> \<not> owned_in {Ready, Doing, Review} name bumped_card)) (\<lambda>(a, bumped).
      claim_mirrors env name tid original target
        (bumped0 \<noteq> None \<and> (\<not> enabled \<or> owned_in {Doing, Review} name bumped_card)) a bumped)))"

text \<open>Under the board lock: the locks of the card and of the bumped one, then one of the two ways.\<close>

definition affected_cards :: "string \<Rightarrow> agent_file option \<Rightarrow> string list" where
  "affected_cards tid current = sort (remdups (tid # (case Option.bind current ag_current of None \<Rightarrow> [] | Some c \<Rightarrow> [c])))"

definition claim_locked :: "board_env \<Rightarrow> string \<Rightarrow> string \<Rightarrow> agent_file option \<Rightarrow> (board, agent_file) op" where
  "claim_locked env name tid current =
     (if \<not> list_all valid_identifier (affected_cards tid current) then op_raise bad_identifier
      else op_bind (op_for (affected_cards tid current) (\<lambda>c. op_result (card_lock env c))) (\<lambda>_.
        op_bind (op_read (snapshot_agent name)) (\<lambda>original.
        op_bind (op_result (fold_if (card_store_write_enabled env) env (Some tid))) (\<lambda>target.
        if nonempty_str (existing_revision name target) then reclaim env name tid current
        else fresh_claim env name tid original target (Option.bind current ag_current)))))"

definition claim_task :: "board_env \<Rightarrow> string \<Rightarrow> string \<Rightarrow> (board, agent_file) op" where
  "claim_task env agent_name tid =
     op_bind (op_result (\<lambda>_. validate_agent_name agent_name)) (\<lambda>name.
     if \<not> valid_identifier tid then op_raise bad_identifier
     else op_bind (op_result (\<lambda>b. if card_store_write_enabled env then cs_load_core (bo_store b) tid else Inr (Some []))) (\<lambda>core.
     if core = None then op_raise (TaskUnclaimable tid ''absent'')
     else op_bind (op_result (load_agent env name)) (claim_locked env name tid)))"

section \<open>Releasing\<close>

text \<open>
  The release's precondition: the card before, and the revision that is released. A stale release may
  skip the mirror for a task that has no card.
\<close>

definition release_precondition ::
    "board_env \<Rightarrow> string \<Rightarrow> string \<Rightarrow> string option \<Rightarrow> store \<Rightarrow> (card option \<times> string option) result" where
  "release_precondition env owner tid expected st =
     r_bind (cs_fold (be_store env) st tid) (\<lambda>before.
     r_bind (current_claim_precondition (be_store env) tid owner st) (\<lambda>now.
     if (case before of None \<Rightarrow> False | Some k \<Rightarrow> cd_owner k \<noteq> JStr owner) \<and> (expected = None \<or> expected = Some [])
     then Inl (ValueError ''exact expected claim revision required to release conflict'')
     else if expected \<noteq> None \<and> now \<noteq> expected then Inl (ValueError ''claim revision conflict'')
     else Inr (before, now)))"

definition drop_claim :: "agent_file \<Rightarrow> string \<Rightarrow> agent_file" where
  "drop_claim a tid = a\<lparr>ag_claimed := filter (\<lambda>t. t \<noteq> tid) (ag_claimed a),
     ag_current := (if ag_current a = Some tid then None else ag_current a)\<rparr>"

text \<open>\<open>_release_transition_is_applied\<close>: \<open>conflict is not matching[0]\<close> drops the one match.\<close>

definition same_conflict :: "string \<Rightarrow> string \<Rightarrow> json \<Rightarrow> bool" where
  "same_conflict owner rv v = (case v of JObj d \<Rightarrow> get d ''owner'' = JStr owner \<and> get d ''claim_revision'' = JStr rv | _ \<Rightarrow> False)"

definition release_applied ::
    "store_env \<Rightarrow> string \<Rightarrow> string \<Rightarrow> string \<Rightarrow> string \<Rightarrow> card \<Rightarrow> store \<Rightarrow> bool result" where
  "release_applied env tid transition owner rv before st =
     r_bind (has_transition env st tid transition) (\<lambda>there.
     if \<not> there then Inr False
     else r_bind (cs_fold env st tid) (\<lambda>c. case c of
         None \<Rightarrow> Inr False
       | Some k \<Rightarrow>
           if cd_owner before = JStr owner \<and> revision before = JStr rv
           then Inr (cd_owner k = JNull \<and> cd_status k = Backlog \<and> \<not> has_key (cd_meta k) ''_claim_revision'')
           else r_bind (py_iter (get_d (cd_meta before) ''claim_conflicts'' (JList []))) (\<lambda>xs.
             if length (filter (same_conflict owner rv) xs) \<noteq> 1 then Inr False
             else if cd_owner k = cd_owner before \<and> cd_status k = cd_status before \<and> revision k = revision before
             then r_bind (py_iter (get_d (cd_meta k) ''claim_conflicts'' (JList []))) (\<lambda>ys.
               Inr (ys = filter (\<lambda>x. \<not> same_conflict owner rv x) xs))
             else Inr False)))"

definition released :: "board_env \<Rightarrow> string \<Rightarrow> string \<Rightarrow> string \<Rightarrow> card option \<times> string option \<Rightarrow> (board, bool) op" where
  "released env tid t owner pre = (case pre of
     (Some k, Some rv) \<Rightarrow> op_result (\<lambda>b. release_applied (be_store env) tid t owner rv k (bo_store b))
   | _ \<Rightarrow> op_return False)"

definition release_claim_locked ::
    "board_env \<Rightarrow> string \<Rightarrow> string \<Rightarrow> string \<Rightarrow> string option \<Rightarrow> bool \<Rightarrow> string option \<Rightarrow> (board, bool) op" where
  "release_claim_locked env owner tid actor expected allow_missing reason =
     op_bind (op_result (load_agent env owner)) (\<lambda>agent. case agent of
       None \<Rightarrow> op_raise (ValueError ''claim owner not found'')
     | Some a \<Rightarrow>
       if tid \<notin> set (ag_claimed a) \<and> ag_current a \<noteq> Some tid then op_return False
       else op_bind (op_result (\<lambda>b.
           if \<not> card_store_write_enabled env then Inr None
           else case release_precondition env owner tid expected (bo_store b) of
               Inr p \<Rightarrow> Inr (Some p)
             | Inl e \<Rightarrow> if allow_missing \<and> is_value_error e \<and> cs_load_core (bo_store b) tid = Inr None then Inr None else
                 (case cs_load_core (bo_store b) tid of Inl e' \<Rightarrow> if allow_missing \<and> is_value_error e then Inl e' else Inl e | _ \<Rightarrow> Inl e)))
         (\<lambda>pre.
         op_bind (op_read (snapshot_agent owner)) (\<lambda>original.
         op_bind (save_agent env (drop_claim a tid)) (\<lambda>_.
         case pre of None \<Rightarrow> op_return True
         | Some p \<Rightarrow>
           op_bind (bo_uuid env) (\<lambda>t.
           op_try (op_bind (mirrored env (mirror_release (be_store env) tid owner actor (snd p) t reason)) (\<lambda>_.
               op_bind (released env tid t owner p) (\<lambda>ok.
               if ok then op_return True else op_raise (RuntimeError ''release transition did not reach its postcondition''))))
             (\<lambda>e. op_bind (released env tid t owner p) (\<lambda>ok.
               if ok then op_return True
               else op_bind (recover_store_failure env ''release_claim'' tid owner actor original e [(Some tid, t)])
                 (\<lambda>_. op_raise e))))))))"

definition release_claim ::
    "board_env \<Rightarrow> string \<Rightarrow> string \<Rightarrow> string \<Rightarrow> string option \<Rightarrow> string option \<Rightarrow> (board, bool) op" where
  "release_claim env owner tid actor expected reason =
     op_bind (op_result (\<lambda>_. validate_agent_name owner)) (\<lambda>name.
     if \<not> valid_identifier tid then op_raise bad_identifier
     else op_bind (op_result (\<lambda>_. validate_agent_name (if actor = [] then name else actor))) (\<lambda>by_actor.
       op_bind (op_result (card_lock env tid)) (\<lambda>_.
       release_claim_locked env name tid by_actor expected False reason)))"

section \<open>Completing\<close>

definition assert_no_claim_conflict :: "board_env \<Rightarrow> string \<Rightarrow> string \<Rightarrow> board \<Rightarrow> unit result" where
  "assert_no_claim_conflict env tid owner b =
     r_bind (cs_fold (be_store env) (bo_store b) tid) (\<lambda>c. case c of None \<Rightarrow> Inr ()
       | Some k \<Rightarrow> if truthy (get (cd_meta k) ''claim_conflicts'')
           then Inl (ValueError ''unresolved concurrent claim conflicts'')
           else if \<not> hashable (cd_owner k) then Inl TypeError
           else if cd_owner k \<noteq> JNull \<and> cd_owner k \<noteq> JStr owner then Inl (ValueError ''owned by another agent'')
           else Inr ())"

definition incomplete_completion_dependencies :: "board_env \<Rightarrow> string \<Rightarrow> board \<Rightarrow> string list result" where
  "incomplete_completion_dependencies env tid b =
     r_bind (get_task_views env True b) (\<lambda>vs. case view_of vs tid of
        None \<Rightarrow> Inl (ValueError ''task not found'')
      | Some v \<Rightarrow> Inr (incomplete_dependencies vs v))"

definition finish_task :: "agent_file \<Rightarrow> string \<Rightarrow> agent_file" where
  "finish_task a tid =
     (let claimed = remove1 tid (ag_claimed a);
          current = (if ag_current a = Some tid then (case claimed of [] \<Rightarrow> None | c # _ \<Rightarrow> Some c) else ag_current a)
      in a\<lparr>ag_claimed := claimed, ag_completed := add_new (ag_completed a) tid, ag_current := current,
           ag_state := (if current \<noteq> None \<and> current \<noteq> Some [] then AActive
                        else if ag_state a = AActive then AIdle else ag_state a)\<rparr>)"

definition completion :: "board_env \<Rightarrow> string \<Rightarrow> string \<Rightarrow> (board, agent_file) op" where
  "completion env name tid =
     op_bind (op_read (snapshot_agent name)) (\<lambda>original.
     op_bind (op_result (agent_or_new env name)) (\<lambda>a.
     op_bind (save_agent env (finish_task a tid)) (\<lambda>a'.
     op_bind (bo_uuid env) (\<lambda>t.
     op_try (op_bind (mirrored env (mirror_complete (be_store env) tid name t)) (\<lambda>_. op_return a'))
       (settle_failure env ''complete'' tid name name original [(Some tid, t)] [(Some tid, JNull, Done)] (op_return []) a')))))"

text \<open>The first agent that has the task among its completed ones answers; nothing is written then.\<close>

definition complete_open_task :: "board_env \<Rightarrow> string \<Rightarrow> string \<Rightarrow> (board, unit) op \<Rightarrow> (board, agent_file) op" where
  "complete_open_task env name tid precondition =
     op_bind (op_result (incomplete_completion_dependencies env tid)) (\<lambda>missing.
     if missing \<noteq> [] then op_raise (ValueError ''incomplete dependencies'')
     else op_bind precondition (\<lambda>_. completion env name tid))"

definition complete_task :: "board_env \<Rightarrow> string \<Rightarrow> string \<Rightarrow> (board, unit) op \<Rightarrow> (board, agent_file) op" where
  "complete_task env agent_name tid precondition =
     op_bind (op_result (\<lambda>_. validate_agent_name agent_name)) (\<lambda>name.
     if \<not> valid_identifier tid then op_raise bad_identifier
     else op_bind (op_result (card_lock env tid)) (\<lambda>_.
     op_bind (op_result (assert_no_claim_conflict env tid name)) (\<lambda>_.
     op_bind (op_read (\<lambda>b. find (\<lambda>a. tid \<in> set (ag_completed a)) (load_agents env b))) (\<lambda>done_by.
     case done_by of Some a \<Rightarrow> op_return a | None \<Rightarrow> complete_open_task env name tid precondition))))"

end
