(* ===== verification/Board_Guarantees.thy ===== *)
theory Board_Guarantees
  imports Board_Claims Card_Store_Laws
begin

text \<open>
  What claiming, releasing and completing guarantee: the gate of a claim, the agent's file after it, and
  that a failure leaves every agent file as it was.
\<close>

section \<open>Agent files\<close>

lemma text_list_field_dump [simp]: "as_str_list (map JStr xs) = Inr xs"
  by (induction xs) (simp_all add: as_str_list_def)

lemma agent_state_of_value [simp]: "agent_state_of (JStr (agent_state_value s)) = Inr s"
  by (cases s) (simp_all add: agent_state_of_def)

lemma parse_dump_agent: "agent_name_ok (ag_name a) \<Longrightarrow> parse_agent now host (dump_agent a) = Inr a"
  by (simp add: parse_agent_def dump_agent_def text_list_field_def)

lemma save_agent_run:
  assumes "save_agent env a b = (r, b')"
  shows "(\<exists>e. r = Inl e \<and> bo_agents b' = bo_agents b)
    \<or> (agent_name_ok (ag_name a) \<and> r = Inr (a\<lparr>ag_last_seen := board_now env b\<rparr>)
        \<and> bo_agents b' = AList.update (agent_path (ag_name a)) (CoreJson (dump_agent (a\<lparr>ag_last_seen := board_now env b\<rparr>))) (bo_agents b))"
  using assms by (auto simp: save_agent_def op_bind_run validate_agent_name_def next_tick_def split: if_splits)

lemma load_saved_agent:
  assumes "agent_name_ok (ag_name a)"
    and "map_of (bo_agents b) (agent_path (ag_name a)) = Some (CoreJson (dump_agent a))"
  shows "load_agent env (ag_name a) b = Inr (Some a)"
  using assms by (simp add: load_agent_def validate_agent_name_def read_agent_def parse_dump_agent)

section \<open>What leaves the agent files alone\<close>

definition same_agents :: "board \<Rightarrow> board \<Rightarrow> bool" where
  "same_agents s t \<longleftrightarrow> bo_agents t = bo_agents s"

interpretation agents_kept: op_order same_agents
  by unfold_locales (simp_all add: same_agents_def)

lemma keeps_on_store: "op_keeps same_agents (on_store m)"
  by (simp add: op_keeps_def on_store_def same_agents_def split: prod.split)

lemma keeps_try: "op_keeps same_agents m \<Longrightarrow> (\<And>e. op_keeps same_agents (h e)) \<Longrightarrow> op_keeps same_agents (op_try m h)"
  unfolding op_keeps_def op_try_def same_agents_def by (auto split: prod.split sum.split) (metis snd_conv)+

lemma keeps_uuid: "op_keeps same_agents (bo_uuid env)"
  unfolding bo_uuid_def by (intro agents_kept.keeps keeps_intros) (simp add: same_agents_def)

lemma keeps_mirrored: "op_keeps same_agents (mirrored env m)"
  unfolding mirrored_def
  by (intro agents_kept.keeps keeps_intros) (auto simp: same_agents_def intro!: agents_kept.keeps keeps_on_store split: fault.split)

lemmas board_keeps = agents_kept.keeps keeps_intros keeps_on_store keeps_try keeps_uuid keeps_mirrored

lemma keeps_compensate: "op_keeps same_agents (compensate_partial_claim env tid owner rv t snapshot)"
proof -
  have "op_keeps same_agents (give_back env tid snap ts)" for snap ts
    unfolding give_back_def by (intro board_keeps) (auto intro: board_keeps split: json.split)
  moreover have "op_keeps same_agents (put_back env tid owner snap ts)" for snap ts
    unfolding put_back_def by (intro board_keeps)
  ultimately show ?thesis
    unfolding compensate_partial_claim_def by (intro board_keeps)
qed

section \<open>Failures\<close>

text \<open>The agent files are those of \<open>s\<close>, with the owner's file as it was.\<close>

definition restored :: "string \<Rightarrow> core_file option \<Rightarrow> board \<Rightarrow> board \<Rightarrow> bool" where
  "restored owner original s t \<longleftrightarrow> map_of (bo_agents t) = (map_of (bo_agents s))(agent_path owner := original)"

lemma recover_result: "fst (recover_store_failure env operation tid owner actor original err ts s) = Inr ()"
  by (simp add: recover_store_failure_def bo_uuid_def op_bind_run Let_def)

lemma recover_agents:
  "bo_agents (snd (recover_store_failure env operation tid owner actor original err ts s)) = bo_agents (restore_agent owner original s)"
  by (cases original) (simp_all add: recover_store_failure_def bo_uuid_def op_bind_run Let_def restore_agent_def next_tick_def)

lemma map_of_restore: "map_of (bo_agents (restore_agent owner original s)) = (map_of (bo_agents s))(agent_path owner := original)"
proof -
  have "map_of (filter (\<lambda>(n, f). n \<noteq> k) xs) = (map_of xs)(k := None)" for k and xs :: "(string \<times> core_file) list"
    by (induction xs) auto
  then show ?thesis by (cases original) (simp_all add: restore_agent_def update_conv')
qed

lemma recover_run:
  assumes "recover_store_failure env operation tid owner actor original err ts s = (r, s')"
  shows "r = Inr () \<and> restored owner original s s'"
  using recover_result [of env operation tid owner actor original err ts s]
    recover_agents [of env operation tid owner actor original err ts s] assms
  by (simp add: restored_def map_of_restore)

text \<open>A compensation either leaves the agent files alone or fails with the owner's file restored.\<close>

definition undoes :: "string \<Rightarrow> core_file option \<Rightarrow> (board, 'a) op \<Rightarrow> bool" where
  "undoes owner original m \<longleftrightarrow> (\<forall>t x u. m t = (Inr x, u) \<longrightarrow> bo_agents u = bo_agents t)
     \<and> (\<forall>t e u. m t = (Inl e, u) \<longrightarrow> restored owner original t u)"

lemma settle_cases:
  assumes "settle_failure env operation tid owner actor original ts es undo res err s = (r, s')"
    and undo: "undoes owner original undo"
  obtains (unread) e where "transitions_applied (be_store env) ts es (bo_store s') = Inl e" "r = Inl e" "s' = s"
  | (applied) "r = Inr res" "s' = s"
  | (undone) e where "r = Inl e" "restored owner original s s'"
proof (cases "transitions_applied (be_store env) ts es (bo_store s)")
  case (Inl e)
  with assms(1) have "r = Inl e" "s' = s" by (simp_all add: settle_failure_def op_bind_run)
  with Inl show thesis by (intro unread) simp_all
next
  case (Inr ok)
  show thesis
  proof (cases ok)
    case True
    with Inr assms(1) have "r = Inr res" "s' = s" by (simp_all add: settle_failure_def op_bind_run)
    then show thesis by (rule applied)
  next
    case False
    obtain q t where q: "undo s = (q, t)" by (cases "undo s")
    show thesis
    proof (cases q)
      case (Inl e)
      with q Inr False assms(1) have "r = Inl e" "s' = t" by (simp_all add: settle_failure_def op_bind_run)
      with q Inl undo show thesis by (intro undone) (simp_all add: undoes_def)
    next
      case more: (Inr more)
      obtain p u where u: "recover_store_failure env operation tid owner actor original err (ts @ more) t = (p, u)"
        by (cases "recover_store_failure env operation tid owner actor original err (ts @ more) t")
      from recover_run [OF u] have "p = Inr ()" "restored owner original t u" by simp_all
      moreover from this q more Inr False assms(1) u have "r = Inl err" "s' = u"
        by (simp_all add: settle_failure_def op_bind_run)
      moreover have "bo_agents t = bo_agents s" using q more undo by (simp add: undoes_def)
      ultimately show thesis by (intro undone) (simp_all add: restored_def)
    qed
  qed
qed

section \<open>The steps of a claim\<close>

lemma op_bind_cases:
  assumes "op_bind m f s = (r, s')"
  obtains (raised) e where "m s = (Inl e, s')" "r = Inl e" | (ok) x t where "m s = (Inr x, t)" "f x t = (r, s')"
  using assms by (cases "m s"; cases "fst (m s)") (auto simp: op_bind_run)

lemma load_agent_name: "load_agent env name b = Inr (Some a) \<Longrightarrow> ag_name a = name \<and> agent_name_ok name"
  by (auto simp: load_agent_def read_agent_def validate_agent_name_def split: option.splits core_file.splits if_splits elim!: r_bind_InrE)

lemma agent_or_new_name: "agent_or_new env name b = Inr a \<Longrightarrow> ag_name a = name \<and> agent_name_ok name"
  by (auto simp: agent_or_new_def new_agent_def validate_agent_name_def dest: load_agent_name split: option.splits if_splits elim!: r_bind_InrE)

text \<open>The agent's file holds the claim, and the files of the others are as before.\<close>

definition file_saved :: "string \<Rightarrow> agent_file \<Rightarrow> board \<Rightarrow> board \<Rightarrow> bool" where
  "file_saved name a s t \<longleftrightarrow> ag_name a = name \<and> agent_name_ok name
     \<and> map_of (bo_agents t) = (map_of (bo_agents s))(agent_path name \<mapsto> CoreJson (dump_agent a))"

lemma file_saved_loads: "file_saved name a s t \<Longrightarrow> load_agent env name t = Inr (Some a)"
  using load_saved_agent [of a t] by (simp add: file_saved_def)

lemma claim_projection_cases:
  assumes "claim_projection env name tid drop_bumped s = (r, s')"
  obtains (raised) e where "r = Inl e" "bo_agents s' = bo_agents s"
  | (taken) v a a0 bumped where "r = Inr (a, bumped)" "agent_or_new env name s = Inr a0" "bumped = bumped_task a0 tid" "claim_gate env name tid s = Inr v" "file_saved name a s s'"
      "ag_current a = Some tid" "tid \<in> set (ag_claimed a)" "ag_state a = AActive"
  using assms unfolding claim_projection_def
proof (elim op_bind_cases, goal_cases)
  case (4 v t a u a' w)
  then have a: "ag_name a = name" and steps: "claim_gate env name tid s = Inr v" "s = t" "t = u"
    "save_agent env (take_task a tid drop_bumped) u = (Inr a', w)" "r = Inr (a', bumped_task a tid)" "s' = w"
    by (auto dest: agent_or_new_name)
  from save_agent_run [OF steps(4)] have saved: "agent_name_ok name"
    "a' = (take_task a tid drop_bumped)\<lparr>ag_last_seen := board_now env u\<rparr>"
    "bo_agents w = AList.update (agent_path name) (CoreJson (dump_agent a')) (bo_agents u)"
    by (auto simp: take_task_def Let_def a)
  show ?case
    by (rule 4(2) [OF steps(5) _ refl steps(1)]) (use 4(4) steps(2) in simp, use saved steps a in \<open>simp_all add: file_saved_def update_conv' take_task_def Let_def\<close>)
next
  case (3 v t a u e)
  then have "save_agent env (take_task a tid drop_bumped) u = (Inl e, s')" "s = u" "r = Inl e" by auto
  with save_agent_run [OF this(1)] show ?case by (intro 3(1)) auto
qed auto

text \<open>
  An operation that raised: all agent files are as before, or one of the cards it wrote to could not be
  read back; a demotion without a card counts as one that cannot.
\<close>

definition unread :: "board_env \<Rightarrow> py_error \<Rightarrow> board \<Rightarrow> string \<Rightarrow> bool" where
  "unread env e t c \<longleftrightarrow> cs_read_events (be_store env) (bo_store t) c = Inl e \<or> cs_fold (be_store env) (bo_store t) c = Inl e"

definition lost :: "board_env \<Rightarrow> py_error \<Rightarrow> board \<Rightarrow> string option \<Rightarrow> bool" where
  "lost env e t x \<longleftrightarrow> (case x of None \<Rightarrow> e = bad_identifier | Some c \<Rightarrow> unread env e t c)"

definition unchanged_or_unread :: "board_env \<Rightarrow> string option set \<Rightarrow> board \<Rightarrow> py_error \<Rightarrow> board \<Rightarrow> bool" where
  "unchanged_or_unread env cards s e t \<longleftrightarrow> map_of (bo_agents t) = map_of (bo_agents s) \<or> (\<exists>x\<in>cards. lost env e t x)"

text \<open>The cards a claim writes to: its own, and the agent's current one, which it demotes.\<close>

definition touched :: "board_env \<Rightarrow> string \<Rightarrow> string \<Rightarrow> board \<Rightarrow> string option set" where
  "touched env name tid s = insert (Some tid)
     {bumped_task a tid | a. load_agent env name s = Inr (Some a) \<and> ag_current a \<noteq> None}"

lemma bumped_touched:
  assumes "agent_or_new env name s = Inr a" and "bumped_task a tid \<noteq> None \<or> load_agent env name s = Inr (Some b) \<and> ag_current b \<noteq> None"
  shows "bumped_task a tid \<in> touched env name tid s"
proof -
  obtain x where x: "load_agent env name s = Inr x" "x = Some a \<or> x = None \<and> ag_current a = None"
    using assms(1) by (auto simp: agent_or_new_def new_agent_def split: option.splits elim!: r_bind_InrE)
  with assms(2) have "load_agent env name s = Inr (Some a) \<and> ag_current a \<noteq> None"
    by (cases "ag_current a") (auto simp: bumped_task_def)
  then show ?thesis unfolding touched_def by blast
qed

lemma durable_unread:
  "transitions_durable (be_store env) ts (bo_store t) = Inl e \<Longrightarrow> \<exists>x\<in>fst ` set ts. lost env e t x"
proof -
  have "r_fold (\<lambda>ok (x, u). if \<not> ok then Inr False
     else case x of None \<Rightarrow> Inl bad_identifier | Some c \<Rightarrow> has_transition (be_store env) (bo_store t) c u) b ts = Inl e
     \<Longrightarrow> \<exists>x\<in>fst ` set ts. lost env e t x" for b
  proof (induction ts arbitrary: b)
    case (Cons p ts)
    then show ?case
      by (cases p; cases "fst p") (auto simp: lost_def unread_def has_transition_def r_bind_def split: if_splits sum.splits)
  qed simp
  then show "transitions_durable (be_store env) ts (bo_store t) = Inl e \<Longrightarrow> \<exists>x\<in>fst ` set ts. lost env e t x"
    unfolding transitions_durable_def .
qed

lemma reached_unread:
  "states_reached (be_store env) es (bo_store t) = Inl e \<Longrightarrow> \<exists>x\<in>fst ` set es. lost env e t x"
proof (induction es)
  case (Cons p es)
  obtain x owner col where p: "p = (x, owner, col)" by (cases p)
  show ?case
  proof (cases x)
    case None
    with Cons.prems p show ?thesis by (simp add: lost_def)
  next
    case (Some c)
    show ?thesis
    proof (cases "states_reached (be_store env) es (bo_store t) = Inl e")
      case True
      from Cons.IH [OF this] show ?thesis by auto
    next
      case False
      with Cons.prems p Some have "cs_fold (be_store env) (bo_store t) c = Inl e"
        by (auto simp: r_bind_def split: if_splits sum.splits option.splits)
      with p Some show ?thesis by (simp add: lost_def unread_def)
    qed
  qed
qed simp

lemma applied_unread:
  "transitions_applied (be_store env) ts es (bo_store t) = Inl e \<Longrightarrow> \<exists>x\<in>fst ` set ts \<union> fst ` set es. lost env e t x"
  unfolding transitions_applied_def r_bind_def
  by (auto split: sum.splits if_splits dest!: durable_unread reached_unread)

lemma try_settle:
  assumes run: "op_try m (settle_failure env operation tid name actor (snapshot_agent name s) ts es undo a) u = (r, s')"
    and m: "op_keeps same_agents m" "\<forall>x t. m u = (Inr x, t) \<longrightarrow> x = a"
    and undo: "undoes name (snapshot_agent name s) undo"
    and saved: "file_saved name a s u" and cards: "fst ` set ts \<union> fst ` set es \<subseteq> C"
  shows "(r = Inr a \<and> file_saved name a s s') \<or> (\<exists>e. r = Inl e \<and> unchanged_or_unread env C s e s')"
proof -
  obtain q t where q: "m u = (q, t)" by (cases "m u")
  have t: "bo_agents t = bo_agents u" using op_keeps_run [OF m(1) q] by (simp add: same_agents_def)
  show ?thesis
  proof (cases q)
    case (Inr x)
    with q run m(2) have "r = Inr a" "s' = t" by (auto simp: op_try_def)
    with saved t show ?thesis by (simp add: file_saved_def)
  next
    case (Inl e)
    with q run have "settle_failure env operation tid name actor (snapshot_agent name s) ts es undo a e t = (r, s')"
      by (simp add: op_try_def)
    then show ?thesis
    proof (rule settle_cases [OF _ undo], goal_cases)
      case (1 e')
      then have "unchanged_or_unread env C s e' s'"
        using applied_unread [OF 1(1)] cards unfolding unchanged_or_unread_def by blast
      with 1 show ?case by blast
    next
      case (3 e')
      then have "map_of (bo_agents s') = map_of (bo_agents s)"
        using saved t by (simp add: restored_def file_saved_def snapshot_agent_def fun_upd_idem)
      with 3 show ?case by (simp add: unchanged_or_unread_def)
    qed (use saved t in \<open>auto simp: file_saved_def unchanged_or_unread_def\<close>)
  qed
qed

lemma no_undo: "undoes name original (op_return [])"
  by (simp add: undoes_def)

lemma claim_undo:
  "undoes name original (compensate_or_recover env tid name original ts (compensate_partial_claim env tid name rv t1 target))"
proof -
  have "(q = Inr x \<longrightarrow> bo_agents w = bo_agents t) \<and> (q = Inl e \<longrightarrow> restored name original t w)"
    if run: "compensate_or_recover env tid name original ts (compensate_partial_claim env tid name rv t1 target) t = (q, w)" for q x e t w
  proof -
    obtain p u where p: "compensate_partial_claim env tid name rv t1 target t = (p, u)"
      by (cases "compensate_partial_claim env tid name rv t1 target t")
    have u: "bo_agents u = bo_agents t"
      using op_keeps_run [OF keeps_compensate p] by (simp add: same_agents_def)
    show ?thesis
    proof (cases p)
      case (Inr y)
      with p u run show ?thesis by (auto simp: compensate_or_recover_def op_try_def)
    next
      case (Inl e')
      obtain k v where k: "recover_store_failure env ''claim'' tid name name original e' ts u = (k, v)"
        by (cases "recover_store_failure env ''claim'' tid name name original e' ts u")
      from recover_run [OF k] have "k = Inr ()" "restored name original u v" by simp_all
      with p Inl u k run show ?thesis
        by (auto simp: compensate_or_recover_def op_try_def op_bind_run restored_def)
    qed
  qed
  then show ?thesis by (auto simp: undoes_def)
qed

text \<open>What a claim can come to.\<close>

definition claim_outcome :: "board_env \<Rightarrow> string \<Rightarrow> string \<Rightarrow> board \<Rightarrow> agent_file result \<Rightarrow> board \<Rightarrow> bool" where
  "claim_outcome env name tid s r s' \<longleftrightarrow>
     (\<exists>e. r = Inl e \<and> unchanged_or_unread env (touched env name tid s) s e s')
     \<or> (\<exists>a v. r = Inr a \<and> claim_gate env name tid s = Inr v \<and> file_saved name a s s'
          \<and> ag_current a = Some tid \<and> tid \<in> set (ag_claimed a) \<and> ag_state a = AActive)"

lemma reclaim_outcome:
  assumes "reclaim_bumping env name tid bumped0 s = (r, s')"
  shows "claim_outcome env name tid s r s'"
  using assms unfolding reclaim_bumping_def
proof (elim op_bind_cases, goal_cases)
  case (4 c t1 original t2 p u)
  then have original: "original = snapshot_agent name s"
    and proj: "claim_projection env name tid (\<not> owned_in {Ready, Doing, Review} name c) s = (Inr p, u)" by auto
  from proj show ?case
  proof (cases rule: claim_projection_cases)
    case (taken v a a0 bumped)
    from 4(4) taken(1) have run: "(if bumped = None \<or> \<not> owned_in {Doing, Review} name c then op_return a
        else op_bind (bo_uuid env) (\<lambda>t. op_try (op_bind (mirrored env (demote env bumped name t)) (\<lambda>_. op_return a))
         (settle_failure env ''claim'' tid name name original [(bumped, t)] [(bumped, JStr name, Ready)] (op_return []) a))) u = (r, s')"
      by simp
    show ?thesis
    proof (cases "bumped = None \<or> \<not> owned_in {Doing, Review} name c")
      case True
      with run have "r = Inr a" "s' = u" by auto
      with taken show ?thesis by (auto simp: claim_outcome_def)
    next
      case False
      with run obtain t w where w: "bo_uuid env u = (Inr t, w)"
        and tr: "op_try (op_bind (mirrored env (demote env bumped name t)) (\<lambda>_. op_return a))
         (settle_failure env ''claim'' tid name name original [(bumped, t)] [(bumped, JStr name, Ready)] (op_return []) a) w = (r, s')"
        by (auto simp: bo_uuid_def op_bind_run)
      have "bo_agents w = bo_agents u" using op_keeps_run [OF keeps_uuid w] by (simp add: same_agents_def)
      with taken(5) have saved: "file_saved name a s w" by (simp add: file_saved_def)
      have "bumped \<in> touched env name tid s" using False taken(3) bumped_touched [OF taken(2)] by blast
      then have cards: "fst ` set [(bumped, t)] \<union> fst ` set [(bumped, JStr name, Ready)] \<subseteq> touched env name tid s" by simp
      have "op_keeps same_agents (op_bind (mirrored env (demote env bumped name t)) (\<lambda>_. op_return a))"
        by (intro board_keeps)
      moreover have "\<forall>x t'. op_bind (mirrored env (demote env bumped name t)) (\<lambda>_. op_return a) w = (Inr x, t') \<longrightarrow> x = a"
        by (auto simp: op_bind_run split: prod.splits sum.splits)
      ultimately have "(r = Inr a \<and> file_saved name a s s') \<or> (\<exists>e. r = Inl e \<and> unchanged_or_unread env (touched env name tid s) s e s')"
        using try_settle [OF tr [unfolded original] _ _ no_undo saved cards] by blast
      with taken show ?thesis by (auto simp: claim_outcome_def)
    qed
  qed simp
qed (auto simp: claim_outcome_def unchanged_or_unread_def elim: claim_projection_cases)

lemma mirrors_outcome:
  assumes run: "claim_mirrors env name tid (snapshot_agent name s) target demotes a bumped u = (r, s')"
    and saved: "file_saved name a s u" and cards: "demotes \<longrightarrow> bumped \<in> C" "Some tid \<in> C"
  shows "(r = Inr a \<and> file_saved name a s s') \<or> (\<exists>e. r = Inl e \<and> unchanged_or_unread env C s e s')"
proof -
  let ?run = "\<lambda>t1 rv demotions. op_bind (mirrored env (mirror_claim (be_store env) tid name t1 rv)) (\<lambda>_.
         op_bind (demotion env name demotions) (\<lambda>_. op_return a))"
  let ?undo = "\<lambda>t1 rv demotions. if demotes then compensate_or_recover env tid name (snapshot_agent name s) ((Some tid, t1) # demotions)
             (compensate_partial_claim env tid name rv t1 target) else op_return []"
  have uuids: "op_keeps same_agents (if demotes then op_bind (bo_uuid env) (\<lambda>t. op_return [(bumped, t)]) else op_return [])"
    by (intro board_keeps)
  from run have "\<exists>t1 rv demotions w. bo_agents w = bo_agents u \<and> fst ` set demotions \<subseteq> C
    \<and> op_try (?run t1 rv demotions) (settle_failure env ''claim'' tid name name (snapshot_agent name s) ((Some tid, t1) # demotions)
         ((Some tid, JStr name, Doing) # (if demotes then [(bumped, JStr name, Ready)] else [])) (?undo t1 rv demotions) a) w = (r, s')"
    unfolding claim_mirrors_def
  proof (elim op_bind_cases, goal_cases)
    case (4 t1 x rv y demotions w)
    with op_keeps_run [OF keeps_uuid 4(1)] op_keeps_run [OF keeps_uuid 4(2)] op_keeps_run [OF uuids 4(3)]
    have "bo_agents w = bo_agents u" by (simp add: same_agents_def)
    moreover have "fst ` set demotions \<subseteq> C"
      using 4(3) cards(1) by (cases demotes) (auto simp: bo_uuid_def op_bind_run)
    ultimately show ?case using 4(4) by blast
  qed (auto simp: bo_uuid_def op_bind_run split: if_splits)
  then obtain t1 rv demotions w where w: "bo_agents w = bo_agents u" and dem: "fst ` set demotions \<subseteq> C"
    and tr: "op_try (?run t1 rv demotions) (settle_failure env ''claim'' tid name name (snapshot_agent name s) ((Some tid, t1) # demotions)
         ((Some tid, JStr name, Doing) # (if demotes then [(bumped, JStr name, Ready)] else [])) (?undo t1 rv demotions) a) w = (r, s')"
    by blast
  have keep: "op_keeps same_agents (?run t1 rv demotions)"
    unfolding demotion_def by (intro board_keeps) (auto intro: board_keeps split: list.split)
  have val: "\<forall>x t'. ?run t1 rv demotions w = (Inr x, t') \<longrightarrow> x = a"
    by (auto simp: op_bind_run split: prod.splits sum.splits)
  have undo: "undoes name (snapshot_agent name s) (?undo t1 rv demotions)"
    by (simp add: claim_undo no_undo)
  have held: "file_saved name a s w" using saved w by (simp add: file_saved_def)
  show ?thesis by (rule try_settle [OF tr keep val undo held]) (use dem cards in auto)
qed

lemma fresh_outcome:
  assumes "fresh_claim env name tid (snapshot_agent name s) target (Option.bind current ag_current) s = (r, s')"
    and current: "load_agent env name s = Inr current"
  shows "claim_outcome env name tid s r s'"
  using assms(1) unfolding fresh_claim_def Let_def
proof (elim op_bind_cases, goal_cases)
  case (3 c t1 p u)
  then have proj: "claim_projection env name tid
      (card_store_write_enabled env \<and> Option.bind current ag_current \<noteq> None \<and> \<not> owned_in {Ready, Doing, Review} name c) s = (Inr p, u)"
    by auto
  then show ?case
  proof (cases rule: claim_projection_cases)
    case (taken v a a0 bumped)
    have "Option.bind current ag_current \<noteq> None \<longrightarrow> bumped \<in> touched env name tid s"
      using bumped_touched [OF taken(2)] current taken(3) by (cases current) auto
    with 3(3) taken mirrors_outcome [OF _ taken(5), of env tid target _ bumped r s' "touched env name tid s"] show ?thesis
      by (auto simp: claim_outcome_def touched_def)
  qed simp
qed (auto simp: claim_outcome_def unchanged_or_unread_def elim: claim_projection_cases)

section \<open>Whole operations\<close>

lemma op_for_result: "op_for xs (\<lambda>x. op_result (f x)) s = (q, t) \<Longrightarrow> t = s"
  by (induction xs) (auto elim!: op_bind_cases)

text \<open>The agent is already working on the card under a revision of its own.\<close>

definition already_held :: "board_env \<Rightarrow> string \<Rightarrow> string \<Rightarrow> board \<Rightarrow> agent_file \<Rightarrow> bool" where
  "already_held env name tid s a \<longleftrightarrow> load_agent env name s = Inr (Some a) \<and> ag_current a = Some tid
     \<and> (\<exists>k. cs_fold (be_store env) (bo_store s) tid = Inr (Some k) \<and> cd_owner k = JStr name \<and> cd_status k \<in> {Doing, Review})"

lemma existing_revision_owned: "nonempty_str (existing_revision name c) \<Longrightarrow> owned_in {Doing, Review} name c"
  by (auto simp: existing_revision_def split: if_splits)

lemma claim_locked_outcome:
  assumes "claim_locked env name tid current s = (r, s')" and "load_agent env name s = Inr current"
  shows "(\<exists>a. r = Inr a \<and> s' = s \<and> already_held env name tid s a) \<or> claim_outcome env name tid s r s'"
proof -
  from assms(1) have "(\<exists>e. r = Inl e \<and> s' = s) \<or> (\<exists>target.
      fold_if (card_store_write_enabled env) env (Some tid) s = Inr target
      \<and> (if nonempty_str (existing_revision name target) then reclaim env name tid current
        else fresh_claim env name tid (snapshot_agent name s) target (Option.bind current ag_current)) s = (r, s'))"
    unfolding claim_locked_def
    by (cases "list_all valid_identifier (affected_cards tid current)")
      (auto elim!: op_bind_cases dest!: op_for_result)
  then show ?thesis
  proof (elim disjE exE conjE)
    fix target
    assume target: "fold_if (card_store_write_enabled env) env (Some tid) s = Inr target"
      and claim: "(if nonempty_str (existing_revision name target) then reclaim env name tid current
        else fresh_claim env name tid (snapshot_agent name s) target (Option.bind current ag_current)) s = (r, s')"
    show ?thesis
    proof (cases "nonempty_str (existing_revision name target)")
      case False
      with claim fresh_outcome [OF _ assms(2)] show ?thesis by auto
    next
      case True
      then have owned: "owned_in {Doing, Review} name target" by (rule existing_revision_owned)
      show ?thesis
      proof (cases "\<exists>a. current = Some a \<and> ag_current a = Some tid")
        case held: True
        with True claim owned assms(2) target show ?thesis
          by (auto simp: reclaim_def already_held_def owned_in_def fold_if_def split: option.splits if_splits)
      next
        case False
        with True claim obtain c where "reclaim_bumping env name tid c s = (r, s')"
          by (auto simp: reclaim_def split: option.splits)
        then show ?thesis using reclaim_outcome by blast
      qed
    qed
  qed (auto simp: claim_outcome_def unchanged_or_unread_def)
qed

lemma claim_task_outcome:
  assumes "claim_task env name tid s = (r, s')"
  shows "(\<exists>a. r = Inr a \<and> s' = s \<and> already_held env name tid s a) \<or> claim_outcome env name tid s r s'"
proof -
  from assms have "(\<exists>e. r = Inl e \<and> s' = s)
      \<or> (\<exists>current. load_agent env name s = Inr current \<and> claim_locked env name tid current s = (r, s'))"
    unfolding claim_task_def
    by (cases "valid_identifier tid") (auto simp: validate_agent_name_def elim!: op_bind_cases split: if_splits)
  then show ?thesis
  proof (elim disjE exE conjE)
    fix current
    assume "load_agent env name s = Inr current" "claim_locked env name tid current s = (r, s')"
    with claim_locked_outcome show ?thesis by blast
  qed (auto simp: claim_outcome_def unchanged_or_unread_def)
qed

text \<open>
  What a completion makes of the agent's file: the task moves from the claimed ones to the completed
  ones, the next claimed task becomes current if the completed one was, and nothing else that the
  file says of the agent changes, its state and the time apart.
\<close>

definition finished_from :: "agent_file option \<Rightarrow> agent_file \<Rightarrow> string \<Rightarrow> bool" where
  "finished_from old a tid \<longleftrightarrow> (case old of
       None \<Rightarrow> ag_claimed a = [] \<and> ag_completed a = [tid] \<and> ag_current a = None
     | Some a0 \<Rightarrow> ag_claimed a = remove1 tid (ag_claimed a0)
         \<and> set (ag_completed a) = insert tid (set (ag_completed a0))
         \<and> ag_current a = (if ag_current a0 = Some tid
              then (if ag_claimed a = [] then None else Some (hd (ag_claimed a))) else ag_current a0)
         \<and> ag_host a = ag_host a0 \<and> ag_capabilities a = ag_capabilities a0 \<and> ag_itil a = ag_itil a0
         \<and> ag_notes a = ag_notes a0)"

text \<open>A file without a \<open>last_seen\<close> reads as seen now: the clock matters for nothing else.\<close>

lemma parse_agent_later: "parse_agent now host v = Inr a \<Longrightarrow> \<exists>x. parse_agent now' host v = Inr (a\<lparr>ag_last_seen := x\<rparr>)"
  by (cases v) (auto simp: parse_agent_def get_d_def split: if_splits option.splits json.splits elim!: r_bind_InrE)

lemma load_agent_later:
  assumes "load_agent env name s = Inr (Some a)" and "bo_agents t = bo_agents s"
  shows "\<exists>x. load_agent env name t = Inr (Some (a\<lparr>ag_last_seen := x\<rparr>))"
proof -
  have name: "validate_agent_name name = Inr name"
    using assms(1) by (auto simp: load_agent_def validate_agent_name_def split: if_splits)
  obtain v where v: "map_of (bo_agents s) (agent_path name) = Some (CoreJson v)"
    "parse_agent (board_now env s) (se_host (be_store env)) v = Inr a" "ag_name a = name"
    using assms(1) by (auto simp: load_agent_def read_agent_def validate_agent_name_def
        split: option.splits core_file.splits if_splits elim!: r_bind_InrE)
  obtain x where "parse_agent (board_now env t) (se_host (be_store env)) v = Inr (a\<lparr>ag_last_seen := x\<rparr>)"
    using parse_agent_later [OF v(2)] by blast
  with v assms(2) name show ?thesis by (auto simp: load_agent_def read_agent_def)
qed

lemma load_agent_none_later:
  assumes "load_agent env name s = Inr None" and "bo_agents t = bo_agents s"
  shows "load_agent env name t = Inr None"
  using assms by (auto simp: load_agent_def elim!: r_bind_InrE split: option.splits)

lemma finish_task_from:
  assumes "agent_or_new env name u = Inr a" and "bo_agents u = bo_agents s"
  obtains old where "load_agent env name s = Inr old" "finished_from old ((finish_task a tid)\<lparr>ag_last_seen := now\<rparr>) tid"
proof -
  from assms(1) obtain old where old: "load_agent env name u = Inr old"
    and a: "a = (case old of Some x \<Rightarrow> x | None \<Rightarrow> new_agent (board_now env u) (se_host (be_store env)) name)"
    by (auto simp: agent_or_new_def validate_agent_name_def elim!: r_bind_InrE split: option.splits if_splits)
  show thesis
  proof (cases old)
    case None
    have "finished_from None ((finish_task a tid)\<lparr>ag_last_seen := now\<rparr>) tid"
      by (simp add: a None finished_from_def finish_task_def new_agent_def add_new_def Let_def)
    with load_agent_none_later [of env name u s] old None assms(2) that show thesis by auto
  next
    case (Some x)
    obtain y where y: "load_agent env name s = Inr (Some (x\<lparr>ag_last_seen := y\<rparr>))"
      using load_agent_later [of env name u x s] old Some assms(2) by auto
    have "finished_from (Some (x\<lparr>ag_last_seen := y\<rparr>)) ((finish_task a tid)\<lparr>ag_last_seen := now\<rparr>) tid"
      by (cases "remove1 tid (ag_claimed x)") (auto simp: a Some finished_from_def finish_task_def add_new_def Let_def)
    with y that show thesis by blast
  qed
qed

text \<open>What a completion can come to.\<close>

definition complete_outcome :: "board_env \<Rightarrow> string \<Rightarrow> string \<Rightarrow> board \<Rightarrow> agent_file result \<Rightarrow> board \<Rightarrow> bool" where
  "complete_outcome env name tid s r s' \<longleftrightarrow>
     (\<exists>e. r = Inl e \<and> unchanged_or_unread env {Some tid} s e s')
     \<or> (\<exists>a. r = Inr a \<and> assert_no_claim_conflict env tid name s = Inr ()
          \<and> find (\<lambda>a. tid \<in> set (ag_completed a)) (load_agents env s) = Some a \<and> s' = s)
     \<or> (\<exists>a old. r = Inr a \<and> assert_no_claim_conflict env tid name s = Inr ()
          \<and> find (\<lambda>a. tid \<in> set (ag_completed a)) (load_agents env s) = None
          \<and> incomplete_completion_dependencies env tid s = Inr [] \<and> file_saved name a s s'
          \<and> load_agent env name s = Inr old \<and> finished_from old a tid)"

lemma completion_outcome:
  assumes "completion env name tid u = (r, s')" and "bo_agents u = bo_agents s"
  shows "(\<exists>e. r = Inl e \<and> unchanged_or_unread env {Some tid} s e s')
    \<or> (\<exists>a old. r = Inr a \<and> file_saved name a s s' \<and> load_agent env name s = Inr old \<and> finished_from old a tid)"
  using assms(1) unfolding completion_def
proof (elim op_bind_cases, goal_cases)
  case (5 original t1 a t2 a' w t x)
  then have new: "agent_or_new env name u = Inr a" and a: "ag_name a = name" and u: "t1 = u" "t2 = u" and original: "original = snapshot_agent name s"
    and save: "save_agent env (finish_task a tid) u = (Inr a', w)" and x: "bo_uuid env w = (Inr t, x)"
    and tr: "op_try (op_bind (mirrored env (mirror_complete (be_store env) tid name t)) (\<lambda>_. op_return a'))
       (settle_failure env ''complete'' tid name name original [(Some tid, t)] [(Some tid, JNull, Done)] (op_return []) a') x = (r, s')"
    using assms(2) by (auto dest: agent_or_new_name simp: snapshot_agent_def)
  from save_agent_run [OF save] have saved: "agent_name_ok name"
    "a' = (finish_task a tid)\<lparr>ag_last_seen := board_now env u\<rparr>"
    "bo_agents w = AList.update (agent_path name) (CoreJson (dump_agent a')) (bo_agents u)"
    by (auto simp: finish_task_def Let_def a)
  have "bo_agents x = bo_agents w" using op_keeps_run [OF keeps_uuid x] by (simp add: same_agents_def)
  then have held: "file_saved name a' s x"
    using saved a assms(2) by (simp add: file_saved_def update_conv' finish_task_def Let_def)
  have "op_keeps same_agents (op_bind (mirrored env (mirror_complete (be_store env) tid name t)) (\<lambda>_. op_return a'))"
    by (intro board_keeps)
  moreover have "\<forall>y t'. op_bind (mirrored env (mirror_complete (be_store env) tid name t)) (\<lambda>_. op_return a') x = (Inr y, t') \<longrightarrow> y = a'"
    by (auto simp: op_bind_run split: prod.splits sum.splits)
  ultimately have "(r = Inr a' \<and> file_saved name a' s s') \<or> (\<exists>e. r = Inl e \<and> unchanged_or_unread env {Some tid} s e s')"
    using try_settle [OF tr [unfolded original] _ _ no_undo held, of "{Some tid}"] by simp
  moreover obtain old where "load_agent env name s = Inr old" "finished_from old a' tid"
    using new assms(2) unfolding saved(2) by (rule finish_task_from)
  ultimately show ?case by blast
next
  case (3 original t1 a t2 e)
  then have "save_agent env (finish_task a tid) u = (Inl e, s')" "r = Inl e" by auto
  with save_agent_run [OF this(1)] assms(2) show ?case by (auto simp: unchanged_or_unread_def)
qed (use assms(2) in \<open>auto simp: unchanged_or_unread_def bo_uuid_def op_bind_run\<close>)

lemma complete_task_outcome:
  assumes "complete_task env name tid precondition s = (r, s')" and pre: "op_keeps same_agents precondition"
  shows "complete_outcome env name tid s r s'"
proof -
  from assms(1) have "(\<exists>e. r = Inl e \<and> s' = s)
     \<or> (\<exists>a. assert_no_claim_conflict env tid name s = Inr ()
          \<and> find (\<lambda>a. tid \<in> set (ag_completed a)) (load_agents env s) = Some a \<and> r = Inr a \<and> s' = s)
     \<or> (assert_no_claim_conflict env tid name s = Inr ()
          \<and> find (\<lambda>a. tid \<in> set (ag_completed a)) (load_agents env s) = None
          \<and> complete_open_task env name tid precondition s = (r, s'))"
    unfolding complete_task_def
    by (cases "valid_identifier tid") (auto simp: validate_agent_name_def elim!: op_bind_cases split: if_splits option.splits)
  then show ?thesis
  proof (elim disjE exE conjE)
    fix a assume "assert_no_claim_conflict env tid name s = Inr ()"
      "find (\<lambda>a. tid \<in> set (ag_completed a)) (load_agents env s) = Some a" "r = Inr a" "s' = s"
    then show ?thesis unfolding complete_outcome_def by blast
  next
    assume ok: "assert_no_claim_conflict env tid name s = Inr ()"
      "find (\<lambda>a. tid \<in> set (ag_completed a)) (load_agents env s) = None"
      and open_task: "complete_open_task env name tid precondition s = (r, s')"
    from open_task show ?thesis unfolding complete_open_task_def
    proof (elim op_bind_cases, goal_cases)
      case (2 missing t)
      show ?case
      proof (cases "missing = []")
        case True
        with 2 have "op_bind precondition (\<lambda>_. completion env name tid) s = (r, s')"
          and missing: "incomplete_completion_dependencies env tid s = Inr []" by auto
        from this(1) show ?thesis
        proof (rule op_bind_cases, goal_cases)
          case (1 e)
          with op_keeps_run [OF pre] show ?case by (simp add: complete_outcome_def unchanged_or_unread_def same_agents_def)
        next
          case (2 x u)
          have "bo_agents u = bo_agents s" using op_keeps_run [OF pre 2(1)] by (simp add: same_agents_def)
          from completion_outcome [OF 2(2) this] ok missing show ?case unfolding complete_outcome_def by blast
        qed
      qed (use 2 in \<open>auto simp: complete_outcome_def unchanged_or_unread_def\<close>)
    qed (auto simp: complete_outcome_def unchanged_or_unread_def)
  qed (auto simp: complete_outcome_def unchanged_or_unread_def)
qed

section \<open>Properties\<close>

lemma claim_gate_ok:
  assumes "claim_gate env name tid s = Inr v"
  shows "\<exists>vs. get_task_views env False s = Inr vs \<and> v \<in> set vs \<and> tv_id v = tid \<and> \<not> claim_refused v name
    \<and> (tv_dependencies v = [] \<or> (\<exists>ds. get_task_views env True s = Inr ds \<and> incomplete_dependencies ds v = []))"
  using assms by (auto simp: claim_gate_def unclaimable_absent_def find_Some_iff split: option.splits if_splits elim!: r_bind_InrE)

lemma incomplete_dependencies_Nil:
  "incomplete_dependencies ds v = [] \<longleftrightarrow> (\<forall>d\<in>set (tv_dependencies v). \<exists>w. view_of ds d = Some w \<and> tv_status w = TDone)"
  by (auto simp: incomplete_dependencies_def filter_empty_conv split: option.splits)

text \<open>
  C2. A claim that succeeds was allowed and is on record: unless the agent was already working on the
  card, the board showed the task as open, as the agent's own, or as active without an owner, with
  every dependency done; afterwards the agent's file names the task as current and claimed, and no
  other agent's file has changed. This holds whatever faults the card store's mirror meets.
\<close>

theorem claims_are_gated:
  assumes "claim_task env name tid s = (Inr a, s')"
  shows "load_agent env name s' = Inr (Some a) \<and> ag_current a = Some tid
    \<and> (\<forall>p. p \<noteq> agent_path name \<longrightarrow> map_of (bo_agents s') p = map_of (bo_agents s) p)
    \<and> (already_held env name tid s a
       \<or> tid \<in> set (ag_claimed a) \<and> (\<exists>vs v. get_task_views env False s = Inr vs \<and> v \<in> set vs \<and> tv_id v = tid
           \<and> (tv_status v \<in> {TOpen, TBlocked} \<or> tv_claimed_by v = Some name \<or> tv_claimed_by v = None \<and> tv_status v \<noteq> TDone)
           \<and> (tv_dependencies v = [] \<or> (\<exists>ds. get_task_views env True s = Inr ds
                \<and> (\<forall>d\<in>set (tv_dependencies v). \<exists>w. view_of ds d = Some w \<and> tv_status w = TDone)))))"
  using claim_task_outcome [OF assms]
proof (elim disjE exE conjE)
  fix a' assume "Inr a = Inr a'" "s' = s" "already_held env name tid s a'"
  then show ?thesis by (auto simp: already_held_def)
next
  assume "claim_outcome env name tid s (Inr a) s'"
  then obtain v where v: "claim_gate env name tid s = Inr v" "file_saved name a s s'" "ag_current a = Some tid" "tid \<in> set (ag_claimed a)"
    by (auto simp: claim_outcome_def)
  obtain vs where vs: "get_task_views env False s = Inr vs" "v \<in> set vs" "tv_id v = tid" "\<not> claim_refused v name"
    "tv_dependencies v = [] \<or> (\<exists>ds. get_task_views env True s = Inr ds \<and> incomplete_dependencies ds v = [])"
    using claim_gate_ok [OF v(1)] by blast
  have "tv_status v \<in> {TOpen, TBlocked} \<or> tv_claimed_by v = Some name \<or> tv_claimed_by v = None \<and> tv_status v \<noteq> TDone"
    using vs(4) by (cases "tv_status v") (auto simp: claim_refused_def Let_def)
  moreover have "\<forall>p. p \<noteq> agent_path name \<longrightarrow> map_of (bo_agents s') p = map_of (bo_agents s) p"
    using v(2) by (simp add: file_saved_def)
  ultimately show ?thesis
    using v(3,4) vs(1,2,3,5) file_saved_loads [OF v(2)] unfolding incomplete_dependencies_Nil by blast
qed

text \<open>
  C8. Failures are undone: when a claim or a completion raises, for whatever reason and at whatever
  point of the mirror, every agent file is as it was before. The exceptions are that one of the
  cards it wrote to (its own, or the agent's current one) cannot be read back after the failed
  mirror, and that the agent claims its own current task.
\<close>

theorem failures_restore_agents:
  "(claim_task env name tid s = (Inl e, s') \<longrightarrow> map_of (bo_agents s') = map_of (bo_agents s) \<or> unread env e s' tid
       \<or> (\<exists>a c. load_agent env name s = Inr (Some a) \<and> ag_current a = Some c
            \<and> (if c = tid then e = bad_identifier else unread env e s' c)))
   \<and> (op_keeps same_agents precondition \<and> complete_task env name tid precondition s = (Inl e, s')
       \<longrightarrow> map_of (bo_agents s') = map_of (bo_agents s) \<or> unread env e s' tid)"
proof (intro conjI impI)
  assume "claim_task env name tid s = (Inl e, s')"
  from claim_task_outcome [OF this] have "unchanged_or_unread env (touched env name tid s) s e s'"
    by (auto simp: claim_outcome_def)
  moreover have "lost env e s' (bumped_task a tid) \<longleftrightarrow> (if c = tid then e = bad_identifier else unread env e s' c)"
    if "ag_current a = Some c" for a c
    using that by (simp add: lost_def bumped_task_def)
  moreover have "lost env e s' (Some tid) \<longleftrightarrow> unread env e s' tid" by (simp add: lost_def)
  ultimately show "map_of (bo_agents s') = map_of (bo_agents s) \<or> unread env e s' tid
       \<or> (\<exists>a c. load_agent env name s = Inr (Some a) \<and> ag_current a = Some c
            \<and> (if c = tid then e = bad_identifier else unread env e s' c))"
    unfolding unchanged_or_unread_def touched_def by blast
next
  assume "op_keeps same_agents precondition \<and> complete_task env name tid precondition s = (Inl e, s')"
  then show "map_of (bo_agents s') = map_of (bo_agents s) \<or> unread env e s' tid"
    using complete_task_outcome [of env name tid precondition s "Inl e" s']
    by (auto simp: complete_outcome_def unchanged_or_unread_def lost_def)
qed

lemma no_conflict_owner:
  assumes "assert_no_claim_conflict env tid name s = Inr ()" and "cs_fold (be_store env) (bo_store s) tid = Inr (Some k)"
  shows "\<not> truthy (get (cd_meta k) ''claim_conflicts'') \<and> (cd_owner k = JNull \<or> cd_owner k = JStr name)"
  using assms by (auto simp: assert_no_claim_conflict_def split: if_splits)

lemma dependencies_done:
  assumes "incomplete_completion_dependencies env tid s = Inr []"
  shows "\<exists>ds v. get_task_views env True s = Inr ds \<and> view_of ds tid = Some v
      \<and> (\<forall>d\<in>set (tv_dependencies v). \<exists>w. view_of ds d = Some w \<and> tv_status w = TDone)"
  using assms unfolding incomplete_dependencies_Nil [symmetric]
  by (auto simp: incomplete_completion_dependencies_def elim!: r_bind_InrE split: option.splits)

lemma find_first: "find P xs = Some x \<Longrightarrow> \<exists>before after. xs = before @ x # after \<and> P x \<and> (\<forall>y\<in>set before. \<not> P y)"
  by (induction xs) (auto split: if_splits intro: exI [of _ "[]"], metis append_Cons set_ConsD)

text \<open>
  C31. Completion is gated and idempotent. A completion that returns found no unresolved claim conflict
  and no other owner on the card. When some agent's file already lists the task as completed, the
  first such file is the answer and nothing is written at all, to the board or to the card store, and
  whatever the caller wanted to run first is not run. When no file lists it, every dependency is done, and
  afterwards the completing agent's file, which is the answer, has the task among its completed ones
  instead of its claimed ones and is otherwise what it was; the files of the others are unchanged.
\<close>

theorem completion_is_gated:
  assumes "complete_task env name tid precondition s = (Inr a, s')" and "op_keeps same_agents precondition"
  shows "tid \<in> set (ag_completed a)
    \<and> (\<forall>k. cs_fold (be_store env) (bo_store s) tid = Inr (Some k) \<longrightarrow>
         \<not> truthy (get (cd_meta k) ''claim_conflicts'') \<and> (cd_owner k = JNull \<or> cd_owner k = JStr name))
    \<and> (if \<exists>b\<in>set (load_agents env s). tid \<in> set (ag_completed b)
       then s' = s \<and> (\<exists>before after. load_agents env s = before @ a # after \<and> (\<forall>b\<in>set before. tid \<notin> set (ag_completed b)))
       else load_agent env name s' = Inr (Some a)
         \<and> (\<exists>old. load_agent env name s = Inr old \<and> finished_from old a tid)
         \<and> (\<forall>p. p \<noteq> agent_path name \<longrightarrow> map_of (bo_agents s') p = map_of (bo_agents s) p)
         \<and> (\<exists>ds v. get_task_views env True s = Inr ds \<and> view_of ds tid = Some v
              \<and> (\<forall>d\<in>set (tv_dependencies v). \<exists>w. view_of ds d = Some w \<and> tv_status w = TDone)))"
  using complete_task_outcome [OF assms] unfolding complete_outcome_def
proof (elim disjE exE conjE, goal_cases)
  case (2 a')
  then have a: "a' = a" by simp
  from 2(3) have split: "\<exists>before after. load_agents env s = before @ a # after \<and> tid \<in> set (ag_completed a)
      \<and> (\<forall>b\<in>set before. tid \<notin> set (ag_completed b))" unfolding a by (rule find_first)
  then have "\<exists>b\<in>set (load_agents env s). tid \<in> set (ag_completed b)" by auto
  with split 2(4) no_conflict_owner [OF 2(2)] show ?case by auto
next
  case (3 a' old)
  then have a: "a' = a" by simp
  have "\<not> (\<exists>b\<in>set (load_agents env s). tid \<in> set (ag_completed b))"
    using 3(3) by (auto simp: find_None_iff)
  moreover have "tid \<in> set (ag_completed a)"
    using 3(7) by (auto simp: a finished_from_def split: option.splits)
  ultimately show ?case
    using no_conflict_owner [OF 3(2)] dependencies_done [OF 3(4)] 3(5,6,7) file_saved_loads [OF 3(5)]
    by (auto simp: a file_saved_def)
qed auto

text \<open>
  A release that the store already has is never taken as done: although the precondition of a
  release has an answer for a card whose release is already recorded, the checks around it refuse
  every such call, so that a release that goes ahead always names a revision.
\<close>

theorem recorded_release_refused:
  "(cs_fold (be_store env) st tid = Inr (Some c) \<and> current_claim_precondition (be_store env) tid owner st = Inr None)
     \<longrightarrow> (\<exists>err. release_precondition env owner tid expected st = Inl err)"
proof
  assume pre: "cs_fold (be_store env) st tid = Inr (Some c) \<and> current_claim_precondition (be_store env) tid owner st = Inr None"
  then have "claim_precondition c (cs_read_events (be_store env) st tid) owner = Inr None"
    by (auto simp: current_claim_precondition_def)
  then have "cd_owner c \<noteq> JStr owner"
    by (auto simp: claim_precondition_def split: if_splits json.splits)
  with pre show "\<exists>err. release_precondition env owner tid expected st = Inl err"
    by (auto simp: release_precondition_def)
qed

section \<open>Examples\<close>

definition sample_board_env :: "(nat \<Rightarrow> fault) \<Rightarrow> board_env" where
  "sample_board_env faults = \<lparr>be_store = sample_store_env, be_flag = [], be_why = (\<lambda>_. ''why''), be_fault = faults\<rparr>"

definition sample_board :: "jobj list \<Rightarrow> agent_file list \<Rightarrow> board" where
  "sample_board es as = \<lparr>bo_store = sample_store es, bo_tasks = [],
     bo_agents = map (\<lambda>a. (agent_path (ag_name a), CoreJson (dump_agent a))) as, bo_recovery = [], bo_mirrors = 0\<rparr>"

theorem claims_are_gated_witness:
  "\<exists>a s'. claim_task (sample_board_env (\<lambda>_. NoFault)) ''bob'' ''c1'' (sample_board [] []) = (Inr a, s')
     \<and> load_agent (sample_board_env (\<lambda>_. NoFault)) ''bob'' s' = Inr (Some a) \<and> ag_current a = Some ''c1''"
proof -
  let ?run = "claim_task (sample_board_env (\<lambda>_. NoFault)) ''bob'' ''c1'' (sample_board [] [])"
  have "case fst ?run of Inr a \<Rightarrow> True | _ \<Rightarrow> False" by code_simp
  then obtain a where a: "?run = (Inr a, snd ?run)" by (cases "fst ?run") (auto simp: prod_eq_iff)
  from claims_are_gated [OF a] a show ?thesis by blast
qed

theorem failures_restore_agents_witness:
  "\<exists>e s'. claim_task (sample_board_env (\<lambda>_. FailBefore)) ''bob'' ''c1'' (sample_board [] []) = (Inl e, s')
     \<and> map_of (bo_agents s') = map_of (bo_agents (sample_board [] []))"
proof -
  let ?env = "sample_board_env (\<lambda>_. FailBefore)" and ?run = "claim_task (sample_board_env (\<lambda>_. FailBefore)) ''bob'' ''c1'' (sample_board [] [])"
  have "let run = ?run in (case fst run of Inl e \<Rightarrow> True | _ \<Rightarrow> False)
      \<and> map_sum id length (cs_read_events sample_store_env (bo_store (snd run)) ''c1'') = Inr 0
      \<and> (case cs_fold sample_store_env (bo_store (snd run)) ''c1'' of Inr c \<Rightarrow> True | _ \<Rightarrow> False)
      \<and> load_agent ?env ''bob'' (sample_board [] []) = Inr None" by code_simp
  note facts = this [unfolded Let_def]
  then obtain e where e: "?run = (Inl e, snd ?run)" by (cases "fst ?run") (auto simp: prod_eq_iff)
  have "map_sum id length (cs_read_events sample_store_env (bo_store (snd ?run)) ''c1'') = Inr 0"
    "case cs_fold sample_store_env (bo_store (snd ?run)) ''c1'' of Inr c \<Rightarrow> True | _ \<Rightarrow> False"
    using facts by (blast, blast)
  then have "\<not> unread ?env e (snd ?run) ''c1''"
    by (auto simp: unread_def sample_board_env_def)
  moreover have "load_agent ?env ''bob'' (sample_board [] []) = Inr None" using facts by blast
  ultimately show ?thesis
    using failures_restore_agents [of ?env "''bob''" "''c1''" "sample_board [] []" e "snd ?run"] e by auto
qed

definition finished_eve :: agent_file where
  "finished_eve = (new_agent ''1'' ''h1'' ''eve'')\<lparr>ag_completed := [''c2'']\<rparr>"

theorem completion_is_gated_witness:
  "\<exists>a s' b. complete_task (sample_board_env (\<lambda>_. NoFault)) ''bob'' ''c1'' (op_return ()) (sample_board [] []) = (Inr a, s')
     \<and> ''c1'' \<in> set (ag_completed a)
     \<and> complete_task (sample_board_env (\<lambda>_. NoFault)) ''eve'' ''c2'' (op_return ()) (sample_board [] [finished_eve]) = (Inr b, sample_board [] [finished_eve])"
proof -
  let ?run = "complete_task (sample_board_env (\<lambda>_. NoFault)) ''bob'' ''c1'' (op_return ()) (sample_board [] [])"
  let ?again = "complete_task (sample_board_env (\<lambda>_. NoFault)) ''eve'' ''c2'' (op_return ()) (sample_board [] [finished_eve])"
  have "case fst ?run of Inr a \<Rightarrow> True | _ \<Rightarrow> False" by code_simp
  then obtain a where a: "?run = (Inr a, snd ?run)" by (cases "fst ?run") (auto simp: prod_eq_iff)
  have "case fst ?again of Inr a \<Rightarrow> True | _ \<Rightarrow> False" by code_simp
  then obtain b where b: "?again = (Inr b, snd ?again)" by (cases "fst ?again") (auto simp: prod_eq_iff)
  have "list_ex (\<lambda>b. ''c2'' \<in> set (ag_completed b)) (load_agents (sample_board_env (\<lambda>_. NoFault)) (sample_board [] [finished_eve]))"
    by code_simp
  then have "snd ?again = sample_board [] [finished_eve]"
    using completion_is_gated [OF b agents_kept.keeps_return] unfolding list_ex_iff by auto
  with completion_is_gated [OF a agents_kept.keeps_return] a b show ?thesis by metis
qed

definition released_log :: "jobj list" where
  "released_log = [sample_act ''1'' ''claim'' [(''owner'', JStr ''bob''), (''claim_revision'', JStr ''r1'')],
     sample_act ''2'' ''release_claim'' [(''released_owner'', JStr ''bob''), (''expected_claim_revision'', JStr ''r1'')]]"

theorem recorded_release_refused_witness:
  "\<exists>err. release_precondition (sample_board_env (\<lambda>_. NoFault)) ''bob'' ''c1'' (Some ''r1'') (sample_store released_log) = Inl err"
proof -
  have "case cs_fold sample_store_env (sample_store released_log) ''c1'' of Inr (Some c) \<Rightarrow> True | _ \<Rightarrow> False"
    by code_simp
  then obtain c where "cs_fold sample_store_env (sample_store released_log) ''c1'' = Inr (Some c)"
    by (auto split: sum.splits option.splits)
  moreover have "current_claim_precondition sample_store_env ''c1'' ''bob'' (sample_store released_log) = Inr None"
    by code_simp
  ultimately show ?thesis
    using recorded_release_refused [of "sample_board_env (\<lambda>_. NoFault)" "sample_store released_log" "''c1''" c "''bob''" "Some ''r1''"]
    by (simp add: sample_board_env_def)
qed

text \<open>
  An agent whose current card was assigned to it after the claim, so that the card has no revision, cannot
  claim it again: the demotion that is due for "the bumped card" has no card, and its failure leaves
  the claim that was just written.
\<close>

definition ana_on_c1 :: agent_file where
  "ana_on_c1 = (new_agent ''0'' ''h1'' ''ana'')\<lparr>ag_current := Some ''c1'', ag_claimed := [''c1'']\<rparr>"

theorem reclaim_without_revision_raises:
  "(let log = [sample_act ''1'' ''claim'' [(''owner'', JStr ''ana''), (''claim_revision'', JStr ''r1'')],
               sample_act ''2'' ''assign'' [(''owner'', JStr ''ana'')]];
        b = sample_board log [ana_on_c1]; run = claim_task (sample_board_env (\<lambda>_. NoFault)) ''ana'' ''c1'' b
    in fst run = Inl bad_identifier \<and> bo_recovery (snd run) = []
     \<and> map_sum id length (cs_read_events sample_store_env (bo_store (snd run)) ''c1'') = Inr 3)"
  by code_simp

end
