(* ===== verification/Board_Upkeep.thy ===== *)
theory Board_Upkeep
  imports Board_Guarantees Isotime
begin

text \<open>
  Upkeep of the board: the archive index, the sweeps that archive finished and forgotten tasks, the set of
  tasks that are free of open dependencies, and the release of the claims of an agent that has not
  been seen for a while, with what the sweeps and the releases do to the cards in the store. Instants are microseconds, as in \<open>Isotime\<close>; the reference time of a sweep is
  a parameter, and its cutoff is assumed to lie in the range of \<open>datetime\<close>.
\<close>

section \<open>Archiving\<close>

definition archive_lines :: "board_env \<Rightarrow> board \<Rightarrow> store_line list" where
  "archive_lines env b = (case map_of (so_archive (bo_store b)) (se_host (be_store env) @ ''.jsonl'') of
     None \<Rightarrow> [] | Some ls \<Rightarrow> ls)"

definition archive_entry :: "board_env \<Rightarrow> board \<Rightarrow> string \<Rightarrow> string \<Rightarrow> jobj" where
  "archive_entry env b tid writer =
     [(''id'', JStr tid), (''archived_at'', JStr (board_now env b)), (''archived_by'', JStr writer)]"

definition add_archive_line :: "board_env \<Rightarrow> string \<Rightarrow> string \<Rightarrow> board \<Rightarrow> board" where
  "add_archive_line env tid writer b =
     (let e = JObj (archive_entry env b tid writer)
      in b\<lparr>bo_store := (bo_store b)\<lparr>so_archive := AList.update (se_host (be_store env) @ ''.jsonl'')
             (archive_lines env b @ [SLine (json_dumps e) (Some e)]) (so_archive (bo_store b))\<rparr>\<rparr>)"

text \<open>The mirror of an archive may fail without consequence.\<close>

definition archive_task :: "board_env \<Rightarrow> string \<Rightarrow> string \<Rightarrow> (board, unit) op" where
  "archive_task env tid writer =
     op_bind (op_write (add_archive_line env tid writer)) (\<lambda>_.
     op_bind (op_write next_tick) (\<lambda>_.
     op_catch (\<lambda>_. True) (mirrored env (mirror_archive (be_store env) tid writer)) ()))"

section \<open>Sweeps\<close>

definition day_micros :: int where
  "day_micros = 86400 * 1000000"

definition utc_instant :: "datetime \<Rightarrow> int" where
  "utc_instant d = (case instant d of Some t \<Rightarrow> t | None \<Rightarrow> dt_local d)"

text \<open>What cannot be parsed counts as older than the cutoff.\<close>

definition parse_board_timestamp :: "int \<Rightarrow> json \<Rightarrow> int" where
  "parse_board_timestamp cutoff raw = (case raw of
     JStr s \<Rightarrow> (case fromisoformat s of Some d \<Rightarrow> utc_instant d | None \<Rightarrow> cutoff - day_micros)
   | _ \<Rightarrow> cutoff - day_micros)"

definition is_human_held :: "task_view \<Rightarrow> bool" where
  "is_human_held v \<longleftrightarrow> ''human-gate'' \<in> lower ` set (tv_tags v) \<or> contains (lower (tv_title v)) ''[human]''"

definition forgotten :: "int \<Rightarrow> task_view \<Rightarrow> bool" where
  "forgotten cutoff v \<longleftrightarrow> tv_status v = TOpen \<and> \<not> is_human_held v
     \<and> parse_board_timestamp cutoff (JStr (tv_created_at v)) \<le> cutoff"

definition age_stale_open :: "board_env \<Rightarrow> int \<Rightarrow> int \<Rightarrow> bool \<Rightarrow> (board, string list) op" where
  "age_stale_open env days now dry_run =
     op_bind (op_result (legacy_task_views env False)) (\<lambda>vs.
     let ids = map tv_id (filter (forgotten (now - days * day_micros)) vs) in
     op_bind (op_when (\<not> dry_run) (op_for ids (\<lambda>t. archive_task env t ''age-backlog''))) (\<lambda>_. op_return ids))"

text \<open>The age of each done task, in the order the tasks are met.\<close>

definition legacy_age :: "task_view \<Rightarrow> json" where
  "legacy_age v = py_or (get (tv_meta v) ''_board_updated_at'') (JStr (tv_created_at v))"

definition legacy_done_ages :: "task_view list \<Rightarrow> (string \<times> json) list" where
  "legacy_done_ages vs = fold (\<lambda>v. AList.update (tv_id v) (legacy_age v)) (filter (\<lambda>v. tv_status v = TDone) vs) []"

definition add_card_age :: "card \<Rightarrow> (string \<times> json) list \<Rightarrow> (string \<times> json) list" where
  "add_card_age c ages =
     (if truthy (cd_updated_at c) then AList.update (cd_id c) (cd_updated_at c) ages
      else if map_of ages (cd_id c) \<noteq> None then ages
      else AList.update (cd_id c) (py_or (JStr (cd_created_at c)) JNull) ages)"

definition done_cards :: "card list \<Rightarrow> card list" where
  "done_cards cs = filter (\<lambda>c. cd_kind c \<in> {Task, Epic} \<and> cd_status c = Done) cs"

definition done_ages :: "board_env \<Rightarrow> board \<Rightarrow> task_view list \<Rightarrow> (string \<times> json) list" where
  "done_ages env b vs =
     (if card_store_read_enabled env
      then case cs_list_cards (be_why env) (be_store env) False True (bo_store b) of
          Inl _ \<Rightarrow> legacy_done_ages vs
        | Inr cs \<Rightarrow> fold add_card_age (done_cards cs) (legacy_done_ages vs)
      else legacy_done_ages vs)"

definition archive_done_tasks :: "board_env \<Rightarrow> int \<Rightarrow> int \<Rightarrow> bool \<Rightarrow> (board, string list) op" where
  "archive_done_tasks env days now dry_run =
     op_bind (op_result (legacy_task_views env False)) (\<lambda>vs.
     op_bind (op_read (\<lambda>b. done_ages env b vs)) (\<lambda>ages.
     let cutoff = now - days * day_micros;
         ids = map fst (filter (\<lambda>(t, age). parse_board_timestamp cutoff age \<le> cutoff) ages) in
     op_bind (op_when (\<not> dry_run) (op_for ids (\<lambda>t. archive_task env t ''archive-done''))) (\<lambda>_. op_return ids)))"

section \<open>Eligibility\<close>

definition status_of :: "task_view list \<Rightarrow> string \<Rightarrow> task_status option" where
  "status_of vs t = map_option tv_status (view_of vs t)"

definition unblocked_task_ids :: "board_env \<Rightarrow> board \<Rightarrow> string set result" where
  "unblocked_task_ids env b =
     r_bind (legacy_task_views env True b) (\<lambda>everything.
     r_bind (legacy_task_views env False b) (\<lambda>vs.
     Inr (tv_id ` set (filter (\<lambda>v. list_all (\<lambda>d. status_of everything d = Some TDone) (tv_dependencies v)
            \<and> ''autopilot-staged'' \<notin> set (tv_tags v)) vs))))"

section \<open>Stale claims\<close>

definition now_instant :: "board_env \<Rightarrow> board \<Rightarrow> int" where
  "now_instant env b = (case fromisoformat (board_now env b) of Some d \<Rightarrow> utc_instant d | None \<Rightarrow> 0)"

text \<open>The claims of an agent that has not been seen for the given number of seconds; otherwise none.\<close>

definition stale_claims :: "int \<Rightarrow> int \<Rightarrow> agent_file \<Rightarrow> string list" where
  "stale_claims seconds now a = (case fromisoformat (ag_last_seen a) of
     None \<Rightarrow> []
   | Some d \<Rightarrow> if now - utc_instant d < seconds * 1000000 then [] else sort (remdups (ag_claimed a)))"

definition release_each :: "board_env \<Rightarrow> string \<Rightarrow> string list \<Rightarrow> (board, string list) op" where
  "release_each env name ids = op_collect ids (\<lambda>t.
     op_bind (op_result (card_lock env t)) (\<lambda>_.
     op_bind (release_claim_locked env name t ''stale-release'' None True None) (\<lambda>ok.
     op_return (if ok then Some t else None))))"

definition release_stale_claims :: "board_env \<Rightarrow> string \<Rightarrow> int \<Rightarrow> (board, string list) op" where
  "release_stale_claims env agent_name seconds =
     op_bind (op_result (\<lambda>_. validate_agent_name agent_name)) (\<lambda>name.
     op_bind (op_result (load_agent env name)) (\<lambda>agent. case agent of
       None \<Rightarrow> op_return []
     | Some a \<Rightarrow>
       op_bind (op_read (\<lambda>b. stale_claims seconds (now_instant env b) a)) (\<lambda>ids.
       if ids = [] then op_return []
       else if \<not> list_all valid_identifier ids then op_raise bad_identifier
       else op_bind (op_write next_tick) (\<lambda>_. release_each env name ids))))"

section \<open>The archive index\<close>

text \<open>What archiving leaves alone, and what it adds.\<close>

definition same_archive :: "store \<Rightarrow> store \<Rightarrow> bool" where
  "same_archive s t \<longleftrightarrow> so_archive t = so_archive s"

interpretation archive_kept: op_order same_archive
  by unfold_locales (simp_all add: same_archive_def)

lemma keeps_archive: "op_keeps same_archive (cs_append env cid action agent payload)"
  unfolding cs_append_def
  by (intro archive_kept.keeps keeps_intros) (simp add: same_archive_def write_event_def add_line_def Let_def)

definition same_index :: "board \<Rightarrow> board \<Rightarrow> bool" where
  "same_index s t \<longleftrightarrow> so_archive (bo_store t) = so_archive (bo_store s) \<and> bo_tasks t = bo_tasks s \<and> bo_agents t = bo_agents s"

interpretation index_kept: op_order same_index
  by unfold_locales (simp_all add: same_index_def)

lemma keeps_index_store: "op_keeps same_archive m \<Longrightarrow> op_keeps same_index (on_store m)"
  unfolding op_keeps_def on_store_def same_index_def same_archive_def by (auto split: prod.split) (metis snd_conv)

lemma keeps_index_mirrored: "op_keeps same_archive m \<Longrightarrow> op_keeps same_index (mirrored env m)"
  unfolding mirrored_def
  by (intro index_kept.keeps keeps_intros)
    (auto simp: same_index_def intro!: index_kept.keeps keeps_index_store split: fault.split)

text \<open>
  What a sweep does to the cards: it leaves the cards outside \<open>C\<close> and every core alone, and each event
  file of the others at most grows, by archive events of the sweep.
\<close>

definition archive_line :: "string \<Rightarrow> store_line \<Rightarrow> bool" where
  "archive_line writer l \<longleftrightarrow> (\<exists>x e. l = SLine x (Some (JObj e)) \<and> get e ''action'' = JStr ''archive''
     \<and> get e ''writer'' = JStr writer)"

definition only_archives :: "string \<Rightarrow> string set \<Rightarrow> store \<Rightarrow> store \<Rightarrow> bool" where
  "only_archives writer C s t \<longleftrightarrow> so_overlay t = so_overlay s \<and> so_tasks t = so_tasks s
     \<and> (\<forall>c. c \<notin> C \<longrightarrow> map_of (so_cards t) c = map_of (so_cards s) c)
     \<and> (\<forall>c. map_option dir_core (map_of (so_cards t) c) = map_option dir_core (map_of (so_cards s) c))
     \<and> (\<forall>c f. \<exists>ls. file_lines t c f = file_lines s c f @ ls \<and> list_all (archive_line writer) ls)"

lemma only_archives_refl: "only_archives writer C s s"
  by (simp add: only_archives_def)

lemma only_archives_trans:
  assumes "only_archives writer C s t" and "only_archives writer C t u"
  shows "only_archives writer C s u"
proof -
  have "\<exists>ls. file_lines u c f = file_lines s c f @ ls \<and> list_all (archive_line writer) ls" for c f
  proof -
    obtain xs ys where "file_lines t c f = file_lines s c f @ xs" "list_all (archive_line writer) xs"
      "file_lines u c f = file_lines t c f @ ys" "list_all (archive_line writer) ys"
      using assms unfolding only_archives_def by meson
    then show ?thesis by (intro exI [of _ "xs @ ys"]) simp
  qed
  with assms show ?thesis by (simp add: only_archives_def)
qed

lemma write_keeps_cores:
  assumes "lock_anchor cid st = Inr ()"
  shows "map_option dir_core (map_of (so_cards (write_event env cid agent e st)) c) = map_option dir_core (map_of (so_cards st) c)"
proof -
  obtain d where "map_of (so_cards st) cid = Some d"
    using assms by (auto simp: lock_anchor_def cs_load_core_def split: if_splits option.splits)
  then show ?thesis by (simp add: write_event_def add_line_def Let_def update_conv')
qed

lemma write_other_cards: "c \<noteq> cid \<Longrightarrow> map_of (so_cards (write_event env cid agent e st)) c = map_of (so_cards st) c"
  by (simp add: write_event_def add_line_def Let_def update_conv')

lemma write_event_rest:
  "so_overlay (write_event env cid agent e st) = so_overlay st" "so_tasks (write_event env cid agent e st) = so_tasks st"
  "so_archive (write_event env cid agent e st) = so_archive st"
  by (simp_all add: write_event_def add_line_def Let_def)

lemma archive_append:
  assumes "cid \<in> C"
  shows "only_archives writer C st (snd (cs_append env cid ''archive'' writer [] st))"
proof -
  obtain r st' where run: "cs_append env cid ''archive'' writer [] st = (r, st')"
    by (cases "cs_append env cid ''archive'' writer [] st")
  from run have "only_archives writer C st st'"
  proof (cases rule: cs_append_cases)
    case (written p)
    then have p: "p = []" by (simp add: normalised_payload_def)
    have "\<exists>ls. file_lines st' c f = file_lines st c f @ ls \<and> list_all (archive_line writer) ls" for c f
      unfolding written(7) file_lines_event
      by (intro exI conjI, rule refl) (simp add: archive_line_def p store_event_def Let_def)
    moreover have "map_of (so_cards st') c = map_of (so_cards st) c" if "c \<notin> C" for c
      unfolding written(7) by (rule write_other_cards) (use that assms in blast)
    ultimately show ?thesis
      using written(2) by (simp add: only_archives_def written(7) write_event_rest write_keeps_cores)
  qed (simp_all add: only_archives_refl)
  with run show ?thesis by simp
qed

text \<open>The same for a board, whose tasks, agents and recovery records a sweep leaves alone.\<close>

definition swept :: "string \<Rightarrow> string set \<Rightarrow> board \<Rightarrow> board \<Rightarrow> bool" where
  "swept writer C s t \<longleftrightarrow> bo_tasks t = bo_tasks s \<and> bo_agents t = bo_agents s \<and> bo_recovery t = bo_recovery s
     \<and> only_archives writer C (bo_store s) (bo_store t)"

interpretation sweep: op_order "swept writer C" for writer C
  by unfold_locales (auto simp: swept_def only_archives_refl intro: only_archives_trans)

lemma archive_swept:
  assumes "tid \<in> C" and "writer \<noteq> []"
  shows "op_keeps (swept writer C) (archive_task env tid writer)"
proof -
  have same: "only_archives writer C st (st\<lparr>so_archive := x\<rparr>)" "only_archives writer C st (st\<lparr>so_ticks := n\<rparr>)" for st x n
    by (simp_all add: only_archives_def file_lines_def card_files_def)
  have "op_keeps (swept writer C) (on_store (mirror_archive (be_store env) tid writer))"
    using archive_append [OF assms(1)] assms(2)
    by (auto simp: op_keeps_def on_store_def swept_def mirror_archive_def split: prod.split) (metis snd_conv)
  then have "op_keeps (swept writer C) (mirrored env (mirror_archive (be_store env) tid writer))"
    unfolding mirrored_def
    by (intro sweep.keeps keeps_intros)
      (auto simp: swept_def only_archives_refl intro!: sweep.keeps split: fault.split)
  then show ?thesis unfolding archive_task_def
    by (intro sweep.keeps keeps_intros) (simp_all add: swept_def add_archive_line_def next_tick_def Let_def same)
qed

text \<open>An index file whose every line is blank or names a task.\<close>

definition readable_line :: "store_line \<Rightarrow> bool" where
  "readable_line l \<longleftrightarrow> (case l of SLine t v \<Rightarrow> t = [] \<or> (case v of Some (JObj d) \<Rightarrow> hashable (get d ''id'') | _ \<Rightarrow> False))"

lemma archived_in_append: "list_all readable_line ls \<Longrightarrow> archived_in (ls @ ms) = archived_in ls @ archived_in ms"
  by (induction ls rule: archived_in.induct) (auto simp: readable_line_def split: option.splits json.splits)

lemma archived_update:
  assumes "jsonl k" and "ls = (case map_of xs k of None \<Rightarrow> [] | Some l \<Rightarrow> l)" and "list_all readable_line ls"
  shows "set (concat (map (archived_in \<circ> snd) (filter (\<lambda>(n, l). jsonl n) (AList.update k (ls @ ms) xs))))
    = set (concat (map (archived_in \<circ> snd) (filter (\<lambda>(n, l). jsonl n) xs))) \<union> set (archived_in ms)"
  using assms(2) assms(1,3)
proof (induction xs)
  case (Cons p xs)
  then show ?case
    by (cases "fst p = k") (auto simp: archived_in_append split_beta)
qed simp

lemma add_archive_line:
  assumes "list_all readable_line (archive_lines env b)"
  shows "archived_ids (add_archive_line env tid writer b) = archived_ids b \<union> (if tid = [] then {} else {JStr tid})"
    and "list_all readable_line (archive_lines env (add_archive_line env tid writer b))"
    and "bo_tasks (add_archive_line env tid writer b) = bo_tasks b \<and> bo_agents (add_archive_line env tid writer b) = bo_agents b"
proof -
  let ?e = "JObj (archive_entry env b tid writer)"
  have id: "get (archive_entry env b tid writer) ''id'' = JStr tid" by (simp add: archive_entry_def)
  have line: "set (archived_in [SLine (json_dumps ?e) (Some ?e)]) = (if tid = [] then {} else {JStr tid})"
    using json_dumps_obj [of "archive_entry env b tid writer"] by (simp add: id)
  have index: "so_archive (bo_store (add_archive_line env tid writer b)) = AList.update (se_host (be_store env) @ ''.jsonl'')
      (archive_lines env b @ [SLine (json_dumps ?e) (Some ?e)]) (so_archive (bo_store b))"
    by (simp add: add_archive_line_def Let_def)
  have name: "jsonl (se_host (be_store env) @ ''.jsonl'')" by (simp add: jsonl_def)
  show "archived_ids (add_archive_line env tid writer b) = archived_ids b \<union> (if tid = [] then {} else {JStr tid})"
    unfolding archived_ids_def index archived_update [OF name archive_lines_def assms] line ..
  show "list_all readable_line (archive_lines env (add_archive_line env tid writer b))"
    using assms by (simp add: archive_lines_def add_archive_line_def Let_def update_conv' readable_line_def id)
qed (simp add: add_archive_line_def Let_def)

lemma archive_task_run:
  assumes "list_all readable_line (archive_lines env s)"
  shows "fst (archive_task env tid writer s) = Inr ()"
    and "archived_ids (snd (archive_task env tid writer s)) = archived_ids s \<union> (if tid = [] then {} else {JStr tid})"
    and "list_all readable_line (archive_lines env (snd (archive_task env tid writer s)))"
    and "bo_tasks (snd (archive_task env tid writer s)) = bo_tasks s \<and> bo_agents (snd (archive_task env tid writer s)) = bo_agents s"
proof -
  let ?s = "next_tick (add_archive_line env tid writer s)"
  obtain r t where t: "mirrored env (mirror_archive (be_store env) tid writer) ?s = (r, t)"
    by (cases "mirrored env (mirror_archive (be_store env) tid writer) ?s")
  have "same_index ?s t"
    using op_keeps_run [OF keeps_index_mirrored t] keeps_archive by (simp add: mirror_archive_def)
  then have same: "so_archive (bo_store t) = so_archive (bo_store (add_archive_line env tid writer s))"
    "bo_tasks t = bo_tasks s" "bo_agents t = bo_agents s"
    using add_archive_line(3) [OF assms] by (simp_all add: same_index_def next_tick_def)
  have run: "archive_task env tid writer s = (Inr (), t)"
    using t by (cases r) (simp_all add: archive_task_def op_catch_def)
  from same(1) have "archived_ids t = archived_ids (add_archive_line env tid writer s)"
    "archive_lines env t = archive_lines env (add_archive_line env tid writer s)"
    by (simp_all add: archived_ids_def archive_lines_def)
  with run same add_archive_line [OF assms]
  show "fst (archive_task env tid writer s) = Inr ()"
    "archived_ids (snd (archive_task env tid writer s)) = archived_ids s \<union> (if tid = [] then {} else {JStr tid})"
    "list_all readable_line (archive_lines env (snd (archive_task env tid writer s)))"
    "bo_tasks (snd (archive_task env tid writer s)) = bo_tasks s \<and> bo_agents (snd (archive_task env tid writer s)) = bo_agents s"
    by simp_all
qed

lemma archives_swept:
  assumes "set ids \<subseteq> C" and "writer \<noteq> []" and "op_for ids (\<lambda>t. archive_task env t writer) s = (r, s')"
  shows "swept writer C s s'"
proof -
  from assms(1) have "op_keeps (swept writer C) (op_for ids (\<lambda>t. archive_task env t writer))"
    by (induction ids) (auto intro!: sweep.keeps archive_swept assms(2))
  then show ?thesis using assms(3) by (rule op_keeps_run)
qed

lemma archive_all:
  assumes "op_for ids (\<lambda>t. archive_task env t writer) s = (r, s')" and "list_all readable_line (archive_lines env s)"
  shows "r = Inr () \<and> archived_ids s' = archived_ids s \<union> JStr ` (set ids - {[]}) \<and> bo_tasks s' = bo_tasks s \<and> bo_agents s' = bo_agents s"
  using assms
proof (induction ids arbitrary: s)
  case (Cons x ids)
  from archive_task_run(1) [OF Cons.prems(2), of x writer] Cons.prems(1)
  have "op_for ids (\<lambda>t. archive_task env t writer) (snd (archive_task env x writer s)) = (r, s')"
    by (cases "archive_task env x writer s") (simp add: op_bind_run)
  from Cons.IH [OF this archive_task_run(3) [OF Cons.prems(2)]] archive_task_run(2,4) [OF Cons.prems(2), of x writer]
  show ?case by auto
qed simp

section \<open>The legacy projection\<close>

text \<open>
  When the criteria of all tasks could be folded, so can their dependencies: the birth dependencies are
  never used in the place of amended ones.
\<close>

definition derived_view :: "board_env \<Rightarrow> board \<Rightarrow> task_view \<Rightarrow> task_view \<Rightarrow> bool" where
  "derived_view env b t v \<longleftrightarrow> tv_id v = tv_id t \<and> tv_tags v = tv_tags t \<and> tv_title v = tv_title t
     \<and> tv_created_at v = tv_created_at t \<and> tv_status v = derived_status (load_agents env b) (tv_id t)
     \<and> (\<exists>ds. current_dependencies (be_store env) (tv_id t) (tv_dependencies t) (bo_store b) = Inr ds \<and> tv_dependencies v = texts_of ds)"

lemma legacy_views:
  assumes "legacy_task_views env everything b = Inr vs"
  shows "list_all2 (derived_view env b) (load_tasks everything b) vs"
proof -
  let ?deps = "\<lambda>t. current_dependencies (be_store env) (tv_id t) (tv_dependencies t) (bo_store b)"
  let ?amend = "\<lambda>t. t\<lparr>tv_dependencies := texts_of (projr (?deps t))\<rparr>"
  let ?derive = "\<lambda>t. t\<lparr>tv_status := derived_status (load_agents env b) (tv_id t), tv_claimed_by := claimed_by (load_agents env b) (tv_id t)\<rparr>"
  obtain ts where ts: "list_all2 (\<lambda>t t'. r_bind (current_criteria (be_store env) (bo_store b) t)
        (\<lambda>cs. Inr (t\<lparr>tv_criteria := cs\<rparr>)) = Inr t') (load_tasks everything b) ts"
    and vs: "vs = map ?derive (amended_tasks (be_store env) (bo_store b) ts)"
    using assms by (auto simp: legacy_task_views_def Let_def r_map_Inr_iff elim!: r_bind_InrE)
  have folded: "list_all2 (\<lambda>t t'. \<exists>cs. t' = t\<lparr>tv_criteria := cs\<rparr> \<and> (\<exists>ds. ?deps t = Inr ds)) (load_tasks everything b) ts"
    using ts
  proof (rule list_all2_mono, elim r_bind_InrE)
    fix t t' cs assume "current_criteria (be_store env) (bo_store b) t = Inr cs" "Inr (t\<lparr>tv_criteria := cs\<rparr>) = Inr t'"
    then show "\<exists>cs. t' = t\<lparr>tv_criteria := cs\<rparr> \<and> (\<exists>ds. ?deps t = Inr ds)"
      by (auto simp: current_criteria_def current_dependencies_def elim!: r_bind_InrE)
  qed
  have total: "?deps t = Inr (projr (?deps t))" if "t \<in> set ts" for t
  proof -
    from folded that obtain u cs ds where "t = u\<lparr>tv_criteria := cs\<rparr>" "?deps u = Inr ds"
      by (auto simp: list_all2_conv_all_nth in_set_conv_nth)
    then show ?thesis by simp
  qed
  have "r_map (\<lambda>t. r_bind (?deps t) (\<lambda>ds. Inr (t\<lparr>tv_dependencies := texts_of ds\<rparr>))) ts = Inr (map ?amend ts)"
    by (rule r_map_total) (subst total, assumption, simp)
  then have "amended_tasks (be_store env) (bo_store b) ts = map ?amend ts"
    by (simp add: amended_tasks_def)
  with vs have "vs = map (?derive \<circ> ?amend) ts" by simp
  then show ?thesis
    using folded by (auto simp: list_all2_map2 derived_view_def elim!: list_all2_mono)
qed

lemma legacy_views_mem:
  assumes "legacy_task_views env everything b = Inr vs" and "v \<in> set vs"
  shows "\<exists>t\<in>set (load_tasks everything b). derived_view env b t v"
proof -
  obtain i where "i < length vs" "v = vs ! i" using assms(2) by (auto simp: in_set_conv_nth)
  with legacy_views [OF assms(1)] show ?thesis
    by (intro bexI [of _ "load_tasks everything b ! i"]) (auto simp: list_all2_conv_all_nth)
qed

lemma derived_done: "derived_status as t = TDone \<longleftrightarrow> (\<exists>a\<in>set as. t \<in> set (ag_completed a))"
  by (simp add: derived_status_def list_ex_iff)

lemma derived_open:
  "derived_status as t = TOpen \<longleftrightarrow> (\<forall>a\<in>set as. t \<notin> set (ag_completed a) \<and> t \<notin> set (claims_of a))"
proof -
  have "in_progress as t \<Longrightarrow> \<exists>a\<in>set as. t \<in> set (claims_of a)"
    by (force simp: in_progress_def list_ex_iff claims_of_def)
  moreover have "claimed_by as t = None \<longleftrightarrow> (\<forall>a\<in>set as. t \<notin> set (claims_of a))"
    by (auto simp: claimed_by_def find_None_iff)
  ultimately show ?thesis by (auto simp: derived_status_def list_ex_iff)
qed

section \<open>Releases\<close>

text \<open>The lock of a card is granted only if the card has a core: the leave to skip the mirror is never used.\<close>

lemma locked_has_core:
  assumes "card_lock env tid s = Inr ()" and "card_store_write_enabled env"
  shows "cs_load_core (bo_store s) tid \<noteq> Inr None"
  using assms by (auto simp: card_lock_def lock_anchor_def split: if_splits)

lemma released_run: "released env tid t owner p s = (r, u) \<Longrightarrow> u = s"
  by (auto simp: released_def split: prod.splits option.splits)

lemma released_then:
  assumes "op_bind (released env tid t owner p) (\<lambda>ok. if ok then op_return True else op_bind m (\<lambda>_. op_raise e)) s = (Inr ok, u)"
  shows "ok \<and> u = s \<and> released env tid t owner p s = (Inr True, s)"
  using assms by (auto elim!: op_bind_cases dest: released_run split: if_splits)

text \<open>A release that succeeds ends where the mirror left off, in a state where it counts as applied.\<close>

lemma release_mirrored:
  assumes "op_try (op_bind (mirrored env m) (\<lambda>_. op_bind (released env tid t owner p) (\<lambda>ok.
        if ok then op_return True else op_raise err)))
      (\<lambda>e. op_bind (released env tid t owner p) (\<lambda>ok. if ok then op_return True else op_bind (h e) (\<lambda>_. op_raise e))) s = (Inr ok, s')"
  obtains r where "ok" "mirrored env m s = (r, s')" "released env tid t owner p s' = (Inr True, s')"
proof -
  obtain r u where u: "mirrored env m s = (r, u)" by (cases "mirrored env m s")
  obtain q v where q: "released env tid t owner p u = (q, v)" by (cases "released env tid t owner p u")
  have v: "v = u" by (rule released_run [OF q])
  have "ok \<and> s' = u \<and> released env tid t owner p u = (Inr True, u)"
  proof (cases "\<exists>x. r = Inr x \<and> q = Inr True")
    case True
    with u q v assms show ?thesis by (auto simp: op_try_def op_bind_run)
  next
    case False
    with u q v obtain e where "op_bind (mirrored env m) (\<lambda>_. op_bind (released env tid t owner p) (\<lambda>ok.
        if ok then op_return True else op_raise err)) s = (Inl e, u)"
      by (cases r; cases q) (auto simp: op_bind_run split: if_splits)
    with assms have "op_bind (released env tid t owner p) (\<lambda>ok. if ok then op_return True else op_bind (h e) (\<lambda>_. op_raise e)) u = (Inr ok, s')"
      by (simp add: op_try_def)
    from released_then [OF this] show ?thesis by simp
  qed
  with u that show thesis by simp
qed

lemma mirrored_store:
  assumes "mirrored env m s = (r, u)" and "card_store_write_enabled env"
  shows "bo_store u = bo_store s \<or> bo_store u = snd (m (bo_store s))"
  using assms by (cases "be_fault env (bo_mirrors s)") (auto simp: mirrored_def op_bind_run on_store_def split: prod.splits sum.splits)

lemma mirrored_off: "mirrored env m s = (r, u) \<Longrightarrow> \<not> card_store_write_enabled env \<Longrightarrow> bo_store u = bo_store s"
  by (simp add: mirrored_def)

text \<open>
  What the store shows of a released card: the owner held it before; one release event, of the revision
  that the card had then, is added to the actor's file and nothing to any other file; and afterwards
  the card is free, in the backlog, with no revision.
\<close>

definition release_recorded :: "store_env \<Rightarrow> string \<Rightarrow> string \<Rightarrow> string \<Rightarrow> store \<Rightarrow> store \<Rightarrow> bool" where
  "release_recorded env owner actor tid st st' \<longleftrightarrow> (\<exists>k0 k e.
     cs_fold env st tid = Inr (Some k0) \<and> cd_owner k0 = JStr owner
     \<and> get e ''action'' = JStr ''release_claim'' \<and> get e ''writer'' = JStr actor
     \<and> get e ''released_owner'' = JStr owner \<and> get e ''expected_claim_revision'' = revision k0
     \<and> (\<forall>f. file_lines st' tid f = file_lines st tid f
          @ (if f = store_writer_id env actor @ ''.jsonl'' then [SLine (json_dumps (JObj e)) (Some (JObj e))] else []))
     \<and> cs_fold env st' tid = Inr (Some k) \<and> cd_owner k = JNull \<and> cd_status k = Backlog
     \<and> \<not> has_key (cd_meta k) ''_claim_revision'')"

text \<open>What a write to other cards, or to no card, leaves of a card.\<close>

definition card_kept :: "string \<Rightarrow> store \<Rightarrow> store \<Rightarrow> bool" where
  "card_kept c s t \<longleftrightarrow> map_of (so_cards t) c = map_of (so_cards s) c \<and> so_archive t = so_archive s
     \<and> so_overlay t = so_overlay s"

lemma card_kept_reads:
  assumes "card_kept c s t"
  shows "file_lines t c f = file_lines s c f" and "cs_fold env t c = cs_fold env s c"
    and "cs_load_core t c = cs_load_core s c" and "cs_read_events env t c = cs_read_events env s c"
proof -
  have files: "card_files t c = card_files s c" using assms by (simp add: card_kept_def card_files_def)
  then show "file_lines t c f = file_lines s c f" by (simp add: file_lines_def)
  show core: "cs_load_core t c = cs_load_core s c" using assms by (simp add: card_kept_def cs_load_core_def)
  show read: "cs_read_events env t c = cs_read_events env s c"
    using files by (simp add: cs_read_events_def event_files_def)
  have "legacy_events t c = legacy_events s c"
    using assms by (simp add: card_kept_def legacy_events_def load_legacy_mutations_def)
  with core read show "cs_fold env t c = cs_fold env s c" by (simp add: cs_fold_def)
qed

lemma recorded_kept_before: "card_kept tid s t \<Longrightarrow> release_recorded env owner actor tid t u \<Longrightarrow> release_recorded env owner actor tid s u"
  by (simp add: release_recorded_def card_kept_reads)

lemma recorded_kept_after: "release_recorded env owner actor tid s t \<Longrightarrow> card_kept tid t u \<Longrightarrow> release_recorded env owner actor tid s u"
  by (simp add: release_recorded_def card_kept_reads)

lemma card_kept_trans: "card_kept c s t \<Longrightarrow> card_kept c t u \<Longrightarrow> card_kept c s u"
  by (simp add: card_kept_def)

lemma write_card_kept: "c \<noteq> cid \<Longrightarrow> card_kept c st (write_event env cid agent e st)"
  by (simp add: card_kept_def write_other_cards write_event_rest)

text \<open>The states that the mirror of a release can leave.\<close>

lemma mirror_release_store:
  obtains (same) "snd (mirror_release env cid owner actor (Some rv) t reason st) = st"
  | (written) e where "snd (mirror_release env cid owner actor (Some rv) t reason st) = write_event env cid actor e st"
      "get e ''action'' = JStr ''release_claim''" "get e ''writer'' = JStr actor" "get e ''released_owner'' = JStr owner"
      "get e ''expected_claim_revision'' = JStr rv"
proof -
  let ?p = "[(''released_owner'', JStr owner), (''expected_claim_revision'', JStr rv), (''transition_id'', JStr t),
    (''abandon_reason'', of_opt_str reason)]"
  obtain r st' where run: "cs_append env cid ''release_claim'' actor ?p st = (r, st')"
    by (cases "cs_append env cid ''release_claim'' actor ?p st")
  then have final: "snd (mirror_release env cid owner actor (Some rv) t reason st) = st'"
    by (cases r) (simp_all add: mirror_release_def op_bind_run)
  from run show thesis
  proof (cases rule: cs_append_cases)
    case (written p)
    let ?e = "store_event env cid ''release_claim'' actor p st"
    have plain: "plain_payload p"
      by (rule plain_normalised [OF written(1)]) (simp add: plain_payload_def)
    obtain v where p: "p = ?p \<or> p = set_item ''abandon_reason'' (JStr v) ?p"
      using written(1) by (auto simp: normalised_payload_def elim!: r_bind_InrE)
    then have fields: "get p ''released_owner'' = JStr owner" "get p ''expected_claim_revision'' = JStr rv"
      "''released_owner'' \<in> fst ` set p" "''expected_claim_revision'' \<in> fst ` set p" "distinct (map fst p)"
      by (auto simp: set_item_def get_def)
    have "get ?e ''writer'' = JStr actor"
      using plain by (auto simp: store_event_def Let_def plain_payload_def fold_set_item_other)
    with fields store_event_header(1) [OF plain] show thesis
      using that(2) [of ?e] final written(7) by (simp add: store_event_payload)
  qed (use final same in auto)
qed

text \<open>The precondition of a release that names no revision: the owner holds the card, under some revision.\<close>

lemma release_precondition_owner:
  assumes "release_precondition env owner tid None st = Inr (before, now)"
  obtains k rv where "before = Some k" "now = Some rv" "cs_fold (be_store env) st tid = Inr (Some k)" "cd_owner k = JStr owner"
    "revision k = JStr rv"
proof -
  from assms have fold: "cs_fold (be_store env) st tid = Inr before" and now: "current_claim_precondition (be_store env) tid owner st = Inr now"
    and own: "\<not> (case before of None \<Rightarrow> False | Some k \<Rightarrow> cd_owner k \<noteq> JStr owner)"
    by (auto simp: release_precondition_def elim!: r_bind_InrE split: if_splits)
  from now fold obtain k where k: "before = Some k" "claim_precondition k (cs_read_events (be_store env) st tid) owner = Inr now"
    by (auto simp: current_claim_precondition_def split: option.splits)
  with own have "cd_owner k = JStr owner" by simp
  moreover from this k obtain rv where "revision k = JStr rv" "now = Some rv"
    by (auto simp: claim_precondition_def split: json.splits if_splits)
  ultimately show thesis using k fold that by simp
qed

lemma applied_freed:
  assumes "release_applied env tid t owner rv k0 st = Inr True" and "cd_owner k0 = JStr owner" and "revision k0 = JStr rv"
  obtains k where "cs_fold env st tid = Inr (Some k)" "cd_owner k = JNull" "cd_status k = Backlog"
    "\<not> has_key (cd_meta k) ''_claim_revision''"
  using assms by (auto simp: release_applied_def elim!: r_bind_InrE split: if_splits option.splits)

lemma release_reaches_store:
  assumes "mirrored env (mirror_release (be_store env) tid owner actor (Some rv) t reason) s = (r, s')"
    and "card_store_write_enabled env" and "cs_fold (be_store env) (bo_store s) tid = Inr (Some k0)"
    and "cd_owner k0 = JStr owner" and "revision k0 = JStr rv"
    and "released env tid t owner (Some k0, Some rv) s' = (Inr True, s')"
  shows "release_recorded (be_store env) owner actor tid (bo_store s) (bo_store s') \<and> (\<forall>c. c \<noteq> tid \<longrightarrow> card_kept c (bo_store s) (bo_store s'))"
proof -
  have "release_applied (be_store env) tid t owner rv k0 (bo_store s') = Inr True"
    using assms(6) by (simp add: released_def)
  then obtain k where k: "cs_fold (be_store env) (bo_store s') tid = Inr (Some k)" "cd_owner k = JNull" "cd_status k = Backlog"
    "\<not> has_key (cd_meta k) ''_claim_revision''"
    using assms(4,5) by (rule applied_freed)
  then have changed: "bo_store s' \<noteq> bo_store s" using assms(3,4) by auto
  show ?thesis
  proof (rule mirror_release_store [of "be_store env" tid owner actor rv t reason "bo_store s"])
    assume "snd (mirror_release (be_store env) tid owner actor (Some rv) t reason (bo_store s)) = bo_store s"
    with mirrored_store [OF assms(1,2)] changed show ?thesis by simp
  next
    fix e
    assume "snd (mirror_release (be_store env) tid owner actor (Some rv) t reason (bo_store s)) = write_event (be_store env) tid actor e (bo_store s)"
      and e: "get e ''action'' = JStr ''release_claim''" "get e ''writer'' = JStr actor" "get e ''released_owner'' = JStr owner"
        "get e ''expected_claim_revision'' = JStr rv"
    with mirrored_store [OF assms(1,2)] changed have st: "bo_store s' = write_event (be_store env) tid actor e (bo_store s)" by simp
    then have "\<forall>f. file_lines (bo_store s') tid f = file_lines (bo_store s) tid f
        @ (if f = store_writer_id (be_store env) actor @ ''.jsonl'' then [SLine (json_dumps (JObj e)) (Some (JObj e))] else [])"
      by (simp add: file_lines_event)
    then have "release_recorded (be_store env) owner actor tid (bo_store s) (bo_store s')"
      unfolding release_recorded_def using assms(3,4,5) e k by metis
    with st write_card_kept show ?thesis by simp
  qed
qed

definition store_released :: "board_env \<Rightarrow> string \<Rightarrow> string \<Rightarrow> string list \<Rightarrow> board \<Rightarrow> board \<Rightarrow> bool" where
  "store_released env owner actor ids s s' \<longleftrightarrow> (\<forall>c. c \<notin> set ids \<longrightarrow> card_kept c (bo_store s) (bo_store s'))
     \<and> (if card_store_write_enabled env
        then \<forall>t\<in>set ids. release_recorded (be_store env) owner actor t (bo_store s) (bo_store s')
        else \<forall>t\<in>set ids. card_kept t (bo_store s) (bo_store s'))"

definition same_cards :: "board \<Rightarrow> board \<Rightarrow> bool" where
  "same_cards s t \<longleftrightarrow> (\<forall>c. card_kept c (bo_store s) (bo_store t))"

interpretation cards_kept: op_order same_cards
  by unfold_locales (auto simp: same_cards_def card_kept_def)

lemma keeps_cards_save: "op_keeps same_cards (save_agent env a)"
  unfolding save_agent_def
  by (intro cards_kept.keeps keeps_intros) (simp_all add: same_cards_def card_kept_def next_tick_def)

lemma keeps_cards_uuid: "op_keeps same_cards (bo_uuid env)"
  unfolding bo_uuid_def by (intro cards_kept.keeps keeps_intros) (simp add: same_cards_def card_kept_def)

lemma release_mirrors:
  assumes on: "card_store_write_enabled env" and pre: "release_precondition env owner tid None (bo_store s) = Inr q"
    and kept: "\<And>c. card_kept c (bo_store s) (bo_store w)"
    and run: "op_bind (bo_uuid env) (\<lambda>t. op_try
          (op_bind (mirrored env (mirror_release (be_store env) tid owner actor (snd q) t reason)) (\<lambda>_.
             op_bind (released env tid t owner q) (\<lambda>ok. if ok then op_return True else op_raise err)))
          (\<lambda>e. op_bind (released env tid t owner q) (\<lambda>ok.
             if ok then op_return True else op_bind (h t e) (\<lambda>_. op_raise e)))) w = (Inr ok, s')"
  shows "ok \<and> bo_agents s' = bo_agents w \<and> store_released env owner actor [tid] s s'"
proof -
  obtain k0 rv where q: "q = (Some k0, Some rv)" "cs_fold (be_store env) (bo_store s) tid = Inr (Some k0)"
    "cd_owner k0 = JStr owner" "revision k0 = JStr rv"
    using pre by (cases q) (auto elim: release_precondition_owner)
  from run obtain t x where uuid: "bo_uuid env w = (Inr t, x)" and rest: "op_try
      (op_bind (mirrored env (mirror_release (be_store env) tid owner actor (snd q) t reason)) (\<lambda>_.
         op_bind (released env tid t owner q) (\<lambda>ok. if ok then op_return True else op_raise err)))
      (\<lambda>e. op_bind (released env tid t owner q) (\<lambda>ok.
         if ok then op_return True else op_bind (h t e) (\<lambda>_. op_raise e))) x = (Inr ok, s')"
    by (auto elim: op_bind_cases)
  obtain r where r: ok "mirrored env (mirror_release (be_store env) tid owner actor (snd q) t reason) x = (r, s')"
    "released env tid t owner q s' = (Inr True, s')"
    using rest by (rule release_mirrored)
  have kept': "card_kept c (bo_store s) (bo_store x)" for c
    by (rule card_kept_trans [OF kept]) (use op_keeps_run [OF keeps_cards_uuid uuid] in \<open>simp add: same_cards_def\<close>)
  have fold: "cs_fold (be_store env) (bo_store x) tid = Inr (Some k0)"
    using q(2) card_kept_reads(2) [OF kept'] by simp
  have "release_recorded (be_store env) owner actor tid (bo_store x) (bo_store s') \<and> (\<forall>c. c \<noteq> tid \<longrightarrow> card_kept c (bo_store x) (bo_store s'))"
    by (rule release_reaches_store [OF _ on fold q(3,4)]) (use r(2,3) in \<open>simp_all add: q(1)\<close>)
  then have "release_recorded (be_store env) owner actor tid (bo_store s) (bo_store s')"
    and "\<forall>c. c \<noteq> tid \<longrightarrow> card_kept c (bo_store s) (bo_store s')"
    using recorded_kept_before [OF kept'] card_kept_trans [OF kept'] by blast+
  then have "store_released env owner actor [tid] s s'"
    using on by (simp add: store_released_def)
  moreover have "bo_agents s' = bo_agents w"
    using op_keeps_run [OF keeps_mirrored r(2)] op_keeps_run [OF keeps_uuid uuid] by (simp add: same_agents_def)
  ultimately show ?thesis using r(1) by blast
qed

text \<open>What a release comes to.\<close>

lemma release_outcome:
  assumes "release_claim_locked env owner tid actor None missing reason s = (Inr ok, s')"
    and "card_lock env tid s = Inr ()"
  shows "\<exists>a. load_agent env owner s = Inr (Some a)
    \<and> (if ok then (\<exists>t. file_saved owner ((drop_claim a tid)\<lparr>ag_last_seen := t\<rparr>) s s') \<and> store_released env owner actor [tid] s s'
       else s' = s \<and> tid \<notin> set (ag_claimed a) \<and> ag_current a \<noteq> Some tid)"
  using assms(1) unfolding release_claim_locked_def
proof (elim op_bind_cases, goal_cases)
  case (2 agent t)
  then have load: "load_agent env owner s = Inr agent" and "t = s" by auto
  show ?case
  proof (cases agent)
    case None
    with 2 show ?thesis by simp
  next
    case (Some a)
    show ?thesis
    proof (cases "tid \<notin> set (ag_claimed a) \<and> ag_current a \<noteq> Some tid")
      case True
      with 2 Some load show ?thesis by auto
    next
      case False
      have name: "ag_name a = owner" "agent_name_ok owner" using load Some load_agent_name by auto
      have "\<exists>a' w. save_agent env (drop_claim a tid) s = (Inr a', w) \<and> ok \<and> bo_agents s' = bo_agents w
          \<and> store_released env owner actor [tid] s s'"
        using 2(2) unfolding Some option.case if_not_P [OF False] \<open>t = s\<close>
      proof (elim op_bind_cases, goal_cases)
        case (4 p u original v a' w)
        then have save: "save_agent env (drop_claim a tid) s = (Inr a', w)" by simp
        have kept: "card_kept c (bo_store s) (bo_store w)" for c
          using op_keeps_run [OF keeps_cards_save save] by (simp add: same_cards_def)
        show ?case
        proof (cases p)
          case None
          then have "\<not> card_store_write_enabled env"
            using 4(1) locked_has_core [OF assms(2)] by (auto split: sum.splits if_splits)
          with None 4 save kept show ?thesis by (auto simp: store_released_def)
        next
          case (Some q)
          then have on: "card_store_write_enabled env" and "release_precondition env owner tid None (bo_store s) = Inr q"
            using 4(1) by (auto split: sum.splits if_splits)
          from 4(4) have "ok \<and> bo_agents s' = bo_agents w \<and> store_released env owner actor [tid] s s'"
            unfolding Some option.case by (rule release_mirrors [OF \<open>card_store_write_enabled env\<close> \<open>release_precondition env owner tid None (bo_store s) = Inr q\<close> kept])
          with save show ?thesis by blast
        qed
      qed auto
      then obtain a' w where w: "save_agent env (drop_claim a tid) s = (Inr a', w)" "ok" "bo_agents s' = bo_agents w"
        "store_released env owner actor [tid] s s'" by blast
      from save_agent_run [OF w(1)] name
      have "file_saved owner ((drop_claim a tid)\<lparr>ag_last_seen := board_now env s\<rparr>) s s'"
        using w(3) by (auto simp: file_saved_def drop_claim_def update_conv')
      with load Some w(2,4) show ?thesis by auto
    qed
  qed
qed auto

lemma store_released_Cons:
  assumes "store_released env owner actor [x] s u" and "store_released env owner actor ids u s'" and "x \<notin> set ids"
  shows "store_released env owner actor (x # ids) s s'"
proof -
  have 1: "card_kept c (bo_store s) (bo_store u)" if "c \<noteq> x" for c
    using assms(1) that by (simp add: store_released_def)
  have 2: "card_kept c (bo_store u) (bo_store s')" if "c \<notin> set ids" for c
    using assms(2) that by (simp add: store_released_def)
  have 3: "card_kept c (bo_store s) (bo_store s')" if "c \<noteq> x" "c \<notin> set ids" for c
    using 1 [OF that(1)] 2 [OF that(2)] by (rule card_kept_trans)
  have other: "t \<noteq> x" if "t \<in> set ids" for t using assms(3) that by auto
  show ?thesis
  proof (cases "card_store_write_enabled env")
    case True
    have "release_recorded (be_store env) owner actor x (bo_store s) (bo_store s')"
      using assms(1) 2 [OF assms(3)] True recorded_kept_after by (auto simp: store_released_def)
    moreover have "release_recorded (be_store env) owner actor t (bo_store s) (bo_store s')" if "t \<in> set ids" for t
      using assms(2) that 1 [OF other [OF that]] True recorded_kept_before by (auto simp: store_released_def)
    ultimately show ?thesis using True 3 by (simp add: store_released_def)
  next
    case False
    have "card_kept x (bo_store s) (bo_store u)" using assms(1) False by (simp add: store_released_def)
    then have "card_kept x (bo_store s) (bo_store s')" using 2 [OF assms(3)] by (rule card_kept_trans)
    moreover have "card_kept t (bo_store s) (bo_store s')" if "t \<in> set ids" for t
    proof (rule card_kept_trans [OF 1 [OF other [OF that]]])
      show "card_kept t (bo_store u) (bo_store s')" using assms(2) that False by (simp add: store_released_def)
    qed
    ultimately show ?thesis using False 3 by (simp add: store_released_def)
  qed
qed

definition drop_claims :: "agent_file \<Rightarrow> string list \<Rightarrow> agent_file" where
  "drop_claims a ids = a\<lparr>ag_claimed := filter (\<lambda>t. t \<notin> set ids) (ag_claimed a),
     ag_current := (case ag_current a of None \<Rightarrow> None | Some c \<Rightarrow> if c \<in> set ids then None else Some c)\<rparr>"

lemma drop_claims_Cons: "drop_claims ((drop_claim a x)\<lparr>ag_last_seen := t\<rparr>) xs = (drop_claims a (x # xs))\<lparr>ag_last_seen := t\<rparr>"
  by (simp add: drop_claims_def drop_claim_def conj_commute split: option.split)

lemma file_saved_trans: "file_saved name a s t \<Longrightarrow> file_saved name b t u \<Longrightarrow> file_saved name b s u"
  by (simp add: file_saved_def)

lemma release_each_outcome:
  assumes "release_each env name ids s = (Inr out, s')" and "load_agent env name s = Inr (Some a)"
    and "distinct ids" and "set ids \<subseteq> set (ag_claimed a)"
  shows "out = ids \<and> store_released env name ''stale-release'' ids s s'
    \<and> (ids \<noteq> [] \<longrightarrow> (\<exists>t. file_saved name ((drop_claims a ids)\<lparr>ag_last_seen := t\<rparr>) s s'))"
  using assms
proof (induction ids arbitrary: s a out)
  case (Cons x ids)
  from Cons.prems(1) obtain ok u ys where lock: "card_lock env x s = Inr ()"
    and ok: "release_claim_locked env name x ''stale-release'' None True None s = (Inr ok, u)"
    and rest: "release_each env name ids u = (Inr ys, s')" and out: "out = (if ok then x # ys else ys)"
    unfolding release_each_def by (auto elim!: op_bind_cases split: if_splits)
  obtain t where ok and saved: "file_saved name ((drop_claim a x)\<lparr>ag_last_seen := t\<rparr>) s u"
    and head: "store_released env name ''stale-release'' [x] s u"
    using release_outcome [OF ok lock] Cons.prems(2,4) by (auto split: if_splits)
  let ?a = "(drop_claim a x)\<lparr>ag_last_seen := t\<rparr>"
  have "load_agent env name u = Inr (Some ?a)" by (rule file_saved_loads [OF saved])
  moreover have "set ids \<subseteq> set (ag_claimed ?a)" using Cons.prems(3,4) by (auto simp: drop_claim_def)
  ultimately have IH: "ys = ids \<and> store_released env name ''stale-release'' ids u s' \<and> (ids \<noteq> [] \<longrightarrow> (\<exists>t. file_saved name ((drop_claims ?a ids)\<lparr>ag_last_seen := t\<rparr>) u s'))"
    using Cons.IH [OF rest] Cons.prems(3) by simp
  have "\<exists>t. file_saved name ((drop_claims a (x # ids))\<lparr>ag_last_seen := t\<rparr>) s s'"
  proof (cases "ids = []")
    case True
    with rest have "s' = u" by (simp add: release_each_def)
    moreover have "drop_claim a x = drop_claims a [x]" by (simp add: drop_claims_def drop_claim_def split: option.split)
    ultimately show ?thesis using saved True by auto
  next
    case False
    with IH obtain t' where "file_saved name ((drop_claims ?a ids)\<lparr>ag_last_seen := t'\<rparr>) u s'" by blast
    from file_saved_trans [OF saved this] show ?thesis unfolding drop_claims_Cons by auto
  qed
  moreover have "store_released env name ''stale-release'' (x # ids) s s'"
    using head IH Cons.prems(3) store_released_Cons by simp
  ultimately show ?case using out IH \<open>ok\<close> by simp
qed (simp add: release_each_def store_released_def card_kept_def)

section \<open>Properties\<close>

text \<open>
  C32. Aging is exact: it archives the tasks that the legacy projection shows as open, that no human holds
  and that were created at or before the cutoff, and no others. No task that any readable agent
  file claims, works on or has completed is among them. A dry run writes nothing at all: the board
  and the card store are what they were. Otherwise the archive index gains those tasks, the cards of
  all other tasks are untouched, and in the card store only archive events of the sweep are added.
\<close>

theorem aging_exact:
  assumes "age_stale_open env days now dry_run s = (Inr ids, s')" and "list_all readable_line (archive_lines env s)"
  shows "(\<exists>vs. legacy_task_views env False s = Inr vs \<and> set ids = {tv_id v | v. v \<in> set vs \<and> tv_status v = TOpen
        \<and> \<not> is_human_held v \<and> parse_board_timestamp (now - days * day_micros) (JStr (tv_created_at v)) \<le> now - days * day_micros})
    \<and> (\<forall>a\<in>set (load_agents env s). set ids \<inter> (set (claims_of a) \<union> set (ag_completed a)) = {})
    \<and> archived_ids s' = archived_ids s \<union> (if dry_run then {} else JStr ` (set ids - {[]}))
    \<and> bo_tasks s' = bo_tasks s \<and> bo_agents s' = bo_agents s \<and> bo_recovery s' = bo_recovery s
    \<and> (dry_run \<longrightarrow> s' = s) \<and> only_archives ''age-backlog'' (set ids) (bo_store s) (bo_store s')"
proof -
  let ?cutoff = "now - days * day_micros"
  obtain vs where vs: "legacy_task_views env False s = Inr vs" and ids: "ids = map tv_id (filter (forgotten ?cutoff) vs)"
    and run: "op_when (\<not> dry_run) (op_for ids (\<lambda>t. archive_task env t ''age-backlog'')) s = (Inr (), s')"
    using assms(1) unfolding age_stale_open_def Let_def by (auto elim!: op_bind_cases)
  have "archived_ids s' = archived_ids s \<union> (if dry_run then {} else JStr ` (set ids - {[]}))"
    using run archive_all [OF _ assms(2)] by (cases dry_run) auto
  moreover have dry: "dry_run \<longrightarrow> s' = s" using run by auto
  moreover have "swept ''age-backlog'' (set ids) s s'"
    using run archives_swept [of ids "set ids" "''age-backlog''" env s "Inr ()" s'] sweep.refl
    by (cases dry_run) auto
  moreover have "set ids = {tv_id v | v. v \<in> set vs \<and> tv_status v = TOpen \<and> \<not> is_human_held v
      \<and> parse_board_timestamp ?cutoff (JStr (tv_created_at v)) \<le> ?cutoff}"
    by (auto simp: ids forgotten_def)
  moreover have "\<forall>a\<in>set (load_agents env s). set ids \<inter> (set (claims_of a) \<union> set (ag_completed a)) = {}"
    using legacy_views_mem [OF vs] by (fastforce simp: ids forgotten_def derived_view_def derived_open)
  ultimately show ?thesis using vs unfolding swept_def by blast
qed

text \<open>
  C33. Eligibility respects amendments: a task in the unblocked set is on file, not archived and not staged,
  and every dependency that its card has after the append-only amendments is a task that some agent
  has completed.
\<close>

theorem unblocked_respects_amendments:
  assumes "unblocked_task_ids env b = Inr ids" and "tid \<in> ids"
  shows "(\<exists>t\<in>set (load_tasks False b). tv_id t = tid \<and> ''autopilot-staged'' \<notin> set (tv_tags t)
     \<and> (\<exists>ds. current_dependencies (be_store env) tid (tv_dependencies t) (bo_store b) = Inr ds
        \<and> (\<forall>d. JStr d \<in> set ds \<longrightarrow> (\<exists>a\<in>set (load_agents env b). d \<in> set (ag_completed a)))))"
proof -
  obtain everything vs v where ev: "legacy_task_views env True b = Inr everything" and vs: "legacy_task_views env False b = Inr vs"
    and v: "v \<in> set vs" "tv_id v = tid" "''autopilot-staged'' \<notin> set (tv_tags v)"
    and done_deps: "\<forall>d\<in>set (tv_dependencies v). status_of everything d = Some TDone"
    using assms by (auto simp: unblocked_task_ids_def list_all_iff elim!: r_bind_InrE)
  obtain t where t: "t \<in> set (load_tasks False b)" "derived_view env b t v" using legacy_views_mem [OF vs v(1)] by blast
  then obtain ds where ds: "current_dependencies (be_store env) (tv_id t) (tv_dependencies t) (bo_store b) = Inr ds" "tv_dependencies v = texts_of ds"
    by (auto simp: derived_view_def)
  have "\<exists>a\<in>set (load_agents env b). d \<in> set (ag_completed a)" if "JStr d \<in> set ds" for d
  proof -
    have "d \<in> set (texts_of ds)" using that by (force simp: texts_of_def List.map_filter_def)
    then obtain w where "w \<in> set everything" "tv_id w = d" "tv_status w = TDone"
      using done_deps ds(2) by (auto simp: status_of_def view_of_def find_Some_iff) (metis nth_mem set_rev length_rev)
    then show ?thesis using legacy_views_mem [OF ev] by (fastforce simp: derived_view_def derived_done)
  qed
  with t ds v show ?thesis by (auto simp: derived_view_def)
qed

text \<open>The two ways in which a stale release returns.\<close>

lemma stale_release_run:
  assumes "release_stale_claims env name seconds s = (Inr ids, s')"
  obtains (nothing) "ids = []" "s' = s" "\<And>a d. load_agent env name s = Inr (Some a) \<Longrightarrow> fromisoformat (ag_last_seen a) = Some d
      \<Longrightarrow> seconds * 1000000 \<le> now_instant env s - utc_instant d \<Longrightarrow> ag_claimed a = []"
  | (released) a d where "load_agent env name s = Inr (Some a)" "fromisoformat (ag_last_seen a) = Some d"
      "seconds * 1000000 \<le> now_instant env s - utc_instant d" "ag_claimed a \<noteq> []"
      "release_each env name (sort (remdups (ag_claimed a))) (next_tick s) = (Inr ids, s')"
proof -
  from assms obtain agent where agent: "load_agent env name s = Inr agent"
    and none: "agent = None \<Longrightarrow> ids = [] \<and> s' = s"
    and some: "\<And>a. agent = Some a \<Longrightarrow> (if stale_claims seconds (now_instant env s) a = [] then ids = [] \<and> s' = s
      else release_each env name (stale_claims seconds (now_instant env s) a) (next_tick s) = (Inr ids, s'))"
    unfolding release_stale_claims_def validate_agent_name_def
    by (auto elim!: op_bind_cases split: if_splits option.splits)
  have empty: "sort (remdups xs) = [] \<Longrightarrow> xs = []" for xs :: "string list"
    by (metis remdups_eq_nil_iff set_empty set_sort)
  show thesis
  proof (cases "\<exists>a. agent = Some a \<and> stale_claims seconds (now_instant env s) a \<noteq> []")
    case False
    then have "ids = []" "s' = s" using none some by (cases agent, auto)+
    then show thesis
    proof (rule nothing)
      fix a d assume a: "load_agent env name s = Inr (Some a)" and d: "fromisoformat (ag_last_seen a) = Some d"
        "seconds * 1000000 \<le> now_instant env s - utc_instant d"
      have "stale_claims seconds (now_instant env s) a = []" using False agent a by auto
      with d have "sort (remdups (ag_claimed a)) = []" by (simp add: stale_claims_def)
      then show "ag_claimed a = []" by (rule empty)
    qed
  next
    case True
    then obtain a where a: "agent = Some a" "stale_claims seconds (now_instant env s) a \<noteq> []" by blast
    then obtain d where "fromisoformat (ag_last_seen a) = Some d" "seconds * 1000000 \<le> now_instant env s - utc_instant d"
      "stale_claims seconds (now_instant env s) a = sort (remdups (ag_claimed a))"
      by (auto simp: stale_claims_def split: option.splits if_splits)
    moreover from this(3) a(2) have "ag_claimed a \<noteq> []" by auto
    ultimately show thesis using a agent some [OF a(1)] released by simp
  qed
qed

text \<open>
  C34. A stale release that succeeds is all or nothing. Either nothing is written, and this only for an
  agent that is unknown, without claims, or seen too recently to be stale. Or every claim of the
  agent is released, in order: its current task is cleared if it was one of them, and neither what it
  completed nor any other agent's file changes. In the card store, when it is on, every released card
  belonged to the agent, gains exactly one release event, with the revision it was held under, and is
  afterwards without owner and revision in the backlog; no other card is touched. When the store is
  off, no card is.
\<close>

theorem stale_release_complete:
  assumes "release_stale_claims env name seconds s = (Inr ids, s')"
  shows "ids = [] \<and> s' = s
      \<and> (\<forall>a d. load_agent env name s = Inr (Some a) \<and> fromisoformat (ag_last_seen a) = Some d
           \<and> seconds * 1000000 \<le> now_instant env s - utc_instant d \<longrightarrow> ag_claimed a = [])
    \<or> (\<exists>a d a'. load_agent env name s = Inr (Some a) \<and> fromisoformat (ag_last_seen a) = Some d
        \<and> seconds * 1000000 \<le> now_instant env s - utc_instant d
        \<and> ids = sort (remdups (ag_claimed a))
        \<and> load_agent env name s' = Inr (Some a') \<and> ag_claimed a' = [] \<and> ag_completed a' = ag_completed a
        \<and> ag_current a' = (if ag_current a \<in> Some ` set ids then None else ag_current a)
        \<and> (\<forall>p. p \<noteq> agent_path name \<longrightarrow> map_of (bo_agents s') p = map_of (bo_agents s) p)
        \<and> (\<forall>c. c \<notin> set ids \<or> \<not> card_store_write_enabled env \<longrightarrow> map_of (so_cards (bo_store s')) c = map_of (so_cards (bo_store s)) c)
        \<and> (card_store_write_enabled env \<longrightarrow>
             (\<forall>t\<in>set ids. release_recorded (be_store env) name ''stale-release'' t (bo_store s) (bo_store s'))))"
  using assms
proof (cases rule: stale_release_run)
  case nothing
  then show ?thesis by blast
next
  case (released a d)
  let ?ids = "sort (remdups (ag_claimed a))"
  obtain x where later: "load_agent env name (next_tick s) = Inr (Some (a\<lparr>ag_last_seen := x\<rparr>))"
    using load_agent_later [OF released(1), of "next_tick s"] by (auto simp: next_tick_def)
  have "?ids \<noteq> []" using released(4) by (metis remdups_eq_nil_iff set_empty set_sort)
  with release_each_outcome [OF released(5) later] obtain t where ids: "ids = ?ids"
    and store: "store_released env name ''stale-release'' ids (next_tick s) s'"
    and saved: "file_saved name ((drop_claims a ?ids)\<lparr>ag_last_seen := t\<rparr>) (next_tick s) s'"
    by (auto simp: drop_claims_def)
  let ?a = "(drop_claims a ?ids)\<lparr>ag_last_seen := t\<rparr>"
  have ticked: "card_kept t (bo_store s) (bo_store (next_tick s))" for t
    by (simp add: card_kept_def next_tick_def)
  have "ag_claimed ?a = []" "ag_completed ?a = ag_completed a"
    "ag_current ?a = (if ag_current a \<in> Some ` set ids then None else ag_current a)"
    by (auto simp: drop_claims_def ids split: option.split)
  moreover have "\<forall>p. p \<noteq> agent_path name \<longrightarrow> map_of (bo_agents s') p = map_of (bo_agents s) p"
    using saved by (simp add: file_saved_def next_tick_def)
  moreover have "\<forall>c. c \<notin> set ids \<or> \<not> card_store_write_enabled env \<longrightarrow> map_of (so_cards (bo_store s')) c = map_of (so_cards (bo_store s)) c"
  proof (intro allI impI)
    fix c assume "c \<notin> set ids \<or> \<not> card_store_write_enabled env"
    with store have "card_kept c (bo_store (next_tick s)) (bo_store s')"
      by (cases "c \<in> set ids") (simp_all add: store_released_def)
    then show "map_of (so_cards (bo_store s')) c = map_of (so_cards (bo_store s)) c"
      by (simp add: card_kept_def next_tick_def)
  qed
  moreover have "card_store_write_enabled env \<longrightarrow> (\<forall>t\<in>set ids. release_recorded (be_store env) name ''stale-release'' t (bo_store s) (bo_store s'))"
    using store recorded_kept_before [OF ticked] by (auto simp: store_released_def)
  ultimately show ?thesis using released(1-3) ids file_saved_loads [OF saved] by blast
qed

section \<open>Examples\<close>

definition old_task :: "string \<Rightarrow> task_view" where
  "old_task tid = \<lparr>tv_id = tid, tv_title = ''old'', tv_description = [], tv_priority = ''low'', tv_tags = [],
     tv_created_by = [], tv_created_at = ''2020-01-01'', tv_criteria = [], tv_dependencies = [], tv_meta = [],
     tv_status = TOpen, tv_claimed_by = None\<rparr>"

text \<open>Two old tasks without cards, one of them claimed by an agent's file.\<close>

definition old_board :: board where
  "old_board = (sample_board [] [ana_on_c1])\<lparr>bo_tasks := [(''c1-x.json'', Some (old_task ''c1'')), (''c3-x.json'', Some (old_task ''c3''))]\<rparr>"

definition in_2026 :: int where
  "in_2026 = 63903000000 * 1000000"

theorem aging_exact_witness:
  "\<exists>ids s'. age_stale_open (sample_board_env (\<lambda>_. NoFault)) 90 in_2026 False old_board = (Inr ids, s') \<and> ids = [''c3'']
     \<and> archived_ids s' = archived_ids old_board \<union> {JStr ''c3''}"
proof -
  let ?run = "age_stale_open (sample_board_env (\<lambda>_. NoFault)) 90 in_2026 False old_board"
  have "fst ?run = Inr [''c3'']" by code_simp
  then have run: "?run = (Inr [''c3''], snd ?run)" by (simp add: prod_eq_iff)
  have "list_all readable_line (archive_lines (sample_board_env (\<lambda>_. NoFault)) old_board)" by code_simp
  from aging_exact [OF run this] run show ?thesis by auto
qed

theorem unblocked_respects_amendments_witness:
  "\<exists>ids. unblocked_task_ids (sample_board_env (\<lambda>_. NoFault)) old_board = Inr ids
     \<and> (\<exists>t\<in>set (load_tasks False old_board). tv_id t = ''c3'')"
proof -
  have "case unblocked_task_ids (sample_board_env (\<lambda>_. NoFault)) old_board of Inr ids \<Rightarrow> ''c3'' \<in> ids | _ \<Rightarrow> False" by code_simp
  then obtain ids where "unblocked_task_ids (sample_board_env (\<lambda>_. NoFault)) old_board = Inr ids" "''c3'' \<in> ids"
    by (auto split: sum.splits)
  with unblocked_respects_amendments [OF this] show ?thesis by blast
qed

definition idle_ana :: "string list \<Rightarrow> agent_file" where
  "idle_ana claims = (new_agent ''2020-01-01T00:00:00'' ''h1'' ''ana'')\<lparr>ag_claimed := claims\<rparr>"

definition claimed_log :: "jobj list" where
  "claimed_log = [sample_act ''1'' ''claim'' [(''owner'', JStr ''ana''), (''claim_revision'', JStr ''r1'')]]"

theorem stale_release_complete_witness:
  "\<exists>s'. release_stale_claims (sample_board_env (\<lambda>_. NoFault)) ''ana'' 3600 (sample_board claimed_log [idle_ana [''c1'']]) = (Inr [''c1''], s')
     \<and> (\<exists>a'. load_agent (sample_board_env (\<lambda>_. NoFault)) ''ana'' s' = Inr (Some a') \<and> ag_claimed a' = [])
     \<and> release_recorded sample_store_env ''ana'' ''stale-release'' ''c1''
         (bo_store (sample_board claimed_log [idle_ana [''c1'']])) (bo_store s')"
proof -
  let ?run = "release_stale_claims (sample_board_env (\<lambda>_. NoFault)) ''ana'' 3600 (sample_board claimed_log [idle_ana [''c1'']])"
  have "fst ?run = Inr [''c1'']" by code_simp
  then have run: "?run = (Inr [''c1''], snd ?run)" by (simp add: prod_eq_iff)
  have "be_store (sample_board_env (\<lambda>_. NoFault)) = sample_store_env" "card_store_write_enabled (sample_board_env (\<lambda>_. NoFault))"
    by (simp add: sample_board_env_def) code_simp
  with stale_release_complete [OF run] run show ?thesis by auto
qed

text \<open>
  A claim on a task without a card stops the stale release, whatever the release itself would allow; by
  then the claims before it are released, and the agent counts as just seen, so that a second run
  releases nothing.
\<close>

theorem stale_release_stops_halfway:
  "(let env = sample_board_env (\<lambda>_. NoFault); b = sample_board claimed_log [idle_ana [''c1'', ''c9'', ''d1'']];
        run = release_stale_claims env ''ana'' 3600 b; again = release_stale_claims env ''ana'' 3600 (snd run)
    in fst run = Inl (ValueError ''card has no foldable core'')
     \<and> map_sum id (map_option ag_claimed) (load_agent env ''ana'' (snd run)) = Inr (Some [''c9'', ''d1''])
     \<and> fst again = Inr [])"
  by code_simp

text \<open>
  An unreadable line in the host's index hides every later line from the legacy board, so that a sweep
  archives the same task again and again.
\<close>

theorem bad_index_line_hides_archive:
  "(let env = sample_board_env (\<lambda>_. NoFault);
        b = old_board\<lparr>bo_store := (bo_store old_board)\<lparr>so_archive := [(''h1.jsonl'', [SLine ''x'' None])]\<rparr>\<rparr>;
        run = age_stale_open env 90 in_2026 False b; again = age_stale_open env 90 in_2026 False (snd run)
    in fst run = Inr [''c3''] \<and> fst again = Inr [''c3''])"
  by code_simp

text \<open>A task that an agent's file shows as in progress is archived if its card is done in the store.\<close>

theorem sweep_archives_claimed_task:
  "(let env = sample_board_env (\<lambda>_. NoFault);
        b = (sample_board [sample_act ''1'' ''complete'' []] [ana_on_c1])\<lparr>bo_tasks := [(''c1-x.json'', Some (old_task ''c1''))]\<rparr>;
        run = archive_done_tasks env 14 in_2026 False b
    in map_sum id (map tv_status) (legacy_task_views env False b) = Inr [TInProgress]
     \<and> fst run = Inr [''c1''] \<and> archived_ids (snd run) = {JStr ''c1''})"
  by code_simp

end
