(* ===== verification/Board_Paging.thy ===== *)
theory Board_Paging
  imports Board_Tasks Board_Guarantees
begin

text \<open>
  Paged task views (\<open>task_view_page_from_store\<close>): a page of at most \<open>limit\<close> cards, read through an owner's
  reader, and the cursor that continues after it. The encoding and signature of a cursor are a
  parameter: \<open>cc_decode\<close> is the checked base64 and HMAC decoding followed by \<open>json.loads\<close>, \<open>None\<close> for any
  failure of it. Strings are of characters below 256, so the limit on the UTF-8 length of a scope
  follows from the limit on its characters.
\<close>

section \<open>Cursors\<close>

record cursor_codec =
  cc_encode :: "jobj \<Rightarrow> string"
  cc_decode :: "string \<Rightarrow> json option"

definition page_limit :: nat where "page_limit = 200"
definition scope_limit :: nat where "scope_limit = 256"
definition cursor_limit :: nat where "cursor_limit = 10382"

definition cursor_payload :: "string \<Rightarrow> nat \<Rightarrow> bool \<Rightarrow> string \<Rightarrow> string \<Rightarrow> jobj" where
  "cursor_payload scope limit archived after population =
     [(''after'', JStr after), (''archived'', JBool archived), (''limit'', JInt (int limit)),
      (''population'', JStr population), (''scope'', JStr scope), (''v'', JInt 2)]"

definition task_view_cursor :: "cursor_codec \<Rightarrow> jobj \<Rightarrow> string result" where
  "task_view_cursor codec p = (let c = cc_encode codec p in
     if cursor_limit < length c then Inl (ValueError ''cursor exceeds its encoded-size contract'') else Inr c)"

definition bounded_text :: "nat \<Rightarrow> json \<Rightarrow> bool" where
  "bounded_text n v = (case v of JStr s \<Rightarrow> s \<noteq> [] \<and> length s \<le> n | _ \<Rightarrow> False)"

definition cursor_payload_ok :: "string \<Rightarrow> nat \<Rightarrow> bool \<Rightarrow> jobj \<Rightarrow> bool" where
  "cursor_payload_ok scope limit archived d \<longleftrightarrow>
     fst ` set d = {''after'', ''archived'', ''limit'', ''population'', ''scope'', ''v''}
     \<and> equals_int (get d ''v'') 2 \<and> get d ''scope'' = JStr scope \<and> equals_int (get d ''limit'') (int limit)
     \<and> get d ''archived'' = JBool archived \<and> bounded_text 128 (get d ''after'') \<and> bounded_text 256 (get d ''population'')"

definition text_of :: "json \<Rightarrow> string" where
  "text_of v = (case v of JStr s \<Rightarrow> s | _ \<Rightarrow> [])"

definition cursor_position ::
    "cursor_codec \<Rightarrow> string \<Rightarrow> nat \<Rightarrow> bool \<Rightarrow> string option \<Rightarrow> (string option \<times> string option) result" where
  "cursor_position codec scope limit archived cursor =
     (case cursor of
        None \<Rightarrow> Inr (None, None)
      | Some c \<Rightarrow>
          if c = [] \<or> cursor_limit < length c \<or> \<not> list_all (\<lambda>x. (of_char x :: nat) < 128) c
          then Inl (ValueError ''task-view cursor is malformed'')
          else case cc_decode codec c of
              Some (JObj d) \<Rightarrow>
                if cursor_payload_ok scope limit archived d \<and> valid_identifier (text_of (get d ''after''))
                then Inr (Some (text_of (get d ''after'')), Some (text_of (get d ''population'')))
                else Inl (ValueError ''task-view cursor is malformed, stale, or out of scope'')
            | _ \<Rightarrow> Inl (ValueError ''task-view cursor is malformed, stale, or out of scope''))"

section \<open>Pages\<close>

text \<open>The owner's reader: at most so many identifiers after a given one, and the state of the population.\<close>

record read_batch =
  ba_ids :: "string list"
  ba_state :: string

type_synonym page_reader = "string option \<Rightarrow> nat \<Rightarrow> read_batch result"

record view_page =
  pg_items :: "task_view list"
  pg_state :: string
  pg_next :: "string option"
  pg_more :: bool
  pg_touched :: nat

definition page_card :: "board_env \<Rightarrow> store \<Rightarrow> string \<Rightarrow> card option" where
  "page_card env st cid = (case cs_fold (be_store env) st cid of
     Inl e \<Rightarrow> Some (unreadable_card cid (be_why env e) (error_class e)) | Inr c \<Rightarrow> c)"

definition population_stale :: py_error where
  "population_stale = ValueError ''task-view cursor population is stale''"

fun select_cards :: "board_env \<Rightarrow> bool \<Rightarrow> store \<Rightarrow> string option \<Rightarrow> string list \<Rightarrow> card list result" where
  "select_cards env archived st previous [] = Inr []"
| "select_cards env archived st previous (cid # ids) =
     (if \<not> valid_identifier cid then Inl bad_identifier
      else if (case previous of None \<Rightarrow> False | Some p \<Rightarrow> cid \<le> p) then Inl (ValueError ''unstable order'')
      else case page_card env st cid of
          None \<Rightarrow> Inl population_stale
        | Some c \<Rightarrow>
            if cd_id c \<noteq> cid \<or> cd_kind c \<notin> {Task, Epic} \<or> cd_archived c \<and> \<not> archived then Inl population_stale
            else map_sum id (\<lambda>cs. c # cs) (select_cards env archived st (Some cid) ids))"

definition next_cursor :: "cursor_codec \<Rightarrow> string \<Rightarrow> nat \<Rightarrow> bool \<Rightarrow> string \<Rightarrow> card list \<Rightarrow> string option result" where
  "next_cursor codec scope limit archived population cs =
     (if limit < length cs
      then map_sum id Some (task_view_cursor codec (cursor_payload scope limit archived (cd_id (cs ! (limit - 1))) population))
      else Inr None)"

definition read_batch_ok :: "nat \<Rightarrow> string option \<Rightarrow> read_batch \<Rightarrow> unit result" where
  "read_batch_ok limit expected b =
     (if limit + 1 < length (ba_ids b) then Inl (ValueError ''task-view owner reader exceeded the bounded request'')
      else if \<not> bounded_text 256 (JStr (ba_state b)) \<or> expected \<noteq> None \<and> expected \<noteq> Some (ba_state b) then Inl population_stale
      else Inr ())"

definition task_view_page ::
    "board_env \<Rightarrow> cursor_codec \<Rightarrow> string \<Rightarrow> page_reader \<Rightarrow> nat \<Rightarrow> bool \<Rightarrow> store \<Rightarrow> string option \<Rightarrow> view_page result" where
  "task_view_page env codec scope reader limit archived st cursor =
     (if scope = [] \<or> scope_limit < length scope then Inl (ValueError ''authorization scope'')
      else if limit < 1 \<or> page_limit < limit then Inl (ValueError ''task-view limit'')
      else r_bind (cursor_position codec scope limit archived cursor) (\<lambda>(after, expected).
        case reader after (limit + 1) of
          Inl e \<Rightarrow> Inl (ValueError ''task-view authorization population is unavailable'')
        | Inr b \<Rightarrow>
            r_bind (read_batch_ok limit expected b) (\<lambda>_.
            r_bind (select_cards env archived st after (ba_ids b)) (\<lambda>cs.
            r_bind (r_map task_view_from_card (take limit cs)) (\<lambda>items.
            r_bind (next_cursor codec scope limit archived (ba_state b) cs) (\<lambda>nxt.
            Inr \<lparr>pg_items = items, pg_state = ba_state b, pg_next = nxt, pg_more = (limit < length cs),
                 pg_touched = length (ba_ids b)\<rparr>))))))"

text \<open>A client that follows the cursors; \<open>None\<close> if the fuel does not suffice.\<close>

fun walk_pages :: "nat \<Rightarrow> (string option \<Rightarrow> view_page result) \<Rightarrow> string option \<Rightarrow> view_page list result option" where
  "walk_pages 0 page cursor = None"
| "walk_pages (Suc n) page cursor =
     (case page cursor of
        Inl e \<Rightarrow> Some (Inl e)
      | Inr p \<Rightarrow> (case pg_next p of
            None \<Rightarrow> Some (Inr [p])
          | Some c \<Rightarrow> map_option (map_sum id (\<lambda>ps. p # ps)) (walk_pages n page (Some c))))"

section \<open>One page\<close>

lemma select_cards_spec:
  assumes "select_cards env archived st previous ids = Inr cs"
  shows "list_all2 (\<lambda>i c. page_card env st i = Some c \<and> cd_id c = i \<and> cd_kind c \<in> {Task, Epic} \<and> (cd_archived c \<longrightarrow> archived)) ids cs
    \<and> sorted_wrt (<) (case previous of None \<Rightarrow> ids | Some p \<Rightarrow> p # ids)"
  using assms
proof (induction ids arbitrary: previous cs)
  case (Cons i ids)
  from Cons.prems obtain c ds where c: "page_card env st i = Some c" "cd_id c = i" "cd_kind c \<in> {Task, Epic}" "cd_archived c \<longrightarrow> archived"
    and prev: "case previous of None \<Rightarrow> True | Some p \<Rightarrow> p < i"
    and ds: "select_cards env archived st (Some i) ids = Inr ds" "cs = c # ds"
    by (auto split: if_splits option.splits dest!: map_sum_InrD)
  from Cons.IH [OF ds(1)] c prev ds(2) show ?case
    by (auto split: option.splits)
qed (auto split: option.splits)

text \<open>
  C40. Pages fail closed: whatever the owner's reader returns, a page that is delivered has at most \<open>limit\<close>
  items and touched at most \<open>limit + 1\<close> records; its items are the views of task cards that are in
  the archive mode asked for, in strictly ascending order after the position of the cursor; the
  population is the one the cursor was made for; and there is a next cursor exactly if there is more.
\<close>

theorem page_bounds:
  assumes "task_view_page env codec scope reader limit archived st cursor = Inr p"
  shows "\<exists>ids cs. 1 \<le> limit \<and> limit \<le> 200 \<and> length ids = pg_touched p \<and> pg_touched p \<le> limit + 1
    \<and> list_all2 (\<lambda>i c. page_card env st i = Some c \<and> cd_id c = i \<and> cd_kind c \<in> {Task, Epic} \<and> (cd_archived c \<longrightarrow> archived)) ids cs
    \<and> r_map task_view_from_card (take limit cs) = Inr (pg_items p) \<and> length (pg_items p) = min limit (pg_touched p)
    \<and> sorted_wrt (<) ids \<and> (pg_more p \<longleftrightarrow> limit < pg_touched p) \<and> (pg_next p = None \<longleftrightarrow> \<not> pg_more p)
    \<and> (\<forall>c. cursor = Some c \<longrightarrow> (\<exists>after. cursor_position codec scope limit archived cursor = Inr (Some after, Some (pg_state p))
          \<and> (\<forall>i\<in>set ids. after < i)))"
proof -
  obtain after expected b cs items nxt where
    lim: "1 \<le> limit" "limit \<le> 200"
    and pos: "cursor_position codec scope limit archived cursor = Inr (after, expected)"
    and ok: "read_batch_ok limit expected b = Inr ()"
    and cs: "select_cards env archived st after (ba_ids b) = Inr cs"
    and items: "r_map task_view_from_card (take limit cs) = Inr items"
    and nxt: "next_cursor codec scope limit archived (ba_state b) cs = Inr nxt"
    and p: "p = \<lparr>pg_items = items, pg_state = ba_state b, pg_next = nxt, pg_more = (limit < length cs), pg_touched = length (ba_ids b)\<rparr>"
    using assms by (auto simp: task_view_page_def page_limit_def split: if_splits sum.splits prod.splits elim!: r_bind_InrE)
  note sel = select_cards_spec [OF cs]
  have len: "length cs = length (ba_ids b)" using sel by (auto dest: list_all2_lengthD)
  have "length items = min limit (length cs)"
    using items by (auto simp: r_map_Inr_iff dest: list_all2_lengthD)
  moreover have "nxt = None \<longleftrightarrow> \<not> limit < length cs"
    using nxt by (auto simp: next_cursor_def split: if_splits dest!: map_sum_InrD)
  moreover have "length (ba_ids b) \<le> limit + 1" "expected \<noteq> None \<longrightarrow> expected = Some (ba_state b)"
    using ok by (auto simp: read_batch_ok_def split: if_splits)
  moreover have "\<exists>q r. after = Some q \<and> expected = Some r" if "cursor = Some c" for c
    using pos that by (auto simp: cursor_position_def split: if_splits option.splits json.splits)
  moreover have "sorted_wrt (<) (ba_ids b)" "\<forall>q. after = Some q \<longrightarrow> (\<forall>i\<in>set (ba_ids b). q < i)"
    using sel by (auto split: option.splits)
  ultimately show ?thesis
    using lim sel items pos len unfolding p by (intro exI [of _ "ba_ids b"] exI [of _ cs]) auto
qed

section \<open>All pages\<close>

definition beyond :: "string option \<Rightarrow> string \<Rightarrow> bool" where
  "beyond after i = (case after of None \<Rightarrow> True | Some a \<Rightarrow> a < i)"

text \<open>A reader over a fixed population, its cards, and a codec that reads back the cursors it makes for them.\<close>

definition keyset_reader :: "page_reader \<Rightarrow> string list \<Rightarrow> string \<Rightarrow> bool" where
  "keyset_reader reader ids p \<longleftrightarrow> (\<forall>after n. reader after n = Inr \<lparr>ba_ids = take n (filter (beyond after) ids), ba_state = p\<rparr>)"

definition servable :: "board_env \<Rightarrow> bool \<Rightarrow> store \<Rightarrow> string list \<Rightarrow> bool" where
  "servable env archived st ids \<longleftrightarrow> (\<forall>i\<in>set ids. valid_identifier i \<and> (\<exists>c v. page_card env st i = Some c \<and> cd_id c = i
     \<and> cd_kind c \<in> {Task, Epic} \<and> (cd_archived c \<longrightarrow> archived) \<and> task_view_from_card c = Inr v))"

definition reads_back :: "cursor_codec \<Rightarrow> string \<Rightarrow> nat \<Rightarrow> bool \<Rightarrow> string \<Rightarrow> string list \<Rightarrow> bool" where
  "reads_back codec scope limit archived p ids \<longleftrightarrow> (\<forall>a\<in>set ids. let q = cursor_payload scope limit archived a p; c = cc_encode codec q in
     c \<noteq> [] \<and> length c \<le> cursor_limit \<and> list_all (\<lambda>x. (of_char x :: nat) < 128) c \<and> cc_decode codec c = Some (JObj q))"

definition card_at :: "board_env \<Rightarrow> store \<Rightarrow> string \<Rightarrow> card" where
  "card_at env st i = the (page_card env st i)"

definition view_at :: "board_env \<Rightarrow> store \<Rightarrow> string \<Rightarrow> task_view result" where
  "view_at env st i = task_view_from_card (card_at env st i)"

lemma select_all:
  assumes "servable env archived st ids" and "sorted_wrt (<) ids" and "\<forall>i\<in>set ids. beyond previous i"
  shows "select_cards env archived st previous ids = Inr (map (card_at env st) ids)"
  using assms
proof (induction ids arbitrary: previous)
  case (Cons i ids)
  have "select_cards env archived st (Some i) ids = Inr (map (card_at env st) ids)"
    using Cons by (auto simp: servable_def beyond_def)
  with Cons.prems show ?case
    by (auto simp: servable_def card_at_def beyond_def split: option.splits)
qed simp

lemma filter_above:
  assumes "sorted_wrt (<) (xs @ y # zs)"
  shows "filter (\<lambda>i. y < i) (xs @ y # zs) = (zs :: string list)"
proof -
  have "filter (\<lambda>i. y < i) xs = []" using assms by (auto simp: filter_empty_conv sorted_wrt_append)
  moreover have "filter (\<lambda>i. y < i) zs = zs" using assms by (simp add: sorted_wrt_append)
  ultimately show ?thesis by simp
qed

lemma position_read_back:
  assumes "reads_back codec scope limit archived p ids" and "servable env archived st ids" and "a \<in> set ids"
    and "p \<noteq> []" "length p \<le> 256"
  shows "cursor_position codec scope limit archived (Some (cc_encode codec (cursor_payload scope limit archived a p))) = Inr (Some a, Some p)"
proof -
  let ?q = "cursor_payload scope limit archived a p"
  have c: "cc_encode codec ?q \<noteq> []" "length (cc_encode codec ?q) \<le> cursor_limit"
    "list_all (\<lambda>x. (of_char x :: nat) < 128) (cc_encode codec ?q)" "cc_decode codec (cc_encode codec ?q) = Some (JObj ?q)"
    using assms(1,3) by (auto simp: reads_back_def Let_def)
  have a: "valid_identifier a" "a \<noteq> []" "length a \<le> 128"
    using assms(2,3) by (auto simp: servable_def valid_identifier_def)
  have "cursor_payload_ok scope limit archived ?q"
    using a assms(4,5) by (auto simp: cursor_payload_ok_def cursor_payload_def bounded_text_def equals_int_def)
  moreover have "get ?q ''after'' = JStr a" "get ?q ''population'' = JStr p" by (simp_all add: cursor_payload_def)
  ultimately show ?thesis using c a by (simp add: cursor_position_def text_of_def)
qed

lemma one_page:
  assumes reader: "keyset_reader reader ids p" and serve: "servable env archived st ids" and codec: "reads_back codec scope limit archived p ids"
    and sorted: "sorted_wrt (<) ids" and limits: "1 \<le> limit" "limit \<le> 200" "scope \<noteq> []" "length scope \<le> 256" "p \<noteq> []" "length p \<le> 256"
    and pos: "cursor_position codec scope limit archived cursor = Inr (after, expected)" "expected \<in> {None, Some p}"
    and rest: "filter (beyond after) ids = rest"
  shows "\<exists>page. task_view_page env codec scope reader limit archived st cursor = Inr page
    \<and> r_map (view_at env st) (take limit rest) = Inr (pg_items page)
    \<and> pg_next page = (if limit < length rest then Some (cc_encode codec (cursor_payload scope limit archived (rest ! (limit - 1)) p)) else None)"
proof -
  let ?ids = "take (limit + 1) rest"
  have sub: "set rest \<subseteq> set ids" "sorted_wrt (<) rest" "\<forall>i\<in>set rest. beyond after i"
    using rest sorted by (auto intro: sorted_wrt_filter)
  then have cs: "select_cards env archived st after ?ids = Inr (map (card_at env st) ?ids)"
    using serve by (intro select_all) (auto simp: servable_def sorted_wrt_take dest: in_set_takeD)
  have "\<forall>i\<in>set (take limit rest). view_at env st i = Inr (projr (view_at env st i))"
    using serve sub(1) by (fastforce simp: servable_def view_at_def card_at_def dest!: in_set_takeD)
  then have views: "r_map (view_at env st) (take limit rest) = Inr (map (\<lambda>i. projr (view_at env st i)) (take limit rest))"
    by (intro r_map_total) blast
  have items: "r_map task_view_from_card (take limit (map (card_at env st) ?ids)) = r_map (view_at env st) (take limit rest)"
  proof -
    have "r_map task_view_from_card (map (card_at env st) xs) = r_map (view_at env st) xs" for xs
      by (induction xs) (simp_all add: view_at_def)
    then show ?thesis by (simp add: take_map min_def)
  qed
  have "next_cursor codec scope limit archived p (map (card_at env st) ?ids)
      = Inr (if limit < length rest then Some (cc_encode codec (cursor_payload scope limit archived (rest ! (limit - 1)) p)) else None)"
  proof (cases "limit < length rest")
    case True
    let ?i = "rest ! (limit - 1)"
    have "?i \<in> set ids" using True limits(1) sub(1) by auto
    then have "cd_id (card_at env st ?i) = ?i" "length (cc_encode codec (cursor_payload scope limit archived ?i p)) \<le> cursor_limit"
      using serve codec by (auto simp: servable_def card_at_def reads_back_def Let_def)
    moreover have "map (card_at env st) ?ids ! (limit - 1) = card_at env st ?i" using True by simp
    ultimately show ?thesis using True by (simp add: next_cursor_def task_view_cursor_def)
  qed (simp add: next_cursor_def)
  moreover have "read_batch_ok limit expected \<lparr>ba_ids = ?ids, ba_state = p\<rparr> = Inr ()"
    using pos(2) limits(5,6) by (auto simp: read_batch_ok_def bounded_text_def)
  ultimately show ?thesis
    using pos(1) limits reader rest cs items views
    by (simp add: task_view_page_def page_limit_def scope_limit_def keyset_reader_def)
qed

lemma walk:
  assumes reader: "keyset_reader reader ids p" and serve: "servable env archived st ids" and codec: "reads_back codec scope limit archived p ids"
    and sorted: "sorted_wrt (<) ids" and limits: "1 \<le> limit" "limit \<le> 200" "scope \<noteq> []" "length scope \<le> 256" "p \<noteq> []" "length p \<le> 256"
  shows "cursor_position codec scope limit archived cursor = Inr (after, expected) \<Longrightarrow> expected \<in> {None, Some p}
    \<Longrightarrow> filter (beyond after) ids = rest \<Longrightarrow> pre @ rest = ids \<Longrightarrow> length rest < fuel
    \<Longrightarrow> \<exists>pages. walk_pages fuel (task_view_page env codec scope reader limit archived st) cursor = Some (Inr pages)
      \<and> r_map (view_at env st) rest = Inr (concat (map pg_items pages)) \<and> length pages = max 1 ((length rest + limit - 1) div limit)"
proof (induction fuel arbitrary: cursor after expected rest pre)
  case (Suc fuel)
  obtain page where page: "task_view_page env codec scope reader limit archived st cursor = Inr page"
    "r_map (view_at env st) (take limit rest) = Inr (pg_items page)"
    "pg_next page = (if limit < length rest then Some (cc_encode codec (cursor_payload scope limit archived (rest ! (limit - 1)) p)) else None)"
    using one_page [OF reader serve codec sorted limits Suc.prems(1,2,3)] by blast
  show ?case
  proof (cases "limit < length rest")
    case False
    then have "(length rest + limit - 1) div limit < 2"
      using limits(1) by (intro less_mult_imp_div_less) simp
    then have "max 1 ((length rest + limit - 1) div limit) = 1" by simp
    with False page show ?thesis by simp
  next
    case True
    let ?i = "rest ! (limit - 1)" and ?cursor = "Some (cc_encode codec (cursor_payload scope limit archived (rest ! (limit - 1)) p))"
    have split: "rest = take (limit - 1) rest @ ?i # drop limit rest"
      using True limits(1) id_take_nth_drop [of "limit - 1" rest] by simp
    have ids: "ids = (pre @ take (limit - 1) rest) @ ?i # drop limit rest" using Suc.prems(4) split by simp
    have "?i \<in> set ids" using ids by (metis in_set_conv_decomp)
    from position_read_back [OF codec serve this limits(5,6)]
    have pos: "cursor_position codec scope limit archived ?cursor = Inr (Some ?i, Some p)" .
    have above: "filter (beyond (Some ?i)) ids = drop limit rest"
      using filter_above [of "pre @ take (limit - 1) rest" ?i "drop limit rest"] sorted ids by (simp add: beyond_def [abs_def])
    have "(pre @ take limit rest) @ drop limit rest = ids" using Suc.prems(4) by simp
    moreover have "length (drop limit rest) < fuel" using Suc.prems(5) limits(1) True by simp
    ultimately obtain pages where pages: "walk_pages fuel (task_view_page env codec scope reader limit archived st) ?cursor = Some (Inr pages)"
      "r_map (view_at env st) (drop limit rest) = Inr (concat (map pg_items pages))"
      "length pages = max 1 ((length (drop limit rest) + limit - 1) div limit)"
      using Suc.IH [OF pos _ above] by blast
    have "r_map (view_at env st) (take limit rest @ drop limit rest) = Inr (pg_items page @ concat (map pg_items pages))"
      using page(2) pages(2) by (simp only: r_map_Inr_iff list_all2_appendI)
    moreover have "Suc (length pages) = (length rest + limit - 1) div limit"
    proof -
      have "length rest + limit - 1 = (length rest - limit + limit - 1) + limit" using True limits(1) by simp
      then have "(length rest + limit - 1) div limit = Suc ((length rest - limit + limit - 1) div limit)"
        using limits(1) by (metis Suc_eq_plus1 div_add_self2 not_one_le_zero)
      moreover have "1 \<le> (length rest - limit + limit - 1) div limit" using True limits(1) by (simp add: div_greater_zero_iff Suc_le_eq)
      ultimately show ?thesis using pages(3) by simp
    qed
    ultimately show ?thesis using page(1,3) pages(1) True by simp
  qed
qed simp

text \<open>
  C21. Paging is complete: over a population that stays as it is, a client that starts without a cursor and
  follows the next one comes to an end, after as many pages as the population has parts of \<open>limit\<close>
  (one if it is empty); the pages one after the other hold the view of every card exactly once, in
  the order of the identifiers.
\<close>

theorem paging_complete:
  assumes "keyset_reader reader ids p" and "servable env archived st ids" and "reads_back codec scope limit archived p ids"
    and "sorted_wrt (<) ids" and "1 \<le> limit" "limit \<le> 200" "scope \<noteq> []" "length scope \<le> 256" "p \<noteq> []" "length p \<le> 256"
  shows "\<exists>pages. walk_pages (length ids + 1) (task_view_page env codec scope reader limit archived st) None = Some (Inr pages)
    \<and> r_map (view_at env st) ids = Inr (concat (map pg_items pages)) \<and> length pages = max 1 ((length ids + limit - 1) div limit)"
proof -
  have "filter (beyond None) ids = ids" by (simp add: beyond_def filter_id_conv)
  then show ?thesis
    using walk [OF assms, of None None None ids "[]" "length ids + 1"] by (simp add: cursor_position_def)
qed

section \<open>Examples\<close>

definition sample_codec :: cursor_codec where
  "sample_codec = \<lparr>cc_encode = (\<lambda>d. text_of (get d ''after'')),
     cc_decode = (\<lambda>c. Some (JObj (cursor_payload ''all'' 1 False c ''p'')))\<rparr>"

definition sample_reader :: page_reader where
  "sample_reader = (\<lambda>after n. Inr \<lparr>ba_ids = take n (filter (beyond after) [''c1'', ''c2'']), ba_state = ''p''\<rparr>)"

definition sample_page :: "string option \<Rightarrow> view_page result" where
  "sample_page = task_view_page (sample_board_env (\<lambda>_. NoFault)) sample_codec ''all'' sample_reader 1 False (sample_store [])"

theorem page_bounds_witness:
  "\<exists>p. sample_page (Some ''c1'') = Inr p \<and> pg_touched p \<le> 2 \<and> length (pg_items p) = 1 \<and> pg_next p = None"
proof -
  have "case sample_page (Some ''c1'') of Inr p \<Rightarrow> pg_touched p = 1 | _ \<Rightarrow> False" by code_simp
  then obtain p where p: "sample_page (Some ''c1'') = Inr p" "pg_touched p = 1" by (auto split: sum.splits)
  from page_bounds [OF p(1) [unfolded sample_page_def]] p show ?thesis by auto
qed

theorem paging_complete_witness:
  "\<exists>pages. walk_pages 3 sample_page None = Some (Inr pages) \<and> length pages = 2
     \<and> r_map (view_at (sample_board_env (\<lambda>_. NoFault)) (sample_store [])) [''c1'', ''c2''] = Inr (concat (map pg_items pages))"
proof -
  let ?env = "sample_board_env (\<lambda>_. NoFault)" and ?st = "sample_store []"
  have one: "\<exists>c v. page_card ?env ?st i = Some c \<and> cd_id c = i \<and> cd_kind c \<in> {Task, Epic} \<and> (cd_archived c \<longrightarrow> False) \<and> task_view_from_card c = Inr v"
    if "case page_card ?env ?st i of Some c \<Rightarrow> cd_id c = i \<and> cd_kind c = Task \<and> \<not> cd_archived c
      \<and> (case task_view_from_card c of Inr v \<Rightarrow> True | _ \<Rightarrow> False) | None \<Rightarrow> False" for i
    using that by (auto split: option.splits sum.splits)
  have "case page_card ?env ?st ''c1'' of Some c \<Rightarrow> cd_id c = ''c1'' \<and> cd_kind c = Task \<and> \<not> cd_archived c
      \<and> (case task_view_from_card c of Inr v \<Rightarrow> True | _ \<Rightarrow> False) | None \<Rightarrow> False"
    "case page_card ?env ?st ''c2'' of Some c \<Rightarrow> cd_id c = ''c2'' \<and> cd_kind c = Task \<and> \<not> cd_archived c
      \<and> (case task_view_from_card c of Inr v \<Rightarrow> True | _ \<Rightarrow> False) | None \<Rightarrow> False" by code_simp+
  from this [THEN one] have "servable ?env False ?st [''c1'', ''c2'']"
    unfolding servable_def by (auto simp: valid_identifier_def)
  moreover have "keyset_reader sample_reader [''c1'', ''c2''] ''p''" by (simp add: keyset_reader_def sample_reader_def)
  moreover have "reads_back sample_codec ''all'' 1 False ''p'' [''c1'', ''c2'']"
    by (simp add: reads_back_def sample_codec_def cursor_payload_def text_of_def cursor_limit_def)
  moreover have "sorted_wrt (<) [''c1'', ''c2'']" by simp
  ultimately have "\<exists>pages. walk_pages (length [''c1'', ''c2''] + 1) (task_view_page ?env sample_codec ''all'' sample_reader 1 False ?st) None = Some (Inr pages)
    \<and> r_map (view_at ?env ?st) [''c1'', ''c2''] = Inr (concat (map pg_items pages))
    \<and> length pages = max 1 ((length [''c1'', ''c2''] + 1 - 1) div 1)"
    by (intro paging_complete [where p = "''p''"]) simp_all
  moreover have "length [''c1'', ''c2''] + 1 = 3" "max 1 ((length [''c1'', ''c2''] + 1 - 1) div 1) = 2" by simp_all
  ultimately show ?thesis unfolding sample_page_def by metis
qed

end
