(* ===== verification/Card_Birth.thy ===== *)
theory Card_Birth
  imports Card_Dependencies "HOL-Library.Multiset"
begin

text \<open>
  The birth facts of a card (\<open>CardCore\<close>), their canonical text and digest, and what the governor of
  creation reads off a core: its class, its parent, whether it is terminal, and whether a new card is the
  exact successor of an unclaimed legacy one.
\<close>

section \<open>Canonical text\<close>

text \<open>
  \<open>json.dumps(v, sort_keys=True, separators=(",", ":"))\<close>: the keys of every object in order, no blanks.
\<close>

fun json_canon :: "json \<Rightarrow> string" where
  "json_canon JNull = ''null''"
| "json_canon (JBool b) = (if b then ''true'' else ''false'')"
| "json_canon (JInt i) = show_int i"
| "json_canon (JStr s) = json_quote s"
| "json_canon (JList xs) = ''['' @ join '','' (map json_canon xs) @ '']''"
| "json_canon (JObj d) = ''{'' @ join '','' (map (\<lambda>(k, t). json_quote k @ '':'' @ t)
     (sort_key fst (map (\<lambda>(k, v). (k, json_canon v)) d))) @ ''}''"

text \<open>Equality of Python values: dictionaries have no order, and a truth value equals the integer it stands for.\<close>

fun json_plain :: "json \<Rightarrow> json" where
  "json_plain (JBool b) = JInt (if b then 1 else 0)"
| "json_plain (JList xs) = JList (map json_plain xs)"
| "json_plain (JObj d) = JObj (sort_key fst (map (\<lambda>(k, v). (k, json_plain v)) d))"
| "json_plain v = v"

definition json_eq :: "json \<Rightarrow> json \<Rightarrow> bool" where
  "json_eq a b = (json_plain a = json_plain b)"

lemma json_eq_refl [simp]: "json_eq v v"
  by (simp add: json_eq_def)

lemma json_eq_sym: "json_eq a b \<Longrightarrow> json_eq b a"
  by (simp add: json_eq_def)

lemma json_eq_trans: "json_eq a b \<Longrightarrow> json_eq b c \<Longrightarrow> json_eq a c"
  by (simp add: json_eq_def)

text \<open>\<open>re.fullmatch(r"[0-9a-f]{n}", s)\<close>.\<close>

definition hex_digit :: "char \<Rightarrow> bool" where
  "hex_digit c = (let n = (of_char c :: nat) in 48 \<le> n \<and> n \<le> 57 \<or> 97 \<le> n \<and> n \<le> 102)"

definition hex_text :: "nat \<Rightarrow> string \<Rightarrow> bool" where
  "hex_text n s \<longleftrightarrow> length s = n \<and> list_all hex_digit s"

section \<open>The core as a model\<close>

record card_core =
  co_id :: string
  co_kind :: string
  co_title :: string
  co_description :: string
  co_created_by :: string
  co_created_at :: string
  co_criteria :: "string list"
  co_dependencies :: "string list"
  co_priority :: string
  co_swimlane :: string
  co_labels :: "string list"
  co_owner :: "string option"
  co_claim_revision :: "string option"
  co_meta :: jobj
  co_exit_gates :: "jobj list"
  co_non_goals :: "string list"
  co_spec_version :: "int option"

fun of_opt_int :: "int option \<Rightarrow> json" where
  "of_opt_int None = JNull"
| "of_opt_int (Some i) = JInt i"

text \<open>\<open>core.model_dump(mode="json")\<close>.\<close>

definition core_dump :: "card_core \<Rightarrow> jobj" where
  "core_dump c =
     [(''id'', JStr (co_id c)), (''kind'', JStr (co_kind c)), (''title'', JStr (co_title c)),
      (''description'', JStr (co_description c)), (''created_by'', JStr (co_created_by c)),
      (''created_at'', JStr (co_created_at c)), (''acceptance_criteria'', JList (map JStr (co_criteria c))),
      (''dependencies'', JList (map JStr (co_dependencies c))), (''initial_priority'', JStr (co_priority c)),
      (''initial_swimlane'', JStr (co_swimlane c)), (''initial_labels'', JList (map JStr (co_labels c))),
      (''initial_owner'', of_opt_str (co_owner c)), (''initial_claim_revision'', of_opt_str (co_claim_revision c)),
      (''meta'', JObj (co_meta c)), (''exit_gates'', JList (map JObj (co_exit_gates c))),
      (''non_goals'', JList (map JStr (co_non_goals c))), (''spec_version'', of_opt_int (co_spec_version c))]"

text \<open>
  \<open>CardCore.model_validate(d)\<close>: fields of the wrong type are refused, other keys ignored. The text of a
  number for \<open>spec_version\<close>, which the store never writes, is refused here and converted there.
\<close>

definition as_strs :: "json \<Rightarrow> string list result" where
  "as_strs v = (case v of JList xs \<Rightarrow> as_str_list xs | _ \<Rightarrow> Inl ValidationError)"

fun as_dict :: "json \<Rightarrow> jobj result" where
  "as_dict (JObj d) = Inr d"
| "as_dict _ = Inl ValidationError"

fun as_opt_int :: "json \<Rightarrow> int option result" where
  "as_opt_int JNull = Inr None"
| "as_opt_int (JInt i) = Inr (Some i)"
| "as_opt_int (JBool b) = Inr (Some (if b then 1 else 0))"
| "as_opt_int _ = Inl ValidationError"

definition as_gates :: "json \<Rightarrow> jobj list result" where
  "as_gates v = (case v of
      JList xs \<Rightarrow> r_bind (r_map as_dict xs) (\<lambda>ds. case validate_exit_gates (JList xs) of
         Inl e \<Rightarrow> Inl ValidationError | Inr _ \<Rightarrow> Inr ds)
    | _ \<Rightarrow> Inl ValidationError)"

definition required :: "jobj \<Rightarrow> string \<Rightarrow> json result" where
  "required d k = (case map_of d k of None \<Rightarrow> Inl ValidationError | Some v \<Rightarrow> Inr v)"

definition core_model :: "string \<Rightarrow> jobj \<Rightarrow> card_core result" where
  "core_model now d =
     r_bind (r_bind (required d ''id'') as_str) (\<lambda>cid.
     r_bind (as_str (get_d d ''kind'' (JStr ''task''))) (\<lambda>kind.
     r_bind (r_bind (required d ''title'') as_str) (\<lambda>title.
     r_bind (as_str (get_d d ''description'' (JStr []))) (\<lambda>descr.
     r_bind (as_str (get_d d ''created_by'' (JStr []))) (\<lambda>author.
     r_bind (as_str (get_d d ''created_at'' (JStr now))) (\<lambda>at.
     r_bind (as_strs (get_d d ''acceptance_criteria'' (JList []))) (\<lambda>criteria.
     r_bind (as_strs (get_d d ''dependencies'' (JList []))) (\<lambda>deps.
     r_bind (as_str (get_d d ''initial_priority'' (JStr ''medium''))) (\<lambda>prio.
     r_bind (as_str (get_d d ''initial_swimlane'' (JStr ''feature''))) (\<lambda>lane.
     r_bind (as_strs (get_d d ''initial_labels'' (JList []))) (\<lambda>labels.
     r_bind (as_opt_str (get d ''initial_owner'')) (\<lambda>owner.
     r_bind (as_opt_str (get d ''initial_claim_revision'')) (\<lambda>claim.
     r_bind (as_dict (get_d d ''meta'' (JObj []))) (\<lambda>meta.
     r_bind (as_gates (get_d d ''exit_gates'' (JList []))) (\<lambda>gates.
     r_bind (as_strs (get_d d ''non_goals'' (JList []))) (\<lambda>goals.
     r_bind (as_opt_int (get d ''spec_version'')) (\<lambda>spec.
     Inr \<lparr>co_id = cid, co_kind = kind, co_title = title, co_description = descr, co_created_by = author,
          co_created_at = at, co_criteria = criteria, co_dependencies = deps, co_priority = prio,
          co_swimlane = lane, co_labels = labels, co_owner = owner, co_claim_revision = claim, co_meta = meta,
          co_exit_gates = gates, co_non_goals = goals, co_spec_version = spec\<rparr>)))))))))))))))))"

text \<open>What the model guarantees of a core once it is built: every exit gate names its gate and owner.\<close>

definition gates_ok :: "card_core \<Rightarrow> bool" where
  "gates_ok c \<longleftrightarrow> list_all (\<lambda>d. \<not> blank_field d ''gate'' \<and> \<not> blank_field d ''owner'') (co_exit_gates c)"

text \<open>The creation semantics: everything but the time stamp, and its digest.\<close>

definition semantic_core :: "card_core \<Rightarrow> jobj" where
  "semantic_core c = pop_item ''created_at'' (core_dump c)"

definition semantic_digest :: "store_env \<Rightarrow> card_core \<Rightarrow> string" where
  "semantic_digest env c = se_sha env (json_canon (JObj (semantic_core c)))"

lemma as_str_list_JStr [simp]: "as_str_list (map JStr ss) = Inr ss"
  by (induction ss) (simp_all add: as_str_list_def)

lemma as_strs_JStr [simp]: "as_strs (JList (map JStr ss)) = Inr ss"
  by (simp add: as_strs_def)

lemma as_opt_int_of [simp]: "as_opt_int (of_opt_int x) = Inr x"
  by (cases x) auto

lemma as_gates_ok: "list_all (\<lambda>d. \<not> blank_field d ''gate'' \<and> \<not> blank_field d ''owner'') ds \<Longrightarrow> as_gates (JList (map JObj ds)) = Inr ds"
proof -
  have "r_map as_dict (map JObj ds) = Inr ds" for ds
    by (induction ds) simp_all
  moreover have "list_all (\<lambda>d. \<not> blank_field d ''gate'' \<and> \<not> blank_field d ''owner'') ds \<Longrightarrow> r_map validate_gate (map JObj ds) = Inr (map JObj ds)" for ds
    by (induction ds) simp_all
  ultimately show "list_all (\<lambda>d. \<not> blank_field d ''gate'' \<and> \<not> blank_field d ''owner'') ds \<Longrightarrow> ?thesis"
    by (simp add: as_gates_def)
qed

text \<open>A core that was dumped reads back as itself.\<close>

lemma core_model_dump: "gates_ok c \<Longrightarrow> core_model now (core_dump c) = Inr c"
  by (simp add: core_model_def core_dump_def required_def gates_ok_def as_gates_ok get_d_def get_def)

lemma as_dict_iff [simp]: "as_dict v = Inr d \<longleftrightarrow> v = JObj d"
  by (cases v) auto

lemma core_model_gates: "core_model now d = Inr c \<Longrightarrow> gates_ok c"
proof -
  have each: "r_map validate_gate (map JObj ds) = Inr ys
      \<Longrightarrow> list_all (\<lambda>d. \<not> blank_field d ''gate'' \<and> \<not> blank_field d ''owner'') ds" for ds ys
    by (induction ds arbitrary: ys) (auto elim!: r_bind_InrE split: if_splits)
  have objs: "list_all2 (\<lambda>x d. x = JObj d) xs ds \<Longrightarrow> xs = map JObj ds" for xs ds
    by (induction xs ds rule: list_all2_induct) auto
  have "as_gates v = Inr ds \<Longrightarrow> list_all (\<lambda>d. \<not> blank_field d ''gate'' \<and> \<not> blank_field d ''owner'') ds" for v ds
    by (auto simp: as_gates_def r_map_Inr_iff elim!: r_bind_InrE split: json.splits sum.splits dest!: objs)
      (auto simp flip: r_map_Inr_iff dest: each)
  then show "core_model now d = Inr c \<Longrightarrow> gates_ok c"
    by (auto simp: core_model_def gates_ok_def elim!: r_bind_InrE)
qed

section \<open>Class and parent\<close>

text \<open>The first \<open>[REVIEW]\<close>, \<open>[REREVIEW]\<close> or \<open>[REPAIR]\<close> of a title, in any case; a rereview is a review.\<close>

fun title_class :: "string \<Rightarrow> string option" where
  "title_class [] = None"
| "title_class (c # s) =
     (let t = lower (c # s) in
      if starts_with t ''[review]'' \<or> starts_with t ''[rereview]'' then Some ''review''
      else if starts_with t ''[repair]'' then Some ''repair'' else title_class s)"

definition creation_class :: "jobj \<Rightarrow> string option" where
  "creation_class core = title_class (case get_d core ''title'' (JStr []) of JStr t \<Rightarrow> t | _ \<Rightarrow> [])"

definition parents_of :: "json list \<Rightarrow> string list" where
  "parents_of labels = dedup (filter (\<lambda>p. p \<noteq> []) (map (drop 7)
     (filter (\<lambda>l. starts_with (lower l) ''parent-'') (texts_of labels))))"

definition creation_parent :: "json list \<Rightarrow> string \<Rightarrow> string result" where
  "creation_parent labels cid = (case parents_of labels of [p] \<Rightarrow> Inr p
     | _ \<Rightarrow> Inl (ValueError (''Governed card '' @ cid @ '' requires exactly one parent-<card_id> label'')))"

text \<open>\<open>list(core.get("initial_labels", []))\<close>.\<close>

definition birth_labels :: "jobj \<Rightarrow> json list result" where
  "birth_labels core = py_iter (get_d core ''initial_labels'' (JList []))"

section \<open>Terminal cards and legacy successors\<close>

definition is_terminal_card :: "store_env \<Rightarrow> store \<Rightarrow> card \<Rightarrow> bool result" where
  "is_terminal_card env st c =
     (if cd_status c = Done \<or> cd_archived c then Inr True
      else r_bind (cs_read_events env st (cd_id c)) (\<lambda>es. Inr (list_ex (\<lambda>e. get e ''action'' = JStr ''void'') es)))"

definition compared_fields :: "string list" where
  "compared_fields = [''kind'', ''title'', ''description'', ''acceptance_criteria'', ''dependencies'',
     ''initial_priority'', ''initial_swimlane'', ''initial_labels'', ''meta'', ''exit_gates'', ''non_goals'', ''spec_version'']"

definition legacy_default :: "string \<Rightarrow> json" where
  "legacy_default k = (if k = ''exit_gates'' \<or> k = ''non_goals'' then JList [] else JNull)"

definition same_birth :: "jobj \<Rightarrow> card_core \<Rightarrow> bool" where
  "same_birth previous core \<longleftrightarrow> list_all (\<lambda>k. json_eq (get_d previous k (legacy_default k))
     (get_d (core_dump core) k (legacy_default k))) compared_fields"

text \<open>\<open>label.lower()\<close> on every label.\<close>

fun py_lower :: "json \<Rightarrow> string result" where
  "py_lower (JStr s) = Inr (lower s)"
| "py_lower _ = Inl AttributeError"

definition superseded_by :: "card \<Rightarrow> string \<Rightarrow> bool result" where
  "superseded_by c cid = r_bind (r_map py_lower (cd_labels c)) (\<lambda>ls.
     Inr (''superseded'' \<in> set ls \<and> ''do-not-claim'' \<in> set ls
       \<and> map_of (cd_links c) (JStr ''superseded_by'') = Some (JStr cid)))"

definition is_exact_legacy_successor :: "store_env \<Rightarrow> store \<Rightarrow> card \<Rightarrow> card_core \<Rightarrow> bool result" where
  "is_exact_legacy_successor env st p core =
     (if creation_class (core_dump core) \<noteq> Some ''repair'' \<or> \<not> hex_text 8 (co_id core) \<or> hex_text 8 (cd_id p)
         \<or> cd_status p \<notin> {Backlog, Ready} \<or> cd_archived p \<or> cd_owner p \<noteq> JNull
      then Inr False
      else r_bind (cs_load_core st (cd_id p)) (\<lambda>previous. case previous of None \<Rightarrow> Inr False | Some old \<Rightarrow>
        r_bind (cs_fold env st (cd_id p)) (\<lambda>folded. case folded of None \<Rightarrow> Inl AttributeError | Some f \<Rightarrow>
        r_bind (superseded_by f (co_id core)) (\<lambda>s. if \<not> s then Inr False else
        r_bind (cs_read_events env st (cd_id p)) (\<lambda>es.
          if list_ex (\<lambda>e. get e ''action'' = JStr ''claim'') (es @ legacy_events st (cd_id p)) then Inr False
          else if truthy (get old ''initial_owner'') \<or> truthy (get old ''initial_claim_revision'') then Inr False
          else Inr (same_birth old core))))))"

section \<open>Properties\<close>

text \<open>
  C36. The birth facts survive the disk: a core that validates is written and read back as itself, whenever it
  is read, and each of its exit gates names a gate and an owner.
\<close>

theorem core_roundtrip:
  assumes "core_model now d = Inr c"
  shows "core_model later (core_dump c) = Inr c
    \<and> (\<forall>g\<in>set (co_exit_gates c). \<not> blank_field g ''gate'' \<and> \<not> blank_field g ''owner'')"
  using core_model_gates [OF assms] core_model_dump [of c later] by (simp add: gates_ok_def list_all_iff)

theorem core_roundtrip_witness:
  "\<exists>c. core_model ''2026'' [(''id'', JStr ''x1''), (''title'', JStr ''new''),
        (''exit_gates'', JList [JObj [(''gate'', JStr ''review''), (''owner'', JStr ''qa'')]])] = Inr c
     \<and> core_model ''2027'' (core_dump c) = Inr c"
proof -
  let ?d = "[(''id'', JStr ''x1''), (''title'', JStr ''new''),
        (''exit_gates'', JList [JObj [(''gate'', JStr ''review''), (''owner'', JStr ''qa'')]])]"
  have "\<not> isl (core_model ''2026'' ?d)" by code_simp
  then obtain c where "core_model ''2026'' ?d = Inr c" by (cases "core_model ''2026'' ?d") auto
  with core_roundtrip [OF this, of "''2027''"] show ?thesis by blast
qed

end
