(* ===== verification/Review_Replacement.thy ===== *)
theory Review_Replacement
  imports Card_Birth
begin

text \<open>
  The narrow exception of the creation governor for one recorded operator decision
  (\<open>review_replacement.py\<close>): a review card may replace its live predecessor when exactly one native event
  of the operator authorises it, and nothing that the authorisation binds has changed since. Opening a
  retained evidence file is a parameter: the size of its bytes, their SHA-256 and what \<open>json.loads\<close> makes of
  them, or the exception that the path check raises.
\<close>

record evidence =
  ev_size :: nat
  ev_sha :: string
  ev_json :: "json option"

type_synonym evidence_root = "string \<Rightarrow> evidence result"

definition read_artifact :: "evidence_root \<Rightarrow> json \<Rightarrow> evidence result" where
  "read_artifact root artifact =
     (case artifact of
        JObj d \<Rightarrow> r_bind (root (py_str (get_d d ''path'' (JStr [])))) (\<lambda>ev.
          if ev_size ev = 0 \<or> ev_size ev > 262144 \<or> get d ''sha256'' \<noteq> JStr (ev_sha ev)
          then Inl (ValueError ''replacement evidence bytes changed'') else Inr ev)
      | _ \<Rightarrow> Inl AttributeError)"

definition json_digest :: "store_env \<Rightarrow> json \<Rightarrow> string" where
  "json_digest env v = se_sha env (json_canon v)"

text \<open>\<open>json.dumps(row, sort_keys=True)\<close>, the order of the merged histories.\<close>

fun json_sorted :: "json \<Rightarrow> json" where
  "json_sorted (JList xs) = JList (map json_sorted xs)"
| "json_sorted (JObj d) = JObj (sort_key fst (map (\<lambda>(k, v). (k, json_sorted v)) d))"
| "json_sorted v = v"

definition native_events :: "store_env \<Rightarrow> store \<Rightarrow> string \<Rightarrow> jobj list result" where
  "native_events env st cid = r_bind (cs_read_events env st cid) (\<lambda>es.
     Inr (sort_key (\<lambda>e. json_dumps (json_sorted (JObj e))) (es @ legacy_events st cid)))"

text \<open>The key of a dictionary in JSON.\<close>

fun key_text :: "json \<Rightarrow> string" where
  "key_text (JStr s) = s"
| "key_text v = json_dumps v"

text \<open>\<open>card.model_dump(mode="json")\<close> without \<open>updated_at\<close>.\<close>

definition fold_dump :: "card \<Rightarrow> jobj" where
  "fold_dump c =
     [(''id'', JStr (cd_id c)), (''kind'', JStr (kind_value (cd_kind c))), (''title'', cd_title c),
      (''description'', cd_description c), (''status'', JStr (column_value (cd_status c))),
      (''swimlane'', cd_swimlane c), (''priority'', cd_priority c), (''originator'', JStr (cd_originator c)),
      (''owner'', cd_owner c), (''order'', cd_order c), (''labels'', JList (cd_labels c)),
      (''acceptance_criteria'', JList (cd_criteria c)), (''dependencies'', JList (cd_dependencies c)),
      (''links'', JObj (map (\<lambda>(k, v). (key_text k, v)) (cd_links c))), (''meta'', JObj (cd_meta c)),
      (''archived'', JBool (cd_archived c)), (''created_at'', JStr (cd_created_at c)), (''source'', JStr (cd_source c))]"

definition fold_digest :: "store_env \<Rightarrow> card \<Rightarrow> string" where
  "fold_digest env c = json_digest env (JObj (fold_dump c))"

definition events_digest :: "store_env \<Rightarrow> jobj list \<Rightarrow> string" where
  "events_digest env es = json_digest env (JList (map JObj es))"

section \<open>The checks, in the order of the code\<close>

definition replacement_action :: json where
  "replacement_action = JStr ''review_replacement_authorization''"

definition human_override :: "string list \<Rightarrow> bool" where
  "human_override labels \<longleftrightarrow> ''human-override'' \<in> set (map lower labels)"

definition replacement_keys :: "string list" where
  "replacement_keys = [''review_attempt'', ''review_predecessor'', ''review_replacement_authorization'']"

text \<open>\<open>isinstance(v, str) and re.fullmatch(r"[0-9a-f]{n}", v)\<close>.\<close>

fun hex_value :: "nat \<Rightarrow> json \<Rightarrow> bool" where
  "hex_value n (JStr s) = hex_text n s"
| "hex_value n _ = False"

text \<open>
  The attempt, the source and the predecessor that the metadata name. \<open>held\<close> are the cards whose locks
  this process holds.
\<close>

definition replacement_binding :: "string list \<Rightarrow> card_core \<Rightarrow> (string \<times> string \<times> string) option result" where
  "replacement_binding held core =
     (let m = co_meta core; attempt = get m ''review_attempt''; source = get_d m ''link_source_card'' (JStr []);
          old = get_d m ''review_predecessor'' (JStr []) in
      if attempt = JNull then
        (if has_key m ''review_predecessor'' \<or> has_key m ''review_replacement_authorization''
         then Inl (ValueError ''review replacement metadata incomplete'') else Inr None)
      else if \<not> hex_value 64 attempt \<or> \<not> hex_value 8 source \<or> \<not> hex_value 8 old \<or> source = old
           \<or> human_override (co_labels core) \<or> py_str source \<notin> set held \<or> py_str old \<notin> set held
      then Inl (ValueError ''review replacement binding or locks invalid'')
      else Inr (Some (py_str attempt, py_str source, py_str old)))"

text \<open>The one authorisation in the predecessor's history, and the request it carries.\<close>

definition authorization_of :: "jobj list \<Rightarrow> (jobj \<times> jobj) result" where
  "authorization_of rows =
     (case filter (\<lambda>r. get r ''action'' = replacement_action) rows of
        [e] \<Rightarrow> (case get_d e ''authorization'' (JObj []) of
            JObj q \<Rightarrow> Inr (e, q) | _ \<Rightarrow> Inl (ValueError ''review replacement authorization malformed''))
      | _ \<Rightarrow> Inl (ValueError ''review replacement requires one native operator authorization''))"

definition authorization_ok ::
    "store_env \<Rightarrow> card_core \<Rightarrow> string \<times> string \<times> string \<Rightarrow> jobj \<Rightarrow> jobj \<Rightarrow> bool" where
  "authorization_ok env core b e q = (case b of (attempt, source, old) \<Rightarrow>
     get e ''writer'' = JStr ''jarvis'' \<and> get e ''transition_id'' = JStr attempt
     \<and> get e ''event_id'' = get (co_meta core) ''review_replacement_authorization''
     \<and> json_digest env (JObj q) = attempt
     \<and> get q ''schema'' = JStr ''skfleet.review-replacement-authorization/v1''
     \<and> get q ''source_card'' = JStr source \<and> get q ''predecessor'' = JStr old)"

definition custody_unchanged ::
    "store_env \<Rightarrow> jobj \<Rightarrow> card \<Rightarrow> jobj list \<Rightarrow> card \<Rightarrow> jobj list \<Rightarrow> bool" where
  "custody_unchanged env q source source_rows old history \<longleftrightarrow>
     get q ''source_native_revision'' = JStr (fold_digest env source)
     \<and> get q ''source_events_sha256'' = JStr (events_digest env source_rows)
     \<and> get q ''predecessor_revision'' = JStr (fold_digest env old)
     \<and> get q ''predecessor_events_sha256'' = JStr (events_digest env history)
     \<and> cd_owner source = get q ''producer'' \<and> truthy (cd_owner source)
     \<and> get (cd_meta source) ''_claim_revision'' = get q ''producer_claim''
     \<and> cd_owner old = get q ''predecessor_owner'' \<and> truthy (cd_owner old)
     \<and> get (cd_meta old) ''_claim_revision'' = get q ''predecessor_claim''
     \<and> cd_owner old \<noteq> cd_owner source
     \<and> \<not> truthy (get (cd_meta source) ''claim_conflicts'') \<and> \<not> truthy (get (cd_meta old) ''claim_conflicts'')
     \<and> \<not> cd_archived source \<and> \<not> cd_archived old \<and> cd_status source \<noteq> Done \<and> cd_status old \<noteq> Done
     \<and> JStr ''source-only'' \<in> set (cd_labels source) \<and> JStr ''review'' \<notin> set (cd_labels source)
     \<and> {JStr ''review'', JStr ''source-only'', JStr ''do-not-claim''} \<subseteq> set (cd_labels old)"

text \<open>The invalidation of the predecessor's review: the event that links it and the retained receipt.\<close>

definition invalidation_of :: "store_env \<Rightarrow> jobj list \<Rightarrow> jobj \<Rightarrow> jobj result" where
  "invalidation_of env history q =
     (case get_d q ''invalidation'' (JObj []) of
        JObj v \<Rightarrow>
          (case filter (\<lambda>r. get v ''event_sha256'' = JStr (json_digest env (JObj r))) history of
             [r] \<Rightarrow> (let text = py_str (get_d r ''link_value'' (JStr [])) in
                if get r ''writer'' = JStr ''jarvis'' \<and> get r ''action'' = JStr ''link''
                    \<and> get r ''link_key'' = JStr ''operator_review_invalidation''
                    \<and> contains text (py_str (get v ''path'')) \<and> contains text (''sha256='' @ py_str (get v ''sha256''))
                then Inr v else Inl (ValueError ''review replacement invalidation missing''))
           | _ \<Rightarrow> Inl (ValueError ''review replacement invalidation missing''))
      | _ \<Rightarrow> Inl (ValueError ''review replacement invalidation malformed''))"

fun sub_item :: "json \<Rightarrow> string \<Rightarrow> json result" where
  "sub_item (JObj d) k = get_item d k"
| "sub_item _ k = Inl TypeError"

definition read_receipts :: "evidence_root \<Rightarrow> string \<Rightarrow> string \<Rightarrow> jobj \<Rightarrow> jobj \<Rightarrow> unit result" where
  "read_receipts root source old q v =
     r_bind (read_artifact root (JObj v)) (\<lambda>ev. case ev_json ev of
        None \<Rightarrow> Inl (ValueError ''receipt is not JSON'')
      | Some (JObj inc) \<Rightarrow>
          (if get inc ''schema'' \<noteq> JStr ''skfleet.independent-review-discrepancy/v1''
              \<or> get inc ''review_card'' \<noteq> JStr old \<or> get inc ''source_card'' \<noteq> JStr source
              \<or> get inc ''source_head'' \<noteq> get q ''source_head''
           then Inl (ValueError ''review replacement invalidation receipt changed'')
           else r_bind (get_item inc ''committed_artifacts'') (\<lambda>arts.
             r_bind (r_bind (sub_item arts ''COMPLETION-EVIDENCE.md'') (read_artifact root)) (\<lambda>_.
             r_bind (r_bind (sub_item arts ''REVIEW-DECISION.json'') (read_artifact root)) (\<lambda>_.
             r_bind (r_bind (get_item q ''launch_receipt'') (read_artifact root)) (\<lambda>_. Inr ())))))
      | Some _ \<Rightarrow> Inl (ValueError ''review replacement invalidation receipt malformed''))"

text \<open>The metadata that the replacement and its predecessor share with the request.\<close>

definition expected_meta :: "string \<Rightarrow> card \<Rightarrow> jobj \<Rightarrow> (string \<times> json) list" where
  "expected_meta source c q =
     [(''link_source_card'', JStr source), (''link_head_revision'', get q ''source_head''),
      (''link_card_generation'', get q ''source_generation''), (''link_evidence_sha256'', get q ''source_evidence_sha256''),
      (''link_review_class'', JStr ''review''), (''source_revision'', get q ''source_revision''),
      (''producer_identity'', cd_owner c), (''candidate_tree'', get q ''source_tree''),
      (''candidate_ref'', get q ''source_ref''), (''candidate_evidence_sha256'', get q ''source_evidence_sha256'')]"

definition metadata_ok :: "card_core \<Rightarrow> string \<Rightarrow> card \<Rightarrow> card \<Rightarrow> jobj \<Rightarrow> unit result" where
  "metadata_ok core source c old q =
     (if list_ex (\<lambda>(k, v). get (co_meta core) k \<noteq> v \<or> get (cd_meta old) k \<noteq> v) (expected_meta source c q)
      then Inl (ValueError ''review replacement candidate metadata changed'')
      else if list_ex (\<lambda>k. \<not> truthy (get (cd_meta old) k) \<or> get (co_meta core) k \<noteq> get (cd_meta old) k)
                [''candidate_path'', ''base_revision'']
      then Inl (ValueError ''review replacement source workspace changed'') else Inr ())"

text \<open>\<open>"\0".join(...)\<close> takes texts only.\<close>

fun join_text :: "json \<Rightarrow> string result" where
  "join_text (JStr s) = Inr s"
| "join_text _ = Inl TypeError"

definition review_identity :: "string \<Rightarrow> jobj \<Rightarrow> string result" where
  "review_identity source q =
     r_bind (r_map join_text [JStr source, get q ''source_head'', get q ''source_generation'',
        get q ''source_evidence_sha256'', JStr ''review'']) (\<lambda>ts. Inr (join [CHR 0x00] ts))"

definition canonical_id :: "store_env \<Rightarrow> string \<Rightarrow> string" where
  "canonical_id env identity = take 8 (se_sha env identity)"

definition replacement_id :: "store_env \<Rightarrow> string \<Rightarrow> string \<Rightarrow> string" where
  "replacement_id env identity attempt =
     take 8 (se_sha env (identity @ CHR 0x00 # ''replacement'' @ CHR 0x00 # attempt))"

definition identity_ok :: "store_env \<Rightarrow> card_core \<Rightarrow> string \<times> string \<times> string \<Rightarrow> string \<Rightarrow> bool" where
  "identity_ok env core b identity = (case b of (attempt, source, old) \<Rightarrow>
     old = canonical_id env identity \<and> co_id core = replacement_id env identity attempt
     \<and> co_created_by core = ''link'' \<and> title_class (co_title core) = Some ''review''
     \<and> filter (\<lambda>l. starts_with l ''parent-'') (co_labels core) = [''parent-'' @ source]
     \<and> ''source-only'' \<in> set (co_labels core))"

definition authorized_predecessor ::
    "store_env \<Rightarrow> evidence_root \<Rightarrow> string list \<Rightarrow> store \<Rightarrow> card_core \<Rightarrow> string option result" where
  "authorized_predecessor env root held st core =
     r_bind (replacement_binding held core) (\<lambda>b. case b of
        None \<Rightarrow> Inr None
      | Some (attempt, source_id, predecessor) \<Rightarrow>
          r_bind (cs_fold env st predecessor) (\<lambda>old.
          r_bind (cs_fold env st source_id) (\<lambda>source.
          r_bind (native_events env st predecessor) (\<lambda>rows.
          r_bind (authorization_of rows) (\<lambda>(e, q).
          case (source, old) of
            (Some s, Some o1) \<Rightarrow>
              if \<not> authorization_ok env core (attempt, source_id, predecessor) e q
              then Inl (ValueError ''review replacement operator authorization invalid'')
              else r_bind (native_events env st source_id) (\<lambda>source_rows.
                let history = filter (\<lambda>r. get r ''action'' \<noteq> replacement_action) rows in
                if \<not> custody_unchanged env q s source_rows o1 history
                then Inl (ValueError ''review replacement native custody changed'')
                else r_bind (invalidation_of env history q) (\<lambda>v.
                  r_bind (read_receipts root source_id predecessor q v) (\<lambda>_.
                  r_bind (metadata_ok core source_id s o1 q) (\<lambda>_.
                  r_bind (review_identity source_id q) (\<lambda>identity.
                  if identity_ok env core (attempt, source_id, predecessor) identity then Inr (Some predecessor)
                  else Inl (ValueError ''review replacement identity changed''))))))
          | _ \<Rightarrow> Inl (ValueError ''review replacement operator authorization invalid''))))))"

text \<open>
  \<open>creation_guard\<close>: a core that names a replacement is created under the locks of its source and its
  predecessor, and only with the authorisation.
\<close>

definition guarded_cards :: "card_core \<Rightarrow> string list result" where
  "guarded_cards core =
     (let m = co_meta core; source = get_d m ''link_source_card'' (JStr []); old = get_d m ''review_predecessor'' (JStr []) in
      if \<not> list_ex (has_key m) replacement_keys then Inr []
      else if \<not> hex_value 8 source \<or> \<not> hex_value 8 old \<or> source = old
      then Inl (ValueError ''review replacement lock identity invalid'')
      else Inr [py_str source, py_str old])"

definition creation_guard :: "store_env \<Rightarrow> evidence_root \<Rightarrow> store \<Rightarrow> card_core \<Rightarrow> string list result" where
  "creation_guard env root st core =
     r_bind (guarded_cards core) (\<lambda>held.
       if held = [] then Inr []
       else r_bind (r_map (\<lambda>cid. lock_anchor cid st) held) (\<lambda>_.
         r_bind (authorized_predecessor env root held st core) (\<lambda>_. Inr held)))"

section \<open>What an authorisation allows\<close>

lemma authorized_cases:
  assumes "authorized_predecessor env root held st core = Inr (Some p)"
  obtains attempt source_id rows e q s o1 source_rows v identity where
    "replacement_binding held core = Inr (Some (attempt, source_id, p))"
    "native_events env st p = Inr rows" "authorization_of rows = Inr (e, q)"
    "cs_fold env st p = Inr (Some o1)" "cs_fold env st source_id = Inr (Some s)"
    "authorization_ok env core (attempt, source_id, p) e q"
    "native_events env st source_id = Inr source_rows"
    "custody_unchanged env q s source_rows o1 (filter (\<lambda>r. get r ''action'' \<noteq> replacement_action) rows)"
    "invalidation_of env (filter (\<lambda>r. get r ''action'' \<noteq> replacement_action) rows) q = Inr v"
    "read_receipts root source_id p q v = Inr ()" "metadata_ok core source_id s o1 q = Inr ()"
    "review_identity source_id q = Inr identity" "identity_ok env core (attempt, source_id, p) identity"
  using assms unfolding authorized_predecessor_def
  by (elim r_bind_InrE; (auto simp: Let_def elim!: r_bind_InrE split: option.splits prod.splits if_splits; fail)?)

lemma hex_value_iff: "hex_value n v \<longleftrightarrow> (\<exists>s. v = JStr s \<and> hex_text n s)"
  by (cases v) auto

lemma binding_attempt:
  "replacement_binding held core = Inr (Some (attempt, source, old))
     \<Longrightarrow> get (co_meta core) ''review_attempt'' = JStr attempt \<and> source \<noteq> old \<and> source \<in> set held \<and> old \<in> set held
       \<and> \<not> human_override (co_labels core)"
  by (cases "get (co_meta core) ''review_attempt''")
    (auto simp: replacement_binding_def Let_def get_def get_d_def hex_value_iff split: if_splits option.splits)

section \<open>Properties\<close>

text \<open>
  C27. One authorisation allows one card: every core that is authorised to replace the same predecessor in the
  same store, under whatever locks and evidence, is the same card, made from the same recorded attempt, which
  is the digest of the one request that the operator recorded.
\<close>

theorem one_replacement:
  assumes a: "authorized_predecessor env root held st core = Inr (Some p)"
    and b: "authorized_predecessor env root' held' st core' = Inr (Some p)"
  shows "co_id core = co_id core' \<and> get (co_meta core) ''review_attempt'' = get (co_meta core') ''review_attempt''
    \<and> (\<exists>rows e q. native_events env st p = Inr rows \<and> authorization_of rows = Inr (e, q) \<and> get e ''writer'' = JStr ''jarvis''
         \<and> get (co_meta core) ''review_attempt'' = JStr (json_digest env (JObj q)))"
proof -
  from a obtain attempt source rows e q identity where A: "replacement_binding held core = Inr (Some (attempt, source, p))"
    "native_events env st p = Inr rows" "authorization_of rows = Inr (e, q)" "authorization_ok env core (attempt, source, p) e q"
    "review_identity source q = Inr identity" "identity_ok env core (attempt, source, p) identity"
    by (rule authorized_cases)
  from b obtain attempt' source' rows' e' q' identity' where B: "replacement_binding held' core' = Inr (Some (attempt', source', p))"
    "native_events env st p = Inr rows'" "authorization_of rows' = Inr (e', q')" "authorization_ok env core' (attempt', source', p) e' q'"
    "review_identity source' q' = Inr identity'" "identity_ok env core' (attempt', source', p) identity'"
    by (rule authorized_cases)
  have same: "e' = e" "q' = q" using A(2,3) B(2,3) by simp_all
  then have "attempt' = attempt" "source' = source" using A(4) B(4) by (simp_all add: authorization_ok_def)
  then have "identity' = identity" using A(5) B(5) same by simp
  then have "co_id core = co_id core'" using A(6) B(6) \<open>attempt' = attempt\<close> by (simp add: identity_ok_def)
  moreover have "get (co_meta core) ''review_attempt'' = JStr attempt" "get (co_meta core') ''review_attempt'' = JStr attempt"
    using binding_attempt A(1) B(1) \<open>attempt' = attempt\<close> by blast+
  moreover have "json_digest env (JObj q) = attempt" "get e ''writer'' = JStr ''jarvis''" using A(4) by (simp_all add: authorization_ok_def)
  ultimately show ?thesis using A(2,3) by auto
qed

text \<open>A source, its review, and the operator's authorisation to replace the review; every digest is the same text.\<close>

definition flat_env :: store_env where
  "flat_env = sample_store_env\<lparr>se_sha := \<lambda>t. replicate 64 CHR ''a''\<rparr>"

definition flat_digest :: json where
  "flat_digest = JStr (replicate 64 CHR ''a'')"

definition review_meta :: jobj where
  "review_meta = [(''link_source_card'', JStr ''bbbbbbbb''), (''link_head_revision'', JStr ''h''),
     (''link_card_generation'', JStr ''g''), (''link_evidence_sha256'', JStr ''v''), (''link_review_class'', JStr ''review''),
     (''source_revision'', JStr ''r''), (''producer_identity'', JStr ''ana''), (''candidate_tree'', JStr ''t''),
     (''candidate_ref'', JStr ''f''), (''candidate_evidence_sha256'', JStr ''v''), (''candidate_path'', JStr ''/w''),
     (''base_revision'', JStr ''b'')]"

definition owned_core :: "string \<Rightarrow> string \<Rightarrow> string list \<Rightarrow> jobj \<Rightarrow> jobj" where
  "owned_core cid owner labels meta = [(''id'', JStr cid), (''title'', JStr ''work''), (''initial_labels'', JList (map JStr labels)),
     (''initial_owner'', JStr owner), (''initial_claim_revision'', JStr ''rv''), (''meta'', JObj meta)]"

definition replacement_request :: jobj where
  "replacement_request = [(''schema'', JStr ''skfleet.review-replacement-authorization/v1''), (''source_card'', JStr ''bbbbbbbb''),
     (''predecessor'', JStr ''aaaaaaaa''), (''source_native_revision'', flat_digest), (''source_events_sha256'', flat_digest),
     (''predecessor_revision'', flat_digest), (''predecessor_events_sha256'', flat_digest), (''producer'', JStr ''ana''),
     (''producer_claim'', JStr ''rv''), (''predecessor_owner'', JStr ''bob''), (''predecessor_claim'', JStr ''rv''),
     (''invalidation'', JObj [(''event_sha256'', flat_digest), (''path'', JStr ''/e''), (''sha256'', flat_digest)]),
     (''source_head'', JStr ''h''), (''source_generation'', JStr ''g''), (''source_evidence_sha256'', JStr ''v''),
     (''source_revision'', JStr ''r''), (''source_tree'', JStr ''t''), (''source_ref'', JStr ''f''),
     (''launch_receipt'', JObj [(''path'', JStr ''/l''), (''sha256'', flat_digest)])]"

definition replacement_events :: "jobj list" where
  "replacement_events =
     [[(''ts'', JStr ''1''), (''writer'', JStr ''jarvis''), (''seq'', JInt 0), (''action'', JStr ''link''),
       (''link_key'', JStr ''operator_review_invalidation''), (''link_value'', JStr (''/e sha256='' @ replicate 64 CHR ''a''))],
      [(''ts'', JStr ''2''), (''writer'', JStr ''jarvis''), (''seq'', JInt 1), (''action'', replacement_action),
       (''event_id'', JStr ''e1''), (''transition_id'', flat_digest), (''authorization'', JObj replacement_request)]]"

definition replacement_store :: store where
  "replacement_store = (sample_store [])\<lparr>so_cards :=
     [(''aaaaaaaa'', \<lparr>dir_core = Some (CoreJson (JObj (owned_core ''aaaaaaaa'' ''bob'' [''review'', ''source-only'', ''do-not-claim''] review_meta))),
        dir_events = [(''jarvis.jsonl'', map (\<lambda>e. SLine ''x'' (Some (JObj e))) replacement_events)]\<rparr>),
      (''bbbbbbbb'', \<lparr>dir_core = Some (CoreJson (JObj (owned_core ''bbbbbbbb'' ''ana'' [''source-only''] []))), dir_events = []\<rparr>)]\<rparr>"

definition receipt_root :: evidence_root where
  "receipt_root p = Inr \<lparr>ev_size = 1, ev_sha = replicate 64 CHR ''a'', ev_json = Some (JObj
     [(''schema'', JStr ''skfleet.independent-review-discrepancy/v1''), (''review_card'', JStr ''aaaaaaaa''),
      (''source_card'', JStr ''bbbbbbbb''), (''source_head'', JStr ''h''),
      (''committed_artifacts'', JObj [(''COMPLETION-EVIDENCE.md'', JObj [(''sha256'', flat_digest)]),
        (''REVIEW-DECISION.json'', JObj [(''sha256'', flat_digest)])])])\<rparr>"

definition replacement_core :: card_core where
  "replacement_core =
     \<lparr>co_id = ''aaaaaaaa'', co_kind = ''task'', co_title = ''[REVIEW] work'', co_description = [], co_created_by = ''link'',
      co_created_at = [], co_criteria = [], co_dependencies = [], co_priority = ''medium'', co_swimlane = ''feature'',
      co_labels = [''source-only'', ''parent-bbbbbbbb''], co_owner = None, co_claim_revision = None,
      co_meta = (''review_attempt'', flat_digest) # (''review_predecessor'', JStr ''aaaaaaaa'')
        # (''review_replacement_authorization'', JStr ''e1'') # review_meta,
      co_exit_gates = [], co_non_goals = [], co_spec_version = None\<rparr>"

lemma flat_json_digest: "json_digest flat_env v = replicate 64 CHR ''a''"
  by (simp add: json_digest_def flat_env_def)

lemma replacement_rows:
  "native_events flat_env replacement_store ''aaaaaaaa'' \<in> {Inr replacement_events, Inr (rev replacement_events)}"
proof -
  have two: "sort_key f [a, b] \<in> {[a, b], [b, a]}" for f :: "jobj \<Rightarrow> string" and a b by simp
  have "cs_read_events flat_env replacement_store ''aaaaaaaa'' = Inr replacement_events"
    "legacy_events replacement_store ''aaaaaaaa'' = []" by code_simp+
  then show ?thesis
    using two unfolding native_events_def replacement_events_def by fastforce
qed

lemma replacement_cards:
  obtains s o1 where "cs_fold flat_env replacement_store ''bbbbbbbb'' = Inr (Some s)"
    "cs_fold flat_env replacement_store ''aaaaaaaa'' = Inr (Some o1)"
    "cd_owner s = JStr ''ana''" "cd_owner o1 = JStr ''bob''" "cd_status s = Doing" "cd_status o1 = Doing"
    "\<not> cd_archived s" "\<not> cd_archived o1" "cd_labels s = [JStr ''source-only'']"
    "cd_labels o1 = [JStr ''review'', JStr ''source-only'', JStr ''do-not-claim'']"
    "cd_meta s = [(''_claim_revision'', JStr ''rv'')]" "cd_meta o1 = review_meta @ [(''_claim_revision'', JStr ''rv'')]"
proof -
  have "case cs_fold flat_env replacement_store ''bbbbbbbb'' of Inr (Some s) \<Rightarrow> cd_owner s = JStr ''ana'' \<and> cd_status s = Doing
      \<and> \<not> cd_archived s \<and> cd_labels s = [JStr ''source-only''] \<and> cd_meta s = [(''_claim_revision'', JStr ''rv'')] | _ \<Rightarrow> False"
    by code_simp
  then obtain s where s: "cs_fold flat_env replacement_store ''bbbbbbbb'' = Inr (Some s)" "cd_owner s = JStr ''ana''"
    "cd_status s = Doing" "\<not> cd_archived s" "cd_labels s = [JStr ''source-only'']" "cd_meta s = [(''_claim_revision'', JStr ''rv'')]"
    by (auto split: sum.splits option.splits)
  have "case cs_fold flat_env replacement_store ''aaaaaaaa'' of Inr (Some c) \<Rightarrow> cd_owner c = JStr ''bob'' \<and> cd_status c = Doing
      \<and> \<not> cd_archived c \<and> cd_labels c = [JStr ''review'', JStr ''source-only'', JStr ''do-not-claim'']
      \<and> cd_meta c = review_meta @ [(''_claim_revision'', JStr ''rv'')] | _ \<Rightarrow> False"
    by code_simp
  then obtain c where c: "cs_fold flat_env replacement_store ''aaaaaaaa'' = Inr (Some c)" "cd_owner c = JStr ''bob''"
    "cd_status c = Doing" "\<not> cd_archived c" "cd_labels c = [JStr ''review'', JStr ''source-only'', JStr ''do-not-claim'']"
    "cd_meta c = review_meta @ [(''_claim_revision'', JStr ''rv'')]"
    by (auto split: sum.splits option.splits)
  show thesis by (rule that [OF s(1) c(1) s(2) c(2) s(3) c(3) s(4) c(4) s(5) c(5) s(6) c(6)])
qed

lemma sample_replacement:
  "authorized_predecessor flat_env receipt_root [''bbbbbbbb'', ''aaaaaaaa''] replacement_store replacement_core = Inr (Some ''aaaaaaaa'')"
proof -
  let ?a = "replicate 64 CHR ''a''"
  have binding: "replacement_binding [''bbbbbbbb'', ''aaaaaaaa''] replacement_core = Inr (Some (?a, ''bbbbbbbb'', ''aaaaaaaa''))" by code_simp
  have source_rows: "native_events flat_env replacement_store ''bbbbbbbb'' = Inr []" by code_simp
  obtain s o1 where cards: "cs_fold flat_env replacement_store ''bbbbbbbb'' = Inr (Some s)"
    "cs_fold flat_env replacement_store ''aaaaaaaa'' = Inr (Some o1)"
    "cd_owner s = JStr ''ana''" "cd_owner o1 = JStr ''bob''" "cd_status s = Doing" "cd_status o1 = Doing"
    "\<not> cd_archived s" "\<not> cd_archived o1" "cd_labels s = [JStr ''source-only'']"
    "cd_labels o1 = [JStr ''review'', JStr ''source-only'', JStr ''do-not-claim'']"
    "cd_meta s = [(''_claim_revision'', JStr ''rv'')]" "cd_meta o1 = review_meta @ [(''_claim_revision'', JStr ''rv'')]"
    by (rule replacement_cards)
  let ?q = replacement_request and ?v = "[(''event_sha256'', flat_digest), (''path'', JStr ''/e''), (''sha256'', flat_digest)]"
  let ?link = "hd replacement_events" and ?auth = "hd (tl replacement_events)"
  have ok: "authorization_ok flat_env replacement_core (?a, ''bbbbbbbb'', ''aaaaaaaa'') ?auth ?q"
    by (simp add: authorization_ok_def flat_json_digest replacement_events_def replacement_request_def flat_digest_def replacement_core_def)
  have custody: "custody_unchanged flat_env ?q s [] o1 [?link]"
    by (simp add: custody_unchanged_def fold_digest_def events_digest_def flat_json_digest cards replacement_request_def flat_digest_def review_meta_def)
  have link: "contains (''/e sha256='' @ ?a) ''/e''" "contains (''/e sha256='' @ ?a) (''sha256='' @ ?a)" by code_simp+
  have inval: "invalidation_of flat_env [?link] ?q = Inr ?v"
    using link by (simp add: invalidation_of_def flat_json_digest replacement_request_def replacement_events_def flat_digest_def Let_def)
  have receipts: "read_receipts receipt_root ''bbbbbbbb'' ''aaaaaaaa'' ?q ?v = Inr ()"
    by (simp add: read_receipts_def read_artifact_def receipt_root_def replacement_request_def flat_digest_def get_item_def)
  have meta: "metadata_ok replacement_core ''bbbbbbbb'' s o1 ?q = Inr ()"
    by (simp add: metadata_ok_def expected_meta_def cards review_meta_def replacement_core_def replacement_request_def)
  obtain ident where ident: "review_identity ''bbbbbbbb'' ?q = Inr ident"
    by (simp add: review_identity_def replacement_request_def)
  have "title_class ''[REVIEW] work'' = Some ''review''"
    "filter (\<lambda>l. starts_with l ''parent-'') [''source-only'', ''parent-bbbbbbbb''] = [''parent-bbbbbbbb'']" by code_simp+
  then have id_ok: "identity_ok flat_env replacement_core (?a, ''bbbbbbbb'', ''aaaaaaaa'') ident"
    by (simp add: identity_ok_def canonical_id_def replacement_id_def flat_env_def replacement_core_def numeral_eq_Suc)
  have rows: "authorization_of rows = Inr (?auth, ?q) \<and> filter (\<lambda>r. get r ''action'' \<noteq> replacement_action) rows = [?link]"
    if "rows \<in> {replacement_events, rev replacement_events}" for rows
    using that by (auto simp: authorization_of_def replacement_events_def replacement_action_def)
  show ?thesis
    using replacement_rows rows
    by (auto simp: authorized_predecessor_def binding source_rows cards(1,2) ok custody inval receipts meta ident id_ok Let_def)
qed

theorem one_replacement_witness:
  "authorized_predecessor flat_env receipt_root [''bbbbbbbb'', ''aaaaaaaa''] replacement_store replacement_core = Inr (Some ''aaaaaaaa'')
   \<and> get (co_meta replacement_core) ''review_attempt'' = JStr (replicate 64 CHR ''a'')"
  using one_replacement [OF sample_replacement sample_replacement] sample_replacement by (auto simp: flat_json_digest)

end
