(* ===== verification/Card_Creation.thy ===== *)
theory Card_Creation
  imports Review_Replacement
begin

text \<open>
  Governed creation (\<open>CardStore.create\<close>): the checks that every birth passes and the write of
  \<open>core.json\<close>, with the disk as it is: a write may fail before, in the middle of or after its effect, and
  the process may stop there.
\<close>

section \<open>The governor\<close>

definition birth_edges :: "(py_error \<Rightarrow> string) \<Rightarrow> store_env \<Rightarrow> card_core \<Rightarrow> store \<Rightarrow> unit result" where
  "birth_edges why env core st =
     (if co_dependencies core = [] then Inr ()
      else r_bind (cs_list_cards why env True True st) (\<lambda>cs.
        case find (would_create_cycle (dependency_edges cs) (co_id core)) (co_dependencies core) of
          None \<Rightarrow> Inr ()
        | Some d \<Rightarrow> Inl (ValueError (''dependency '' @ co_id core @ '' -> '' @ d @ '' would create a cycle''))))"

definition core_or_empty :: "store \<Rightarrow> string \<Rightarrow> jobj result" where
  "core_or_empty st cid = r_bind (cs_load_core st cid) (\<lambda>c. Inr (case c of None \<Rightarrow> [] | Some d \<Rightarrow> d))"

text \<open>One turn of the loop over the existing cards: a live card of the class under the parent refuses the birth.\<close>

definition duplicate_check ::
    "store_env \<Rightarrow> store \<Rightarrow> card_core \<Rightarrow> string \<Rightarrow> string \<Rightarrow> string option \<Rightarrow> card \<Rightarrow> unit result" where
  "duplicate_check env st core cls parent replaced existing =
     r_bind (core_or_empty st (cd_id existing)) (\<lambda>ec.
       if creation_class ec \<noteq> Some cls then Inr ()
       else r_bind (birth_labels ec) (\<lambda>labels.
         case creation_parent labels (cd_id existing) of
           Inl _ \<Rightarrow> Inr ()
         | Inr p \<Rightarrow>
             if p = parent \<and> Some (cd_id existing) \<noteq> replaced then
               r_bind (is_terminal_card env st existing) (\<lambda>terminal. if terminal then Inr () else
               r_bind (is_exact_legacy_successor env st existing core) (\<lambda>succ. if succ then Inr () else
                 Inl (ValueError (''Refusing live '' @ cls @ '' duplicate for parent '' @ parent
                   @ ''; existing card '' @ cd_id existing @ '' is non-terminal''))))
             else Inr ()))"

text \<open>
  The walk from a review to the card it reviews: how many reviews it passes and where it ends. \<open>ids\<close> are the
  listed cards, \<open>visited\<close> the cards already met; every turn adds a listed card, so the walk ends.
\<close>

function review_depth :: "store \<Rightarrow> string list \<Rightarrow> string \<Rightarrow> string list \<Rightarrow> string \<Rightarrow> nat \<Rightarrow> (nat \<times> string) result" where
  "review_depth st ids cid visited root depth =
     (if root \<in> set visited
      then Inl (ValueError (''Review ancestry for '' @ cid @ '' contains a cycle at '' @ root))
      else if root \<notin> set ids
      then Inl (ValueError (''Review ancestry for '' @ cid @ '' names unknown card '' @ root))
      else r_bind (core_or_empty st root) (\<lambda>ac.
        if creation_class ac \<noteq> Some ''review'' then Inr (depth, root)
        else r_bind (birth_labels ac) (\<lambda>labels.
          r_bind (creation_parent labels root) (\<lambda>p. review_depth st ids cid (root # visited) p (Suc depth)))))"
  by pat_completeness auto

termination
proof (relation "measure (\<lambda>(st, ids, cid, visited, root, depth). Finite_Set.card (set ids - set visited))", goal_cases)
  case (2 st ids cid visited root depth ac labels p)
  then have "set ids - set (root # visited) \<subset> set ids - set visited" by auto
  then show ?case by (simp add: psubset_card_mono)
qed simp

declare review_depth.simps [simp del]

definition review_ancestry :: "store \<Rightarrow> string list \<Rightarrow> card_core \<Rightarrow> string \<Rightarrow> unit result" where
  "review_ancestry st ids core parent =
     r_bind (review_depth st ids (co_id core) [co_id core] parent 0) (\<lambda>(depth, root).
       if depth \<ge> 2 then Inl (ValueError (''Refusing third review level for root '' @ root @ ''; human escalation is required''))
       else Inr ())"

definition govern_create ::
    "(py_error \<Rightarrow> string) \<Rightarrow> store_env \<Rightarrow> evidence_root \<Rightarrow> string list \<Rightarrow> card_core \<Rightarrow> store \<Rightarrow> unit result" where
  "govern_create why env root held core st =
     r_bind (birth_edges why env core st) (\<lambda>_.
     case creation_class (core_dump core) of
       None \<Rightarrow> Inr ()
     | Some cls \<Rightarrow>
         if human_override (co_labels core) then Inr ()
         else r_bind (creation_parent (map JStr (co_labels core)) (co_id core)) (\<lambda>parent.
           r_bind (cs_list_cards why env True False st) (\<lambda>cards.
           if parent \<notin> set (map cd_id cards)
           then Inl (ValueError (''Governed card '' @ co_id core @ '' names unknown parent '' @ parent))
           else r_bind (authorized_predecessor env root held st core) (\<lambda>replaced.
             r_bind (r_map (duplicate_check env st core cls parent replaced) cards) (\<lambda>_.
             if cls \<noteq> ''review'' then Inr ()
             else review_ancestry st (map cd_id cards) core parent)))))"

section \<open>The disk\<close>

text \<open>
  How much of an effect was reached when a call failed or the process stopped: nothing, a proper part of the
  text (its first characters), or all of it. A rename and an unlink happen or not.
\<close>

datatype extent = Nothing | Part nat | Whole

datatype io = Fine | Fails extent | Stops extent

record attempt_log =
  al_lines :: "store_line list"
  al_tail :: "store_line option"

text \<open>
  What creation works on: the store, the pending intents and the attempt logs under \<open>recovery/\<close> (the lines
  that end in a newline, and an unterminated last one), the clock, how many disk operations were made, and
  whether the process has stopped. A stopped process changes nothing any more.
\<close>

record nursery =
  nu_store :: store
  nu_pending :: "(string \<times> core_file) list"
  nu_logs :: "(string \<times> attempt_log) list"
  nu_clock :: nat
  nu_steps :: nat
  nu_down :: bool

text \<open>
  The environment: the locks that the caller holds, the text of an exception that is not raised here, and what
  happens at each disk operation, with the text of its \<open>OSError\<close>.
\<close>

record birth_env =
  ne_store :: store_env
  ne_root :: evidence_root
  ne_held :: "string list"
  ne_why :: "py_error \<Rightarrow> string"
  ne_io :: "nat \<Rightarrow> io"
  ne_os :: "nat \<Rightarrow> string"

definition stopped :: py_error where
  "stopped = RuntimeError ''the process has stopped''"

text \<open>
  One disk operation: \<open>effect\<close> is what it does to the extent given, \<open>raised\<close> turns the \<open>OSError\<close> into the
  exception that the method raises.
\<close>

definition disk :: "birth_env \<Rightarrow> (string \<Rightarrow> py_error) \<Rightarrow> (extent \<Rightarrow> nursery \<Rightarrow> nursery) \<Rightarrow> (nursery, unit) op" where
  "disk env raised effect = (\<lambda>n.
     if nu_down n then (Inl stopped, n)
     else let m = n\<lparr>nu_steps := Suc (nu_steps n)\<rparr> in
       case ne_io env (nu_steps n) of
         Fine \<Rightarrow> (Inr (), effect Whole m)
       | Fails x \<Rightarrow> (Inl (raised (ne_os env (nu_steps n))), effect x m)
       | Stops x \<Rightarrow> (Inl stopped, (effect x m)\<lparr>nu_down := True\<rparr>))"

section \<open>Writing a core\<close>

definition card_dir_of :: "store \<Rightarrow> string \<Rightarrow> card_dir" where
  "card_dir_of st cid = (case map_of (so_cards st) cid of None \<Rightarrow> \<lparr>dir_core = None, dir_events = []\<rparr> | Some d \<Rightarrow> d)"

definition put_core :: "string \<Rightarrow> core_file option \<Rightarrow> store \<Rightarrow> store" where
  "put_core cid f st = st\<lparr>so_cards := AList.update cid ((card_dir_of st cid)\<lparr>dir_core := f\<rparr>) (so_cards st)\<rparr>"

text \<open>
  \<open>create\<close> opens \<open>core.json\<close> itself with \<open>O_EXCL\<close> and writes the text into it: what is reached in between stays as
  a file that cannot be read. A core that lacks only its final newline reads like the whole one: a write cut
  there is \<open>Fails Whole\<close> or \<open>Stops Whole\<close>, and \<open>Part\<close> stands for a cut before the closing brace.
\<close>

definition exclusive_write :: "card_core \<Rightarrow> extent \<Rightarrow> nursery \<Rightarrow> nursery" where
  "exclusive_write core x n = n\<lparr>nu_store := put_core (co_id core)
     (case x of Nothing \<Rightarrow> None | Part k \<Rightarrow> Some CoreBad | Whole \<Rightarrow> Some (CoreJson (JObj (core_dump core)))) (nu_store n)\<rparr>"

definition create_governed :: "birth_env \<Rightarrow> string list \<Rightarrow> card_core \<Rightarrow> (nursery, string) op" where
  "create_governed env held core =
     (if \<not> valid_identifier (co_id core) then op_raise bad_identifier
      else op_bind (op_result (\<lambda>n. cs_load_core (nu_store n) (co_id core))) (\<lambda>existing.
        if existing \<noteq> None then op_return (co_id core)
        else op_bind (op_result (\<lambda>n. govern_create (ne_why env) (ne_store env) (ne_root env) held core (nu_store n))) (\<lambda>_.
          op_bind (disk env OSError (exclusive_write core)) (\<lambda>_.
          op_bind (op_result (\<lambda>n. lock_anchor (co_id core) (nu_store n))) (\<lambda>_. op_return (co_id core))))))"

definition create :: "birth_env \<Rightarrow> card_core \<Rightarrow> (nursery, string) op" where
  "create env core =
     op_bind (op_result (\<lambda>n. creation_guard (ne_store env) (ne_root env) (nu_store n) core)) (\<lambda>locked.
       create_governed env (ne_held env @ locked) core)"

section \<open>What a birth changes\<close>

lemma card_dir_of_put_core: "card_dir_of (put_core cid f st) c = (if c = cid then (card_dir_of st cid)\<lparr>dir_core := f\<rparr> else card_dir_of st c)"
  by (simp add: card_dir_of_def put_core_def update_conv')

lemma load_core_dir:
  "cs_load_core st cid = (if \<not> valid_identifier cid then Inl bad_identifier
     else case dir_core (card_dir_of st cid) of
          None \<Rightarrow> Inr None
        | Some CoreBad \<Rightarrow> Inl (ValueError ''core is malformed'')
        | Some (CoreJson (JObj c)) \<Rightarrow> Inr (Some c)
        | Some (CoreJson _) \<Rightarrow> Inl (ValueError ''core must be a JSON object''))"
  by (simp add: cs_load_core_def card_dir_of_def split: option.split)

lemma no_core: "cs_load_core st cid = Inr None \<longleftrightarrow> valid_identifier cid \<and> dir_core (card_dir_of st cid) = None"
  by (auto simp: load_core_dir split: option.splits core_file.splits json.splits)

text \<open>
  What every creation keeps: the events of all cards, every core that is there, all other cards, the legacy
  files, the lines of every ledger, and the pending intents of other cards.
\<close>

definition births_only :: "string \<Rightarrow> store \<Rightarrow> store \<Rightarrow> bool" where
  "births_only cid st st' \<longleftrightarrow> st'\<lparr>so_cards := so_cards st\<rparr> = st
     \<and> (\<forall>c. dir_events (card_dir_of st' c) = dir_events (card_dir_of st c)
          \<and> (c \<noteq> cid \<or> dir_core (card_dir_of st c) \<noteq> None \<longrightarrow> dir_core (card_dir_of st' c) = dir_core (card_dir_of st c)))"

definition log_lines :: "nursery \<Rightarrow> string \<Rightarrow> store_line list" where
  "log_lines n f = (case map_of (nu_logs n) f of None \<Rightarrow> [] | Some l \<Rightarrow> al_lines l)"

definition birth_grows :: "string \<Rightarrow> nursery \<Rightarrow> nursery \<Rightarrow> bool" where
  "birth_grows cid n n' \<longleftrightarrow> births_only cid (nu_store n) (nu_store n')
     \<and> (\<forall>f. \<exists>more. log_lines n' f = log_lines n f @ more)
     \<and> (\<forall>c. c \<noteq> cid \<longrightarrow> map_of (nu_pending n') c = map_of (nu_pending n) c)"

lemma births_only_refl: "births_only cid st st"
  by (simp add: births_only_def)

lemma births_only_trans:
  assumes "births_only cid st tt" and "births_only cid tt u" shows "births_only cid st u"
proof -
  have "u\<lparr>so_cards := so_cards st\<rparr> = (u\<lparr>so_cards := so_cards tt\<rparr>)\<lparr>so_cards := so_cards st\<rparr>" by simp
  also have "\<dots> = st" using assms by (simp add: births_only_def)
  finally show ?thesis using assms unfolding births_only_def by metis
qed

lemma births_only_put: "dir_core (card_dir_of st cid) = None \<Longrightarrow> births_only cid st (put_core cid f st)"
  unfolding births_only_def card_dir_of_put_core by (simp add: put_core_def)

interpretation birth: op_order "birth_grows cid" for cid
proof
  show "birth_grows cid n n" for n by (simp add: birth_grows_def births_only_refl)
  show "birth_grows cid n u" if "birth_grows cid n m" "birth_grows cid m u" for n m u
    using that births_only_trans unfolding birth_grows_def by (metis append.assoc)
qed

context op_order
begin

lemma keeps_bind_from: "R s (snd (m s)) \<Longrightarrow> (\<And>x. op_keeps R (f x)) \<Longrightarrow> R s (snd (op_bind m f s))"
  by (cases "m s"; cases "fst (m s)") (auto simp: op_bind_run intro: trans op_keepsD)

lemma keeps_result_from:
  "(\<And>x. r s = Inr x \<Longrightarrow> R s (snd (f x s))) \<Longrightarrow> R s (snd (op_bind (op_result r) f s))"
  by (cases "r s") (auto simp: op_bind_run refl)

end

lemma disk_store_cases:
  obtains x b where "snd (disk env raised effect n) = n"
  | x b where "snd (disk env raised effect n) = (effect x (n\<lparr>nu_steps := Suc (nu_steps n)\<rparr>))\<lparr>nu_down := b\<rparr>"
proof (cases "nu_down n")
  case True
  then show thesis using that(1) by (simp add: disk_def)
next
  case False
  then show thesis
    by (intro that(2) [where x = "case ne_io env (nu_steps n) of Fine \<Rightarrow> Whole | Fails x \<Rightarrow> x | Stops x \<Rightarrow> x"
          and b = "nu_down (snd (disk env raised effect n))"])
      (simp add: disk_def Let_def split: io.split)
qed

lemma birth_grows_steps [simp]:
  "birth_grows cid n (m\<lparr>nu_down := b\<rparr>) = birth_grows cid n m"
  "birth_grows cid (n\<lparr>nu_steps := k\<rparr>) m = birth_grows cid n m"
  by (simp_all add: birth_grows_def log_lines_def)

lemma disk_birth_from:
  assumes "\<And>x. birth_grows cid n (effect x (n\<lparr>nu_steps := Suc (nu_steps n)\<rparr>))"
  shows "birth_grows cid n (snd (disk env raised effect n))"
  by (rule disk_store_cases [of env raised effect n]) (simp_all add: assms birth.refl)

lemma create_governed_grows: "op_keeps (birth_grows (co_id core)) (create_governed env held core)"
  unfolding op_keeps_def
proof
  fix n
  show "birth_grows (co_id core) n (snd (create_governed env held core n))"
  proof (cases "valid_identifier (co_id core)")
    case valid: True
    have disk: "birth_grows (co_id core) n (snd (disk env OSError (exclusive_write core) n))"
      if "cs_load_core (nu_store n) (co_id core) = Inr None"
      by (rule disk_birth_from) (use that in \<open>simp add: birth_grows_def exclusive_write_def log_lines_def births_only_put no_core\<close>)
    show ?thesis
      using valid unfolding create_governed_def
      by (auto intro!: birth.keeps_result_from birth.keeps_bind_from disk birth.keeps simp: birth.refl split: option.split)
  qed (simp add: create_governed_def birth.refl)
qed

lemma create_grows: "op_keeps (birth_grows (co_id core)) (create env core)"
  unfolding create_def by (intro birth.keeps create_governed_grows)

section \<open>Which births there are\<close>

text \<open>
  A creation leaves the store as it is, or the identifier was free, the governor agreed and what is there
  now is a directory without a core, a torn core or the core.
\<close>

definition birth_of :: "birth_env \<Rightarrow> string list \<Rightarrow> card_core \<Rightarrow> store \<Rightarrow> store \<Rightarrow> bool" where
  "birth_of env held core st st' \<longleftrightarrow> cs_load_core st (co_id core) = Inr None
     \<and> govern_create (ne_why env) (ne_store env) (ne_root env) held core st = Inr ()
     \<and> (\<exists>f\<in>{None, Some CoreBad, Some (CoreJson (JObj (core_dump core)))}. st' = put_core (co_id core) f st)"

lemma create_governed_birth:
  assumes "create_governed env held core n = (r, n')"
  shows "nu_store n' = nu_store n \<or> birth_of env held core (nu_store n) (nu_store n')"
proof -
  have "nu_store (snd (create_governed env held core n)) = nu_store n
      \<or> birth_of env held core (nu_store n) (nu_store (snd (create_governed env held core n)))"
  proof (cases "valid_identifier (co_id core) \<and> cs_load_core (nu_store n) (co_id core) = Inr None
      \<and> govern_create (ne_why env) (ne_store env) (ne_root env) held core (nu_store n) = Inr ()")
    case True
    obtain d m where d: "disk env OSError (exclusive_write core) n = (d, m)" by (cases "disk env OSError (exclusive_write core) n")
    have "nu_store (snd (create_governed env held core n)) = nu_store m"
      using True by (cases d) (simp_all add: create_governed_def op_bind_run d split: sum.split)
    moreover have "nu_store m = nu_store n \<or> (\<exists>f\<in>{None, Some CoreBad, Some (CoreJson (JObj (core_dump core)))}.
        nu_store m = put_core (co_id core) f (nu_store n))"
      by (rule disk_store_cases [of env OSError "exclusive_write core" n])
        (use d in \<open>auto simp: exclusive_write_def split: extent.split\<close>)
    ultimately show ?thesis using True by (auto simp: birth_of_def)
  next
    case False
    then show ?thesis
      by (auto simp: create_governed_def op_bind_run split: sum.split option.split)
  qed
  with assms show ?thesis by simp
qed

lemma create_birth:
  assumes "create env core n = (r, n')"
  shows "nu_store n' = nu_store n
    \<or> (\<exists>locked. creation_guard (ne_store env) (ne_root env) (nu_store n) core = Inr locked
         \<and> birth_of env (ne_held env @ locked) core (nu_store n) (nu_store n'))"
  using assms create_governed_birth [of env _ core n r n']
  by (cases "creation_guard (ne_store env) (ne_root env) (nu_store n) core") (auto simp: create_def op_bind_run)

section \<open>Births and the dependency graph\<close>

lemma acyclic_star:
  assumes "acyclic R" and "\<forall>d\<in>set ds. (d, a) \<notin> R\<^sup>*"
  shows "acyclic (R \<union> {a} \<times> set ds)"
proof -
  have reach: "(x, a) \<in> (R \<union> {a} \<times> D)\<^sup>* \<Longrightarrow> (x, a) \<in> R\<^sup>*" for x D
    by (induction rule: converse_rtrancl_induct) (auto intro: converse_rtrancl_into_rtrancl)
  show ?thesis using assms(2)
  proof (induction ds)
    case Nil
    with assms(1) show ?case by simp
  next
    case (Cons d ds)
    have "R \<union> {a} \<times> set (d # ds) = insert (a, d) (R \<union> {a} \<times> set ds)" by auto
    with Cons reach [of d "set ds"] show ?case by (auto simp: acyclic_insert)
  qed
qed

lemma insort_around: "\<exists>as bs. xs = as @ bs \<and> insort x xs = as @ x # bs"
proof (induction xs)
  case (Cons y ys)
  then obtain as bs where "ys = as @ bs" "insort x ys = as @ x # bs" by blast
  then have "y # ys = (y # as) @ bs \<and> (insort x (y # ys) = (y # as) @ x # bs \<or> insort x (y # ys) = [] @ x # y # ys)"
    by simp
  then show ?case by (metis append_Nil)
qed simp

text \<open>The listed identifiers, as a set: file names in a directory are distinct.\<close>

definition named_once :: "store \<Rightarrow> bool" where
  "named_once st \<longleftrightarrow> distinct (map fst (so_cards st))"

definition with_core :: "store \<Rightarrow> string set" where
  "with_core st = {n. dir_core (card_dir_of st n) \<noteq> None}"

lemma finite_with_core [simp]: "finite (with_core st)"
proof (rule finite_subset)
  show "with_core st \<subseteq> set (map fst (so_cards st))"
    by (auto simp: with_core_def card_dir_of_def split: option.splits dest!: map_of_SomeD intro: rev_image_eqI)
qed simp

lemma list_ids_set:
  assumes "named_once st"
  shows "cs_list_ids st = (if \<forall>n\<in>fst ` set (so_cards st). valid_identifier n
     then Inr (sorted_list_of_set (with_core st)) else Inl bad_identifier)"
proof -
  let ?xs = "sort_key fst (so_cards st)"
  have all: "r_map (\<lambda>(n, d). if valid_identifier n then Inr (n, d) else Inl bad_identifier) xs
      = (if \<forall>n\<in>fst ` set xs. valid_identifier n then Inr xs else Inl bad_identifier)" for xs :: "(string \<times> card_dir) list"
    by (induction xs) (auto split: prod.split)
  let ?ids = "map fst (filter (\<lambda>(n, d). dir_core d \<noteq> None) ?xs)"
  have "mset (map fst ?xs) = mset (map fst (so_cards st))" by simp
  then have dist: "distinct (map fst ?xs)"
    using assms mset_eq_imp_distinct_iff unfolding named_once_def by blast
  have "sorted ?ids" by (intro sorted_filter sorted_sort_key)
  moreover have "distinct ?ids" using dist by (rule distinct_map_filter)
  moreover have "set ?ids = with_core st"
  proof -
    have "n \<in> set ?ids \<longleftrightarrow> (\<exists>d. (n, d) \<in> set (so_cards st) \<and> dir_core d \<noteq> None)" for n
      by (auto simp: image_iff)
    also have "\<dots> n \<longleftrightarrow> n \<in> with_core st" for n
    proof -
      have "map_of (so_cards st) n = Some d \<longleftrightarrow> (n, d) \<in> set (so_cards st)" for d
        using assms by (simp add: named_once_def)
      then show ?thesis
        by (cases "map_of (so_cards st) n") (simp_all add: with_core_def card_dir_of_def, metis)
    qed
    finally show ?thesis by blast
  qed
  ultimately have ids: "sorted_list_of_set (with_core st) = ?ids"
    by (metis sorted_list_of_set.idem_if_sorted_distinct)
  show ?thesis unfolding cs_list_ids_def all ids by simp
qed

lemma put_core_names:
  assumes "named_once st" and "valid_identifier cid"
  shows "named_once (put_core cid f st)"
    and "(\<forall>n\<in>fst ` set (so_cards (put_core cid f st)). valid_identifier n) \<longleftrightarrow> (\<forall>n\<in>fst ` set (so_cards st). valid_identifier n)"
proof -
  show "named_once (put_core cid f st)"
    using assms(1) by (simp add: named_once_def put_core_def distinct_update)
  have "fst ` set (so_cards (put_core cid f st)) = insert cid (fst ` set (so_cards st))"
    by (simp add: put_core_def dom_map_of_conv_image_fst [symmetric] update_conv')
  with assms(2) show "(\<forall>n\<in>fst ` set (so_cards (put_core cid f st)). valid_identifier n) \<longleftrightarrow> (\<forall>n\<in>fst ` set (so_cards st). valid_identifier n)"
    by auto
qed

lemma with_core_put:
  "dir_core (card_dir_of st cid) = None \<Longrightarrow> with_core (put_core cid f st) = (if f = None then with_core st else insert cid (with_core st))"
  by (auto simp: with_core_def card_dir_of_put_core)

text \<open>The other cards fold as before, and the newborn has at most the dependencies of its core.\<close>

lemma put_core_fold_other: "c \<noteq> cid \<Longrightarrow> cs_fold env (put_core cid f st) c = cs_fold env st c"
proof -
  assume c: "c \<noteq> cid"
  have "card_files (put_core cid f st) c = card_files st c"
    using c by (simp add: card_files_def put_core_def update_conv')
  then have "cs_read_events env (put_core cid f st) c = cs_read_events env st c"
    by (simp add: cs_read_events_def event_files_def)
  moreover have "legacy_events (put_core cid f st) c = legacy_events st c"
    by (simp add: legacy_events_def load_legacy_mutations_def put_core_def)
  moreover have "cs_load_core (put_core cid f st) c = cs_load_core st c"
    using c by (simp add: load_core_dir card_dir_of_put_core)
  ultimately show ?thesis by (simp add: cs_fold_def)
qed

lemma texts_of_JStr [simp]: "texts_of (map JStr ss) = ss"
  by (induction ss) (simp_all add: texts_of_def List.map_filter_simps)

lemma birth_card:
  assumes "card_start (core_dump core) = Inr s"
  shows "cd_id (st_card s) = co_id core" and "texts_of (cd_dependencies (st_card s)) = co_dependencies core"
  using assms
  by (auto simp: card_start_def card_at_birth_def initial_claim_def core_dump_def get_item_def get_d_def get_def as_texts_def
      new_card_def elim!: r_bind_InrE split: if_splits)

lemma newborn_card:
  assumes "dir_events (card_dir_of st (co_id core)) = []" and "legacy_events st (co_id core) = []" and "valid_identifier (co_id core)"
    and "f \<in> {Some CoreBad, Some (CoreJson (JObj (core_dump core)))}"
  shows "\<exists>c. (case cs_fold env (put_core (co_id core) f st) (co_id core) of
        Inl e \<Rightarrow> Some (unreadable_card (co_id core) (why e) (error_class e)) | Inr c \<Rightarrow> c) = Some c
      \<and> cd_id c = co_id core \<and> set (texts_of (cd_dependencies c)) \<subseteq> set (co_dependencies core)"
proof -
  let ?st = "put_core (co_id core) f st"
  have "card_files ?st (co_id core) = []"
    using assms(1) by (simp add: card_files_def put_core_def update_conv' card_dir_of_def split: option.splits)
  then have events: "cs_read_events env ?st (co_id core) = Inr []"
    using assms(3) by (simp add: cs_read_events_def event_files_def sort_log_def)
  have legacy: "legacy_events ?st (co_id core) = []"
    using assms(2) by (simp add: legacy_events_def load_legacy_mutations_def put_core_def)
  have un: "cd_id (unreadable_card x w e) = x \<and> texts_of (cd_dependencies (unreadable_card x w e)) = []" for x w e
    by (simp add: unreadable_card_def Let_def new_card_def texts_of_def List.map_filter_simps)
  show ?thesis
  proof (cases "f = Some CoreBad")
    case True
    with assms(3) un show ?thesis by (simp add: cs_fold_def load_core_dir card_dir_of_put_core)
  next
    case False
    with assms(3,4) have "cs_load_core ?st (co_id core) = Inr (Some (core_dump core))"
      by (auto simp: load_core_dir card_dir_of_put_core)
    then have "cs_fold env ?st (co_id core) = map_sum id (\<lambda>s. Some (st_card s)) (card_start (core_dump core))"
      by (cases "card_start (core_dump core)") (simp_all add: cs_fold_def fold_card_def events legacy merged_log_def)
    then show ?thesis
      using un birth_card by (cases "card_start (core_dump core)") auto
  qed
qed

lemma deps_insert:
  assumes "cd_id c = a" and "set (texts_of (cd_dependencies c)) \<subseteq> D"
  shows "set (deps_of (dependency_edges (as @ c # bs)) x) \<subseteq> set (deps_of (dependency_edges (as @ bs)) x) \<union> (if x = a then D else {})"
proof (induction bs rule: rev_induct)
  case Nil
  with assms show ?case by (auto simp: deps_of_edges)
next
  case (snoc b bs)
  then show ?case
    using deps_of_edges [of "as @ c # bs" b x] deps_of_edges [of "as @ bs" b x] by (simp split: if_splits)
qed

lemma map_filter_same: "(\<And>x. x \<in> set xs \<Longrightarrow> f x = g x) \<Longrightarrow> List.map_filter f xs = List.map_filter g xs"
  by (induction xs) (simp_all add: List.map_filter_simps split: option.split)

lemma board_cards_append: "board_cards why env st (as @ bs) = board_cards why env st as @ board_cards why env st bs"
  by (simp add: board_cards_def List.map_filter_def)

lemma birth_graph:
  assumes free: "cs_load_core st (co_id core) = Inr None" and once: "named_once st"
    and blank: "dir_events (card_dir_of st (co_id core)) = []" "legacy_events st (co_id core) = []"
    and f: "f \<in> {None, Some CoreBad, Some (CoreJson (JObj (core_dump core)))}"
    and cs: "cs_list_cards why env True True st = Inr cs"
  shows "\<exists>cs'. cs_list_cards why env True True (put_core (co_id core) f st) = Inr cs'
    \<and> dep_rel (dependency_edges cs') \<subseteq> dep_rel (dependency_edges cs) \<union> {co_id core} \<times> set (co_dependencies core)"
proof -
  let ?a = "co_id core" and ?st = "put_core (co_id core) f st"
  have valid: "valid_identifier ?a" and none: "dir_core (card_dir_of st ?a) = None" using free by (simp_all add: no_core)
  obtain ids where ids: "cs_list_ids st = Inr ids" and cs_ids: "cs = board_cards why env st ids"
    using cs by (auto simp: list_cards_all dest: map_sum_InrD)
  have names: "\<forall>n\<in>fst ` set (so_cards st). valid_identifier n" and ids_set: "ids = sorted_list_of_set (with_core st)"
    using ids by (simp_all add: list_ids_set [OF once] split: if_splits)
  have ids': "cs_list_ids ?st = Inr (sorted_list_of_set (with_core ?st))"
    using names put_core_names [OF once valid] by (simp add: list_ids_set)
  have same: "board_cards why env ?st xs = board_cards why env st xs" if "?a \<notin> set xs" for xs
    using that unfolding board_cards_def by (intro map_filter_same, subst put_core_fold_other) auto
  have out: "?a \<notin> with_core st" using none by (simp add: with_core_def)
  show ?thesis
  proof (cases "f = None")
    case True
    have wc: "with_core ?st = with_core st" using with_core_put [OF none, of f] True by simp
    have "board_cards why env ?st ids = cs" using same [of ids] out by (simp add: cs_ids) (simp add: ids_set)
    then have "cs_list_cards why env True True ?st = Inr cs" unfolding list_cards_all ids' wc by (simp add: ids_set)
    then show ?thesis by auto
  next
    case False
    then have f': "f \<in> {Some CoreBad, Some (CoreJson (JObj (core_dump core)))}" using f by auto
    obtain as bs where split: "ids = as @ bs" "insort ?a ids = as @ ?a # bs" using insort_around by blast
    obtain c where c: "(case cs_fold env ?st ?a of
        Inl e \<Rightarrow> Some (unreadable_card ?a (why e) (error_class e)) | Inr c \<Rightarrow> c) = Some c"
      "cd_id c = ?a" "set (texts_of (cd_dependencies c)) \<subseteq> set (co_dependencies core)"
      using newborn_card [OF blank valid f'] by blast
    have "sorted_list_of_set (with_core ?st) = as @ ?a # bs"
      using False out by (auto simp: with_core_put [OF none] sorted_list_of_set_insert simp flip: ids_set split(2))
    moreover have "set as \<union> set bs = with_core st" using ids_set split(1) by (metis finite_with_core set_append set_sorted_list_of_set)
    with out have "?a \<notin> set as" "?a \<notin> set bs" by auto
    ultimately have "cs_list_cards why env True True ?st = Inr (board_cards why env st as @ c # board_cards why env st bs)"
      using c(1) same [of as] same [of bs]
      by (simp add: list_cards_all ids' board_cards_append) (simp add: board_cards_def List.map_filter_simps)
    moreover have "cs = board_cards why env st as @ board_cards why env st bs"
      by (simp add: cs_ids split(1) board_cards_append)
    ultimately have listed: "cs_list_cards why env True True ?st = Inr (board_cards why env st as @ c # board_cards why env st bs)"
      and cs: "cs = board_cards why env st as @ board_cards why env st bs" by simp_all
    have "dep_rel (dependency_edges (board_cards why env st as @ c # board_cards why env st bs))
        \<subseteq> dep_rel (dependency_edges cs) \<union> {?a} \<times> set (co_dependencies core)"
    proof (rule subrelI)
      fix x y
      assume "(x, y) \<in> dep_rel (dependency_edges (board_cards why env st as @ c # board_cards why env st bs))"
      with deps_insert [OF c(2,3), of "board_cards why env st as" "board_cards why env st bs" x]
      show "(x, y) \<in> dep_rel (dependency_edges cs) \<union> {?a} \<times> set (co_dependencies core)"
        unfolding cs dep_rel_def by (cases "x = ?a") auto
    qed
    with listed show ?thesis by blast
  qed
qed

lemma govern_edges:
  assumes "govern_create why env root held core st = Inr ()" and "cs_list_cards why env True True st = Inr cs"
    and "d \<in> set (co_dependencies core)"
  shows "\<not> would_create_cycle (dependency_edges cs) (co_id core) d"
proof -
  have "birth_edges why env core st = Inr ()"
    using assms(1) by (auto simp: govern_create_def elim!: r_bind_InrE)
  with assms(2,3) show ?thesis
    by (auto simp: birth_edges_def find_None_iff split: if_splits option.splits)
qed

lemma birth_acyclic:
  assumes birth: "birth_of env held core st st'" and once: "named_once st"
    and blank: "dir_events (card_dir_of st (co_id core)) = []" "legacy_events st (co_id core) = []"
    and cs: "cs_list_cards (ne_why env) (ne_store env) True True st = Inr cs" and acyclic: "acyclic (dep_rel (dependency_edges cs))"
  shows "\<exists>cs'. cs_list_cards (ne_why env) (ne_store env) True True st' = Inr cs' \<and> acyclic (dep_rel (dependency_edges cs'))"
proof -
  obtain f where free: "cs_load_core st (co_id core) = Inr None"
    and govern: "govern_create (ne_why env) (ne_store env) (ne_root env) held core st = Inr ()"
    and f: "f \<in> {None, Some CoreBad, Some (CoreJson (JObj (core_dump core)))}" "st' = put_core (co_id core) f st"
    using birth by (auto simp: birth_of_def)
  obtain cs' where cs': "cs_list_cards (ne_why env) (ne_store env) True True st' = Inr cs'"
    and graph: "dep_rel (dependency_edges cs') \<subseteq> dep_rel (dependency_edges cs) \<union> {co_id core} \<times> set (co_dependencies core)"
    using birth_graph [OF free once blank f(1) cs] f(2) by blast
  have "acyclic (dep_rel (dependency_edges cs) \<union> {co_id core} \<times> set (co_dependencies core))"
    using govern_edges [OF govern cs] by (intro acyclic_star acyclic) (simp add: would_create_cycle_iff)
  with cs' graph show ?thesis using acyclic_subset by blast
qed

section \<open>Classes and parents of the births so far\<close>

definition class_in_store :: "store \<Rightarrow> string \<Rightarrow> string option" where
  "class_in_store st cid = (case cs_load_core st cid of Inr (Some c) \<Rightarrow> creation_class c | _ \<Rightarrow> None)"

definition parent_in_store :: "store \<Rightarrow> string \<Rightarrow> string \<Rightarrow> bool" where
  "parent_in_store st cid p \<longleftrightarrow> (case cs_load_core st cid of
     Inr (Some c) \<Rightarrow> r_bind (birth_labels c) (\<lambda>ls. creation_parent ls cid) = Inr p | _ \<Rightarrow> False)"

text \<open>Card \<open>a\<close> is a review of card \<open>b\<close>.\<close>

definition reviews :: "store \<Rightarrow> string \<Rightarrow> string \<Rightarrow> bool" where
  "reviews st a b \<longleftrightarrow> class_in_store st a = Some ''review'' \<and> parent_in_store st a b"

lemma in_store_iff:
  "class_in_store st a = Some cls \<Longrightarrow> parent_in_store st a p \<Longrightarrow>
     \<exists>c ls. core_or_empty st a = Inr c \<and> creation_class c = Some cls \<and> birth_labels c = Inr ls \<and> creation_parent ls a = Inr p"
  by (auto simp: class_in_store_def parent_in_store_def core_or_empty_def elim!: r_bind_InrE split: sum.splits option.splits)

lemma review_depth_mono: "review_depth st ids cid vis root k = Inr (m, r) \<Longrightarrow> k \<le> m"
proof (induction st ids cid vis root k rule: review_depth.induct)
  case (1 st ids cid vis root k)
  show ?case
  proof (cases "root \<notin> set vis \<and> root \<in> set ids \<and> (\<exists>ac ls p. core_or_empty st root = Inr ac \<and> creation_class ac = Some ''review''
      \<and> birth_labels ac = Inr ls \<and> creation_parent ls root = Inr p)")
    case True
    then obtain ac ls p where step: "root \<notin> set vis" "root \<in> set ids" "core_or_empty st root = Inr ac"
      "creation_class ac = Some ''review''" "birth_labels ac = Inr ls" "creation_parent ls root = Inr p" by blast
    with "1.prems" have "review_depth st ids cid (root # vis) p (Suc k) = Inr (m, r)"
      by (subst (asm) review_depth.simps) simp
    with step have "Suc k \<le> m" by (intro "1.IH") auto
    then show ?thesis by simp
  next
    case False
    with "1.prems" show ?thesis
      by (subst (asm) review_depth.simps) (auto split: if_splits elim!: r_bind_InrE)
  qed
qed

lemma review_depth_step:
  assumes "review_depth st ids cid vis a k = Inr (m, r)" and "reviews st a b"
  shows "\<exists>vis'. review_depth st ids cid vis' b (Suc k) = Inr (m, r)"
proof -
  obtain c ls where "core_or_empty st a = Inr c" "creation_class c = Some ''review''" "birth_labels c = Inr ls"
    "creation_parent ls a = Inr b"
    using assms(2) in_store_iff unfolding reviews_def by blast
  with assms(1) show ?thesis
    by (subst (asm) review_depth.simps) (auto split: if_splits)
qed

lemma ancestry_short:
  assumes "review_ancestry st ids core p = Inr ()"
  shows "\<not> (reviews st p g \<and> reviews st g h)"
proof
  assume chain: "reviews st p g \<and> reviews st g h"
  obtain m r where depth: "review_depth st ids (co_id core) [co_id core] p 0 = Inr (m, r)" "m < 2"
    using assms by (auto simp: review_ancestry_def elim!: r_bind_InrE split: if_splits)
  obtain u where "review_depth st ids (co_id core) u g (Suc 0) = Inr (m, r)"
    using review_depth_step [OF depth(1)] chain by blast
  then obtain v where v: "review_depth st ids (co_id core) v h (Suc (Suc 0)) = Inr (m, r)"
    using review_depth_step chain by blast
  then have "Suc (Suc 0) \<le> m" by (rule review_depth_mono)
  with depth(2) show False by simp
qed

lemma r_map_unitD: "r_map f xs = Inr us \<Longrightarrow> x \<in> set xs \<Longrightarrow> f x = Inr ()" for f :: "'a \<Rightarrow> unit result"
  by (induction xs arbitrary: us) (auto elim!: r_bind_InrE)

lemma govern_legal:
  assumes govern: "govern_create why env root held core st = Inr ()"
    and cls: "creation_class (core_dump core) = Some cls" and own: "\<not> human_override (co_labels core)"
  obtains parent cards replaced where
    "creation_parent (map JStr (co_labels core)) (co_id core) = Inr parent"
    "cs_list_cards why env True False st = Inr cards" "parent \<in> cd_id ` set cards"
    "authorized_predecessor env root held st core = Inr replaced"
    "\<forall>c\<in>set cards. class_in_store st (cd_id c) = Some cls \<and> parent_in_store st (cd_id c) parent \<and> Some (cd_id c) \<noteq> replaced
        \<longrightarrow> is_terminal_card env st c = Inr True \<or> is_exact_legacy_successor env st c core = Inr True"
    "cls = ''review'' \<longrightarrow> (\<forall>g h. \<not> (reviews st parent g \<and> reviews st g h))"
proof -
  obtain parent cards replaced us where parent: "creation_parent (map JStr (co_labels core)) (co_id core) = Inr parent"
    and cards: "cs_list_cards why env True False st = Inr cards" and known: "parent \<in> set (map cd_id cards)"
    and replaced: "authorized_predecessor env root held st core = Inr replaced"
    and dups: "r_map (duplicate_check env st core cls parent replaced) cards = Inr us"
    and chain: "cls = ''review'' \<longrightarrow> review_ancestry st (map cd_id cards) core parent = Inr ()"
    using govern cls own unfolding govern_create_def
    by (elim r_bind_InrE) (auto elim!: r_bind_InrE split: if_splits)
  have "is_terminal_card env st c = Inr True \<or> is_exact_legacy_successor env st c core = Inr True"
    if c: "c \<in> set cards" "class_in_store st (cd_id c) = Some cls" "parent_in_store st (cd_id c) parent" "Some (cd_id c) \<noteq> replaced" for c
  proof -
    obtain ec ls where "core_or_empty st (cd_id c) = Inr ec" "creation_class ec = Some cls" "birth_labels ec = Inr ls"
      "creation_parent ls (cd_id c) = Inr parent"
      using in_store_iff [OF c(2,3)] by blast
    moreover have "duplicate_check env st core cls parent replaced c = Inr ()" by (rule r_map_unitD [OF dups c(1)])
    ultimately show ?thesis using c(4)
      by (auto simp: duplicate_check_def elim!: r_bind_InrE split: if_splits)
  qed
  moreover have "cls = ''review'' \<longrightarrow> (\<forall>g h. \<not> (reviews st parent g \<and> reviews st g h))"
    using chain ancestry_short by blast
  ultimately show thesis using known by (intro that [OF parent cards _ replaced]) auto
qed

section \<open>Properties\<close>

text \<open>
  C7. A governed birth is legal in the board it was born into: its one parent is a listed card; every other
  card of its class under that parent is terminal, is the authorised predecessor or a superseded legacy card
  that it succeeds exactly; and a review is never the third level above the card that is reviewed.
\<close>

theorem governed_births_are_legal:
  assumes run: "create env core n = (r, n')" and changed: "nu_store n' \<noteq> nu_store n"
    and cls: "creation_class (core_dump core) = Some cls" and own: "\<not> human_override (co_labels core)"
  shows "\<exists>parent cards locked replaced. creation_parent (map JStr (co_labels core)) (co_id core) = Inr parent
    \<and> cs_list_cards (ne_why env) (ne_store env) True False (nu_store n) = Inr cards \<and> parent \<in> cd_id ` set cards
    \<and> authorized_predecessor (ne_store env) (ne_root env) (ne_held env @ locked) (nu_store n) core = Inr replaced
    \<and> (\<forall>c\<in>set cards. class_in_store (nu_store n) (cd_id c) = Some cls \<and> parent_in_store (nu_store n) (cd_id c) parent
          \<and> Some (cd_id c) \<noteq> replaced
          \<longrightarrow> is_terminal_card (ne_store env) (nu_store n) c = Inr True
            \<or> is_exact_legacy_successor (ne_store env) (nu_store n) c core = Inr True)
    \<and> (cls = ''review'' \<longrightarrow> (\<forall>g h. \<not> (reviews (nu_store n) parent g \<and> reviews (nu_store n) g h)))"
proof -
  obtain locked where "birth_of env (ne_held env @ locked) core (nu_store n) (nu_store n')"
    using create_birth [OF run] changed by blast
  then have "govern_create (ne_why env) (ne_store env) (ne_root env) (ne_held env @ locked) core (nu_store n) = Inr ()"
    by (simp add: birth_of_def)
  then show ?thesis using cls own by (rule govern_legal) blast
qed

text \<open>A small board, and a review and a task to be born on it.\<close>

definition sample_birth_env :: "(nat \<Rightarrow> io) \<Rightarrow> birth_env" where
  "sample_birth_env io =
     \<lparr>ne_store = sample_store_env\<lparr>se_sha := (\<lambda>t. replicate 64 CHR ''a'')\<rparr>, ne_root = (\<lambda>p. Inl FileNotFoundError),
      ne_held = [], ne_why = (\<lambda>e. []), ne_io = io, ne_os = (\<lambda>i. ''[Errno 5] Input/output error'')\<rparr>"

definition birth_core :: "string \<Rightarrow> string \<Rightarrow> string list \<Rightarrow> string list \<Rightarrow> card_core" where
  "birth_core cid title labels deps =
     \<lparr>co_id = cid, co_kind = ''task'', co_title = title, co_description = [], co_created_by = ''ana'',
      co_created_at = ''2026-01-01'', co_criteria = [], co_dependencies = deps, co_priority = ''medium'',
      co_swimlane = ''feature'', co_labels = labels, co_owner = None, co_claim_revision = None, co_meta = [],
      co_exit_gates = [], co_non_goals = [], co_spec_version = None\<rparr>"

definition nursery_of :: "store \<Rightarrow> nursery" where
  "nursery_of st = \<lparr>nu_store = st, nu_pending = [], nu_logs = [], nu_clock = 0, nu_steps = 0, nu_down = False\<rparr>"

theorem governed_births_are_legal_witness:
  "\<exists>parent cards. creation_parent [JStr ''parent-c1''] ''r1'' = Inr parent
     \<and> cs_list_cards (\<lambda>e. []) (ne_store (sample_birth_env (\<lambda>i. Fine))) True False (sample_store []) = Inr cards
     \<and> parent \<in> cd_id ` set cards"
proof -
  let ?env = "sample_birth_env (\<lambda>i. Fine)" and ?core = "birth_core ''r1'' ''[Review] c1'' [''parent-c1''] []"
  let ?n = "nursery_of (sample_store [])"
  obtain r n' where run: "create ?env ?core ?n = (r, n')" by (cases "create ?env ?core ?n")
  have "dir_core (card_dir_of (nu_store (snd (create ?env ?core ?n))) ''r1'') \<noteq> dir_core (card_dir_of (nu_store ?n) ''r1'')"
    by code_simp
  with run have "nu_store n' \<noteq> nu_store ?n" by auto
  moreover have "creation_class (core_dump ?core) = Some ''review''" "\<not> human_override (co_labels ?core)" by code_simp+
  moreover have "co_labels ?core = [''parent-c1'']" "co_id ?core = ''r1''" "ne_why ?env = (\<lambda>e. [])" "nu_store ?n = sample_store []"
    by (simp_all add: birth_core_def sample_birth_env_def nursery_of_def)
  ultimately show ?thesis using governed_births_are_legal [OF run] by force
qed

end
