(* ===== verification/Explicit_Creation.thy ===== *)
theory Explicit_Creation
  imports Card_Creation
begin

text \<open>
  Creation under an identifier that the caller chose (\<open>create_explicit\<close>): the attempt ledger, the pending
  intent, the publication of the core, and the recovery of a creation that was cut off.
\<close>

section \<open>Pending intents\<close>

definition now_text :: "birth_env \<Rightarrow> nursery \<Rightarrow> string" where
  "now_text env n = se_clock (ne_store env) (nu_clock n)"

definition pending_record :: "string \<Rightarrow> string \<Rightarrow> string \<Rightarrow> string \<Rightarrow> string \<Rightarrow> jobj" where
  "pending_record cid digest semantic actor ts =
     [(''actor'', JStr actor), (''card_id'', JStr cid), (''request_digest'', JStr digest),
      (''semantic_digest'', JStr semantic), (''ts'', JStr ts)]"

definition digest_ok :: "json \<Rightarrow> bool" where
  "digest_ok v = hex_text 64 (py_str v)"

definition pending_ok :: "string \<Rightarrow> jobj \<Rightarrow> bool" where
  "pending_ok cid d \<longleftrightarrow> get d ''card_id'' = JStr cid \<and> digest_ok (get_d d ''request_digest'' (JStr []))
     \<and> digest_ok (get_d d ''semantic_digest'' (JStr [])) \<and> is_str (get d ''actor'') \<and> is_str (get d ''ts'')"

definition read_pending :: "string \<Rightarrow> nursery \<Rightarrow> jobj option result" where
  "read_pending cid n =
     (case map_of (nu_pending n) cid of
        None \<Rightarrow> Inr None
      | Some (CoreJson (JObj d)) \<Rightarrow> if pending_ok cid d then Inr (Some d)
          else Inl (ValueError ''creation-pending intent is corrupt'')
      | Some _ \<Rightarrow> Inl (ValueError ''creation-pending intent is corrupt''))"

text \<open>The intent is written to a temporary file and renamed: it is there or not.\<close>

definition put_pending :: "birth_env \<Rightarrow> string \<Rightarrow> string \<Rightarrow> string \<Rightarrow> string \<Rightarrow> extent \<Rightarrow> nursery \<Rightarrow> nursery" where
  "put_pending env cid digest semantic actor x n =
     (let m = n\<lparr>nu_clock := Suc (nu_clock n)\<rparr> in
      if x = Whole
      then m\<lparr>nu_pending := AList.update cid (CoreJson (JObj (pending_record cid digest semantic actor (now_text env n)))) (nu_pending n)\<rparr>
      else m)"

definition write_pending :: "birth_env \<Rightarrow> string \<Rightarrow> string \<Rightarrow> string \<Rightarrow> string \<Rightarrow> (nursery, unit) op" where
  "write_pending env cid digest semantic actor =
     disk env (\<lambda>_. ValueError ''creation-pending intent cannot be written'') (put_pending env cid digest semantic actor)"

definition drop_pending :: "string \<Rightarrow> extent \<Rightarrow> nursery \<Rightarrow> nursery" where
  "drop_pending cid x n = (if x = Whole then n\<lparr>nu_pending := AList.delete cid (nu_pending n)\<rparr> else n)"

definition clear_pending :: "birth_env \<Rightarrow> string \<Rightarrow> (nursery, unit) op" where
  "clear_pending env cid =
     op_bind (op_read (\<lambda>n. map_of (nu_pending n) cid)) (\<lambda>p.
       if p = None then op_return ()
       else disk env (\<lambda>_. ValueError ''creation-pending intent cannot be cleared'') (drop_pending cid))"

section \<open>The attempt ledger\<close>

text \<open>
  The lines that a reader sees: an unterminated last line is dropped, unless the file has no newline at all
  (\<open>rsplit\<close> then returns the whole text).
\<close>

definition seen_lines :: "attempt_log \<Rightarrow> store_line list" where
  "seen_lines l = (if al_lines l = [] then (case al_tail l of None \<Rightarrow> [] | Some t \<Rightarrow> [t]) else al_lines l)"

definition attempt_fields_ok :: "jobj \<Rightarrow> bool" where
  "attempt_fields_ok d \<longleftrightarrow> is_str (get d ''card_id'') \<and> digest_ok (get_d d ''request_digest'' (JStr []))
     \<and> (truthy (get_d d ''semantic_digest'' (JStr [])) \<longrightarrow> digest_ok (get_d d ''semantic_digest'' (JStr [])))
     \<and> is_str (get d ''actor'') \<and> is_str (get d ''ts'')"

definition corrupt_log :: py_error where
  "corrupt_log = ValueError ''creation-attempt log is corrupt''"

fun attempt_of_line :: "store_line \<Rightarrow> jobj result" where
  "attempt_of_line (SLine t None) = Inl corrupt_log"
| "attempt_of_line (SLine t (Some (JObj d))) =
     (if \<not> attempt_fields_ok d then Inl corrupt_log
      else if \<not> hashable (get d ''outcome'') then Inl TypeError
      else if get d ''outcome'' \<in> {JStr ''accepted'', JStr ''rejected''} then Inr d else Inl corrupt_log)"
| "attempt_of_line (SLine t (Some v)) = Inl AttributeError"

definition attempt_prefix :: string where
  "attempt_prefix = ''card-creation-attempts@''"

definition read_attempts :: "nursery \<Rightarrow> jobj list result" where
  "read_attempts n = r_map attempt_of_line (concat (map (\<lambda>(f, l). seen_lines l)
     (sort_key fst (filter (\<lambda>(f, l). starts_with f attempt_prefix \<and> jsonl f) (nu_logs n)))))"

definition crash_texts :: "string list" where
  "crash_texts = [''oserror'', ''enospc'', ''disk full'', ''cannot be written'', ''cannot be cleared'', ''no space'',
     ''temporary destination is unsafe'']"

definition is_crash_reason :: "string \<Rightarrow> bool" where
  "is_crash_reason r \<longleftrightarrow> list_ex (contains (lower r)) crash_texts"

definition crash_reject :: "jobj \<Rightarrow> bool" where
  "crash_reject d \<longleftrightarrow> get d ''outcome'' = JStr ''rejected'' \<and> is_crash_reason (py_str (get_d d ''reason'' (JStr [])))"

definition attempt_triple :: "jobj \<Rightarrow> json \<times> json \<times> json" where
  "attempt_triple d = (get d ''request_digest'', get_d d ''semantic_digest'' (JStr []), get d ''outcome'')"

definition sole_attempt :: "string \<Rightarrow> jobj list \<Rightarrow> jobj option result" where
  "sole_attempt cid rows =
     (case dropWhile crash_reject (filter (\<lambda>d. get d ''card_id'' = JStr cid) rows) of
        [] \<Rightarrow> Inr None
      | a # as \<Rightarrow> if list_all (\<lambda>b. attempt_triple b = attempt_triple a) as then Inr (Some a)
          else Inl (ValueError (''Card ID '' @ cid @ '' has conflicting creation attempts'')))"

definition attempt_for :: "string \<Rightarrow> nursery \<Rightarrow> jobj option result" where
  "attempt_for cid n = r_bind (read_attempts n) (sole_attempt cid)"

text \<open>The record of an attempt, its keys in order as it is written.\<close>

definition attempt_record :: "string \<Rightarrow> string \<Rightarrow> string \<Rightarrow> string \<Rightarrow> string \<Rightarrow> string \<Rightarrow> string \<Rightarrow> jobj" where
  "attempt_record cid digest actor outcome reason semantic ts =
     [(''actor'', JStr actor), (''card_id'', JStr cid), (''outcome'', JStr outcome)]
     @ (if reason = [] then [] else [(''reason'', JStr reason)])
     @ [(''request_digest'', JStr digest)]
     @ (if semantic = [] then [] else [(''semantic_digest'', JStr semantic)])
     @ [(''ts'', JStr ts)]"

definition attempt_file :: "birth_env \<Rightarrow> string" where
  "attempt_file env = attempt_prefix @ se_host (ne_store env) @ ''.jsonl''"

definition own_log :: "birth_env \<Rightarrow> nursery \<Rightarrow> attempt_log" where
  "own_log env n = (case map_of (nu_logs n) (attempt_file env) of
     None \<Rightarrow> \<lparr>al_lines = [], al_tail = None\<rparr> | Some l \<Rightarrow> l)"

text \<open>
  Appending a text to the log. What follows an unterminated line becomes part of that line. A proper prefix of
  an object's text is not JSON, and neither is such a prefix, or a whole object, with another object behind it.
\<close>

definition glue :: "store_line option \<Rightarrow> string \<Rightarrow> json option \<Rightarrow> store_line" where
  "glue tail t v = (case tail of None \<Rightarrow> SLine t v | Some (SLine s _) \<Rightarrow> SLine (s @ t) None)"

definition log_append :: "string \<Rightarrow> jobj \<Rightarrow> extent \<Rightarrow> attempt_log \<Rightarrow> attempt_log" where
  "log_append text d x l =
     (case x of
        Nothing \<Rightarrow> l
      | Part k \<Rightarrow>
          (if k = 0 then l
           else if k < length text then l\<lparr>al_tail := Some (glue (al_tail l) (take k text) None)\<rparr>
           else l\<lparr>al_tail := Some (glue (al_tail l) text (Some (JObj d)))\<rparr>)
      | Whole \<Rightarrow> \<lparr>al_lines = al_lines l @ [glue (al_tail l) text (Some (JObj d))], al_tail = None\<rparr>)"

definition put_attempt :: "birth_env \<Rightarrow> (string \<Rightarrow> jobj) \<Rightarrow> extent \<Rightarrow> nursery \<Rightarrow> nursery" where
  "put_attempt env row x n =
     (let d = row (now_text env n) in
      n\<lparr>nu_clock := Suc (nu_clock n),
        nu_logs := AList.update (attempt_file env) (log_append (json_dumps (JObj d)) d x (own_log env n)) (nu_logs n)\<rparr>)"

definition append_attempt ::
    "birth_env \<Rightarrow> string \<Rightarrow> string \<Rightarrow> string \<Rightarrow> string \<Rightarrow> string \<Rightarrow> string \<Rightarrow> (nursery, unit) op" where
  "append_attempt env cid digest actor outcome reason semantic =
     disk env (\<lambda>_. ValueError ''creation-attempt log cannot be written'')
       (put_attempt env (attempt_record cid digest actor outcome reason semantic))"

section \<open>Rejections\<close>

text \<open>An exception while the intent is cleared is swallowed.\<close>

definition reject_explicit :: "birth_env \<Rightarrow> string \<Rightarrow> string \<Rightarrow> string \<Rightarrow> string \<Rightarrow> string \<Rightarrow> (nursery, unit) op" where
  "reject_explicit env cid digest actor reason semantic =
     op_bind (op_catch (\<lambda>_. True) (clear_pending env cid) ()) (\<lambda>_.
       append_attempt env cid digest actor ''rejected'' reason semantic)"

definition has_outcome :: "string \<Rightarrow> jobj option \<Rightarrow> bool" where
  "has_outcome o1 a = (case a of None \<Rightarrow> False | Some d \<Rightarrow> get d ''outcome'' = JStr o1)"

definition reserve_explicit_rejection :: "birth_env \<Rightarrow> string \<Rightarrow> string \<Rightarrow> string \<Rightarrow> string \<Rightarrow> (nursery, unit) op" where
  "reserve_explicit_rejection env cid digest actor reason =
     (if \<not> valid_identifier cid then op_raise bad_identifier
      else op_bind (op_result (attempt_for cid)) (\<lambda>attempt.
        op_bind (op_result (\<lambda>n. cs_load_core (nu_store n) cid)) (\<lambda>existing.
        if existing \<noteq> None \<or> has_outcome ''accepted'' attempt then op_return ()
        else if attempt = None then reject_explicit env cid digest actor reason []
        else op_return ())))"

section \<open>Creating\<close>

definition creation_conflict :: "string \<Rightarrow> py_error" where
  "creation_conflict cid = ValueError (''Card ID '' @ cid @ '' has an explicit creation conflict'')"

text \<open>A replay of an accepted creation must name the stored core, its digest and the request.\<close>

definition check_accepted :: "birth_env \<Rightarrow> card_core \<Rightarrow> string \<Rightarrow> jobj \<Rightarrow> jobj option \<Rightarrow> nursery \<Rightarrow> unit result" where
  "check_accepted env core digest attempt existing n =
     (case existing of
        None \<Rightarrow> Inl (creation_conflict (co_id core))
      | Some ex \<Rightarrow> r_bind (core_model (now_text env n) ex) (\<lambda>stored.
          let ledger = py_str (py_or (get attempt ''semantic_digest'') (JStr [])) in
          if ledger \<noteq> [] \<and> semantic_digest (ne_store env) stored \<noteq> ledger
             \<or> get attempt ''request_digest'' \<noteq> JStr digest
             \<or> \<not> json_eq (JObj (semantic_core stored)) (JObj (semantic_core core))
          then Inl (creation_conflict (co_id core)) else Inr ()))"

definition check_pending :: "birth_env \<Rightarrow> card_core \<Rightarrow> string \<Rightarrow> jobj \<Rightarrow> unit result" where
  "check_pending env core digest p =
     (if get p ''request_digest'' \<noteq> JStr digest \<or> get p ''semantic_digest'' \<noteq> JStr (semantic_digest (ne_store env) core)
      then Inl (creation_conflict (co_id core)) else Inr ())"

definition check_stored :: "birth_env \<Rightarrow> card_core \<Rightarrow> jobj \<Rightarrow> nursery \<Rightarrow> unit result" where
  "check_stored env core ex n = r_bind (core_model (now_text env n) ex) (\<lambda>stored.
     if semantic_digest (ne_store env) stored \<noteq> semantic_digest (ne_store env) core
     then Inl (creation_conflict (co_id core)) else Inr ())"

text \<open>\<open>str(exc) or exc.__class__.__name__\<close>.\<close>

definition exc_text :: "(py_error \<Rightarrow> string) \<Rightarrow> py_error \<Rightarrow> string" where
  "exc_text why e = (case e of ValueError m \<Rightarrow> m | OSError m \<Rightarrow> m | RuntimeError m \<Rightarrow> m | _ \<Rightarrow> why e)"

definition exc_reason :: "(py_error \<Rightarrow> string) \<Rightarrow> py_error \<Rightarrow> string" where
  "exc_reason why e = (if exc_text why e = [] then error_class e else exc_text why e)"

definition govern_or_reject :: "birth_env \<Rightarrow> card_core \<Rightarrow> string \<Rightarrow> string \<Rightarrow> (nursery, unit) op" where
  "govern_or_reject env core digest actor = (\<lambda>n.
     case govern_create (ne_why env) (ne_store env) (ne_root env) (ne_held env) core (nu_store n) of
       Inr _ \<Rightarrow> (Inr (), n)
     | Inl e \<Rightarrow>
         if is_value_error e
         then op_bind (reject_explicit env (co_id core) digest actor (exc_text (ne_why env) e) (semantic_digest (ne_store env) core))
                (\<lambda>_. op_raise e) n
         else (Inl e, n))"

text \<open>The core goes to a temporary file and is renamed, unless one is already there.\<close>

definition published :: "card_core \<Rightarrow> extent \<Rightarrow> nursery \<Rightarrow> nursery" where
  "published core x n = n\<lparr>nu_store := put_core (co_id core)
     (if x = Whole then Some (CoreJson (JObj (core_dump core))) else dir_core (card_dir_of (nu_store n) (co_id core))) (nu_store n)\<rparr>"

definition publish_explicit_core :: "birth_env \<Rightarrow> card_core \<Rightarrow> (nursery, unit) op" where
  "publish_explicit_core env core =
     op_bind (op_read (\<lambda>n. dir_core (card_dir_of (nu_store n) (co_id core)))) (\<lambda>existing.
       if existing \<noteq> None then op_return () else disk env OSError (published core))"

definition accept :: "birth_env \<Rightarrow> card_core \<Rightarrow> string \<Rightarrow> string \<Rightarrow> (nursery, unit) op" where
  "accept env core digest actor =
     op_bind (append_attempt env (co_id core) digest actor ''accepted'' [] (semantic_digest (ne_store env) core)) (\<lambda>_.
       clear_pending env (co_id core))"

definition publish_steps :: "birth_env \<Rightarrow> card_core \<Rightarrow> string \<Rightarrow> string \<Rightarrow> bool \<Rightarrow> (nursery, unit) op" where
  "publish_steps env core digest actor intent =
     op_bind (op_when intent (write_pending env (co_id core) digest (semantic_digest (ne_store env) core) actor)) (\<lambda>_.
     op_bind (publish_explicit_core env core) (\<lambda>_. accept env core digest actor))"

text \<open>An exception of these steps is recorded as a rejection and raised again.\<close>

definition publish_or_reject :: "birth_env \<Rightarrow> card_core \<Rightarrow> string \<Rightarrow> string \<Rightarrow> bool \<Rightarrow> (nursery, unit) op" where
  "publish_or_reject env core digest actor intent = (\<lambda>n.
     case publish_steps env core digest actor intent n of
       (Inr _, m) \<Rightarrow> (Inr (), m)
     | (Inl e, m) \<Rightarrow>
         (case reject_explicit env (co_id core) digest actor (exc_reason (ne_why env) e) (semantic_digest (ne_store env) core) m of
            (Inr _, m') \<Rightarrow> (Inl e, m')
          | (Inl _, m') \<Rightarrow> op_bind (clear_pending env (co_id core)) (\<lambda>_. op_raise e) m'))"

definition create_new :: "birth_env \<Rightarrow> card_core \<Rightarrow> string \<Rightarrow> string \<Rightarrow> bool \<Rightarrow> (nursery, bool) op" where
  "create_new env core digest actor intent =
     op_bind (publish_or_reject env core digest actor intent) (\<lambda>_.
     op_bind (op_result (\<lambda>n. lock_anchor (co_id core) (nu_store n))) (\<lambda>_. op_return True))"

definition create_explicit :: "birth_env \<Rightarrow> card_core \<Rightarrow> string \<Rightarrow> string \<Rightarrow> (nursery, bool) op" where
  "create_explicit env core digest actor =
     (if \<not> valid_identifier (co_id core) then op_raise bad_identifier
      else if \<not> hex_text 64 digest then op_raise (ValueError ''explicit creation digest must be a sha256 hex digest'')
      else op_bind (op_result (attempt_for (co_id core))) (\<lambda>attempt.
        op_bind (op_result (\<lambda>n. cs_load_core (nu_store n) (co_id core))) (\<lambda>existing.
        op_bind (op_result (read_pending (co_id core))) (\<lambda>pending.
        if has_outcome ''rejected'' attempt
        then op_raise (ValueError (''Card ID '' @ co_id core @ '' is reserved by a rejected creation attempt''))
        else if has_outcome ''accepted'' attempt
        then op_bind (op_result (check_accepted env core digest (the attempt) existing)) (\<lambda>_. op_return False)
        else case pending of
          Some p \<Rightarrow> op_bind (op_result (\<lambda>_. check_pending env core digest p)) (\<lambda>_. case existing of
              Some ex \<Rightarrow> op_bind (op_result (check_stored env core ex)) (\<lambda>_.
                op_bind (accept env core digest actor) (\<lambda>_. op_return False))
            | None \<Rightarrow> create_new env core digest actor False)
        | None \<Rightarrow>
            if existing \<noteq> None then op_raise (creation_conflict (co_id core))
            else op_bind (op_when (attempt = None) (govern_or_reject env core digest actor)) (\<lambda>_.
              create_new env core digest actor True)))))"

section \<open>Which births there are\<close>

text \<open>Only the publication of the core touches the store.\<close>

interpretation shelf: op_order "\<lambda>n n'. nu_store n' = nu_store n"
  by unfold_locales auto

abbreviation keeps_store :: "(nursery, 'a) op \<Rightarrow> bool" where
  "keeps_store m \<equiv> op_keeps (\<lambda>n n'. nu_store n' = nu_store n) m"

lemma disk_keeps_store:
  assumes "\<And>x n. nu_store (effect x n) = nu_store n"
  shows "keeps_store (disk env raised effect)"
  unfolding op_keeps_def
proof
  show "nu_store (snd (disk env raised effect n)) = nu_store n" for n
    by (rule disk_store_cases [of env raised effect n]) (simp_all add: assms)
qed

lemma ledger_keeps_store:
  "keeps_store (write_pending env cid digest semantic actor)"
  "keeps_store (clear_pending env cid)"
  "keeps_store (append_attempt env cid digest actor outcome reason semantic)"
  unfolding write_pending_def clear_pending_def append_attempt_def
  by (intro shelf.keeps keeps_intros disk_keeps_store;
      simp add: put_pending_def drop_pending_def put_attempt_def Let_def)+

lemma reject_keeps_store: "keeps_store (reject_explicit env cid digest actor reason semantic)"
  unfolding reject_explicit_def by (intro shelf.keeps ledger_keeps_store)

lemma accept_keeps_store: "keeps_store (accept env core digest actor)"
  unfolding accept_def by (intro shelf.keeps ledger_keeps_store)

lemma shelf_bind:
  assumes "\<And>x m. nu_store m = nu_store n \<Longrightarrow> Q (nu_store (snd (f x m)))" and "Q (nu_store n)" and "keeps_store k"
  shows "Q (nu_store (snd (op_bind k f n)))"
proof (cases "k n")
  case (Pair r m)
  then have "nu_store m = nu_store n" using op_keeps_run [OF assms(3)] by blast
  with Pair assms(1,2) show ?thesis by (cases r) (simp_all add: op_bind_run)
qed

lemma shelf_bind_tail:
  assumes "Q (nu_store (snd (k n)))" and "\<And>x. keeps_store (f x)"
  shows "Q (nu_store (snd (op_bind k f n)))"
proof (cases "k n")
  case (Pair r m)
  with assms(1) op_keepsD [OF assms(2)] show ?thesis by (cases r) (simp_all add: op_bind_run)
qed

definition publication :: "card_core \<Rightarrow> store \<Rightarrow> store \<Rightarrow> bool" where
  "publication core st st' \<longleftrightarrow> st' = st \<or> dir_core (card_dir_of st (co_id core)) = None
     \<and> (\<exists>f\<in>{None, Some (CoreJson (JObj (core_dump core)))}. st' = put_core (co_id core) f st)"

lemma publish_core_store: "publication core (nu_store n) (nu_store (snd (publish_explicit_core env core n)))"
proof (cases "dir_core (card_dir_of (nu_store n) (co_id core)) = None")
  case True
  have "publication core (nu_store n) (nu_store (snd (disk env OSError (published core) n)))"
    by (rule disk_store_cases [of env OSError "published core" n]) (simp_all add: publication_def published_def True)
  with True show ?thesis by (simp add: publish_explicit_core_def)
qed (simp add: publish_explicit_core_def publication_def)

lemma publish_steps_store: "publication core (nu_store n) (nu_store (snd (publish_steps env core digest actor intent n)))"
proof -
  have intent: "keeps_store (op_when intent (write_pending env (co_id core) digest (semantic_digest (ne_store env) core) actor))"
    by (intro shelf.keeps ledger_keeps_store)
  show ?thesis
    unfolding publish_steps_def
  proof (rule shelf_bind [OF _ _ intent])
    show "publication core (nu_store n) (nu_store (snd (op_bind (publish_explicit_core env core) (\<lambda>_. accept env core digest actor) m)))"
      if "nu_store m = nu_store n" for m
      using publish_core_store [of core m env] that
      by (intro shelf_bind_tail [where Q = "publication core (nu_store n)", OF _ accept_keeps_store]) simp
  qed (simp add: publication_def)
qed

lemma publish_or_reject_store:
  "nu_store (snd (publish_or_reject env core digest actor intent n)) = nu_store (snd (publish_steps env core digest actor intent n))"
proof -
  have tail: "keeps_store (op_bind (clear_pending env (co_id core)) (\<lambda>_. op_raise e))" for e :: py_error
    by (intro shelf.keeps ledger_keeps_store)
  have reject: "nu_store (snd (reject_explicit env (co_id core) digest actor x (semantic_digest (ne_store env) core) m)) = nu_store m" for x m
    by (rule op_keepsD [OF reject_keeps_store])
  show ?thesis
  proof (cases "publish_steps env core digest actor intent n")
    case (Pair r m)
    show ?thesis
    proof (cases r)
      case (Inl e)
      let ?x = "exc_reason (ne_why env) e"
      obtain q m' where q: "reject_explicit env (co_id core) digest actor ?x (semantic_digest (ne_store env) core) m = (q, m')"
        by (cases "reject_explicit env (co_id core) digest actor ?x (semantic_digest (ne_store env) core) m")
      then have "nu_store m' = nu_store m" using reject [of ?x m] by simp
      moreover have "nu_store (snd (op_bind (clear_pending env (co_id core)) (\<lambda>_. op_raise e) m')) = nu_store m'"
        using op_keepsD [OF tail] by blast
      ultimately show ?thesis using Pair Inl q by (cases q) (simp_all add: publish_or_reject_def)
    qed (simp add: publish_or_reject_def Pair)
  qed
qed

lemma create_new_store: "publication core (nu_store n) (nu_store (snd (create_new env core digest actor intent n)))"
  unfolding create_new_def
proof (rule shelf_bind_tail [where Q = "publication core (nu_store n)"])
  show "publication core (nu_store n) (nu_store (snd (publish_or_reject env core digest actor intent n)))"
    by (simp add: publish_or_reject_store publish_steps_store)
qed (intro shelf.keeps)

lemma raise_isl: "isl (fst (op_bind m (\<lambda>_. op_raise e) n))"
  by (cases "m n"; cases "fst (m n)") (auto simp: op_bind_run)

lemma r_map_source: "r_map f xs = Inr ys \<Longrightarrow> y \<in> set ys \<Longrightarrow> \<exists>x\<in>set xs. f x = Inr y"
  by (induction xs arbitrary: ys) (auto elim!: r_bind_InrE)

lemma line_outcome: "attempt_of_line l = Inr d \<Longrightarrow> get d ''outcome'' \<in> {JStr ''accepted'', JStr ''rejected''}"
  by (cases l rule: attempt_of_line.cases) (simp_all split: if_splits)

lemma attempt_outcome:
  assumes "attempt_for cid n = Inr (Some a)"
  shows "get a ''outcome'' \<in> {JStr ''accepted'', JStr ''rejected''}"
proof -
  obtain rows where rows: "read_attempts n = Inr rows" "sole_attempt cid rows = Inr (Some a)"
    using assms by (auto simp: attempt_for_def elim!: r_bind_InrE)
  have "a \<in> set (dropWhile crash_reject (filter (\<lambda>d. get d ''card_id'' = JStr cid) rows))"
    using rows(2) by (auto simp: sole_attempt_def split: list.splits if_splits)
  then have "a \<in> set rows" by (auto dest: set_dropWhileD)
  then have "\<exists>l. attempt_of_line l = Inr a"
    using r_map_source [OF rows(1) [unfolded read_attempts_def]] by blast
  then show ?thesis using line_outcome by blast
qed

lemma explicit_birth:
  assumes run: "create_explicit env core digest actor n = (r, n')" and pending: "map_of (nu_pending n) (co_id core) = None"
  shows "nu_store n' = nu_store n \<or> birth_of env (ne_held env) core (nu_store n) (nu_store n')"
proof -
  let ?Q = "\<lambda>st'. st' = nu_store n \<or> birth_of env (ne_held env) core (nu_store n) st'"
  let ?govern = "govern_create (ne_why env) (ne_store env) (ne_root env) (ne_held env) core (nu_store n)"
  have intent: "read_pending (co_id core) n = Inr None" using pending by (simp add: read_pending_def)
  have new: "?Q (nu_store (snd (op_bind (govern_or_reject env core digest actor) (\<lambda>_. create_new env core digest actor True) n)))"
    if free: "cs_load_core (nu_store n) (co_id core) = Inr None"
  proof (cases ?govern)
    case (Inl e)
    let ?reject = "op_bind (reject_explicit env (co_id core) digest actor (exc_text (ne_why env) e)
        (semantic_digest (ne_store env) core)) (\<lambda>_. op_raise e) :: (nursery, unit) op"
    have "keeps_store ?reject" by (intro shelf.keeps reject_keeps_store)
    then have "nu_store (snd (?reject n)) = nu_store n" by (rule op_keepsD)
    with Inl have "nu_store (snd (govern_or_reject env core digest actor n)) = nu_store n"
      by (simp add: govern_or_reject_def)
    moreover have "isl (fst (govern_or_reject env core digest actor n))"
      by (auto simp: govern_or_reject_def Inl intro: raise_isl)
    ultimately
    show ?thesis
      by (cases "govern_or_reject env core digest actor n"; cases "fst (govern_or_reject env core digest actor n)")
        (auto simp: op_bind_run)
  next
    case (Inr u)
    then have "op_bind (govern_or_reject env core digest actor) (\<lambda>_. create_new env core digest actor True) n
        = create_new env core digest actor True n"
      by (simp add: govern_or_reject_def op_bind_run)
    with create_new_store [of core n env digest actor True] free Inr show ?thesis
      by (auto simp: publication_def birth_of_def)
  qed
  have "?Q (nu_store (snd (create_explicit env core digest actor n)))"
  proof (cases "\<exists>a. valid_identifier (co_id core) \<and> hex_text 64 digest \<and> attempt_for (co_id core) n = Inr a
      \<and> \<not> has_outcome ''rejected'' a \<and> \<not> has_outcome ''accepted'' a \<and> cs_load_core (nu_store n) (co_id core) = Inr None")
    case True
    then obtain a where a: "valid_identifier (co_id core)" "hex_text 64 digest" "attempt_for (co_id core) n = Inr a"
      "\<not> has_outcome ''rejected'' a" "\<not> has_outcome ''accepted'' a" "cs_load_core (nu_store n) (co_id core) = Inr None"
      by blast
    have "a = None"
      using attempt_outcome [of "co_id core" n] a(3-5) by (cases a) (auto simp: has_outcome_def)
    with a new intent show ?thesis by (simp add: create_explicit_def op_bind_run)
  next
    case False
    then show ?thesis
      by (auto simp: create_explicit_def op_bind_run intent split: sum.split option.split)
  qed
  with run show ?thesis by simp
qed

section \<open>Runs that are cut off\<close>

text \<open>
  A crash triple: from a state with \<open>P\<close>, either the operation returns and \<open>Q\<close> holds of its value and its
  state, or the process stopped and \<open>C\<close> holds of what it leaves; the latter only where a stop is scheduled.
\<close>

definition stops_only :: "(nat \<Rightarrow> io) \<Rightarrow> bool" where
  "stops_only s \<longleftrightarrow> (\<forall>i x. s i \<noteq> Fails x)"

definition crash_triple ::
    "birth_env \<Rightarrow> (nursery \<Rightarrow> bool) \<Rightarrow> (nursery, 'a) op \<Rightarrow> ('a \<Rightarrow> nursery \<Rightarrow> bool) \<Rightarrow> (nursery \<Rightarrow> bool) \<Rightarrow> bool" where
  "crash_triple env P m Q C \<longleftrightarrow> (\<forall>n. P n \<and> \<not> nu_down n \<longrightarrow>
     (\<exists>v n'. m n = (Inr v, n') \<and> \<not> nu_down n' \<and> Q v n')
     \<or> (\<exists>n'. m n = (Inl stopped, n') \<and> nu_down n' \<and> C n' \<and> (\<exists>i x. ne_io env i = Stops x)))"

lemma crash_cases:
  assumes "crash_triple env P m Q C" and "P n" and "\<not> nu_down n"
  obtains v n' where "m n = (Inr v, n')" "\<not> nu_down n'" "Q v n'"
  | n' where "m n = (Inl stopped, n')" "nu_down n'" "C n'" "\<exists>i x. ne_io env i = Stops x"
  using assms unfolding crash_triple_def by blast

lemma crash_return: "(\<And>n. P n \<Longrightarrow> Q v n) \<Longrightarrow> crash_triple env P (op_return v) Q C"
  by (simp add: crash_triple_def)

lemma crash_bind:
  assumes "crash_triple env P m Q C" and "\<And>v. crash_triple env (Q v) (f v) R C"
  shows "crash_triple env P (op_bind m f) R C"
  unfolding crash_triple_def
proof (intro allI impI)
  fix n assume n: "P n \<and> \<not> nu_down n"
  consider v n' where "m n = (Inr v, n')" "\<not> nu_down n'" "Q v n'"
    | n' where "m n = (Inl stopped, n')" "nu_down n'" "C n'" "\<exists>i x. ne_io env i = Stops x"
    using assms(1) n unfolding crash_triple_def by blast
  then show "(\<exists>v n'. op_bind m f n = (Inr v, n') \<and> \<not> nu_down n' \<and> R v n')
      \<or> (\<exists>n'. op_bind m f n = (Inl stopped, n') \<and> nu_down n' \<and> C n' \<and> (\<exists>i x. ne_io env i = Stops x))"
  proof cases
    case 1
    then show ?thesis using assms(2) [of v] unfolding crash_triple_def by (simp add: op_bind_run)
  qed (simp add: op_bind_run)
qed

lemma crash_mono:
  "crash_triple env P m Q C \<Longrightarrow> (\<And>n. P' n \<Longrightarrow> P n) \<Longrightarrow> (\<And>v n. Q v n \<Longrightarrow> Q' v n) \<Longrightarrow> (\<And>n. C n \<Longrightarrow> C' n)
     \<Longrightarrow> crash_triple env P' m Q' C'"
  unfolding crash_triple_def by blast

lemma crash_same: "crash_triple env P m' Q C \<Longrightarrow> (\<And>n. P n \<Longrightarrow> m n = m' n) \<Longrightarrow> crash_triple env P m Q C"
  unfolding crash_triple_def by simp

lemma crash_split:
  "crash_triple env P m Q C \<Longrightarrow> crash_triple env P' m Q C \<Longrightarrow> crash_triple env (\<lambda>n. P n \<or> P' n) m Q C"
  unfolding crash_triple_def by blast

lemma crash_disk:
  assumes "stops_only (ne_io env)"
    and "\<And>n. P n \<Longrightarrow> Q (effect Whole (n\<lparr>nu_steps := Suc (nu_steps n)\<rparr>))"
    and "\<And>x n. P n \<Longrightarrow> C ((effect x (n\<lparr>nu_steps := Suc (nu_steps n)\<rparr>))\<lparr>nu_down := True\<rparr>)"
    and "\<And>x n. nu_down (effect x n) = nu_down n"
  shows "crash_triple env P (disk env raised effect) (\<lambda>_. Q) C"
  unfolding crash_triple_def
proof (intro allI impI)
  fix n assume n: "P n \<and> \<not> nu_down n"
  then show "(\<exists>v n'. disk env raised effect n = (Inr v, n') \<and> \<not> nu_down n' \<and> Q n')
      \<or> (\<exists>n'. disk env raised effect n = (Inl stopped, n') \<and> nu_down n' \<and> C n' \<and> (\<exists>i x. ne_io env i = Stops x))"
    using assms by (cases "ne_io env (nu_steps n)") (auto simp: disk_def Let_def stops_only_def)
qed

section \<open>The ledger after an append\<close>

lemma update_split:
  "(\<exists>as bs. xs = as @ (k, the (map_of xs k)) # bs \<and> AList.update k v xs = as @ (k, v) # bs \<and> map_of xs k \<noteq> None)
    \<or> map_of xs k = None \<and> AList.update k v xs = xs @ [(k, v)]"
proof (induction xs)
  case (Cons x xs)
  show ?case
  proof (cases "fst x = k")
    case True
    then have "x # xs = [] @ (k, the (map_of (x # xs) k)) # xs \<and> AList.update k v (x # xs) = [] @ (k, v) # xs
        \<and> map_of (x # xs) k \<noteq> None" by (cases x) simp
    then show ?thesis by blast
  next
    case False
    then have step: "map_of (x # xs) k = map_of xs k" "AList.update k v (x # xs) = x # AList.update k v xs"
      by (cases x; simp)+
    from Cons.IH show ?thesis
    proof (elim disjE exE conjE)
      fix as bs
      assume "xs = as @ (k, the (map_of xs k)) # bs" "AList.update k v xs = as @ (k, v) # bs" "map_of xs k \<noteq> None"
      then have "x # xs = (x # as) @ (k, the (map_of (x # xs) k)) # bs \<and> AList.update k v (x # xs) = (x # as) @ (k, v) # bs
          \<and> map_of (x # xs) k \<noteq> None" using step by simp
      then show ?thesis by blast
    qed (use step in simp)
  qed
qed simp

definition all_lines :: "(string \<times> attempt_log) list \<Rightarrow> store_line list" where
  "all_lines logs = concat (map (\<lambda>(f, l). seen_lines l)
     (sort_key fst (filter (\<lambda>(f, l). starts_with f attempt_prefix \<and> jsonl f) logs)))"

lemma read_attempts_all: "read_attempts n = r_map attempt_of_line (all_lines (nu_logs n))"
  by (simp add: read_attempts_def all_lines_def)

lemma mset_all_lines:
  "mset (all_lines logs) = (\<Sum>(f, l)\<in>#mset logs. if starts_with f attempt_prefix \<and> jsonl f then mset (seen_lines l) else {#})"
proof -
  have sorted: "mset (all_lines logs) = (\<Sum>(f, l)\<in>#mset (filter (\<lambda>(f, l). starts_with f attempt_prefix \<and> jsonl f) logs). mset (seen_lines l))"
    unfolding all_lines_def mset_concat sum_mset_sum_list [symmetric] mset_map image_mset.compositionality
    by (simp add: comp_def case_prod_unfold)
  show ?thesis unfolding sorted by (induction logs) (auto split: prod.splits)
qed

text \<open>Appending a whole record to an untorn log adds one line to what readers see.\<close>

lemma mset_append_line:
  assumes "al_tail (case map_of logs f of None \<Rightarrow> \<lparr>al_lines = [], al_tail = None\<rparr> | Some l \<Rightarrow> l) = None"
    and "starts_with f attempt_prefix" and "jsonl f"
  shows "mset (all_lines (AList.update f (log_append text d Whole
      (case map_of logs f of None \<Rightarrow> \<lparr>al_lines = [], al_tail = None\<rparr> | Some l \<Rightarrow> l)) logs))
    = add_mset (SLine text (Some (JObj d))) (mset (all_lines logs))"
proof -
  let ?l = "case map_of logs f of None \<Rightarrow> \<lparr>al_lines = [], al_tail = None\<rparr> | Some l \<Rightarrow> l"
  let ?l' = "log_append text d Whole ?l"
  have seen: "mset (seen_lines ?l') = add_mset (SLine text (Some (JObj d))) (mset (seen_lines ?l))"
    using assms(1) by (auto simp: log_append_def seen_lines_def glue_def split: option.splits)
  from update_split [of logs f ?l'] show ?thesis
  proof (elim disjE exE conjE)
    fix as bs
    assume logs: "logs = as @ (f, the (map_of logs f)) # bs" and upd: "AList.update f ?l' logs = as @ (f, ?l') # bs"
      and "map_of logs f \<noteq> None"
    then have l: "the (map_of logs f) = ?l" by (auto split: option.splits)
    have "mset (all_lines logs) = mset (all_lines (as @ (f, ?l) # bs))" using logs l by metis
    with seen assms(2,3) show ?thesis unfolding upd by (simp add: mset_all_lines)
  next
    assume none: "map_of logs f = None" and upd: "AList.update f ?l' logs = logs @ [(f, ?l')]"
    have "seen_lines ?l = []" using none by (simp add: seen_lines_def)
    with seen assms(2,3) show ?thesis unfolding upd by (simp add: mset_all_lines)
  qed
qed

lemma r_map_perm:
  assumes "r_map f xs = Inr ys" and "mset xs' = mset xs"
  shows "\<exists>ys'. r_map f xs' = Inr ys' \<and> mset ys' = mset ys"
proof -
  let ?g = "\<lambda>x. projr (f x)"
  have "(\<forall>x\<in>set xs. f x = Inr (?g x)) \<and> ys = map ?g xs"
    using assms(1) by (induction xs arbitrary: ys) (auto elim!: r_bind_InrE)
  moreover have "set xs' = set xs" using assms(2) by (metis set_mset_mset)
  ultimately have "r_map f xs' = Inr (map ?g xs') \<and> mset (map ?g xs') = mset ys"
    using assms(2) by (auto intro: r_map_total)
  then show ?thesis by blast
qed

text \<open>The records that the ledger holds of a card.\<close>

definition attempt_rows :: "string \<Rightarrow> nursery \<Rightarrow> jobj list \<Rightarrow> bool" where
  "attempt_rows cid n rs \<longleftrightarrow> (\<exists>rows. read_attempts n = Inr rows \<and> filter (\<lambda>d. get d ''card_id'' = JStr cid) rows = rs)"

lemma attempt_for_rows: "attempt_rows cid n rs \<Longrightarrow> attempt_for cid n = sole_attempt cid rs"
  by (auto simp: attempt_rows_def attempt_for_def sole_attempt_def)

lemma r_map_mset:
  assumes "r_map f xs = Inr ys" and "mset xs' = add_mset x (mset xs)" and "f x = Inr y"
  shows "\<exists>ys'. r_map f xs' = Inr ys' \<and> mset ys' = add_mset y (mset ys)"
proof -
  let ?g = "\<lambda>x. projr (f x)"
  have all: "\<forall>x\<in>set xs. f x = Inr (?g x)" and ys: "ys = map ?g xs"
    using assms(1) by (induction xs arbitrary: ys) (auto elim!: r_bind_InrE)
  have "set xs' = insert x (set xs)" using assms(2) by (metis set_mset_add_mset_insert set_mset_mset)
  then have "r_map f xs' = Inr (map ?g xs')" using all assms(3) by (intro r_map_total) auto
  moreover have "mset (map ?g xs') = add_mset y (mset ys)" using assms(2,3) by (simp add: ys)
  ultimately show ?thesis by blast
qed

lemma rows_kept:
  assumes "attempt_rows cid n []" and "mset (all_lines (nu_logs m)) = mset (all_lines (nu_logs n))"
  shows "attempt_rows cid m []"
proof -
  obtain rows where rows: "read_attempts n = Inr rows" "filter (\<lambda>d. get d ''card_id'' = JStr cid) rows = []"
    using assms(1) by (auto simp: attempt_rows_def)
  obtain rows' where rows': "read_attempts m = Inr rows'" "mset rows' = mset rows"
    using r_map_perm [OF rows(1) [unfolded read_attempts_all] assms(2)] unfolding read_attempts_all by blast
  have "filter (\<lambda>d. get d ''card_id'' = JStr cid) rows' = []"
    using rows(2) by (simp flip: mset_zero_iff add: mset_filter rows'(2)) 
  with rows'(1) show ?thesis by (auto simp: attempt_rows_def)
qed

lemma update_nonmember: "map_of xs k = None \<Longrightarrow> AList.update k v xs = xs @ [(k, v)]"
  using update_split [of xs k v] by auto

lemma update_own_log: "mset (all_lines (AList.update (attempt_file env) (own_log env n) (nu_logs n))) = mset (all_lines (nu_logs n))"
  by (cases "map_of (nu_logs n) (attempt_file env)")
    (simp_all add: own_log_def update_triv update_nonmember mset_all_lines seen_lines_def)

lemma rows_appended:
  assumes "attempt_rows cid n []" and "al_tail (own_log env n) = None"
    and "attempt_of_line (SLine t (Some (JObj d))) = Inr d" and "get d ''card_id'' = JStr cid"
    and "nu_logs m = AList.update (attempt_file env) (log_append t d Whole (own_log env n)) (nu_logs n)"
  shows "attempt_rows cid m [d]"
proof -
  obtain rows where rows: "read_attempts n = Inr rows" "filter (\<lambda>d. get d ''card_id'' = JStr cid) rows = []"
    using assms(1) by (auto simp: attempt_rows_def)
  have named: "starts_with (attempt_file env) attempt_prefix" "jsonl (attempt_file env)"
    by (simp_all add: attempt_file_def starts_with_iff jsonl_def)
  have "mset (all_lines (nu_logs m)) = add_mset (SLine t (Some (JObj d))) (mset (all_lines (nu_logs n)))"
    using mset_append_line [OF _ named] assms(2) by (simp add: assms(5) own_log_def)
  then obtain rows' where rows': "read_attempts m = Inr rows'" "mset rows' = add_mset d (mset rows)"
    using r_map_mset [OF rows(1) [unfolded read_attempts_all] _ assms(3)] unfolding read_attempts_all by blast
  have "mset (filter (\<lambda>d. get d ''card_id'' = JStr cid) rows')
      = add_mset d (mset (filter (\<lambda>d. get d ''card_id'' = JStr cid) rows))"
    by (simp add: rows'(2) assms(4))
  then have "mset (filter (\<lambda>d. get d ''card_id'' = JStr cid) rows') = {#d#}" unfolding rows(2) by simp
  then have "filter (\<lambda>d. get d ''card_id'' = JStr cid) rows' = [d]" by (simp only: mset_single_iff)
  with rows'(1) show ?thesis by (auto simp: attempt_rows_def)
qed

section \<open>The phases of a creation\<close>

text \<open>
  The same request may come again later: only the time of birth of its core differs. The governor does not
  look at that time.
\<close>

definition born_at :: "card_core \<Rightarrow> string \<Rightarrow> card_core" where
  "born_at core t = core\<lparr>co_created_at := t\<rparr>"

lemma born_at_fields [simp]:
  "co_id (born_at core t) = co_id core" "semantic_core (born_at core t) = semantic_core core"
  "semantic_digest se (born_at core t) = semantic_digest se core" "gates_ok (born_at core t) = gates_ok core"
  "born_at (born_at core t) u = born_at core u"
  "co_labels (born_at core t) = co_labels core" "co_meta (born_at core t) = co_meta core"
  "co_title (born_at core t) = co_title core" "co_created_by (born_at core t) = co_created_by core"
  "co_dependencies (born_at core t) = co_dependencies core"
  by (simp_all add: born_at_def semantic_core_def semantic_digest_def core_dump_def pop_item_def gates_ok_def)

lemma authorized_born_at: "authorized_predecessor se root held st (born_at core t) = authorized_predecessor se root held st core"
proof -
  have "replacement_binding held (born_at core t) = replacement_binding held core"
    by (simp only: replacement_binding_def born_at_fields)
  moreover have "authorization_ok se (born_at core t) = authorization_ok se core"
    by (intro ext) (simp only: authorization_ok_def born_at_fields)
  moreover have "metadata_ok (born_at core t) = metadata_ok core"
    by (intro ext) (simp only: metadata_ok_def born_at_fields)
  moreover have "identity_ok se (born_at core t) = identity_ok se core"
    by (intro ext) (simp only: identity_ok_def born_at_fields)
  ultimately show ?thesis by (simp only: authorized_predecessor_def)
qed

lemma same_birth_born_at: "same_birth old (born_at core t) = same_birth old core"
  by (simp add: same_birth_def compared_fields_def core_dump_def born_at_def)

lemma class_born_at: "creation_class (core_dump (born_at core t)) = creation_class (core_dump core)"
  by (simp add: creation_class_def core_dump_def born_at_def)

lemma govern_born_at: "govern_create why se root held (born_at core t) st = govern_create why se root held core st"
proof -
  have "is_exact_legacy_successor se st c (born_at core t) = is_exact_legacy_successor se st c core" for c
    by (simp only: is_exact_legacy_successor_def same_birth_born_at class_born_at born_at_fields)
  then have dup: "duplicate_check se st (born_at core t) = duplicate_check se st core"
    by (intro ext) (simp only: duplicate_check_def)
  have "birth_edges why se (born_at core t) st = birth_edges why se core st"
    by (simp only: birth_edges_def born_at_fields)
  then show ?thesis
    by (simp only: govern_create_def class_born_at authorized_born_at dup review_ancestry_def born_at_fields)
qed

text \<open>
  Where a creation can stand when nothing but a stop interferes: not begun, intended, born, settled. In every
  phase the host's log ends with a newline.
\<close>

definition intends :: "birth_env \<Rightarrow> card_core \<Rightarrow> string \<Rightarrow> nursery \<Rightarrow> bool" where
  "intends env core digest n \<longleftrightarrow> (\<exists>p. read_pending (co_id core) n = Inr (Some p)
     \<and> get p ''request_digest'' = JStr digest \<and> get p ''semantic_digest'' = JStr (semantic_digest (ne_store env) core))"

definition stored :: "card_core \<Rightarrow> nursery \<Rightarrow> bool" where
  "stored core n \<longleftrightarrow> (\<exists>t. cs_load_core (nu_store n) (co_id core) = Inr (Some (core_dump (born_at core t))))"

definition unseen :: "birth_env \<Rightarrow> card_core \<Rightarrow> string \<Rightarrow> nursery \<Rightarrow> bool" where
  "unseen env core digest n \<longleftrightarrow> attempt_rows (co_id core) n [] \<and> cs_load_core (nu_store n) (co_id core) = Inr None
     \<and> read_pending (co_id core) n = Inr None
     \<and> govern_create (ne_why env) (ne_store env) (ne_root env) (ne_held env) core (nu_store n) = Inr ()"

definition intended :: "birth_env \<Rightarrow> card_core \<Rightarrow> string \<Rightarrow> nursery \<Rightarrow> bool" where
  "intended env core digest n \<longleftrightarrow> attempt_rows (co_id core) n [] \<and> cs_load_core (nu_store n) (co_id core) = Inr None
     \<and> intends env core digest n"

definition born :: "birth_env \<Rightarrow> card_core \<Rightarrow> string \<Rightarrow> nursery \<Rightarrow> bool" where
  "born env core digest n \<longleftrightarrow> attempt_rows (co_id core) n [] \<and> stored core n \<and> intends env core digest n"

definition accepted_row :: "birth_env \<Rightarrow> card_core \<Rightarrow> string \<Rightarrow> jobj \<Rightarrow> bool" where
  "accepted_row env core digest d \<longleftrightarrow> get d ''outcome'' = JStr ''accepted'' \<and> get d ''request_digest'' = JStr digest
     \<and> get d ''semantic_digest'' = JStr (semantic_digest (ne_store env) core)"

definition settled :: "birth_env \<Rightarrow> card_core \<Rightarrow> string \<Rightarrow> nursery \<Rightarrow> bool" where
  "settled env core digest n \<longleftrightarrow> (\<exists>d. attempt_rows (co_id core) n [d] \<and> accepted_row env core digest d)
     \<and> stored core n \<and> (\<exists>q. read_pending (co_id core) n = Inr q)"

definition whole_log :: "birth_env \<Rightarrow> nursery \<Rightarrow> bool" where
  "whole_log env n \<longleftrightarrow> al_tail (own_log env n) = None"

definition underway :: "birth_env \<Rightarrow> card_core \<Rightarrow> string \<Rightarrow> nursery \<Rightarrow> bool" where
  "underway env core digest n \<longleftrightarrow> whole_log env n
     \<and> (unseen env core digest n \<or> intended env core digest n \<or> born env core digest n \<or> settled env core digest n)"

lemmas phase_defs = unseen_def intended_def born_def settled_def intends_def stored_def whole_log_def

text \<open>The phases do not depend on the counters, nor on when the request came.\<close>

lemma reads_counters [simp]:
  "attempt_rows cid (n\<lparr>nu_steps := k\<rparr>) = attempt_rows cid n" "attempt_rows cid (n\<lparr>nu_down := b\<rparr>) = attempt_rows cid n"
  "attempt_rows cid (n\<lparr>nu_clock := k\<rparr>) = attempt_rows cid n"
  "attempt_rows cid (n\<lparr>nu_store := st\<rparr>) = attempt_rows cid n" "attempt_rows cid (n\<lparr>nu_pending := p\<rparr>) = attempt_rows cid n"
  "read_pending cid (n\<lparr>nu_steps := k\<rparr>) = read_pending cid n" "read_pending cid (n\<lparr>nu_down := b\<rparr>) = read_pending cid n"
  "read_pending cid (n\<lparr>nu_clock := k\<rparr>) = read_pending cid n" "read_pending cid (n\<lparr>nu_logs := ls\<rparr>) = read_pending cid n"
  "read_pending cid (n\<lparr>nu_store := st\<rparr>) = read_pending cid n"
  "own_log env (n\<lparr>nu_steps := k\<rparr>) = own_log env n" "own_log env (n\<lparr>nu_down := b\<rparr>) = own_log env n"
  "own_log env (n\<lparr>nu_clock := k\<rparr>) = own_log env n" "own_log env (n\<lparr>nu_pending := p\<rparr>) = own_log env n"
  "own_log env (n\<lparr>nu_store := st\<rparr>) = own_log env n"
  by (simp_all add: fun_eq_iff attempt_rows_def read_attempts_def read_pending_def own_log_def)

lemma phase_counters [simp]:
  "whole_log env (n\<lparr>nu_steps := k\<rparr>) = whole_log env n" "whole_log env (n\<lparr>nu_down := b\<rparr>) = whole_log env n"
  "unseen env core digest (n\<lparr>nu_steps := k\<rparr>) = unseen env core digest n"
  "unseen env core digest (n\<lparr>nu_down := b\<rparr>) = unseen env core digest n"
  "intended env core digest (n\<lparr>nu_steps := k\<rparr>) = intended env core digest n"
  "intended env core digest (n\<lparr>nu_down := b\<rparr>) = intended env core digest n"
  "born env core digest (n\<lparr>nu_steps := k\<rparr>) = born env core digest n"
  "born env core digest (n\<lparr>nu_down := b\<rparr>) = born env core digest n"
  "settled env core digest (n\<lparr>nu_steps := k\<rparr>) = settled env core digest n"
  "settled env core digest (n\<lparr>nu_down := b\<rparr>) = settled env core digest n"
  "underway env core digest (n\<lparr>nu_steps := k\<rparr>) = underway env core digest n"
  "underway env core digest (n\<lparr>nu_down := b\<rparr>) = underway env core digest n"
  by (simp_all add: underway_def phase_defs)

section \<open>Each step, cut off or not\<close>

definition sound_request :: "birth_env \<Rightarrow> card_core \<Rightarrow> string \<Rightarrow> bool" where
  "sound_request env core digest \<longleftrightarrow> stops_only (ne_io env) \<and> valid_identifier (co_id core) \<and> hex_text 64 digest
     \<and> hex_text 64 (semantic_digest (ne_store env) core) \<and> gates_ok core"

lemma sound:
  assumes "sound_request env core digest"
  shows "stops_only (ne_io env)" and "valid_identifier (co_id core)" and "hex_text 64 digest"
    and "hex_text 64 (semantic_digest (ne_store env) core)" and "gates_ok core"
  using assms by (simp_all add: sound_request_def)

lemma semantic_nonempty:
  assumes ok: "sound_request env core digest"
  shows "semantic_digest (ne_store env) core \<noteq> []"
  using sound(4) [OF ok] by (auto simp: hex_text_def)

lemma write_pending_step:
  assumes ok: "sound_request env core digest"
  shows "crash_triple env (\<lambda>n. whole_log env n \<and> unseen env core digest n)
     (write_pending env (co_id core) digest (semantic_digest (ne_store env) core) actor)
     (\<lambda>_ n. whole_log env n \<and> intended env core digest n) (\<lambda>n. whole_log env n \<longrightarrow> underway env core digest n)"
proof -
  have fits: "pending_ok (co_id core) (pending_record (co_id core) digest (semantic_digest (ne_store env) core) actor ts)" for ts
    using sound(3) [OF ok] sound(4) [OF ok] by (simp add: pending_ok_def pending_record_def digest_ok_def)
  let ?put = "put_pending env (co_id core) digest (semantic_digest (ne_store env) core) actor"
  have there: "intends env core digest (?put Whole n)" for n
    using fits by (simp add: intends_def read_pending_def put_pending_def Let_def update_conv' pending_record_def)
  have same: "nu_store (?put x n) = nu_store n" "attempt_rows cid (?put x n) = attempt_rows cid n"
    "own_log env (?put x n) = own_log env n" "nu_down (?put x n) = nu_down n"
    "x \<noteq> Whole \<Longrightarrow> read_pending cid (?put x n) = read_pending cid n" for x n cid
    by (simp_all add: put_pending_def Let_def)
  have whole: "whole_log env (?put Whole n) \<and> intended env core digest (?put Whole n)"
    if "whole_log env n" "unseen env core digest n" for n
    using that there by (simp add: whole_log_def unseen_def intended_def same)
  moreover have "underway env core digest (?put x n)" if "whole_log env n" "unseen env core digest n" for x n
    using whole [OF that] that by (cases "x = Whole") (auto simp: underway_def whole_log_def unseen_def same)
  ultimately show ?thesis
    unfolding write_pending_def
    by (intro crash_disk sound(1) [OF ok]) (auto simp: same)
qed

lemma publish_step:
  assumes ok: "sound_request env core digest"
  shows "crash_triple env (\<lambda>n. whole_log env n \<and> intended env core digest n) (publish_explicit_core env (born_at core t))
     (\<lambda>_ n. whole_log env n \<and> born env core digest n) (\<lambda>n. whole_log env n \<longrightarrow> underway env core digest n)"
proof (rule crash_same)
  show "publish_explicit_core env (born_at core t) n = disk env OSError (published (born_at core t)) n"
    if "whole_log env n \<and> intended env core digest n" for n
    using that by (simp add: publish_explicit_core_def intended_def no_core)
  have core: "cs_load_core (nu_store (published (born_at core t) x n)) (co_id core)
      = (if x = Whole then Inr (Some (core_dump (born_at core t))) else cs_load_core (nu_store n) (co_id core))" for x n
    using sound(2) [OF ok] by (simp add: published_def load_core_dir card_dir_of_put_core)
  show "crash_triple env (\<lambda>n. whole_log env n \<and> intended env core digest n) (disk env OSError (published (born_at core t)))
     (\<lambda>_ n. whole_log env n \<and> born env core digest n) (\<lambda>n. whole_log env n \<longrightarrow> underway env core digest n)"
    by (intro crash_disk sound(1) [OF ok])
      (auto simp: underway_def phase_defs core; simp add: published_def)+
qed

lemma attempt_line_ok:
  assumes ok: "sound_request env core digest"
  shows "attempt_of_line (SLine s (Some (JObj (attempt_record (co_id core) digest actor ''accepted'' []
      (semantic_digest (ne_store env) core) ts))))
    = Inr (attempt_record (co_id core) digest actor ''accepted'' [] (semantic_digest (ne_store env) core) ts)"
  using sound(3) [OF ok] sound(4) [OF ok] semantic_nonempty [OF ok]
  by (simp add: attempt_record_def attempt_fields_ok_def digest_ok_def)

lemma append_step:
  assumes ok: "sound_request env core digest"
  shows "crash_triple env (\<lambda>n. whole_log env n \<and> born env core digest n)
     (append_attempt env (co_id core) digest actor ''accepted'' [] (semantic_digest (ne_store env) core))
     (\<lambda>_ n. whole_log env n \<and> settled env core digest n) (\<lambda>n. whole_log env n \<longrightarrow> underway env core digest n)"
proof -
  let ?row = "attempt_record (co_id core) digest actor ''accepted'' [] (semantic_digest (ne_store env) core)"
  have own: "own_log env (put_attempt env ?row x n) = log_append (json_dumps (JObj (?row (now_text env n)))) (?row (now_text env n)) x (own_log env n)" for x n
    by (simp add: own_log_def put_attempt_def Let_def update_conv')
  have other: "nu_store (put_attempt env ?row x n) = nu_store n" "read_pending cid (put_attempt env ?row x n) = read_pending cid n"
    "nu_down (put_attempt env ?row x n) = nu_down n" for x n cid
    by (simp_all add: put_attempt_def Let_def)
  have whole: "whole_log env (put_attempt env ?row Whole n) \<and> settled env core digest (put_attempt env ?row Whole n)"
    if n: "whole_log env n" "born env core digest n" for n
  proof -
    have "attempt_rows (co_id core) (put_attempt env ?row Whole n) [?row (now_text env n)]"
    proof (rule rows_appended)
      show "attempt_rows (co_id core) n []" "al_tail (own_log env n) = None" using n by (simp_all add: born_def whole_log_def)
      show "nu_logs (put_attempt env ?row Whole n) = AList.update (attempt_file env)
          (log_append (json_dumps (JObj (?row (now_text env n)))) (?row (now_text env n)) Whole (own_log env n)) (nu_logs n)"
        by (simp add: put_attempt_def Let_def)
    qed (rule attempt_line_ok [OF ok], simp add: attempt_record_def)
    moreover have "accepted_row env core digest (?row ts)" for ts
      using semantic_nonempty [OF ok] by (simp add: accepted_row_def attempt_record_def)
    ultimately show ?thesis
      using n by (auto simp: born_def settled_def intends_def stored_def whole_log_def own other log_append_def)
  qed
  have part: "whole_log env (put_attempt env ?row x n) \<longrightarrow> underway env core digest (put_attempt env ?row x n)"
    if n: "whole_log env n" "born env core digest n" for x n
  proof (cases "x = Whole")
    case True
    with whole [OF n] show ?thesis by (simp add: underway_def)
  next
    case False
    show ?thesis
    proof
      assume "whole_log env (put_attempt env ?row x n)"
      then have "log_append (json_dumps (JObj (?row (now_text env n)))) (?row (now_text env n)) x (own_log env n) = own_log env n"
        using False by (cases x) (auto simp: whole_log_def own log_append_def split: if_splits)
      note kept = this
      then have same: "own_log env (put_attempt env ?row x n) = own_log env n" by (simp add: own)
      have "nu_logs (put_attempt env ?row x n) = AList.update (attempt_file env)
          (log_append (json_dumps (JObj (?row (now_text env n)))) (?row (now_text env n)) x (own_log env n)) (nu_logs n)"
        by (simp add: put_attempt_def Let_def)
      then have "nu_logs (put_attempt env ?row x n) = AList.update (attempt_file env) (own_log env n) (nu_logs n)"
        unfolding kept .
      then have "mset (all_lines (nu_logs (put_attempt env ?row x n))) = mset (all_lines (nu_logs n))"
        by (simp only: update_own_log)
      moreover have "attempt_rows (co_id core) n []" using n(2) by (simp add: born_def)
      ultimately have "attempt_rows (co_id core) (put_attempt env ?row x n) []" by (rule rows_kept [rotated])
      with n same show "underway env core digest (put_attempt env ?row x n)"
        by (simp add: underway_def phase_defs other)
    qed
  qed
  show ?thesis
    unfolding append_attempt_def
  proof (rule crash_disk [OF sound(1) [OF ok]])
    let ?on = "\<lambda>n. whole_log env n \<and> born env core digest n"
    show "whole_log env (put_attempt env ?row Whole (n\<lparr>nu_steps := Suc (nu_steps n)\<rparr>))
        \<and> settled env core digest (put_attempt env ?row Whole (n\<lparr>nu_steps := Suc (nu_steps n)\<rparr>))" if "?on n" for n
      using whole [of "n\<lparr>nu_steps := Suc (nu_steps n)\<rparr>"] that by simp
    show "whole_log env ((put_attempt env ?row x (n\<lparr>nu_steps := Suc (nu_steps n)\<rparr>))\<lparr>nu_down := True\<rparr>)
        \<longrightarrow> underway env core digest ((put_attempt env ?row x (n\<lparr>nu_steps := Suc (nu_steps n)\<rparr>))\<lparr>nu_down := True\<rparr>)" if "?on n" for x n
      using part [of "n\<lparr>nu_steps := Suc (nu_steps n)\<rparr>" x] that by simp
  qed (rule other(3))
qed

lemma clear_step:
  assumes ok: "sound_request env core digest"
  shows "crash_triple env (\<lambda>n. whole_log env n \<and> settled env core digest n) (clear_pending env (co_id core))
     (\<lambda>_ n. whole_log env n \<and> settled env core digest n) (\<lambda>n. whole_log env n \<longrightarrow> underway env core digest n)"
proof -
  let ?on = "\<lambda>n. whole_log env n \<and> settled env core digest n"
  have same: "nu_store (drop_pending (co_id core) x n) = nu_store n" "nu_logs (drop_pending (co_id core) x n) = nu_logs n"
    "nu_down (drop_pending (co_id core) x n) = nu_down n" for x n
    by (simp_all add: drop_pending_def)
  have pending: "\<exists>q. read_pending (co_id core) (drop_pending (co_id core) x n) = Inr q"
    if "\<exists>q. read_pending (co_id core) n = Inr q" for x n
    using that by (simp add: drop_pending_def read_pending_def delete_conv')
  have "attempt_rows cid (drop_pending (co_id core) x n) = attempt_rows cid n"
    and "own_log env (drop_pending (co_id core) x n) = own_log env n" for x n cid
    by (simp_all add: fun_eq_iff attempt_rows_def read_attempts_def own_log_def same)
  then have on: "?on n \<Longrightarrow> ?on (drop_pending (co_id core) x n)" for x n
    using pending [of n x] by (simp add: whole_log_def settled_def stored_def same)
  have "crash_triple env ?on (disk env raised (drop_pending (co_id core))) (\<lambda>_. ?on)
      (\<lambda>n. whole_log env n \<longrightarrow> underway env core digest n)" for raised
  proof (rule crash_disk [OF sound(1) [OF ok]])
    show "?on (drop_pending (co_id core) Whole (n\<lparr>nu_steps := Suc (nu_steps n)\<rparr>))" if "?on n" for n
      using that on [of "n\<lparr>nu_steps := Suc (nu_steps n)\<rparr>" Whole] by simp
    show "whole_log env ((drop_pending (co_id core) x (n\<lparr>nu_steps := Suc (nu_steps n)\<rparr>))\<lparr>nu_down := True\<rparr>)
        \<longrightarrow> underway env core digest ((drop_pending (co_id core) x (n\<lparr>nu_steps := Suc (nu_steps n)\<rparr>))\<lparr>nu_down := True\<rparr>)"
      if "?on n" for x n
      using that on [of "n\<lparr>nu_steps := Suc (nu_steps n)\<rparr>" x] by (simp add: underway_def)
  qed (rule same(3))
  then show ?thesis
    unfolding clear_pending_def crash_triple_def by (simp add: op_bind_run)
qed

lemma accept_step:
  assumes ok: "sound_request env core digest"
  shows "crash_triple env (\<lambda>n. whole_log env n \<and> born env core digest n) (accept env (born_at core t) digest actor)
     (\<lambda>_ n. whole_log env n \<and> settled env core digest n) (\<lambda>n. whole_log env n \<longrightarrow> underway env core digest n)"
  using crash_bind [OF append_step [OF ok] clear_step [OF ok]] by (simp add: accept_def)

lemma publish_steps_step:
  assumes ok: "sound_request env core digest"
  shows "crash_triple env (\<lambda>n. whole_log env n \<and> (if intent then unseen env core digest n else intended env core digest n))
     (publish_steps env (born_at core t) digest actor intent)
     (\<lambda>_ n. whole_log env n \<and> settled env core digest n) (\<lambda>n. whole_log env n \<longrightarrow> underway env core digest n)"
proof -
  let ?intend = "op_when intent (write_pending env (co_id core) digest (semantic_digest (ne_store env) core) actor)"
  have "crash_triple env (\<lambda>n. whole_log env n \<and> (if intent then unseen env core digest n else intended env core digest n))
      ?intend (\<lambda>_ n. whole_log env n \<and> intended env core digest n) (\<lambda>n. whole_log env n \<longrightarrow> underway env core digest n)"
    by (cases intent) (simp_all add: write_pending_step [OF ok] crash_return)
  then show ?thesis
    unfolding publish_steps_def born_at_fields
    by (intro crash_bind [OF _ crash_bind [OF publish_step [OF ok] accept_step [OF ok]]])
qed

text \<open>In a stopped process the handlers of the exceptions do nothing.\<close>

lemma stopped_clear: "nu_down n \<Longrightarrow> snd (clear_pending e cid n) = n \<and> (fst (clear_pending e cid n) = Inr () \<or> fst (clear_pending e cid n) = Inl stopped)"
  by (simp add: clear_pending_def op_bind_run disk_def)

lemma stopped_reject: "nu_down n \<Longrightarrow> reject_explicit e cid d a x s n = (Inl stopped, n)"
  using stopped_clear [of n e cid]
  by (cases "clear_pending e cid n") (auto simp: reject_explicit_def op_bind_run op_catch_def append_attempt_def disk_def)

lemma publish_or_reject_step:
  "crash_triple env P (publish_steps env c digest actor intent) Q C \<Longrightarrow> crash_triple env P (publish_or_reject env c digest actor intent) Q C"
  unfolding crash_triple_def
proof (intro allI impI)
  fix n assume run: "\<forall>n. P n \<and> \<not> nu_down n \<longrightarrow>
     (\<exists>v n'. publish_steps env c digest actor intent n = (Inr v, n') \<and> \<not> nu_down n' \<and> Q v n')
     \<or> (\<exists>n'. publish_steps env c digest actor intent n = (Inl stopped, n') \<and> nu_down n' \<and> C n' \<and> (\<exists>i x. ne_io env i = Stops x))"
    and n: "P n \<and> \<not> nu_down n"
  consider v n' where "publish_steps env c digest actor intent n = (Inr v, n')" "\<not> nu_down n'" "Q v n'"
    | n' where "publish_steps env c digest actor intent n = (Inl stopped, n')" "nu_down n'" "C n'" "\<exists>i x. ne_io env i = Stops x"
    using run n by blast
  then show "(\<exists>v n'. publish_or_reject env c digest actor intent n = (Inr v, n') \<and> \<not> nu_down n' \<and> Q v n')
     \<or> (\<exists>n'. publish_or_reject env c digest actor intent n = (Inl stopped, n') \<and> nu_down n' \<and> C n' \<and> (\<exists>i x. ne_io env i = Stops x))"
  proof cases
    case 2
    have "(op_bind (clear_pending env (co_id c)) (\<lambda>_. op_raise stopped) :: (nursery, unit) op) n' = (Inl stopped, n')"
      using stopped_clear [OF 2(2), of env "co_id c"]
      by (cases "clear_pending env (co_id c) n'") (auto simp: op_bind_run)
    with 2 show ?thesis by (simp add: publish_or_reject_def stopped_reject)
  qed (simp add: publish_or_reject_def)
qed

lemma settled_anchor:
  assumes ok: "sound_request env core digest"
  shows "settled env core digest n \<Longrightarrow> lock_anchor (co_id core) (nu_store n) = Inr ()"
  using sound(2) [OF ok] by (auto simp: settled_def stored_def lock_anchor_def core_dump_def)

lemma create_new_step:
  assumes ok: "sound_request env core digest"
  shows "crash_triple env (\<lambda>n. whole_log env n \<and> (if intent then unseen env core digest n else intended env core digest n))
     (create_new env (born_at core t) digest actor intent)
     (\<lambda>_ n. whole_log env n \<and> settled env core digest n) (\<lambda>n. whole_log env n \<longrightarrow> underway env core digest n)"
  unfolding create_new_def
proof (rule crash_bind [OF publish_or_reject_step [OF publish_steps_step [OF ok]]])
  show "crash_triple env (\<lambda>n. whole_log env n \<and> settled env core digest n)
      (op_bind (op_result (\<lambda>n. lock_anchor (co_id (born_at core t)) (nu_store n))) (\<lambda>_. op_return True))
      (\<lambda>_ n. whole_log env n \<and> settled env core digest n) (\<lambda>n. whole_log env n \<longrightarrow> underway env core digest n)"
    by (rule crash_same [OF crash_return]) (simp_all add: op_bind_run settled_anchor [OF ok])
qed

section \<open>A whole run\<close>

lemma outcome_of_row: "accepted_row env core digest d \<Longrightarrow> sole_attempt cid [d] = Inr (if get d ''card_id'' = JStr cid then Some d else None)"
  by (simp add: sole_attempt_def crash_reject_def accepted_row_def)

lemma no_attempt: "attempt_rows cid n [] \<Longrightarrow> attempt_for cid n = Inr None"
  by (simp add: attempt_for_rows sole_attempt_def)

lemma run_unseen:
  assumes ok: "sound_request env core digest"
  shows "unseen env core digest n \<Longrightarrow> create_explicit env (born_at core t) digest actor n = create_new env (born_at core t) digest actor True n"
  using sound(2) [OF ok] sound(3) [OF ok]
  by (simp add: create_explicit_def unseen_def op_bind_run no_attempt has_outcome_def
      govern_or_reject_def govern_born_at)

lemma run_intended:
  assumes ok: "sound_request env core digest"
  shows "intended env core digest n \<Longrightarrow> create_explicit env (born_at core t) digest actor n = create_new env (born_at core t) digest actor False n"
  using sound(2) [OF ok] sound(3) [OF ok]
  by (auto simp: create_explicit_def intended_def intends_def op_bind_run no_attempt has_outcome_def
      check_pending_def)

lemma run_born:
  assumes ok: "sound_request env core digest"
  shows "born env core digest n \<Longrightarrow> create_explicit env (born_at core t) digest actor n = op_bind (accept env (born_at core t) digest actor) (\<lambda>_. op_return False) n"
  using sound(2) [OF ok] sound(3) [OF ok] sound(5) [OF ok]
  by (auto simp: create_explicit_def born_def stored_def intends_def op_bind_run no_attempt has_outcome_def
      check_pending_def check_stored_def core_model_dump)

lemma run_settled:
  assumes ok: "sound_request env core digest" and "settled env core digest n" and "ne_store e = ne_store env"
  shows "create_explicit e (born_at core t) digest actor n = (Inr False, n)"
proof -
  obtain d u q where d: "attempt_rows (co_id core) n [d]" "accepted_row env core digest d"
    and core: "cs_load_core (nu_store n) (co_id core) = Inr (Some (core_dump (born_at core u)))"
    and q: "read_pending (co_id core) n = Inr q"
    using assms(2) by (auto simp: settled_def stored_def)
  have "get d ''card_id'' = JStr (co_id core)"
  proof -
    obtain rows where "filter (\<lambda>d. get d ''card_id'' = JStr (co_id core)) rows = [d]" using d(1) by (auto simp: attempt_rows_def)
    then have "d \<in> set (filter (\<lambda>d. get d ''card_id'' = JStr (co_id core)) rows)" by simp
    then show ?thesis by simp
  qed
  then have "attempt_for (co_id core) n = Inr (Some d)"
    using attempt_for_rows [OF d(1)] outcome_of_row [OF d(2)] by simp
  moreover have "check_accepted e (born_at core t) digest d (Some (core_dump (born_at core u))) n = Inr ()"
    using d(2) sound(5) [OF ok] semantic_nonempty [OF ok] assms(3)
    by (simp add: check_accepted_def core_model_dump accepted_row_def py_or_def)
  ultimately show ?thesis
    using d(2) sound(2) [OF ok] sound(3) [OF ok] core q
    by (simp add: create_explicit_def op_bind_run has_outcome_def accepted_row_def)
qed

lemma create_explicit_step:
  assumes ok: "sound_request env core digest"
  shows "crash_triple env (underway env core digest) (create_explicit env (born_at core t) digest actor)
     (\<lambda>_ n. whole_log env n \<and> settled env core digest n) (\<lambda>n. whole_log env n \<longrightarrow> underway env core digest n)"
proof -
  let ?run = "create_explicit env (born_at core t) digest actor"
  let ?Q = "\<lambda>(_::bool) n. whole_log env n \<and> settled env core digest n"
  let ?C = "\<lambda>n. whole_log env n \<longrightarrow> underway env core digest n"
  have ret: "crash_triple env (\<lambda>n. whole_log env n \<and> settled env core digest n) (op_return False) ?Q ?C"
    by (rule crash_return)
  have "crash_triple env (\<lambda>n. whole_log env n \<and> unseen env core digest n) ?run ?Q ?C"
    by (rule crash_same [OF create_new_step [OF ok, where intent = True, simplified]]) (simp add: run_unseen [OF ok])
  moreover have "crash_triple env (\<lambda>n. whole_log env n \<and> intended env core digest n) ?run ?Q ?C"
    by (rule crash_same [OF create_new_step [OF ok, where intent = False, simplified]]) (simp add: run_intended [OF ok])
  moreover have "crash_triple env (\<lambda>n. whole_log env n \<and> born env core digest n) ?run ?Q ?C"
    by (rule crash_same [OF crash_bind [OF accept_step [OF ok] ret]]) (simp add: run_born [OF ok])
  moreover have "crash_triple env (\<lambda>n. whole_log env n \<and> settled env core digest n) ?run ?Q ?C"
    by (rule crash_same [OF ret]) (simp add: run_settled [OF ok])
  ultimately show ?thesis
    unfolding underway_def crash_triple_def by blast
qed

section \<open>What creations keep\<close>

lemma disk_grows:
  assumes "\<And>x n. birth_grows cid n (effect x n)" shows "op_keeps (birth_grows cid) (disk env raised effect)"
  unfolding op_keeps_def
proof
  show "birth_grows cid n (snd (disk env raised effect n))" for n
    by (rule disk_birth_from) (metis assms birth_grows_steps(2))
qed

lemma log_append_lines: "\<exists>more. al_lines (log_append t d x l) = al_lines l @ more"
  by (cases x) (auto simp: log_append_def)

lemma put_attempt_grows: "birth_grows cid n (put_attempt env row x n)"
proof -
  have "\<exists>more. log_lines (put_attempt env row x n) f = log_lines n f @ more" for f
    using log_append_lines [of "json_dumps (JObj (row (now_text env n)))" "row (now_text env n)" x "own_log env n"]
    by (auto simp: log_lines_def put_attempt_def Let_def update_conv' own_log_def split: option.splits)
  then show ?thesis by (simp add: birth_grows_def births_only_refl) (simp add: put_attempt_def Let_def births_only_refl)
qed

lemma ledger_grows:
  "op_keeps (birth_grows cid) (write_pending env cid digest semantic actor)"
  "op_keeps (birth_grows cid) (clear_pending env cid)"
  "op_keeps (birth_grows cid) (append_attempt env c digest actor outcome reason semantic)"
  unfolding write_pending_def clear_pending_def append_attempt_def
  by (intro birth.keeps keeps_intros disk_grows put_attempt_grows;
      simp add: birth_grows_def births_only_refl put_pending_def drop_pending_def Let_def log_lines_def update_conv' delete_conv')+

lemma reject_grows: "op_keeps (birth_grows cid) (reject_explicit env cid digest actor reason semantic)"
  unfolding reject_explicit_def by (intro birth.keeps ledger_grows)

lemma publish_grows: "op_keeps (birth_grows (co_id core)) (publish_explicit_core env core)"
  unfolding op_keeps_def
proof
  fix n
  have "birth_grows (co_id core) n (snd (disk env OSError (published core) n))"
    if "dir_core (card_dir_of (nu_store n) (co_id core)) = None"
    by (rule disk_birth_from) (use that in \<open>simp add: birth_grows_def published_def log_lines_def births_only_put\<close>)
  then show "birth_grows (co_id core) n (snd (publish_explicit_core env core n))"
    by (simp add: publish_explicit_core_def birth.refl)
qed

lemma publish_steps_grows: "op_keeps (birth_grows (co_id core)) (publish_steps env core digest actor intent)"
  unfolding publish_steps_def accept_def by (intro birth.keeps ledger_grows publish_grows)

lemma create_new_grows: "op_keeps (birth_grows (co_id core)) (create_new env core digest actor intent)"
proof -
  have "op_keeps (birth_grows (co_id core)) (publish_or_reject env core digest actor intent)"
    unfolding op_keeps_def
  proof
    fix n
    obtain r m where m: "publish_steps env core digest actor intent n = (r, m)" by (cases "publish_steps env core digest actor intent n")
    then have grow: "birth_grows (co_id core) n m" using op_keeps_run [OF publish_steps_grows] by blast
    show "birth_grows (co_id core) n (snd (publish_or_reject env core digest actor intent n))"
    proof (cases r)
      case (Inl e)
      obtain q m' where q: "reject_explicit env (co_id core) digest actor (exc_reason (ne_why env) e) (semantic_digest (ne_store env) core) m = (q, m')"
        by (cases "reject_explicit env (co_id core) digest actor (exc_reason (ne_why env) e) (semantic_digest (ne_store env) core) m")
      then have "birth_grows (co_id core) n m'" using grow op_keeps_run [OF reject_grows] birth.trans by blast
      moreover have "birth_grows (co_id core) m' (snd (op_bind (clear_pending env (co_id core)) (\<lambda>_. op_raise e :: (nursery, unit) op) m'))"
        by (rule op_keepsD) (intro birth.keeps ledger_grows)
      ultimately show ?thesis
        using Inl m q birth.trans by (cases q) (auto simp: publish_or_reject_def)
    qed (use m grow in \<open>simp add: publish_or_reject_def\<close>)
  qed
  then show ?thesis unfolding create_new_def by (intro birth.keeps)
qed

lemma govern_or_reject_grows: "op_keeps (birth_grows (co_id core)) (govern_or_reject env core digest actor)"
proof -
  have "op_keeps (birth_grows (co_id core)) (op_bind (reject_explicit env (co_id core) digest actor reason
      (semantic_digest (ne_store env) core)) (\<lambda>_. op_raise e :: (nursery, unit) op))" for reason e
    by (intro birth.keeps reject_grows)
  then show ?thesis
    unfolding op_keeps_def govern_or_reject_def by (simp add: birth.refl split: sum.split)
qed

lemma create_explicit_grows: "op_keeps (birth_grows (co_id core)) (create_explicit env core digest actor)"
  unfolding create_explicit_def accept_def
  by (intro birth.keeps keeps_intros ledger_grows create_new_grows govern_or_reject_grows)

lemma reserve_grows: "op_keeps (birth_grows cid) (reserve_explicit_rejection env cid digest actor reason)"
  unfolding reserve_explicit_rejection_def by (intro birth.keeps keeps_intros reject_grows)

section \<open>Properties\<close>

text \<open>
  C20. Creation never takes anything away, whatever its I/O does: the cores that exist, the events of every
  card, the legacy files and the lines of every attempt ledger stay as they are; at most the one core of the
  request appears.
\<close>

theorem creation_only_adds:
  assumes "create env core n = (r1, n') \<or> create_explicit env core digest actor n = (r2, n')
    \<or> reserve_explicit_rejection env (co_id core) digest actor reason n = (r3, n')"
  shows "births_only (co_id core) (nu_store n) (nu_store n') \<and> (\<forall>f. \<exists>more. log_lines n' f = log_lines n f @ more)"
proof -
  have "birth_grows (co_id core) n n'"
    using assms op_keeps_run [OF create_grows] op_keeps_run [OF create_explicit_grows] op_keeps_run [OF reserve_grows] by blast
  then show ?thesis by (simp add: birth_grows_def)
qed

theorem creation_only_adds_witness:
  "births_only ''x1'' (sample_store []) (nu_store (snd (create (sample_birth_env (\<lambda>i. Fails (Part 3))) (birth_core ''x1'' ''new'' [] [])
     (nursery_of (sample_store [])))))"
proof -
  let ?env = "sample_birth_env (\<lambda>i. Fails (Part 3))" and ?core = "birth_core ''x1'' ''new'' [] []" and ?n = "nursery_of (sample_store [])"
  obtain r n' where "create ?env ?core ?n = (r, n')" by (cases "create ?env ?core ?n")
  with creation_only_adds [of ?env ?core ?n r n' "[]" "[]" undefined "[]" undefined]
  show ?thesis by (simp add: birth_core_def nursery_of_def)
qed

text \<open>
  C22. A birth never closes a dependency cycle: from a board without cycles, a creation of either kind leaves a
  board without cycles, whatever its I/O does, as long as it is not the continuation of a creation that was
  cut off after its intent was written.
\<close>

theorem births_keep_acyclic:
  assumes run: "create env core n = (r1, n')
      \<or> create_explicit env core digest actor n = (r2, n') \<and> map_of (nu_pending n) (co_id core) = None"
    and once: "named_once (nu_store n)"
    and blank: "dir_events (card_dir_of (nu_store n) (co_id core)) = []" "legacy_events (nu_store n) (co_id core) = []"
    and cs: "cs_list_cards (ne_why env) (ne_store env) True True (nu_store n) = Inr cs"
    and acyclic: "acyclic (dep_rel (dependency_edges cs))"
  shows "\<exists>cs'. cs_list_cards (ne_why env) (ne_store env) True True (nu_store n') = Inr cs'
    \<and> acyclic (dep_rel (dependency_edges cs'))"
proof -
  have "nu_store n' = nu_store n \<or> (\<exists>held. birth_of env held core (nu_store n) (nu_store n'))"
    using run create_birth explicit_birth by blast
  then show ?thesis
    using birth_acyclic [OF _ once blank cs acyclic] cs acyclic by fastforce
qed

theorem births_keep_acyclic_witness:
  "\<exists>cs'. cs_list_cards (\<lambda>e. []) (ne_store (sample_birth_env (\<lambda>i. Fine))) True True
        (nu_store (snd (create (sample_birth_env (\<lambda>i. Fine)) (birth_core ''x1'' ''new'' [] [''c1'', ''y9'']) (nursery_of (sample_store []))))) = Inr cs'
     \<and> acyclic (dep_rel (dependency_edges cs'))"
proof -
  let ?env = "sample_birth_env (\<lambda>i. Fine)" and ?core = "birth_core ''x1'' ''new'' [] [''c1'', ''y9'']" and ?n = "nursery_of (sample_store [])"
  obtain r n' where run: "create ?env ?core ?n = (r, n')" by (cases "create ?env ?core ?n")
  have "case cs_list_cards (ne_why ?env) (ne_store ?env) True True (nu_store ?n) of
      Inr cs \<Rightarrow> list_all (\<lambda>c. cd_dependencies c = []) cs | _ \<Rightarrow> False" by code_simp
  then obtain cs where cs: "cs_list_cards (ne_why ?env) (ne_store ?env) True True (nu_store ?n) = Inr cs"
    and none: "list_all (\<lambda>c. cd_dependencies c = []) cs"
    by (auto split: sum.splits)
  from none have "deps_of (dependency_edges cs) x = []" for x
    by (induction cs rule: rev_induct) (simp_all add: deps_of_edges texts_of_def List.map_filter_simps, simp add: deps_of_def dependency_edges_def)
  then have "acyclic (dep_rel (dependency_edges cs))" by (simp add: dep_rel_def acyclic_def)
  moreover have "named_once (nu_store ?n)" "dir_events (card_dir_of (nu_store ?n) ''x1'') = []" "legacy_events (nu_store ?n) ''x1'' = []"
    by code_simp+
  moreover have "co_id ?core = ''x1''" "ne_why ?env = (\<lambda>e. [])" by (simp_all add: birth_core_def sample_birth_env_def)
  ultimately show ?thesis
    using births_keep_acyclic [of ?env ?core ?n r n' undefined undefined undefined, OF _ _ _ _ cs] run by simp
qed

section \<open>Any number of cuts\<close>

text \<open>
  The states that a creation can be found in when its process stopped any number of times, each time at any
  disk operation, and was restarted; no stop tore a line of the ledger.
\<close>

inductive interrupted :: "birth_env \<Rightarrow> card_core \<Rightarrow> string \<Rightarrow> nursery \<Rightarrow> nursery \<Rightarrow> bool" for env core digest where
  begun: "interrupted env core digest n n"
| cut: "interrupted env core digest n m \<Longrightarrow> stops_only s
    \<Longrightarrow> create_explicit (env\<lparr>ne_io := s\<rparr>) (born_at core t) digest actor m = (r, m') \<Longrightarrow> nu_down m' \<Longrightarrow> whole_log env m'
    \<Longrightarrow> interrupted env core digest n (m'\<lparr>nu_down := False\<rparr>)"

lemma phase_io [simp]:
  "whole_log (env\<lparr>ne_io := s\<rparr>) = whole_log env" "underway (env\<lparr>ne_io := s\<rparr>) = underway env"
  "settled (env\<lparr>ne_io := s\<rparr>) = settled env"
  by (simp_all add: fun_eq_iff underway_def phase_defs accepted_row_def own_log_def attempt_file_def)

lemma sound_io: "sound_request env core digest \<Longrightarrow> stops_only s \<Longrightarrow> sound_request (env\<lparr>ne_io := s\<rparr>) core digest"
  by (simp add: sound_request_def)

lemma interrupted_underway:
  "interrupted env core digest n m \<Longrightarrow> sound_request env core digest \<Longrightarrow> underway env core digest n \<Longrightarrow> \<not> nu_down n
     \<Longrightarrow> underway env core digest m \<and> \<not> nu_down m"
proof (induction rule: interrupted.induct)
  case (cut n m s t actor r m')
  then have m: "underway env core digest m" "\<not> nu_down m" by simp_all
  show ?case
  proof (rule crash_cases [OF create_explicit_step [OF sound_io [OF cut.prems(1) cut.hyps(2)], of t actor], of m])
    show "underway (env\<lparr>ne_io := s\<rparr>) core digest m" "\<not> nu_down m" using m by simp_all
  qed (use cut.hyps in simp_all)
qed simp

text \<open>
  C6. An explicit creation that was cut off any number of times, at any disk operation except inside the
  append of a line to the ledger, is finished by the next request that nothing interrupts, even one that comes
  with another time stamp: the core is on disk, and from then on every replay of the request returns \<open>False\<close> and
  changes nothing, whatever its I/O would do. A stop inside the append may leave part of a line, after which
  the ledger cannot be read any more (\<open>torn_first_line_corrupts_ledger\<close>, \<open>append_after_torn_line_corrupts_ledger\<close>).
\<close>

theorem explicit_creation_recovers:
  assumes cut: "interrupted env core digest n m" and request: "sound_request env core digest"
    and start: "unseen env core digest n" "whole_log env n" "\<not> nu_down n"
  shows "\<exists>b m' u. create_explicit (env\<lparr>ne_io := \<lambda>i. Fine\<rparr>) (born_at core t) digest actor m = (Inr b, m')
    \<and> cs_load_core (nu_store m') (co_id core) = Inr (Some (core_dump (born_at core u)))
    \<and> (\<forall>s v actor'. create_explicit (env\<lparr>ne_io := s\<rparr>) (born_at core v) digest actor' m' = (Inr False, m'))"
proof -
  let ?env = "env\<lparr>ne_io := \<lambda>i. Fine\<rparr>"
  have m: "underway env core digest m" "\<not> nu_down m"
    using interrupted_underway [OF cut request] start by (simp_all add: underway_def)
  have "sound_request ?env core digest" using request by (intro sound_io) (simp_all add: stops_only_def)
  from create_explicit_step [OF this, of t actor]
  obtain b m' where run: "create_explicit ?env (born_at core t) digest actor m = (Inr b, m')"
    and done1: "settled env core digest m'"
    by (rule crash_cases [where n = m]) (use m in simp_all)
  from done1 obtain u where "cs_load_core (nu_store m') (co_id core) = Inr (Some (core_dump (born_at core u)))"
    by (auto simp: settled_def stored_def)
  moreover have "create_explicit (env\<lparr>ne_io := s\<rparr>) (born_at core v) digest actor' m' = (Inr False, m')" for s v actor'
    by (rule run_settled [OF request done1]) simp
  ultimately show ?thesis using run by blast
qed

definition sample_digest :: string where
  "sample_digest = replicate 64 CHR ''b''"

definition cut_at :: "nat \<Rightarrow> extent \<Rightarrow> nat \<Rightarrow> io" where
  "cut_at k x i = (if i = k then Stops x else Fine)"

lemma sample_request: "sound_request (sample_birth_env (\<lambda>i. Fine)) (birth_core ''x1'' ''new'' [] []) sample_digest"
  unfolding sound_request_def by (intro conjI; (simp add: stops_only_def sample_birth_env_def; fail)?; code_simp)

lemma sample_unseen: "unseen (sample_birth_env (\<lambda>i. Fine)) (birth_core ''x1'' ''new'' [] []) sample_digest (nursery_of (sample_store []))"
  unfolding unseen_def attempt_rows_def
  by (intro conjI; (simp add: read_attempts_def nursery_of_def; fail)?; code_simp)

text \<open>A stop after the core was renamed into place, before the ledger knew; then a run to the end.\<close>

theorem explicit_creation_recovers_witness:
  "\<exists>m m' b u. nu_down m \<and> create_explicit (sample_birth_env (\<lambda>i. Fine)) (born_at (birth_core ''x1'' ''new'' [] []) ''2026-02-02'') sample_digest ''ana''
       (m\<lparr>nu_down := False\<rparr>) = (Inr b, m')
     \<and> cs_load_core (nu_store m') ''x1'' = Inr (Some (core_dump (born_at (birth_core ''x1'' ''new'' [] []) u)))"
proof -
  let ?env = "sample_birth_env (\<lambda>i. Fine)" and ?core = "birth_core ''x1'' ''new'' [] []"
  let ?n = "nursery_of (sample_store [])"
  obtain r m where run: "create_explicit (?env\<lparr>ne_io := cut_at 1 Whole\<rparr>) (born_at ?core []) sample_digest ''ana'' ?n = (r, m)"
    by (cases "create_explicit (?env\<lparr>ne_io := cut_at 1 Whole\<rparr>) (born_at ?core []) sample_digest ''ana'' ?n")
  have "let n = snd (create_explicit (?env\<lparr>ne_io := cut_at 1 Whole\<rparr>) (born_at ?core []) sample_digest ''ana'' ?n)
      in nu_down n \<and> whole_log ?env n" by code_simp
  then have m: "nu_down m" "whole_log ?env m" unfolding run by (simp_all add: Let_def)
  have "stops_only (cut_at 1 Whole)" by (simp add: stops_only_def cut_at_def)
  then have cut: "interrupted ?env ?core sample_digest ?n (m\<lparr>nu_down := False\<rparr>)"
    by (rule interrupted.cut [OF interrupted.begun _ run m])
  have "whole_log ?env ?n" "\<not> nu_down ?n" by (simp_all add: whole_log_def own_log_def nursery_of_def)
  from explicit_creation_recovers [OF cut sample_request sample_unseen this, of "''2026-02-02''" "''ana''"]
  have "\<exists>b m' u. create_explicit ?env (born_at ?core ''2026-02-02'') sample_digest ''ana'' (m\<lparr>nu_down := False\<rparr>) = (Inr b, m')
      \<and> cs_load_core (nu_store m') ''x1'' = Inr (Some (core_dump (born_at ?core u)))"
    by (auto simp: sample_birth_env_def birth_core_def)
  with m(1) show ?thesis by blast
qed

text \<open>
  C26. An accepted creation is final: whoever asks for the identifier again, with whatever I/O, either replays
  the same request for the same birth facts and is told so, or is refused as a conflict; nothing changes.
\<close>

theorem accepted_is_final:
  assumes attempt: "attempt_for (co_id core) n = Inr (Some a)" "get a ''outcome'' = JStr ''accepted''"
    and facts: "cs_load_core (nu_store n) (co_id core) = Inr (Some (core_dump c))" "gates_ok c"
    and ledger: "get a ''semantic_digest'' = JStr (semantic_digest (ne_store env) c)" "get a ''request_digest'' = JStr d"
    and pending: "read_pending (co_id core) n = Inr q" and hex: "hex_text 64 digest"
  shows "create_explicit env core digest actor n =
    (if digest = d \<and> json_eq (JObj (semantic_core c)) (JObj (semantic_core core)) then Inr False
     else Inl (creation_conflict (co_id core)), n)"
proof -
  have "valid_identifier (co_id core)" using facts(1) by (auto simp: cs_load_core_def split: if_splits)
  moreover have "check_accepted env core digest a (Some (core_dump c)) n
      = (if digest = d \<and> json_eq (JObj (semantic_core c)) (JObj (semantic_core core)) then Inr () else Inl (creation_conflict (co_id core)))"
    using ledger facts(2) by (simp add: check_accepted_def core_model_dump py_or_def)
  ultimately show ?thesis
    using attempt facts(1) pending hex by (simp add: create_explicit_def op_bind_run has_outcome_def)
qed

theorem accepted_is_final_witness:
  "create_explicit (sample_birth_env (\<lambda>i. Fails Nothing)) (birth_core ''x1'' ''other'' [] []) sample_digest ''bob''
     (snd (create_explicit (sample_birth_env (\<lambda>i. Fine)) (birth_core ''x1'' ''new'' [] []) sample_digest ''ana'' (nursery_of (sample_store []))))
   = (Inl (creation_conflict ''x1''),
      snd (create_explicit (sample_birth_env (\<lambda>i. Fine)) (birth_core ''x1'' ''new'' [] []) sample_digest ''ana'' (nursery_of (sample_store []))))"
proof -
  let ?env = "sample_birth_env (\<lambda>i. Fails Nothing)" and ?core = "birth_core ''x1'' ''other'' [] []" and ?c = "birth_core ''x1'' ''new'' [] []"
  let ?n = "snd (create_explicit (sample_birth_env (\<lambda>i. Fine)) ?c sample_digest ''ana'' (nursery_of (sample_store [])))"
  have "let n = ?n in (case attempt_for ''x1'' n of Inr (Some a) \<Rightarrow> get a ''outcome'' = JStr ''accepted''
      \<and> get a ''semantic_digest'' = JStr (semantic_digest (ne_store ?env) ?c) \<and> get a ''request_digest'' = JStr sample_digest | _ \<Rightarrow> False)
      \<and> cs_load_core (nu_store n) ''x1'' = Inr (Some (core_dump ?c)) \<and> gates_ok ?c
      \<and> read_pending ''x1'' n = Inr None \<and> hex_text 64 sample_digest
      \<and> \<not> json_eq (JObj (semantic_core ?c)) (JObj (semantic_core ?core))" by code_simp
  note facts = this [unfolded Let_def]
  then obtain a where a: "attempt_for ''x1'' ?n = Inr (Some a)" "get a ''outcome'' = JStr ''accepted''"
    "get a ''semantic_digest'' = JStr (semantic_digest (ne_store ?env) ?c)" "get a ''request_digest'' = JStr sample_digest"
    by (auto split: sum.splits option.splits)
  have "cs_load_core (nu_store ?n) ''x1'' = Inr (Some (core_dump ?c))" "gates_ok ?c"
    "read_pending ''x1'' ?n = Inr None" "hex_text 64 sample_digest"
    "\<not> json_eq (JObj (semantic_core ?c)) (JObj (semantic_core ?core))" using facts by blast+
  moreover have "co_id ?core = ''x1''" by (simp add: birth_core_def)
  ultimately show ?thesis using accepted_is_final [of ?core ?n a ?c ?env sample_digest None sample_digest "''bob''"] a by simp
qed


section \<open>Where creation falls short\<close>

text \<open>
  A failed append of the acceptance, after the core is on disk: the handler clears the intent, its own record
  does not bind, and every retry of the same request is a conflict.
\<close>

definition fails_at :: "nat \<Rightarrow> extent \<Rightarrow> nat \<Rightarrow> io" where
  "fails_at k x i = (if i = k then Fails x else Fine)"

definition ask :: "(nat \<Rightarrow> io) \<Rightarrow> card_core \<Rightarrow> nursery \<Rightarrow> bool result \<times> nursery" where
  "ask s core n = create_explicit (sample_birth_env s) core sample_digest ''ana'' (n\<lparr>nu_down := False, nu_steps := 0\<rparr>)"

definition empty_nursery :: nursery where
  "empty_nursery = nursery_of (sample_store [])"

lemma failed_acceptance_locks_identifier:
  "let n = snd (ask (fails_at 2 Nothing) (birth_core ''x1'' ''new'' [] []) empty_nursery)
   in attempt_for ''x1'' n = Inr None \<and> fst (ask (\<lambda>i. Fine) (birth_core ''x1'' ''new'' [] []) n) = Inl (creation_conflict ''x1'')"
  by code_simp

text \<open>An \<open>OSError\<close> whose text is not on the list of crash reasons reserves the identifier for good.\<close>

lemma input_output_error_reserves:
  "let n = snd (ask (fails_at 1 Nothing) (birth_core ''x1'' ''new'' [] []) empty_nursery)
   in fst (ask (\<lambda>i. Fine) (birth_core ''x1'' ''new'' [] []) n)
        = Inl (ValueError ''Card ID x1 is reserved by a rejected creation attempt'')"
  by code_simp

text \<open>
  A stop inside the append of the acceptance. In an empty ledger the torn line is read as a record; in a longer
  one it is skipped, but the next append continues it. Either way every later creation raises.
\<close>

lemma torn_first_line_corrupts_ledger:
  "let n = snd (ask (cut_at 2 (Part 5)) (birth_core ''x1'' ''new'' [] []) empty_nursery)
   in fst (ask (\<lambda>i. Fine) (birth_core ''x2'' ''other'' [] []) n) = Inl corrupt_log"
  by code_simp

definition torn_nursery :: nursery where
  "torn_nursery = empty_nursery\<lparr>nu_logs := [(attempt_file (sample_birth_env (\<lambda>i. Fine)),
     \<lparr>al_lines = [SLine ''x'' (Some (JObj (attempt_record ''x0'' sample_digest ''ana'' ''accepted'' [] [] ''2026'')))],
      al_tail = Some (SLine (CHR ''{'' # CHR 0x22 # ''act'') None)\<rparr>)]\<rparr>"

lemma append_after_torn_line_corrupts_ledger:
  "case ask (\<lambda>i. Fine) (birth_core ''x1'' ''new'' [] []) torn_nursery of
     (r, n) \<Rightarrow> r = Inr True \<and> attempt_for ''x2'' n = Inl corrupt_log"
  by code_simp

text \<open>
  The continuation of a creation whose intent was written skips the governor: a card born meanwhile can depend
  on it, and the two close a cycle.
\<close>

definition intent_nursery :: nursery where
  "intent_nursery = empty_nursery\<lparr>nu_pending := [(''x1'', CoreJson (JObj (pending_record ''x1'' sample_digest (replicate 64 CHR ''a'') ''ana'' ''2026'')))]\<rparr>"

lemma recovery_skips_governor:
  "case ask (\<lambda>i. Fine) (birth_core ''y1'' ''meanwhile'' [] [''x1'']) intent_nursery of (r1, n) \<Rightarrow>
     (case ask (\<lambda>i. Fine) (birth_core ''x1'' ''new'' [] [''y1'']) n of (r2, n') \<Rightarrow>
        r1 = Inr True \<and> r2 = Inr True
        \<and> cs_load_core (nu_store n') ''x1'' = Inr (Some (core_dump (birth_core ''x1'' ''new'' [] [''y1''])))
        \<and> cs_load_core (nu_store n') ''y1'' = Inr (Some (core_dump (birth_core ''y1'' ''meanwhile'' [] [''x1'']))))"
  by code_simp

text \<open>A refusal by policy whose text quotes one of the crash words, here from a label, reserves nothing.\<close>

lemma policy_rejection_not_reserved:
  "let (r, n) = ask (\<lambda>i. Fine) (birth_core ''x1'' ''[Repair] it'' [''parent-no space''] []) empty_nursery
   in isl r \<and> attempt_for ''x1'' n = Inr None"
  by code_simp

text \<open>
  The record of a failed attempt of one host sorts behind the acceptance of another: the identifier then has
  conflicting attempts.
\<close>

definition ask_on :: "string \<Rightarrow> string \<Rightarrow> (nat \<Rightarrow> io) \<Rightarrow> card_core \<Rightarrow> nursery \<Rightarrow> bool result \<times> nursery" where
  "ask_on host text s core n =
     (let env = sample_birth_env s in
      create_explicit (env\<lparr>ne_store := (ne_store env)\<lparr>se_host := host\<rparr>, ne_os := \<lambda>i. text\<rparr>) core sample_digest ''ana''
        (n\<lparr>nu_down := False, nu_steps := 0\<rparr>))"

lemma crash_record_conflicts_with_acceptance:
  "let n1 = snd (ask_on ''zed'' ''[Errno 28] No space left on device'' (fails_at 1 Nothing) (birth_core ''x1'' ''new'' [] []) empty_nursery);
       (r, n2) = ask_on ''amy'' [] (\<lambda>i. Fine) (birth_core ''x1'' ''new'' [] []) n1
   in r = Inr True \<and> fst (ask_on ''amy'' [] (\<lambda>i. Fine) (birth_core ''x1'' ''new'' [] []) n2)
        = Inl (ValueError ''Card ID x1 has conflicting creation attempts'')"
  by code_simp

text \<open>
  \<open>create\<close> writes into \<open>core.json\<close> itself: a stop in the middle leaves a core that cannot be read, and after
  that no governed card can be born.
\<close>

lemma torn_core_blocks_governed_births:
  "let n = (snd (create (sample_birth_env (\<lambda>i. Stops (Part 3))) (birth_core ''x1'' ''new'' [] []) empty_nursery))
             \<lparr>nu_down := False\<rparr>
   in fst (create (sample_birth_env (\<lambda>i. Fine)) (birth_core ''r1'' ''[Review] c1'' [''parent-c1''] []) n)
        = Inl (ValueError ''core is malformed'')"
  by code_simp

end
