(* ===== verification/Owner_Helpers.thy ===== *)
theory Owner_Helpers
  imports Explicit_Creation Card_Projection "HOL-Library.Sublist"
begin

text \<open>
  Helpers that the owner of a task asks for (\<open>owner_helpers.py\<close>): a task that is delegated under the parent's
  claim has to name the parent's exact source, keep its restrictions and dependencies, and write only under
  literal repository paths that no active sibling writes under.
\<close>

section \<open>Tasks\<close>

text \<open>The model \<open>Task\<close> of \<open>coordination.py\<close>; its priority is one of four texts.\<close>

record coord_task =
  ta_id :: string
  ta_title :: string
  ta_description :: string
  ta_priority :: string
  ta_tags :: "string list"
  ta_created_by :: string
  ta_created_at :: string
  ta_criteria :: "string list"
  ta_dependencies :: "string list"
  ta_notes :: "string list"
  ta_meta :: jobj

definition task_dump :: "coord_task \<Rightarrow> jobj" where
  "task_dump t =
     [(''id'', JStr (ta_id t)), (''title'', JStr (ta_title t)), (''description'', JStr (ta_description t)),
      (''priority'', JStr (ta_priority t)), (''tags'', JList (map JStr (ta_tags t))),
      (''created_by'', JStr (ta_created_by t)), (''created_at'', JStr (ta_created_at t)),
      (''acceptance_criteria'', JList (map JStr (ta_criteria t))),
      (''dependencies'', JList (map JStr (ta_dependencies t))), (''notes'', JList (map JStr (ta_notes t))),
      (''meta'', JObj (ta_meta t))]"

definition task_priorities :: "string list" where
  "task_priorities = [''critical'', ''high'', ''medium'', ''low'']"

definition as_priority :: "json \<Rightarrow> string result" where
  "as_priority v = (case v of JStr s \<Rightarrow> if s \<in> set task_priorities then Inr s else Inl ValidationError | _ \<Rightarrow> Inl ValidationError)"

text \<open>\<open>Task.model_validate(d)\<close>; a missing identifier is drawn at random, a missing time stamp is the clock's.\<close>

definition task_model :: "string \<Rightarrow> string \<Rightarrow> jobj \<Rightarrow> coord_task result" where
  "task_model fresh now d =
     r_bind (as_str (get_d d ''id'' (JStr fresh))) (\<lambda>tid.
     r_bind (r_bind (required d ''title'') as_str) (\<lambda>title.
     r_bind (as_str (get_d d ''description'' (JStr []))) (\<lambda>descr.
     r_bind (as_priority (get_d d ''priority'' (JStr ''medium''))) (\<lambda>prio.
     r_bind (as_strs (get_d d ''tags'' (JList []))) (\<lambda>tags.
     r_bind (as_str (get_d d ''created_by'' (JStr []))) (\<lambda>author.
     r_bind (as_str (get_d d ''created_at'' (JStr now))) (\<lambda>at.
     r_bind (as_strs (get_d d ''acceptance_criteria'' (JList []))) (\<lambda>criteria.
     r_bind (as_strs (get_d d ''dependencies'' (JList []))) (\<lambda>deps.
     r_bind (as_strs (get_d d ''notes'' (JList []))) (\<lambda>notes.
     r_bind (as_dict (get_d d ''meta'' (JObj []))) (\<lambda>meta.
     Inr \<lparr>ta_id = tid, ta_title = title, ta_description = descr, ta_priority = prio, ta_tags = tags,
          ta_created_by = author, ta_created_at = at, ta_criteria = criteria, ta_dependencies = deps,
          ta_notes = notes, ta_meta = meta\<rparr>)))))))))))"

lemma task_model_dump: "ta_priority t \<in> set task_priorities \<Longrightarrow> task_model fresh now (task_dump t) = Inr t"
  by (simp add: task_model_def task_dump_def required_def as_priority_def get_d_def)

text \<open>The core that \<open>mirror_coord_create\<close> and its variants make of a task, unowned or claimed from the start.\<close>

definition task_core :: "coord_task \<Rightarrow> string option \<Rightarrow> string option \<Rightarrow> card_core" where
  "task_core t owner crev =
     \<lparr>co_id = ta_id t, co_kind = (if ''epic'' \<in> set (map lower (ta_tags t)) then ''epic'' else ''task''),
      co_title = ta_title t, co_description = ta_description t, co_created_by = ta_created_by t,
      co_created_at = ta_created_at t, co_criteria = ta_criteria t, co_dependencies = ta_dependencies t,
      co_priority = ta_priority t, co_swimlane = swimlane_for_tags (ta_tags t), co_labels = ta_tags t,
      co_owner = owner, co_claim_revision = crev, co_meta = ta_meta t, co_exit_gates = [], co_non_goals = [],
      co_spec_version = None\<rparr>"

lemma task_core_fields [simp]:
  "co_id (task_core t o1 r) = ta_id t" "co_meta (task_core t o1 r) = ta_meta t"
  "co_dependencies (task_core t o1 r) = ta_dependencies t" "co_owner (task_core t o1 r) = o1"
  "co_claim_revision (task_core t o1 r) = r" "co_labels (task_core t o1 r) = ta_tags t" "gates_ok (task_core t o1 r)"
  by (simp_all add: task_core_def gates_ok_def)

section \<open>Texts\<close>

fun split_on :: "char \<Rightarrow> string \<Rightarrow> string list" where
  "split_on c [] = [[]]"
| "split_on c (x # xs) = (if x = c then [] # split_on c xs
     else case split_on c xs of w # ws \<Rightarrow> (x # w) # ws | [] \<Rightarrow> [[x]])"

definition lower_letter :: "char \<Rightarrow> bool" where
  "lower_letter c = (let n = (of_char c :: nat) in 97 \<le> n \<and> n \<le> 122)"

definition generic_routes :: "string list" where
  "generic_routes = [''sk-s'', ''sk-m'', ''sk-l'', ''sk-xl'']"

definition focused_routes :: "string list" where
  "focused_routes = concat (map (\<lambda>family. map (\<lambda>size. ''sk-'' @ family @ ''-'' @ size) [''s'', ''m'', ''l''])
     [''codex'', ''deepseek'', ''glm'', ''zai''])"

definition routes :: "string list" where
  "routes = generic_routes @ focused_routes"

text \<open>\<open>label.strip().lower()\<close>, and \<open>sk-[a-z]+(?:-[a-z]+)?\<close> matched in full on it.\<close>

definition route_text :: "string \<Rightarrow> string" where
  "route_text l = lower (strip l)"

definition is_route_label :: "string \<Rightarrow> bool" where
  "is_route_label l \<longleftrightarrow> starts_with (route_text l) ''sk-''
     \<and> (let words = split_on (CHR ''-'') (drop 3 (route_text l)) in
         length words \<le> 2 \<and> list_all (\<lambda>w. w \<noteq> [] \<and> list_all lower_letter w) words)"

definition parent_contract_digest :: "store_env \<Rightarrow> card \<Rightarrow> string" where
  "parent_contract_digest env p = se_sha env (json_canon (JObj
     [(''title'', cd_title p), (''description'', cd_description p), (''acceptance_criteria'', JList (cd_criteria p))]))"

definition request_digest :: "store_env \<Rightarrow> jobj \<Rightarrow> string" where
  "request_digest env d = se_sha env (json_canon (JObj d))"

section \<open>Bounded lists and literal paths\<close>

text \<open>At most 64 different texts, none blank, none longer than 4096 characters.\<close>

definition bounded_item :: "json \<Rightarrow> bool" where
  "bounded_item v = (case v of JStr s \<Rightarrow> \<not> blank s \<and> length s \<le> 4096 | _ \<Rightarrow> False)"

definition bounded_strings :: "bool \<Rightarrow> json \<Rightarrow> string list result" where
  "bounded_strings allow_empty v =
     (case v of
        JList xs \<Rightarrow>
          if xs = [] \<and> \<not> allow_empty \<or> length xs > 64 then Inl (ValueError ''must be a bounded list'')
          else if \<not> list_all bounded_item xs then Inl (ValueError ''must contain nonempty strings'')
          else if \<not> distinct xs then Inl (ValueError ''contains duplicates'')
          else Inr (texts_of xs)
      | _ \<Rightarrow> Inl (ValueError ''must be a bounded list''))"

text \<open>\<open>PurePosixPath(s)\<close> of a relative path is its parts; the text of the path joins them.\<close>

type_synonym path = "string list"

definition path_parts :: "string \<Rightarrow> path" where
  "path_parts s = filter (\<lambda>w. w \<noteq> [] \<and> w \<noteq> ''.'') (split_on (CHR ''/'') s)"

definition path_text :: "path \<Rightarrow> string" where
  "path_text p = (if p = [] then ''.'' else join ''/'' p)"

definition literal_path :: "string \<Rightarrow> bool" where
  "literal_path s \<longleftrightarrow> \<not> starts_with s ''/'' \<and> path_text (path_parts s) = s \<and> s \<noteq> ''.''
     \<and> list_all (\<lambda>w. w \<noteq> ''..'' \<and> w \<noteq> ''.git'') (path_parts s)
     \<and> list_all (\<lambda>c. c \<notin> set [CHR 0x5C, CHR 0x00, CHR ''*'', CHR ''?'', CHR ''['', CHR '']'']) s"

definition repository_paths :: "json \<Rightarrow> path list result" where
  "repository_paths v = r_bind (bounded_strings True v) (\<lambda>ss.
     if list_all literal_path ss then Inr (map path_parts ss)
     else Inl (ValueError ''helper_allowed_paths must be literal repository paths''))"

text \<open>\<open>a == b or a in b.parents or b in a.parents\<close>.\<close>

definition paths_overlap :: "path list \<Rightarrow> path list \<Rightarrow> bool" where
  "paths_overlap ps qs \<longleftrightarrow> list_ex (\<lambda>a. list_ex (\<lambda>b. a = b \<or> strict_prefix a b \<or> strict_prefix b a) qs) ps"

section \<open>The parent's source\<close>

text \<open>
  \<open>urlsplit\<close>: leading control characters and blanks go, tabs and line ends go everywhere. What it accepts
  between brackets in a host (an IPv6 address) is a parameter.
\<close>

record split_url =
  url_scheme :: string
  url_netloc :: string
  url_query :: string
  url_fragment :: string

definition scheme_char :: "char \<Rightarrow> bool" where
  "scheme_char c \<longleftrightarrow> is_alnum c \<or> c \<in> set ''+-.''"

definition ascii_letter :: "char \<Rightarrow> bool" where
  "ascii_letter c = (let n = (of_char c :: nat) in (65 \<le> n \<and> n \<le> 90) \<or> (97 \<le> n \<and> n \<le> 122))"

text \<open>\<open>s.partition(c)\<close>: before, whether it is there, after; and the part after the last one.\<close>

definition before :: "char \<Rightarrow> string \<Rightarrow> string" where
  "before c s = takeWhile (\<lambda>x. x \<noteq> c) s"

definition after :: "char \<Rightarrow> string \<Rightarrow> string" where
  "after c s = drop 1 (dropWhile (\<lambda>x. x \<noteq> c) s)"

definition url_clean :: "string \<Rightarrow> string" where
  "url_clean s = filter (\<lambda>c. c \<notin> set [CHR 0x09, CHR 0x0D, CHR 0x0A]) (dropWhile (\<lambda>c. (of_char c :: nat) \<le> 32) s)"

definition split_scheme :: "string \<Rightarrow> string \<times> string" where
  "split_scheme s =
     (if CHR '':'' \<in> set s \<and> before (CHR '':'') s \<noteq> [] \<and> ascii_letter (hd s) \<and> list_all scheme_char (before (CHR '':'') s)
      then (lower (before (CHR '':'') s), after (CHR '':'') s) else ([], s))"

definition split_netloc :: "string \<Rightarrow> string \<times> string" where
  "split_netloc s =
     (if starts_with s ''//''
      then (takeWhile (\<lambda>c. c \<notin> set ''/?#'') (drop 2 s), dropWhile (\<lambda>c. c \<notin> set ''/?#'') (drop 2 s)) else ([], s))"

definition urlsplit :: "(string \<Rightarrow> bool) \<Rightarrow> string \<Rightarrow> split_url result" where
  "urlsplit brackets s =
     (let (scheme, rest) = split_scheme (url_clean s); (netloc, tail) = split_netloc rest in
      if (CHR ''['' \<in> set netloc) \<noteq> (CHR '']'' \<in> set netloc) then Inl (ValueError ''Invalid IPv6 URL'')
      else if CHR ''['' \<in> set netloc \<and> \<not> brackets netloc then Inl (ValueError ''Invalid IPv6 URL'')
      else Inr \<lparr>url_scheme = scheme, url_netloc = netloc,
             url_query = after (CHR ''?'') (before (CHR ''#'') tail), url_fragment = after (CHR ''#'') tail\<rparr>)"

text \<open>The user information before the last \<open>@\<close>, and the host behind it; only whether they are empty matters.\<close>

definition url_host_info :: "split_url \<Rightarrow> string" where
  "url_host_info u = rev (before (CHR ''@'') (rev (url_netloc u)))"

definition url_user_info :: "split_url \<Rightarrow> string" where
  "url_user_info u = (if CHR ''@'' \<in> set (url_netloc u) then rev (after (CHR ''@'') (rev (url_netloc u))) else [])"

definition url_hostname :: "split_url \<Rightarrow> string" where
  "url_hostname u = (let h = url_host_info u in
     if CHR ''['' \<in> set h then before (CHR '']'') (after (CHR ''['') h) else before (CHR '':'') h)"

definition url_username :: "split_url \<Rightarrow> string" where
  "url_username u = before (CHR '':'') (url_user_info u)"

definition url_password :: "split_url \<Rightarrow> string" where
  "url_password u = after (CHR '':'') (url_user_info u)"

definition credential_free_https :: "split_url \<Rightarrow> bool" where
  "credential_free_https u \<longleftrightarrow> url_scheme u = ''https'' \<and> url_hostname u \<noteq> [] \<and> url_username u = []
     \<and> url_password u = [] \<and> url_query u = [] \<and> url_fragment u = []"

definition source_keys :: "string list" where
  "source_keys = [''repository'', ''base_ref'', ''base_revision'']"

definition helper_keys :: "string list" where
  "helper_keys = [''helper_request_id'', ''helper_parent_id'', ''helper_parent_claim_revision'', ''helper_objective'',
     ''helper_allowed_paths'', ''helper_verification'', ''helper_parent_contract_sha256'', ''logical_route'']"

text \<open>The value of one key in the card's meta and its links: at least one, and the same in both.\<close>

definition link_value :: "card \<Rightarrow> string \<Rightarrow> json" where
  "link_value p k = (case map_of (cd_links p) (JStr k) of None \<Rightarrow> JNull | Some v \<Rightarrow> v)"

definition source_text :: "string \<Rightarrow> json \<Rightarrow> string list result" where
  "source_text k v = (case v of
      JNull \<Rightarrow> Inr []
    | JStr s \<Rightarrow> Inr (if blank s then [] else [if k = ''base_revision'' then lower (strip s) else strip s])
    | _ \<Rightarrow> Inl (ValueError ''parent source must be a string''))"

definition source_value :: "card \<Rightarrow> string \<Rightarrow> string result" where
  "source_value p k =
     r_bind (source_text k (get (cd_meta p) k)) (\<lambda>xs. r_bind (source_text k (link_value p k)) (\<lambda>ys.
       case dedup (xs @ ys) of [v] \<Rightarrow> Inr v | _ \<Rightarrow> Inl (ValueError ''parent source is missing or conflicting'')))"

definition source_binding :: "(string \<Rightarrow> bool) \<Rightarrow> card \<Rightarrow> (string \<times> string) list result" where
  "source_binding brackets p =
     r_bind (source_value p ''repository'') (\<lambda>repo.
     r_bind (source_value p ''base_ref'') (\<lambda>ref.
     r_bind (source_value p ''base_revision'') (\<lambda>crev.
     r_bind (urlsplit brackets repo) (\<lambda>u.
       if \<not> credential_free_https u then Inl (ValueError ''parent repository must be credential-free HTTPS'')
       else if \<not> hex_text 40 crev then Inl (ValueError ''parent base_revision must be an exact commit'')
       else if list_ex (\<lambda>c. is_space c \<or> (of_char c :: nat) < 32) ref then Inl (ValueError ''parent base_ref must be a named ref'')
       else Inr [(''repository'', repo), (''base_ref'', ref), (''base_revision'', crev)]))))"

section \<open>The request\<close>

definition refuse_if :: "bool \<Rightarrow> string \<Rightarrow> unit result" where
  "refuse_if b m = (if b then Inl (ValueError m) else Inr ())"

lemma refuse_if_ok [simp]: "refuse_if b m = Inr u \<longleftrightarrow> \<not> b"
  by (simp add: refuse_if_def)

text \<open>The parent is an open card that the actor works on under the claim revision that the request names.\<close>

definition helper_parent_current :: "card option \<Rightarrow> string \<Rightarrow> string \<Rightarrow> card result" where
  "helper_parent_current parent actor crev =
     (case parent of
        None \<Rightarrow> Inl (ValueError ''helper parent owner/claim is not current and active'')
      | Some p \<Rightarrow>
          if cd_archived p \<or> truthy (get (cd_meta p) ''voided'') \<or> cd_status p \<notin> {Ready, Doing}
             \<or> cd_owner p \<noteq> JStr actor \<or> actor = [] \<or> crev = []
             \<or> get (cd_meta p) ''_claim_revision'' \<noteq> JStr crev \<or> truthy (get (cd_meta p) ''claim_conflicts'')
          then Inl (ValueError ''helper parent owner/claim is not current and active'') else Inr p)"

definition reviewer_label :: "string \<Rightarrow> bool" where
  "reviewer_label l \<longleftrightarrow> starts_with (lower l) ''seat-'' \<or> lower l = ''review''"

fun any_reviewer :: "json list \<Rightarrow> bool result" where
  "any_reviewer [] = Inr False"
| "any_reviewer (JStr l # ls) = (if reviewer_label l then Inr True else any_reviewer ls)"
| "any_reviewer (_ # ls) = Inl AttributeError"

definition review_title :: "string \<Rightarrow> bool" where
  "review_title t \<longleftrightarrow> contains (lower t) ''[review]'' \<or> contains (lower t) ''[rereview]''"

definition review_text :: "json \<Rightarrow> bool result" where
  "review_text v = (case v of JStr t \<Rightarrow> Inr (review_title t) | _ \<Rightarrow> Inl TypeError)"

definition delegates :: "card \<Rightarrow> bool result" where
  "delegates p =
     (if cd_kind p \<noteq> Task \<or> truthy (get (cd_meta p) ''helper_parent_id'') then Inr False
      else r_bind (any_reviewer (cd_labels p)) (\<lambda>r. if r then Inr False
        else r_bind (review_text (cd_title p)) (\<lambda>r. Inr (\<not> r))))"

definition request_id_ok :: "json \<Rightarrow> bool" where
  "request_id_ok v = (case v of
      JStr (c # cs) \<Rightarrow> is_alnum c \<and> length cs \<le> 63 \<and> list_all (\<lambda>c. is_alnum c \<or> c \<in> set ''_.-'') cs
    | _ \<Rightarrow> False)"

definition helper_identity :: "store_env \<Rightarrow> coord_task \<Rightarrow> string \<Rightarrow> card \<Rightarrow> string \<Rightarrow> string \<Rightarrow> unit result" where
  "helper_identity env t actor p pid crev =
     (let m = ta_meta t in
      r_bind (refuse_if (ta_created_by t \<noteq> actor \<or> ta_created_at t \<noteq> cd_created_at p)
        ''helper creator and stable creation time must match its parent'') (\<lambda>_.
      r_bind (refuse_if (set (map fst m) \<noteq> set (source_keys @ helper_keys))
        ''helper metadata must contain only source and helper contract fields'') (\<lambda>_.
      r_bind (refuse_if (get m ''helper_parent_contract_sha256'' \<noteq> JStr (parent_contract_digest env p))
        ''helper parent contract changed before creation'') (\<lambda>_.
      r_bind (refuse_if (\<not> request_id_ok (get m ''helper_request_id''))
        ''helper_request_id must be a stable request identifier'') (\<lambda>_.
      r_bind (refuse_if (ta_id t \<noteq> take 8 (se_sha env (pid @ '':'' @ py_str (get m ''helper_request_id''))))
        ''helper ID must bind its parent and request'') (\<lambda>_.
      refuse_if (get m ''helper_parent_id'' \<noteq> JStr pid \<or> get m ''helper_parent_claim_revision'' \<noteq> JStr crev)
        ''helper metadata does not match the parent's current claim''))))))"

section \<open>Routes, restrictions and content\<close>

definition kept_labels :: "card \<Rightarrow> string list" where
  "kept_labels p = filter (\<lambda>l. starts_with l ''parent-'' \<or> \<not> is_route_label l) (texts_of (cd_labels p))"

definition required_tags :: "card \<Rightarrow> string \<Rightarrow> string \<Rightarrow> string list" where
  "required_tags p pid route = kept_labels p @ [''source-only'', ''owner-helper'', ''parent-'' @ pid, route]"

definition route_tags :: "string list \<Rightarrow> string list" where
  "route_tags tags = map route_text (filter is_route_label tags)"

definition helper_routing :: "coord_task \<Rightarrow> card \<Rightarrow> string \<Rightarrow> unit result" where
  "helper_routing t p pid =
     (case get (ta_meta t) ''logical_route'' of
        JStr route \<Rightarrow>
          r_bind (refuse_if (route \<notin> set routes) ''helper logical_route is not a supported exact route'') (\<lambda>_.
          r_bind (refuse_if (\<not> set (route_tags (texts_of (cd_labels p))) \<subseteq> set routes)
            ''helper parent has an unsupported inherited route'') (\<lambda>_.
          r_bind (refuse_if (length (filter (\<lambda>r. r = route) (route_tags (ta_tags t))) \<noteq> 1)
            ''helper must carry exactly one occurrence of the selected route tag'') (\<lambda>_.
          r_bind (refuse_if (\<exists>r\<in>set (route_tags (ta_tags t)). r \<noteq> route) ''helper must not carry a second exact route tag'') (\<lambda>_.
          refuse_if (set (ta_tags t) \<noteq> set (required_tags p pid route))
            ''helper must preserve parent restrictions without granting new ones''))))
      | _ \<Rightarrow> Inl (ValueError ''helper logical_route is not a supported exact route''))"

definition helper_dependencies :: "coord_task \<Rightarrow> card \<Rightarrow> string \<Rightarrow> unit result" where
  "helper_dependencies t p pid =
     (if \<not> list_all hashable (cd_dependencies p) then Inl TypeError
      else refuse_if (JStr ` set (ta_dependencies t) \<noteq> set (cd_dependencies p)
          \<or> pid \<in> set (ta_dependencies t) \<or> ta_id t \<in> set (ta_dependencies t))
        ''helper must retain external dependencies without a parent cycle'')"

text \<open>\<open>re.findall(r"\[(?:S|M|L|XL)\]", title)\<close>.\<close>

fun size_marks :: "string \<Rightarrow> string list" where
  "size_marks [] = []"
| "size_marks (c # s) = filter (starts_with (c # s)) [''[S]'', ''[M]'', ''[L]'', ''[XL]''] @ size_marks s"

definition helper_content :: "coord_task \<Rightarrow> path list result" where
  "helper_content t =
     (let m = ta_meta t in
      r_bind (refuse_if (size_marks (ta_title t) \<notin> {[''[S]''], [''[M]'']} \<or> review_title (ta_title t))
        ''helper needs a bounded source title'') (\<lambda>_.
      r_bind (bounded_strings False (JList (map JStr (ta_criteria t)))) (\<lambda>_.
      r_bind (bounded_strings False (get m ''helper_verification'')) (\<lambda>_.
      r_bind (refuse_if (case get m ''helper_objective'' of JStr s \<Rightarrow> blank s \<or> length s > 8192 | _ \<Rightarrow> True)
        ''helper_objective must identify a bounded output'') (\<lambda>_.
      repository_paths (get m ''helper_allowed_paths''))))))"

section \<open>Siblings\<close>

definition active_helper :: "string \<Rightarrow> card \<Rightarrow> bool" where
  "active_helper pid c \<longleftrightarrow> \<not> cd_archived c \<and> \<not> truthy (get (cd_meta c) ''voided'') \<and> cd_status c \<noteq> Done
     \<and> get (cd_meta c) ''helper_parent_id'' = JStr pid"

definition sibling_check :: "coord_task \<Rightarrow> string \<Rightarrow> path list \<Rightarrow> card \<Rightarrow> unit result" where
  "sibling_check t pid ps c =
     (if cd_id c = ta_id t \<or> \<not> active_helper pid c then Inr ()
      else r_bind (repository_paths (get (cd_meta c) ''helper_allowed_paths'')) (\<lambda>qs.
        refuse_if (paths_overlap ps qs) (''helper write paths overlap active helper '' @ cd_id c)))"

record helper_env =
  he_store :: store_env
  he_why :: "py_error \<Rightarrow> string"
  he_brackets :: "string \<Rightarrow> bool"

definition validate_helper_request ::
    "helper_env \<Rightarrow> store \<Rightarrow> coord_task \<Rightarrow> string \<Rightarrow> string \<Rightarrow> string \<Rightarrow> string \<Rightarrow> unit result" where
  "validate_helper_request env st t digest actor pid crev =
     r_bind (cs_fold (he_store env) st pid) (\<lambda>parent.
     r_bind (helper_parent_current parent actor crev) (\<lambda>p.
     r_bind (delegates p) (\<lambda>d.
     r_bind (refuse_if (\<not> d) ''governed reviewers and helpers cannot delegate helpers'') (\<lambda>_.
     r_bind (helper_identity (he_store env) t actor p pid crev) (\<lambda>_.
     r_bind (source_binding (he_brackets env) p) (\<lambda>binding.
     r_bind (refuse_if (\<not> (\<forall>(k, v)\<in>set binding. get (ta_meta t) k = JStr v)) ''helper must match its parent's exact source'') (\<lambda>_.
     r_bind (helper_routing t p pid) (\<lambda>_.
     r_bind (helper_dependencies t p pid) (\<lambda>_.
     r_bind (helper_content t) (\<lambda>paths.
     r_bind (refuse_if (digest \<noteq> request_digest (he_store env) (task_dump t))
       ''helper request digest does not match its exact content'') (\<lambda>_.
     if paths = [] then Inr ()
     else r_bind (cs_list_cards (he_why env) (he_store env) False False st) (\<lambda>cards.
       r_bind (r_map (sibling_check t pid paths) cards) (\<lambda>_. Inr ())))))))))))))"

section \<open>Files below a path\<close>

lemma split_on_not_Nil [simp]: "split_on c s \<noteq> []"
  by (cases s) (auto split: list.split)

lemma split_on_append: "split_on c (s @ c # t) = split_on c s @ split_on c t"
proof (induction s)
  case (Cons x s)
  then show ?case by (cases "split_on c s") simp_all
qed simp

lemma split_on_free: "w \<in> set (split_on c s) \<Longrightarrow> c \<notin> set w"
proof (induction s arbitrary: w)
  case (Cons x s)
  then show ?case by (cases "split_on c s") (auto split: if_splits)
qed simp

lemma split_on_single: "c \<notin> set w \<Longrightarrow> split_on c w = [w]"
  by (induction w) auto

lemma split_on_join:
  "ws \<noteq> [] \<Longrightarrow> \<forall>w\<in>set ws. c \<notin> set w \<Longrightarrow> split_on c (join [c] ws) = ws"
proof (induction "[c]" ws rule: join.induct)
  case (3 x y ys)
  then have "split_on c (x @ c # join [c] (y # ys)) = x # y # ys"
    unfolding split_on_append by (simp add: split_on_single)
  then show ?case by simp
qed (simp_all add: split_on_single)

lemma join_append: "xs \<noteq> [] \<Longrightarrow> ys \<noteq> [] \<Longrightarrow> join sep (xs @ ys) = join sep xs @ sep @ join sep ys"
proof (induction sep xs rule: join.induct)
  case (2 sep x)
  then show ?case by (cases ys) simp_all
qed simp_all

lemma path_parts_append: "path_parts (s @ CHR ''/'' # t) = path_parts s @ path_parts t"
  by (simp add: path_parts_def split_on_append)

lemma path_parts_words: "w \<in> set (path_parts s) \<Longrightarrow> w \<noteq> [] \<and> w \<noteq> ''.'' \<and> CHR ''/'' \<notin> set w"
  by (auto simp: path_parts_def dest: split_on_free)

lemma literal_parts:
  assumes "literal_path s"
  shows "path_parts s \<noteq> []" and "join ''/'' (path_parts s) = s"
proof -
  show parts: "path_parts s \<noteq> []" using assms by (auto simp: literal_path_def path_text_def)
  then show "join ''/'' (path_parts s) = s" using assms by (simp add: literal_path_def path_text_def)
qed

text \<open>A file is named by its path from the root of the repository; it lies at or below the path \<open>s\<close>.\<close>

definition file_under :: "string \<Rightarrow> string \<Rightarrow> bool" where
  "file_under s f \<longleftrightarrow> f = s \<or> starts_with f (s @ ''/'')"

lemma file_under_prefix:
  assumes "literal_path s" and "literal_path f"
  shows "file_under s f \<longleftrightarrow> prefix (path_parts s) (path_parts f)"
proof
  assume "file_under s f"
  then show "prefix (path_parts s) (path_parts f)"
    by (auto simp: file_under_def starts_with_iff path_parts_append)
next
  assume "prefix (path_parts s) (path_parts f)"
  then obtain ws where f: "path_parts f = path_parts s @ ws" by (auto elim: prefixE)
  show "file_under s f"
  proof (cases "ws = []")
    case True
    then show ?thesis using f literal_parts [OF assms(1)] literal_parts [OF assms(2)] by (simp add: file_under_def)
  next
    case False
    then have "f = s @ ''/'' @ join ''/'' ws"
      using f literal_parts [OF assms(1)] literal_parts [OF assms(2)] join_append [of "path_parts s" ws "''/''"] by simp
    then show ?thesis by (auto simp: file_under_def starts_with_iff)
  qed
qed

text \<open>The check on parts is exact: two lists of paths overlap if and only if some path lies below both.\<close>

lemma paths_overlap_iff:
  "paths_overlap ps qs \<longleftrightarrow> (\<exists>f. (\<exists>p\<in>set ps. prefix p f) \<and> (\<exists>q\<in>set qs. prefix q f))"
proof
  assume "paths_overlap ps qs"
  then obtain a b where "a \<in> set ps" "b \<in> set qs" "prefix a b \<or> prefix b a"
    by (auto simp: paths_overlap_def list_ex_iff strict_prefix_def)
  then show "\<exists>f. (\<exists>p\<in>set ps. prefix p f) \<and> (\<exists>q\<in>set qs. prefix q f)" by blast
next
  assume "\<exists>f. (\<exists>p\<in>set ps. prefix p f) \<and> (\<exists>q\<in>set qs. prefix q f)"
  then obtain p q where "p \<in> set ps" "q \<in> set qs" "prefix p q \<or> prefix q p"
    using prefix_same_cases by blast
  then show "paths_overlap ps qs" by (auto simp: paths_overlap_def list_ex_iff strict_prefix_def)
qed

text \<open>What a helper with this meta may write: everything at or below one of its allowed paths.\<close>

definition may_write :: "jobj \<Rightarrow> string \<Rightarrow> bool" where
  "may_write m f \<longleftrightarrow> (\<exists>s. (case get m ''helper_allowed_paths'' of JList xs \<Rightarrow> JStr s \<in> set xs | _ \<Rightarrow> False) \<and> file_under s f)"

lemma repository_paths_InrD:
  assumes "repository_paths v = Inr ps"
  obtains ss where "v = JList (map JStr ss)" "list_all literal_path ss" "ps = map path_parts ss" "distinct ss" "length ss \<le> 64"
proof -
  obtain xs where v: "v = JList xs" "list_all bounded_item xs" "distinct xs" "length xs \<le> 64"
    and ps: "list_all literal_path (texts_of xs)" "ps = map path_parts (texts_of xs)"
    using assms by (auto simp: repository_paths_def bounded_strings_def split: json.splits if_splits)
  from v(2) have "xs = map JStr (texts_of xs)"
    by (induction xs) (auto simp: bounded_item_def texts_of_def List.map_filter_simps split: json.splits)
  then obtain ss where "xs = map JStr ss" by blast
  with v ps show thesis by (intro that [of ss]) (simp_all add: distinct_map)
qed

lemma may_write_iff:
  assumes "repository_paths (get m ''helper_allowed_paths'') = Inr ps" and "literal_path f"
  shows "may_write m f \<longleftrightarrow> (\<exists>p\<in>set ps. prefix p (path_parts f))"
proof -
  obtain ss where "get m ''helper_allowed_paths'' = JList (map JStr ss)" "list_all literal_path ss" "ps = map path_parts ss"
    using repository_paths_InrD [OF assms(1)] by metis
  then show ?thesis
    using file_under_prefix [OF _ assms(2)] by (auto simp: may_write_def list_all_iff)
qed

section \<open>What an accepted request has passed\<close>

lemma validate_accepted:
  assumes "validate_helper_request env st t digest actor pid crev = Inr ()"
  obtains p binding ps where "cs_fold (he_store env) st pid = Inr (Some p)"
    "helper_parent_current (Some p) actor crev = Inr p" "delegates p = Inr True"
    "helper_identity (he_store env) t actor p pid crev = Inr ()"
    "source_binding (he_brackets env) p = Inr binding" "\<forall>(k, v)\<in>set binding. get (ta_meta t) k = JStr v"
    "helper_routing t p pid = Inr ()" "helper_dependencies t p pid = Inr ()" "helper_content t = Inr ps"
    "digest = request_digest (he_store env) (task_dump t)"
    "ps \<noteq> [] \<Longrightarrow> \<exists>cards. cs_list_cards (he_why env) (he_store env) False False st = Inr cards
        \<and> (\<forall>c\<in>set cards. sibling_check t pid ps c = Inr ())"
proof -
  obtain parent p d binding ps where run: "cs_fold (he_store env) st pid = Inr parent"
    "helper_parent_current parent actor crev = Inr p" "delegates p = Inr d" "d"
    "helper_identity (he_store env) t actor p pid crev = Inr ()"
    "source_binding (he_brackets env) p = Inr binding" "\<forall>(k, v)\<in>set binding. get (ta_meta t) k = JStr v"
    "helper_routing t p pid = Inr ()" "helper_dependencies t p pid = Inr ()" "helper_content t = Inr ps"
    "digest = request_digest (he_store env) (task_dump t)"
    and sib: "(if ps = [] then Inr () else r_bind (cs_list_cards (he_why env) (he_store env) False False st) (\<lambda>cards.
       r_bind (r_map (sibling_check t pid ps) cards) (\<lambda>_. Inr ()))) = Inr ()"
    using assms unfolding validate_helper_request_def
    by (elim r_bind_InrE) (simp del: split_paired_Ex split_paired_All)
  have "parent = Some p"
    using run(2) by (auto simp: helper_parent_current_def split: option.splits if_splits)
  moreover have "delegates p = Inr True" using run(3,4) by simp
  moreover have "\<exists>cards. cs_list_cards (he_why env) (he_store env) False False st = Inr cards
        \<and> (\<forall>c\<in>set cards. sibling_check t pid ps c = Inr ())" if some: "ps \<noteq> []"
  proof -
    obtain cards us where "cs_list_cards (he_why env) (he_store env) False False st = Inr cards"
      "r_map (sibling_check t pid ps) cards = Inr us"
      using sib some by (auto elim!: r_bind_InrE)
    moreover from this(2) have "\<forall>c\<in>set cards. \<exists>u. sibling_check t pid ps c = Inr u"
      by (induction cards arbitrary: us) (auto elim!: r_bind_InrE)
    ultimately show ?thesis by (metis (full_types) old.unit.exhaust)
  qed
  ultimately show thesis using run(1,2,5-11) by (intro that) simp_all
qed

text \<open>No file lies below an allowed path of the new helper and below one of an active sibling.\<close>

lemma accepted_paths_exclusive:
  assumes accepted: "validate_helper_request env st t digest actor pid crev = Inr ()"
    and listed: "cs_list_cards (he_why env) (he_store env) False False st = Inr cards" "c \<in> set cards"
    and active: "active_helper pid c" "cd_id c \<noteq> ta_id t" and f: "literal_path f"
  shows "\<not> (may_write (ta_meta t) f \<and> may_write (cd_meta c) f)"
proof -
  obtain ps where ps: "helper_content t = Inr ps"
    and sib: "ps \<noteq> [] \<Longrightarrow> \<exists>cards. cs_list_cards (he_why env) (he_store env) False False st = Inr cards
        \<and> (\<forall>c\<in>set cards. sibling_check t pid ps c = Inr ())"
    using accepted by (rule validate_accepted) blast
  from ps have own: "repository_paths (get (ta_meta t) ''helper_allowed_paths'') = Inr ps"
    by (auto simp: helper_content_def Let_def elim!: r_bind_InrE)
  show ?thesis
  proof (cases "ps = []")
    case True
    then show ?thesis using may_write_iff [OF own f] by simp
  next
    case False
    with sib listed have "sibling_check t pid ps c = Inr ()" by auto
    with active obtain qs where qs: "repository_paths (get (cd_meta c) ''helper_allowed_paths'') = Inr qs" "\<not> paths_overlap ps qs"
      by (auto simp: sibling_check_def elim!: r_bind_InrE)
    then show ?thesis using may_write_iff [OF own f] may_write_iff [OF qs(1) f] paths_overlap_iff by blast
  qed
qed

section \<open>The contract of a helper is for good\<close>

text \<open>No event writes into the meta under a key other than these.\<close>

definition event_keys :: "string list" where
  "event_keys = [''voided'', ''voided_at'', ''voided_by'', ''_claim_revision'', ''claim_conflicts'', ''release_conflicts'',
     ''comments'', ''agent_run'', ''archived_at'', ''archived_by'']"

definition same_meta :: "string \<Rightarrow> card \<Rightarrow> card \<Rightarrow> bool" where
  "same_meta k c c' \<longleftrightarrow> get (cd_meta c') k = get (cd_meta c) k"

lemma meta_append_same: "meta_append j v c = Inr c' \<Longrightarrow> k \<noteq> j \<Longrightarrow> same_meta k c c'"
  by (auto simp: meta_append_def append_item_def same_meta_def elim!: r_bind_InrE split: option.splits json.splits)

lemma with_run_same: "with_run f c e = Inr c' \<Longrightarrow> k \<noteq> ''agent_run'' \<Longrightarrow> same_meta k c c'"
  by (auto simp: with_run_def Let_def same_meta_def on_meta_def elim!: r_bind_InrE split: if_splits json.splits)

lemma to_column_meta: "to_column v c = Inr c' \<Longrightarrow> cd_meta c' = cd_meta c"
  by (auto simp: to_column_def split: if_splits option.splits)

lemma handler_same_meta:
  assumes "handler_of a c e = Inr c'" and "k \<notin> set event_keys"
  shows "same_meta k c c'"
  using assms(1)
proof (rule handler_of_Inr)
  have k: "k \<noteq> ''voided''" "k \<noteq> ''voided_at''" "k \<noteq> ''voided_by''" "k \<noteq> ''_claim_revision''" "k \<noteq> ''claim_conflicts''"
    "k \<noteq> ''release_conflicts''" "k \<noteq> ''comments''" "k \<noteq> ''agent_run''" "k \<noteq> ''archived_at''" "k \<noteq> ''archived_by''"
    using assms(2) by (simp_all add: event_keys_def)
  have release: "cd_on_release c e = Inr c' \<Longrightarrow> same_meta k c c'"
    using k by (auto simp: cd_on_release_def Let_def drop_revision_def on_meta_def same_meta_def [of _ c]
        dest!: meta_append_same [of _ _ _ _ k] split: if_splits elim!: r_bind_InrE)
  have claim: "cd_on_claim c e = Inr c' \<Longrightarrow> same_meta k c c'"
    using k by (auto simp: cd_on_claim_def Let_def drop_revision_def on_meta_def same_meta_def
        dest!: meta_append_same [of _ _ _ _ k, unfolded same_meta_def] split: if_splits)
  have others: "cd_on_note c e = Inr c' \<Longrightarrow> same_meta k c c'" "cd_on_amend_criteria c e = Inr c' \<Longrightarrow> same_meta k c c'"
    "cd_on_link c e = Inr c' \<Longrightarrow> same_meta k c c'" "cd_on_reopen c e = Inr c' \<Longrightarrow> same_meta k c c'"
    "cd_on_move c e = Inr c' \<Longrightarrow> same_meta k c c'"
    using k
    by (auto simp: cd_on_note_def cd_on_amend_criteria_def cd_on_link_def cd_on_reopen_def cd_on_move_def Let_def same_meta_def
        dest!: to_column_meta meta_append_same [of _ _ _ _ k, unfolded same_meta_def] split: if_splits json.splits elim!: r_bind_InrE)
  show "list_all (\<lambda>(x, h). a = JStr x \<longrightarrow> h c e = Inr c' \<longrightarrow> same_meta k c c') cd_handlers"
    unfolding cd_handlers_def list.pred_inject prod.case
    using release claim others with_run_same [OF _ k(8)] k
    by (intro conjI impI) (auto simp: cd_on_void_def cd_on_assign_def cd_on_unassign_def cd_on_complete_def cd_on_priority_def
        cd_on_swimlane_def cd_on_add_label_def cd_on_remove_label_def cd_on_describe_def cd_on_add_dependency_def
        cd_on_remove_dependency_def cd_on_run_request_def cd_on_archive_def drop_revision_def on_meta_def same_meta_def split: if_splits)
qed (simp add: same_meta_def)

interpretation card_contract: event_fold card_step "\<lambda>_. True" "\<lambda>_. True"
  "\<lambda>s t. \<forall>k. k \<notin> set event_keys \<longrightarrow> same_meta k (st_card s) (st_card t)"
  by unfold_locales (auto simp: same_meta_def stamp_def elim!: card_stepE dest!: handler_same_meta)

text \<open>Whatever was appended to a card, its fold shows the meta of its core under every other key.\<close>

lemma fold_meta:
  assumes "cs_load_core st cid = Inr (Some core)" and "get core ''meta'' = JObj m" and "cs_fold env st cid = Inr (Some c)"
    and "k \<notin> set event_keys"
  shows "get (cd_meta c) k = get m k"
proof -
  obtain s log t where s: "card_start core = Inr s" and t: "r_fold card_step s log = Inr t" and c: "c = st_card t"
    using assms(1,3) by (auto simp: cs_fold_def fold_card_def elim!: r_bind_InrE)
  have "get_d core ''meta'' (JObj []) = JObj m" using assms(2) by (auto simp: get_def get_d_def split: option.splits)
  then have "get (cd_meta (st_card s)) k = get m k"
    using s assms(4) by (auto simp: card_start_def card_at_birth_def initial_claim_def event_keys_def elim!: r_bind_InrE split: if_splits)
  moreover have "same_meta k (st_card s) (st_card t)"
    using card_contract.fold_grows [OF _ _ t] assms(4) by (simp add: list_all_iff)
  ultimately show ?thesis by (simp add: same_meta_def c)
qed

section \<open>Properties\<close>

text \<open>
  C17. A helper never delegates: once a request for it was accepted, no request with the helper as the parent is
  accepted, by whomever, in whatever later state its card is, because no event changes its contract.
\<close>

theorem helpers_never_delegate:
  assumes accepted: "validate_helper_request env st t digest actor pid crev = Inr ()"
    and born: "cs_load_core st' (ta_id t) = Inr (Some (core_dump (task_core t owner claim)))"
  shows "validate_helper_request env' st' u digest' actor' (ta_id t) crev' \<noteq> Inr ()"
proof
  assume "validate_helper_request env' st' u digest' actor' (ta_id t) crev' = Inr ()"
  then obtain h where h: "cs_fold (he_store env') st' (ta_id t) = Inr (Some h)" "delegates h = Inr True"
    by (rule validate_accepted) blast
  obtain p where p: "cs_fold (he_store env) st pid = Inr (Some p)" "helper_identity (he_store env) t actor p pid crev = Inr ()"
    using accepted by (rule validate_accepted) blast
  from p(1) have "pid \<noteq> []"
    by (auto simp: cs_fold_def cs_load_core_def valid_identifier_def elim!: r_bind_InrE split: if_splits)
  moreover from p(2) have "get (ta_meta t) ''helper_parent_id'' = JStr pid"
    by (auto simp: helper_identity_def Let_def elim!: r_bind_InrE)
  moreover have "get (cd_meta h) ''helper_parent_id'' = get (ta_meta t) ''helper_parent_id''"
    by (rule fold_meta [OF born _ h(1)]) (simp_all add: core_dump_def get_def event_keys_def)
  ultimately show False using h(2) by (simp add: delegates_def split: if_splits)
qed

text \<open>A parent, a sibling that writes under \<open>docs\<close>, and a helper for one source file.\<close>

definition plain_task :: "string \<Rightarrow> string \<Rightarrow> string list \<Rightarrow> jobj \<Rightarrow> coord_task" where
  "plain_task tid title tags meta =
     \<lparr>ta_id = tid, ta_title = title, ta_description = [], ta_priority = ''medium'', ta_tags = tags, ta_created_by = ''ana'',
      ta_created_at = ''2026-01-01'', ta_criteria = [''works''], ta_dependencies = [], ta_notes = [], ta_meta = meta\<rparr>"

definition source_meta :: jobj where
  "source_meta = [(''repository'', JStr ''https://h/r''), (''base_ref'', JStr ''main''),
     (''base_revision'', JStr (replicate 40 CHR ''a''))]"

definition helper_meta :: "string \<Rightarrow> jobj" where
  "helper_meta p = source_meta @ [(''helper_request_id'', JStr ''r1''), (''helper_parent_id'', JStr ''p1''),
     (''helper_parent_claim_revision'', JStr ''rv''), (''helper_objective'', JStr ''do it''),
     (''helper_allowed_paths'', JList [JStr p]), (''helper_verification'', JList [JStr ''run it'']),
     (''helper_parent_contract_sha256'', flat_digest), (''logical_route'', JStr ''sk-s'')]"

definition parent_task :: coord_task where
  "parent_task = plain_task ''p1'' ''Work'' [''keep''] source_meta"

definition helper_task :: "string \<Rightarrow> string \<Rightarrow> coord_task" where
  "helper_task tid p = plain_task tid ''Fix [S]'' [''keep'', ''source-only'', ''owner-helper'', ''parent-p1'', ''sk-s''] (helper_meta p)"

definition core_dir :: "card_core \<Rightarrow> card_dir" where
  "core_dir c = \<lparr>dir_core = Some (CoreJson (JObj (core_dump c))), dir_events = []\<rparr>"

definition helper_store :: store where
  "helper_store = (sample_store [])\<lparr>so_cards := [(''hhhhhhhh'', core_dir (task_core (helper_task ''hhhhhhhh'' ''docs'') None None)),
     (''p1'', core_dir (task_core parent_task (Some ''ana'') (Some ''rv'')))]\<rparr>"

definition sample_helper_env :: helper_env where
  "sample_helper_env = \<lparr>he_store = flat_env, he_why = (\<lambda>e. []), he_brackets = (\<lambda>s. False)\<rparr>"

lemma helper_accepted:
  "validate_helper_request sample_helper_env helper_store (helper_task ''aaaaaaaa'' ''src/a.py'') (replicate 64 CHR ''a'') ''ana'' ''p1'' ''rv'' = Inr ()"
  by code_simp

theorem helpers_never_delegate_witness:
  "validate_helper_request sample_helper_env ((sample_store [])\<lparr>so_cards :=
       [(''aaaaaaaa'', core_dir (task_core (helper_task ''aaaaaaaa'' ''src/a.py'') (Some ''eve'') (Some ''x'')))]\<rparr>)
     (helper_task ''aaaaaaaa'' ''lib'') (replicate 64 CHR ''a'') ''eve'' ''aaaaaaaa'' ''x'' \<noteq> Inr ()"
proof -
  have id1: "ta_id (helper_task ''aaaaaaaa'' ''src/a.py'') = ''aaaaaaaa''" by (simp add: helper_task_def plain_task_def)
  have "valid_identifier ''aaaaaaaa''" by code_simp
  then have "cs_load_core ((sample_store [])\<lparr>so_cards :=
       [(''aaaaaaaa'', core_dir (task_core (helper_task ''aaaaaaaa'' ''src/a.py'') (Some ''eve'') (Some ''x'')))]\<rparr>) ''aaaaaaaa''
     = Inr (Some (core_dump (task_core (helper_task ''aaaaaaaa'' ''src/a.py'') (Some ''eve'') (Some ''x''))))"
    by (simp add: cs_load_core_def core_dir_def)
  then show ?thesis using helpers_never_delegate [OF helper_accepted] id1 by simp
qed

end
