(* ===== verification/Task_Creation.thy ===== *)
theory Task_Creation
  imports Owner_Helpers Board_Guarantees
begin

text \<open>
  Creating tasks on the board (\<open>Board.create_task\<close>, \<open>create_explicit_task\<close>, \<open>create_helper_task\<close>,
  \<open>create_claimed_task\<close> of \<open>coordination.py\<close>): the card is born in the store first, then its task file is
  written. The state joins the nursery of cards with the board's agents and the task files.
\<close>

section \<open>File names\<close>

text \<open>The characters that \<open>\w\<close> matches.\<close>

definition word_char :: "char \<Rightarrow> bool" where
  "word_char c = (let n = (of_char c :: nat) in is_alnum c \<or> n \<in> {95, 170, 178, 179, 181, 185, 186, 188, 189, 190}
     \<or> (192 \<le> n \<and> n \<noteq> 215 \<and> n \<noteq> 247))"

definition illegal_char :: "char \<Rightarrow> bool" where
  "illegal_char c \<longleftrightarrow> c \<in> set [CHR ''/'', CHR 0x5C, CHR '':'', CHR ''*'', CHR ''?'', CHR 0x22, CHR ''<'', CHR ''>'', CHR ''|'']"

text \<open>\<open>re.sub(r"[\s_]+", "-", s)\<close>.\<close>

fun dash_runs :: "bool \<Rightarrow> string \<Rightarrow> string" where
  "dash_runs inside [] = []"
| "dash_runs inside (c # s) =
     (if is_space c \<or> c = CHR ''_'' then (if inside then dash_runs True s else CHR ''-'' # dash_runs True s)
      else c # dash_runs False s)"

definition trim_dashes :: "string \<Rightarrow> string" where
  "trim_dashes s = rev (dropWhile (\<lambda>c. c = CHR ''-'') (rev (dropWhile (\<lambda>c. c = CHR ''-'') s)))"

definition slugify_filename :: "string \<Rightarrow> string" where
  "slugify_filename s = trim_dashes (dash_runs False
     (filter (\<lambda>c. word_char c \<or> is_space c \<or> c = CHR ''-'')
       (map (\<lambda>c. if illegal_char c then CHR ''-'' else c) (strip (lower s)))))"

definition task_path :: "coord_task \<Rightarrow> string" where
  "task_path t = ta_id t @ ''-'' @ take 40 (slugify_filename (ta_title t)) @ ''.json''"

section \<open>The state\<close>

text \<open>A name in \<open>tasks/\<close>: a regular file, or something else, with what following it reads, if anything.\<close>

datatype task_place = Regular core_file | Irregular "core_file option"

record workshop =
  wo_nursery :: nursery
  wo_board :: board
  wo_files :: "(string \<times> task_place) list"

record work_env =
  we_birth :: birth_env
  we_flag :: string
  we_fault :: "nat \<Rightarrow> fault"
  we_brackets :: "string \<Rightarrow> bool"

definition we_board :: "work_env \<Rightarrow> board_env" where
  "we_board env = \<lparr>be_store = ne_store (we_birth env), be_flag = we_flag env, be_why = ne_why (we_birth env),
     be_fault = we_fault env\<rparr>"

definition we_helper :: "work_env \<Rightarrow> helper_env" where
  "we_helper env = \<lparr>he_store = ne_store (we_birth env), he_why = ne_why (we_birth env), he_brackets = we_brackets env\<rparr>"

abbreviation wo_store :: "workshop \<Rightarrow> store" where
  "wo_store w \<equiv> nu_store (wo_nursery w)"

text \<open>What the board makes of a task file; a file it cannot read as a task is skipped.\<close>

definition task_view_of :: "coord_task \<Rightarrow> task_view" where
  "task_view_of t = \<lparr>tv_id = ta_id t, tv_title = ta_title t, tv_description = ta_description t, tv_priority = ta_priority t,
     tv_tags = ta_tags t, tv_created_by = ta_created_by t, tv_created_at = ta_created_at t, tv_criteria = ta_criteria t,
     tv_dependencies = ta_dependencies t, tv_meta = ta_meta t, tv_status = TOpen, tv_claimed_by = None\<rparr>"

definition fresh_task_id :: "store_env \<Rightarrow> store \<Rightarrow> string" where
  "fresh_task_id env st = take 8 (se_uuid env (so_ids st))"

definition parse_task :: "work_env \<Rightarrow> workshop \<Rightarrow> core_file \<Rightarrow> coord_task result" where
  "parse_task env w f = (case f of
      CoreJson (JObj d) \<Rightarrow> task_model (fresh_task_id (ne_store (we_birth env)) (wo_store w)) (now_text (we_birth env) (wo_nursery w)) d
    | CoreJson _ \<Rightarrow> Inl ValidationError
    | CoreBad \<Rightarrow> Inl (ValueError ''JSONDecodeError''))"

definition node_view :: "work_env \<Rightarrow> workshop \<Rightarrow> task_place \<Rightarrow> task_view option" where
  "node_view env w x = (case (case x of Regular f \<Rightarrow> Some f | Irregular f \<Rightarrow> f) of
      None \<Rightarrow> None
    | Some f \<Rightarrow> (case parse_task env w f of Inl _ \<Rightarrow> None | Inr t \<Rightarrow> Some (task_view_of t)))"

definition board_of :: "work_env \<Rightarrow> workshop \<Rightarrow> board" where
  "board_of env w = (let views = map (\<lambda>(n, x). (n, node_view env w x)) (wo_files w) in
     (wo_board w)\<lparr>bo_store := (wo_store w)\<lparr>so_tasks := List.map_filter (map_option tv_id \<circ> snd) views\<rparr>, bo_tasks := views\<rparr>)"

text \<open>The operations on cards and on the board, as operations on the whole.\<close>

definition on_nursery :: "(nursery, 'a) op \<Rightarrow> (workshop, 'a) op" where
  "on_nursery m = (\<lambda>w. case m (wo_nursery w) of (r, n) \<Rightarrow> (r, w\<lparr>wo_nursery := n\<rparr>))"

definition on_board :: "work_env \<Rightarrow> (board, 'a) op \<Rightarrow> (workshop, 'a) op" where
  "on_board env m = (\<lambda>w. case m (board_of env w) of (r, b) \<Rightarrow>
     (r, w\<lparr>wo_board := b, wo_nursery := (wo_nursery w)\<lparr>nu_store := bo_store b\<rparr>\<rparr>))"

section \<open>Task files\<close>

text \<open>A task file goes to a temporary file and is renamed: the rename happens or not.\<close>

definition reached :: "io \<Rightarrow> bool" where
  "reached x = (case x of Fine \<Rightarrow> True | Fails e \<Rightarrow> e = Whole | Stops e \<Rightarrow> e = Whole)"

definition files_disk :: "work_env \<Rightarrow> ((string \<times> task_place) list \<Rightarrow> (string \<times> task_place) list) \<Rightarrow> (workshop, unit) op" where
  "files_disk env change = (\<lambda>w.
     let done1 = (\<not> nu_down (wo_nursery w) \<and> reached (ne_io (we_birth env) (nu_steps (wo_nursery w)))) in
     case disk (we_birth env) OSError (\<lambda>x n. n) (wo_nursery w) of
       (r, n) \<Rightarrow> (r, w\<lparr>wo_nursery := n, wo_files := (if done1 then change (wo_files w) else wo_files w)\<rparr>))"

definition task_node :: "coord_task \<Rightarrow> task_place" where
  "task_node t = Regular (CoreJson (JObj (task_dump t)))"

definition write_task :: "work_env \<Rightarrow> coord_task \<Rightarrow> (workshop, unit) op" where
  "write_task env t = files_disk env (AList.update (task_path t) (task_node t))"

text \<open>Equality of the models; the meta are dictionaries.\<close>

definition same_task :: "coord_task \<Rightarrow> coord_task \<Rightarrow> bool" where
  "same_task a b \<longleftrightarrow> a\<lparr>ta_meta := []\<rparr> = b\<lparr>ta_meta := []\<rparr> \<and> json_eq (JObj (ta_meta a)) (JObj (ta_meta b))"

definition task_conflict :: "coord_task \<Rightarrow> py_error" where
  "task_conflict t = ValueError (''Task '' @ ta_id t @ '' has an explicit creation conflict'')"

definition unsafe_projection :: py_error where
  "unsafe_projection = ValueError ''legacy projection is unsafe''"

definition check_projection :: "work_env \<Rightarrow> coord_task \<Rightarrow> core_file \<Rightarrow> workshop \<Rightarrow> unit result" where
  "check_projection env t f w = (case parse_task env w f of
      Inl _ \<Rightarrow> Inl (task_conflict t)
    | Inr s \<Rightarrow> if same_task s t then Inr () else Inl (task_conflict t))"

section \<open>Creating\<close>

text \<open>The card is governed before the file is written.\<close>

definition create_task :: "work_env \<Rightarrow> coord_task \<Rightarrow> (workshop, string) op" where
  "create_task env t =
     op_bind (if card_store_write_enabled (we_board env)
        then op_bind (on_nursery (create (we_birth env) (task_core t None None))) (\<lambda>_. op_return ()) else op_return ()) (\<lambda>_.
     op_bind (write_task env t) (\<lambda>_. op_return (task_path t)))"

text \<open>An irregular file is unlinked, whatever comes of it, and the call fails.\<close>

fun is_os_error :: "py_error \<Rightarrow> bool" where
  "is_os_error (OSError m) = True"
| "is_os_error FileNotFoundError = True"
| "is_os_error _ = False"

definition settle_projection :: "work_env \<Rightarrow> coord_task \<Rightarrow> (workshop, string) op" where
  "settle_projection env t =
     op_bind (op_read (\<lambda>w. map_of (wo_files w) (task_path t))) (\<lambda>node. case node of
       None \<Rightarrow> op_bind (write_task env t) (\<lambda>_. op_return (task_path t))
     | Some (Irregular _) \<Rightarrow> op_bind (op_catch is_os_error (files_disk env (AList.delete (task_path t))) ()) (\<lambda>_.
         op_raise unsafe_projection)
     | Some (Regular f) \<Rightarrow> op_bind (op_result (check_projection env t f)) (\<lambda>_. op_return (task_path t)))"

definition create_explicit_task :: "work_env \<Rightarrow> coord_task \<Rightarrow> string \<Rightarrow> string \<Rightarrow> (workshop, string) op" where
  "create_explicit_task env t digest actor =
     op_bind (on_nursery (create_explicit (we_birth env) (task_core t None None) digest actor)) (\<lambda>created.
     if created then op_bind (write_task env t) (\<lambda>_. op_return (task_path t)) else settle_projection env t)"

text \<open>A helper is validated and created under the lock of its parent.\<close>

definition holding :: "string \<Rightarrow> work_env \<Rightarrow> work_env" where
  "holding cid env = env\<lparr>we_birth := (we_birth env)\<lparr>ne_held := cid # ne_held (we_birth env)\<rparr>\<rparr>"

definition create_helper_task :: "work_env \<Rightarrow> coord_task \<Rightarrow> string \<Rightarrow> string \<Rightarrow> string \<Rightarrow> string \<Rightarrow> (workshop, string) op" where
  "create_helper_task env t digest actor pid crev =
     op_bind (op_result (\<lambda>w. card_lock (we_board env) pid (board_of env w))) (\<lambda>_.
     op_bind (op_result (\<lambda>w. validate_helper_request (we_helper env) (wo_store w) t digest actor pid crev)) (\<lambda>_.
       create_explicit_task (holding pid env) t digest actor))"

section \<open>Creating and claiming\<close>

definition claimed_conflict :: "coord_task \<Rightarrow> py_error" where
  "claimed_conflict t = ValueError (''CardStore create-and-claim conflict for '' @ ta_id t)"

definition draw_uuid :: "birth_env \<Rightarrow> (nursery, string) op" where
  "draw_uuid env = op_bind (op_read (\<lambda>n. se_uuid (ne_store env) (so_ids (nu_store n)))) (\<lambda>u.
     op_bind (op_write (\<lambda>n. n\<lparr>nu_store := (nu_store n)\<lparr>so_ids := so_ids (nu_store n) + 1\<rparr>\<rparr>)) (\<lambda>_. op_return u))"

definition claimed_revision :: "birth_env \<Rightarrow> coord_task \<Rightarrow> jobj option \<Rightarrow> (nursery, string) op" where
  "claimed_revision env t existing = (case existing of
      None \<Rightarrow> draw_uuid env
    | Some ex \<Rightarrow> (case get ex ''initial_claim_revision'' of
          JStr r \<Rightarrow> if r = [] then op_raise (claimed_conflict t) else op_return r
        | _ \<Rightarrow> op_raise (claimed_conflict t)))"

definition same_core :: "birth_env \<Rightarrow> card_core \<Rightarrow> jobj \<Rightarrow> nursery \<Rightarrow> bool result" where
  "same_core env core d n = r_bind (core_model (now_text env n) d) (\<lambda>c. Inr (json_eq (JObj (core_dump c)) (JObj (core_dump core))))"

definition require_same_core :: "birth_env \<Rightarrow> coord_task \<Rightarrow> card_core \<Rightarrow> jobj option \<Rightarrow> nursery \<Rightarrow> unit result" where
  "require_same_core env t core d n = (case d of
      None \<Rightarrow> Inl (claimed_conflict t)
    | Some x \<Rightarrow> r_bind (same_core env core x n) (\<lambda>same. if same then Inr () else Inl (claimed_conflict t)))"

definition claim_current :: "string \<Rightarrow> string \<Rightarrow> card option \<Rightarrow> bool" where
  "claim_current owner r c = (case c of None \<Rightarrow> False
     | Some k \<Rightarrow> cd_owner k = JStr owner \<and> cd_status k = claim_column \<and> get (cd_meta k) ''_claim_revision'' = JStr r)"

definition explicit_or_plain :: "birth_env \<Rightarrow> card_core \<Rightarrow> string \<Rightarrow> string \<Rightarrow> (nursery, unit) op \<Rightarrow> (nursery, unit) op" where
  "explicit_or_plain env core digest actor plain =
     (if digest = [] then plain else op_bind (create_explicit env core digest actor) (\<lambda>_. op_return ()))"

definition mirror_create_claimed :: "birth_env \<Rightarrow> coord_task \<Rightarrow> string \<Rightarrow> string \<Rightarrow> string \<Rightarrow> (nursery, string) op" where
  "mirror_create_claimed env t owner digest actor =
     op_bind (op_result (\<lambda>n. cs_load_core (nu_store n) (ta_id t))) (\<lambda>existing.
     op_bind (claimed_revision env t existing) (\<lambda>r.
     let core = task_core t (Some owner) (Some r) in
     if existing \<noteq> None
     then op_bind (explicit_or_plain env core digest actor (op_result (require_same_core env t core existing))) (\<lambda>_.
       op_bind (op_result (\<lambda>n. cs_fold (ne_store env) (nu_store n) (ta_id t))) (\<lambda>c.
         if claim_current owner r c then op_return r
         else op_raise (ValueError ''CardStore create-and-claim claim is no longer current'')))
     else op_bind (explicit_or_plain env core digest actor (op_bind (create env core) (\<lambda>_. op_return ()))) (\<lambda>_.
       op_bind (op_result (\<lambda>n. r_bind (cs_load_core (nu_store n) (ta_id t)) (\<lambda>created. require_same_core env t core created n))) (\<lambda>_.
         op_return r))))"

definition readback :: "work_env \<Rightarrow> coord_task \<Rightarrow> string \<Rightarrow> string \<Rightarrow> (workshop, string \<times> string) op" where
  "readback env t owner r =
     op_bind (op_result (\<lambda>w. cs_fold (ne_store (we_birth env)) (wo_store w) (ta_id t))) (\<lambda>c.
       if claim_current owner r c then op_return (task_path t, r)
       else op_raise (RuntimeError ''atomic create-and-claim readback failed''))"

text \<open>A replay checks the task file and never removes it.\<close>

definition claimed_replay :: "work_env \<Rightarrow> coord_task \<Rightarrow> string \<Rightarrow> string \<Rightarrow> string \<Rightarrow> (workshop, string \<times> string) op" where
  "claimed_replay env t owner digest actor =
     op_bind (on_nursery (mirror_create_claimed (we_birth env) t owner digest actor)) (\<lambda>r.
     op_bind (op_read (\<lambda>w. map_of (wo_files w) (task_path t))) (\<lambda>node.
     op_bind (case node of None \<Rightarrow> write_task env t | Some (Irregular _) \<Rightarrow> op_raise unsafe_projection
        | Some (Regular f) \<Rightarrow> op_result (check_projection env t f)) (\<lambda>_.
     readback env t owner r)))"

definition open_dependencies :: "task_view list \<Rightarrow> coord_task \<Rightarrow> string list" where
  "open_dependencies vs t = filter (\<lambda>d. case view_of vs d of None \<Rightarrow> True | Some v \<Rightarrow> tv_status v \<noteq> TDone) (ta_dependencies t)"

definition claimed_gate :: "work_env \<Rightarrow> coord_task \<Rightarrow> string \<Rightarrow> string \<Rightarrow> (workshop, unit) op" where
  "claimed_gate env t digest actor =
     (if ta_dependencies t = [] then op_return ()
      else op_bind (op_result (\<lambda>w. get_task_views (we_board env) True (board_of env w))) (\<lambda>vs.
        if open_dependencies vs t = [] then op_return ()
        else let why = ''Task '' @ ta_id t @ '' has incomplete dependencies: '' @ join '', '' (open_dependencies vs t) in
          op_bind (op_when (digest \<noteq> []) (on_nursery (reserve_explicit_rejection (we_birth env) (ta_id t) digest actor why))) (\<lambda>_.
            op_raise (ValueError why))))"

definition node_exists :: "task_place option \<Rightarrow> bool" where
  "node_exists x = (case x of None \<Rightarrow> False | Some (Irregular None) \<Rightarrow> False | _ \<Rightarrow> True)"

definition demote_bumped :: "work_env \<Rightarrow> string \<Rightarrow> string option \<Rightarrow> (workshop, unit) op" where
  "demote_bumped env owner bumped = (case bumped of None \<Rightarrow> op_return ()
     | Some b \<Rightarrow> on_board env (op_bind (bo_uuid (we_board env)) (\<lambda>u.
         mirrored (we_board env) (demote (we_board env) (Some b) owner u))))"

definition claimed_fresh :: "work_env \<Rightarrow> coord_task \<Rightarrow> string \<Rightarrow> string \<Rightarrow> string \<Rightarrow> (workshop, string \<times> string) op" where
  "claimed_fresh env t owner digest actor =
     op_bind (claimed_gate env t digest actor) (\<lambda>_.
     op_bind (on_nursery (mirror_create_claimed (we_birth env) t owner digest actor)) (\<lambda>r.
     op_bind (op_read (\<lambda>w. node_exists (map_of (wo_files w) (task_path t)))) (\<lambda>there.
     op_bind (op_when (digest = [] \<or> \<not> there) (write_task env t)) (\<lambda>_.
     op_bind (on_board env (claim_projection (we_board env) owner (ta_id t) False)) (\<lambda>(a, bumped).
     op_bind (demote_bumped env owner bumped) (\<lambda>_.
     readback env t (ag_name a) r))))))"

definition create_claimed_task :: "work_env \<Rightarrow> coord_task \<Rightarrow> string \<Rightarrow> string \<Rightarrow> string \<Rightarrow> (workshop, string \<times> string) op" where
  "create_claimed_task env t agent digest actor =
     op_bind (op_result (\<lambda>_. validate_agent_name agent)) (\<lambda>owner.
     if \<not> card_store_write_enabled (we_board env)
     then op_raise (ValueError ''atomic create-and-claim requires the CardStore'')
     else op_bind (op_result (\<lambda>w. cs_load_core (wo_store w) (ta_id t))) (\<lambda>existing.
       if digest \<noteq> [] \<and> existing \<noteq> None then claimed_replay env t owner digest actor
       else claimed_fresh env t owner digest actor))"

end
