(* ===== verification/Task_Guarantees.thy ===== *)
theory Task_Guarantees
  imports Task_Creation
begin

text \<open>
  What the creation of tasks guarantees: a task file is never written without its card, an explicit creation
  that was cut off anywhere is finished by repeating the call, active helpers never write the same file, and
  a task is only created claimed when its dependencies are done.
\<close>

section \<open>What explicit creation does to the store\<close>

lemma op_result_Inl: "r s = Inl e \<Longrightarrow> op_bind (op_result r) f s = (Inl e, s)"
  by (simp add: op_bind_run)

lemma govern_keeps_store: "keeps_store (govern_or_reject env core digest actor)"
proof -
  have "keeps_store (op_bind (reject_explicit env (co_id core) digest actor x y) (\<lambda>_. op_raise e) :: (nursery, unit) op)" for x y e
    by (intro shelf.keeps reject_keeps_store)
  then show ?thesis unfolding govern_or_reject_def op_keeps_def by (simp split: sum.split)
qed

lemma explicit_publication: "publication core (nu_store n) (nu_store (snd (create_explicit env core digest actor n)))"
proof -
  let ?P = "publication core (nu_store n)"
  have same: "?P (nu_store n)" by (simp add: publication_def)
  have new: "?P (nu_store (snd (create_new env core digest actor i n)))" for i by (rule create_new_store)
  have "?P (nu_store (snd (op_bind (op_when b (govern_or_reject env core digest actor)) (\<lambda>_. create_new env core digest actor True) n)))" for b
  proof (rule shelf_bind)
    show "?P (nu_store (snd (create_new env core digest actor True m)))" if "nu_store m = nu_store n" for m
      using create_new_store [of core m env digest actor True] that by simp
    show "keeps_store (op_when b (govern_or_reject env core digest actor))" by (intro shelf.keeps govern_keeps_store)
  qed (rule same)
  note governed = this
  have "keeps_store (op_bind (accept env core digest actor) (\<lambda>_. op_return False))"
    by (intro shelf.keeps accept_keeps_store)
  then have settle: "?P (nu_store (snd (op_bind (accept env core digest actor) (\<lambda>_. op_return False) n)))"
    using same by (simp add: op_keeps_def)
  show ?thesis
  proof (cases "valid_identifier (co_id core) \<and> hex_text 64 digest")
    case False
    then show ?thesis using same by (auto simp: create_explicit_def)
  next
    case True
    show ?thesis
    proof (cases "attempt_for (co_id core) n"; cases "cs_load_core (nu_store n) (co_id core)"; cases "read_pending (co_id core) n")
      fix a x p assume "attempt_for (co_id core) n = Inr a" "cs_load_core (nu_store n) (co_id core) = Inr x"
        "read_pending (co_id core) n = Inr p"
      note run = True [THEN conjunct1] True [THEN conjunct2] this
      show ?thesis
      proof (cases "has_outcome ''rejected'' a \<or> has_outcome ''accepted'' a")
        case True
        then show ?thesis using run same by (auto simp: create_explicit_def op_bind_result op_bind_run split: sum.split)
      next
        case False
        then show ?thesis
          using run same new governed settle
          by (cases p; cases x; cases "check_pending env core digest (the p)"; cases "check_stored env core (the x) n")
            (simp_all add: create_explicit_def op_bind_result op_result_Inl)
      qed
    qed (use True same in \<open>simp_all add: create_explicit_def op_bind_result op_result_Inl\<close>)
  qed
qed

text \<open>Whoever is told that a card was created or replayed finds its core.\<close>

lemma anchor_core: "lock_anchor cid st = Inr u \<Longrightarrow> \<exists>core. cs_load_core st cid = Inr (Some core)"
  by (auto simp: lock_anchor_def elim!: r_bind_InrE split: if_splits option.splits)

lemma create_new_core:
  assumes "create_new env core digest actor i n = (Inr b, n')"
  shows "\<exists>c. cs_load_core (nu_store n') (co_id core) = Inr (Some c)"
  using assms unfolding create_new_def
  by (elim op_bind_InrD) (auto simp: op_bind_run dest: anchor_core split: sum.splits)

lemma explicit_core:
  assumes "create_explicit env core digest actor n = (Inr b, n')"
  shows "\<exists>c. cs_load_core (nu_store n') (co_id core) = Inr (Some c)"
proof -
  obtain a x p where run: "valid_identifier (co_id core)" "hex_text 64 digest" "attempt_for (co_id core) n = Inr a"
    "cs_load_core (nu_store n) (co_id core) = Inr x" "read_pending (co_id core) n = Inr p"
    using assms by (auto simp: create_explicit_def op_bind_run split: if_splits sum.splits)
  have "\<not> has_outcome ''rejected'' a" using assms run by (auto simp: create_explicit_def op_bind_result)
  show ?thesis
  proof (cases x)
    case (Some ex)
    show ?thesis
    proof (cases "has_outcome ''accepted'' a")
      case True
      then have "nu_store n' = nu_store n"
        using assms run \<open>\<not> has_outcome ''rejected'' a\<close> by (auto simp: create_explicit_def op_bind_run split: sum.splits)
      with run Some show ?thesis by simp
    next
      case False
      have "keeps_store (op_bind (accept env core digest actor) (\<lambda>_. op_return False))"
        by (intro shelf.keeps accept_keeps_store)
      then have keep: "nu_store (snd (op_bind (accept env core digest actor) (\<lambda>_. op_return False) n)) = nu_store n"
        by (simp add: op_keeps_def)
      have "nu_store n' = nu_store n"
        using assms run Some False keep \<open>\<not> has_outcome ''rejected'' a\<close>
        by (cases p; cases "check_pending env core digest (the p)"; cases "check_stored env core ex n")
          (auto simp: create_explicit_def op_bind_result op_result_Inl)
      with run Some show ?thesis by simp
    qed
  next
    case None
    have "create_new env core digest actor i m = (Inr b, n') \<Longrightarrow> ?thesis" for i m by (rule create_new_core)
    then show ?thesis
      using assms run None \<open>\<not> has_outcome ''rejected'' a\<close>
      by (cases "has_outcome ''accepted'' a"; cases p; cases "check_pending env core digest (the p)")
        (auto simp: create_explicit_def op_bind_result op_result_Inl check_accepted_def elim!: op_bind_InrD)
  qed
qed


section \<open>Task files\<close>

lemma on_nursery_run: "on_nursery m w = (fst (m (wo_nursery w)), w\<lparr>wo_nursery := snd (m (wo_nursery w))\<rparr>)"
  by (simp add: on_nursery_def split: prod.split)

lemma files_disk_run:
  "files_disk env change w = (fst (disk (we_birth env) OSError (\<lambda>x n. n) (wo_nursery w)),
     w\<lparr>wo_nursery := snd (disk (we_birth env) OSError (\<lambda>x n. n) (wo_nursery w)),
       wo_files := (if \<not> nu_down (wo_nursery w) \<and> reached (ne_io (we_birth env) (nu_steps (wo_nursery w)))
         then change (wo_files w) else wo_files w)\<rparr>)"
  by (simp add: files_disk_def Let_def split: prod.split)

lemma idle_disk_store: "nu_store (snd (disk env raised (\<lambda>x n. n) n)) = nu_store n"
  by (rule disk_store_cases [of env raised "\<lambda>x n. n" n]) simp_all

lemma files_disk_frame:
  assumes "files_disk env change w = (r, w')"
  shows "wo_store w' = wo_store w" and "wo_files w' = wo_files w \<or> wo_files w' = change (wo_files w)" and "wo_board w' = wo_board w"
  using assms by (auto simp: files_disk_run idle_disk_store)

text \<open>
  What a creation does to the task files: it leaves them alone, removes an irregular one, or writes the task's,
  and then the card is in the store.
\<close>

definition only_with_card :: "coord_task \<Rightarrow> workshop \<Rightarrow> workshop \<Rightarrow> bool" where
  "only_with_card t w w' \<longleftrightarrow>
     wo_files w' = wo_files w
     \<or> wo_files w' = AList.delete (task_path t) (wo_files w) \<and> (\<exists>f. map_of (wo_files w) (task_path t) = Some (Irregular f))
     \<or> wo_files w' = AList.update (task_path t) (task_node t) (wo_files w)
       \<and> (\<exists>c. cs_load_core (wo_store w') (ta_id t) = Inr (Some c))"

lemma write_task_with_card:
  assumes "op_bind (write_task env t) (\<lambda>_. op_return p) w = (r, w')"
    and "\<exists>c. cs_load_core (wo_store w) (ta_id t) = Inr (Some c)"
  shows "only_with_card t w w' \<and> wo_store w' = wo_store w"
  using assms(1)
proof (cases rule: op_bind_cases)
  case (raised e)
  with files_disk_frame [of env _ w "Inl e" w'] assms(2) show ?thesis by (auto simp: only_with_card_def write_task_def)
next
  case (ok x u)
  with files_disk_frame [of env _ w "Inr x" u] assms(2) show ?thesis by (auto simp: only_with_card_def write_task_def)
qed

lemma settle_with_card:
  assumes run: "settle_projection env t w = (r, w')" and core: "\<exists>c. cs_load_core (wo_store w) (ta_id t) = Inr (Some c)"
  shows "only_with_card t w w' \<and> wo_store w' = wo_store w"
proof -
  have same: "only_with_card t w w" by (simp add: only_with_card_def)
  show ?thesis
  proof (cases "map_of (wo_files w) (task_path t)")
    case None
    then show ?thesis
      using run write_task_with_card [OF _ core] by (simp add: settle_projection_def)
  next
    case (Some x)
    show ?thesis
    proof (cases x)
      case (Regular f)
      then show ?thesis using run Some same by (auto simp: settle_projection_def op_bind_run split: sum.splits)
    next
      case (Irregular f)
      obtain q v where q: "files_disk env (AList.delete (task_path t)) w = (q, v)" by (cases "files_disk env (AList.delete (task_path t)) w")
      have "w' = v"
        using run Some Irregular q by (cases q) (auto simp: settle_projection_def op_bind_run op_catch_def split: if_splits)
      then show ?thesis
        using files_disk_frame [OF q] Some Irregular by (auto simp: only_with_card_def)
    qed
  qed
qed

lemma explicit_task_cases:
  assumes run: "create_explicit_task env t digest actor w = (r, w')"
  obtains (refused) e n where "create_explicit (we_birth env) (task_core t None None) digest actor (wo_nursery w) = (Inl e, n)"
      "r = Inl e" "w' = w\<lparr>wo_nursery := n\<rparr>"
  | (done1) b n where "create_explicit (we_birth env) (task_core t None None) digest actor (wo_nursery w) = (Inr b, n)"
      "\<exists>c. cs_load_core (nu_store n) (ta_id t) = Inr (Some c)" "only_with_card t (w\<lparr>wo_nursery := n\<rparr>) w'" "wo_store w' = nu_store n"
proof (cases "create_explicit (we_birth env) (task_core t None None) digest actor (wo_nursery w)")
  case (Pair q n)
  show thesis
  proof (cases q)
    case (Inl e)
    with Pair run that(1) show thesis by (simp add: create_explicit_task_def op_bind_run on_nursery_run)
  next
    case (Inr b)
    with Pair have core: "\<exists>c. cs_load_core (nu_store n) (ta_id t) = Inr (Some c)"
      using explicit_core [of "we_birth env" "task_core t None None"] by simp
    let ?w = "w\<lparr>wo_nursery := n\<rparr>"
    have "(if b then op_bind (write_task env t) (\<lambda>_. op_return (task_path t)) else settle_projection env t) ?w = (r, w')"
      using run Pair Inr by (simp add: create_explicit_task_def op_bind_run on_nursery_run)
    then have "only_with_card t ?w w' \<and> wo_store w' = wo_store ?w"
      using write_task_with_card [of env t "task_path t" ?w r w'] settle_with_card [of env t ?w r w'] core by (cases b) simp_all
    with Pair Inr core that(2) show thesis by simp
  qed
qed


lemma explicit_task_publication:
  assumes "create_explicit_task env t digest actor w = (r, w')"
  shows "publication (task_core t None None) (wo_store w) (wo_store w')"
  using assms
proof (cases rule: explicit_task_cases)
  case (refused e n)
  then show ?thesis using explicit_publication [of "task_core t None None" "wo_nursery w" "we_birth env" digest actor] by simp
next
  case (done1 b n)
  then show ?thesis using explicit_publication [of "task_core t None None" "wo_nursery w" "we_birth env" digest actor] by simp
qed


text \<open>A small workshop, and a creation that stops right after the task file was renamed into place.\<close>

definition sample_work_env :: "(nat \<Rightarrow> io) \<Rightarrow> work_env" where
  "sample_work_env io = \<lparr>we_birth = (sample_birth_env io)\<lparr>ne_store := flat_env\<rparr>, we_flag = [], we_fault = (\<lambda>_. NoFault), we_brackets = (\<lambda>s. False)\<rparr>"

definition workshop_of :: "store \<Rightarrow> (string \<times> task_place) list \<Rightarrow> workshop" where
  "workshop_of st fs = \<lparr>wo_nursery = nursery_of st, wo_board = sample_board [] [], wo_files = fs\<rparr>"

definition no_cards :: store where
  "no_cards = (sample_store [])\<lparr>so_cards := []\<rparr>"


section \<open>Helpers stay apart\<close>

text \<open>No two active helpers of a parent may write the same file, as far as the store can be listed.\<close>

definition helpers_apart :: "helper_env \<Rightarrow> store \<Rightarrow> bool" where
  "helpers_apart env st \<longleftrightarrow> (\<forall>cards c d p f. cs_list_cards (he_why env) (he_store env) False False st = Inr cards
     \<and> c \<in> set cards \<and> d \<in> set cards \<and> cd_id c \<noteq> cd_id d \<and> active_helper p c \<and> active_helper p d \<and> literal_path f
     \<longrightarrow> \<not> (may_write (cd_meta c) f \<and> may_write (cd_meta d) f))"

lemma strict_listing:
  "cs_list_cards why env False False st = r_bind (cs_list_ids st) (\<lambda>ids. r_bind (r_map (cs_fold env st) ids) (\<lambda>cs.
     Inr (filter (\<lambda>c. \<not> cd_archived c) (List.map_filter id cs))))"
proof -
  have "(case x of Inl e \<Rightarrow> Inl e | Inr c \<Rightarrow> Inr c) = x" for x :: "card option result" by (cases x) simp_all
  then show ?thesis by (simp add: cs_list_cards_def cong del: sum.case_cong_weak)
qed

lemma r_map_members:
  "r_map f xs = Inr ys \<Longrightarrow> (\<forall>x\<in>set xs. \<exists>y. f x = Inr y) \<and> (\<forall>y. y \<in> set ys \<longleftrightarrow> (\<exists>x\<in>set xs. f x = Inr y))"
proof (induction xs arbitrary: ys)
  case (Cons x xs)
  then obtain y zs where "f x = Inr y" "r_map f xs = Inr zs" "ys = y # zs" by (auto elim!: r_bind_InrE)
  with Cons.IH show ?case by auto
qed simp

lemma r_map_defined: "\<forall>x\<in>set xs. \<exists>y. f x = Inr y \<Longrightarrow> \<exists>ys. r_map f xs = Inr ys"
  by (induction xs) auto

lemma set_map_filter_id: "x \<in> set (List.map_filter id ys) \<longleftrightarrow> Some x \<in> set ys"
  by (induction ys) (auto simp: List.map_filter_simps split: option.split)

lemma listed_cards:
  assumes "cs_list_cards why env False False st = Inr cards"
  obtains ids where "cs_list_ids st = Inr ids" "\<forall>i\<in>set ids. \<exists>x. cs_fold env st i = Inr x"
    "\<forall>c. c \<in> set cards \<longleftrightarrow> \<not> cd_archived c \<and> (\<exists>i\<in>set ids. cs_fold env st i = Inr (Some c))"
proof -
  obtain ids cs where "cs_list_ids st = Inr ids" "r_map (cs_fold env st) ids = Inr cs"
    "cards = filter (\<lambda>c. \<not> cd_archived c) (List.map_filter id cs)"
    using assms by (auto simp: strict_listing elim!: r_bind_InrE)
  with r_map_members [OF this(2)] show thesis by (intro that [of ids]) (auto simp: set_map_filter_id)
qed

lemma listing_defined:
  "cs_list_ids st = Inr ids \<Longrightarrow> \<forall>i\<in>set ids. \<exists>x. cs_fold env st i = Inr x \<Longrightarrow> \<exists>cards. cs_list_cards why env False False st = Inr cards"
  using r_map_defined [of ids "cs_fold env st"] by (auto simp: strict_listing)

text \<open>Every core lies in the directory of its card; then a listed card is the fold of its identifier.\<close>

definition cores_in_place :: "store \<Rightarrow> bool" where
  "cores_in_place st \<longleftrightarrow> (\<forall>i core. cs_load_core st i = Inr (Some core) \<longrightarrow> get core ''id'' = JStr i)"

lemma fold_id:
  assumes "cs_load_core st cid = Inr (Some core)" and "cs_fold env st cid = Inr (Some c)"
  shows "get core ''id'' = JStr (cd_id c)"
proof -
  obtain s log t where s: "card_start core = Inr s" and t: "r_fold card_step s log = Inr t" and c: "c = st_card t"
    using assms by (auto simp: cs_fold_def fold_card_def elim!: r_bind_InrE)
  have "same_card (st_card s) (st_card t)"
    using card_identity.fold_grows [OF _ _ t] by (simp add: list_all_iff)
  moreover have "get core ''id'' = JStr (cd_id (st_card s))"
    using s by (auto simp: card_start_def card_at_birth_def initial_claim_def get_item_def get_def new_card_def
        elim!: r_bind_InrE split: if_splits option.splits)
  ultimately show ?thesis by (simp add: same_card_def c)
qed

lemma fold_has_core: "cs_fold env st cid = Inr (Some c) \<Longrightarrow> \<exists>core. cs_load_core st cid = Inr (Some core)"
  by (auto simp: cs_fold_def fold_card_def elim!: r_bind_InrE split: option.splits)

text \<open>The fold of the core that a creation wrote.\<close>

lemma born_fold:
  assumes "cs_load_core st cid = Inr (Some (core_dump core))" and "cs_fold env st cid = Inr (Some c)"
  shows "cd_id c = co_id core" and "k \<notin> set event_keys \<Longrightarrow> get (cd_meta c) k = get (co_meta core) k"
proof -
  obtain s log t where s: "card_start (core_dump core) = Inr s" and t: "r_fold card_step s log = Inr t" and c: "c = st_card t"
    using assms by (auto simp: cs_fold_def fold_card_def elim!: r_bind_InrE)
  have "same_card (st_card s) (st_card t)"
    using card_identity.fold_grows [OF _ _ t] by (simp add: list_all_iff)
  with birth_card(1) [OF s] show "cd_id c = co_id core" by (simp add: same_card_def c)
  have "get (core_dump core) ''meta'' = JObj (co_meta core)" by (simp add: core_dump_def get_def)
  from fold_meta [OF assms(1) this assms(2)] show "k \<notin> set event_keys \<Longrightarrow> get (cd_meta c) k = get (co_meta core) k" .
qed

text \<open>
  C11. Active helpers of one parent never may write the same file: if this holds of the stored cards, it still
  does after a helper was created or refused, whatever its paths, and whatever became of the disk on the way.
\<close>

theorem helpers_stay_apart:
  assumes run: "create_helper_task env t digest actor pid crev w = (r, w')"
    and apart: "helpers_apart (we_helper env) (wo_store w)"
    and once: "named_once (wo_store w)" and place: "cores_in_place (wo_store w)"
  shows "helpers_apart (we_helper env) (wo_store w')"
proof (cases "wo_store w' = wo_store w")
  case False
  let ?env = "he_store (we_helper env)" and ?why = "he_why (we_helper env)" and ?a = "ta_id t" and ?core = "task_core t None None"
  have accepted: "validate_helper_request (we_helper env) (wo_store w) t digest actor pid crev = Inr ()"
    and explicit: "create_explicit_task (holding pid env) t digest actor w = (r, w')"
    using run False by (auto simp: create_helper_task_def op_bind_run split: sum.splits)
  from explicit_task_publication [OF explicit] False obtain f where f: "dir_core (card_dir_of (wo_store w) ?a) = None"
    "f \<in> {None, Some (CoreJson (JObj (core_dump ?core)))}" "wo_store w' = put_core ?a f (wo_store w)"
    by (auto simp: publication_def)
  obtain p where p: "helper_identity ?env t actor p pid crev = Inr ()" using accepted by (rule validate_accepted)
  then have parent: "get (ta_meta t) ''helper_parent_id'' = JStr pid" by (auto simp: helper_identity_def Let_def elim!: r_bind_InrE)
  show ?thesis
    unfolding helpers_apart_def
  proof (intro allI impI, elim conjE)
    fix cards c d q g
    assume list: "cs_list_cards ?why ?env False False (wo_store w') = Inr cards" and c: "c \<in> set cards" and d: "d \<in> set cards"
      and ne: "cd_id c \<noteq> cd_id d" and active: "active_helper q c" "active_helper q d" and g: "literal_path g"
    obtain ids where ids: "cs_list_ids (wo_store w') = Inr ids" "\<forall>i\<in>set ids. \<exists>x. cs_fold ?env (wo_store w') i = Inr x"
      "\<forall>c. c \<in> set cards \<longleftrightarrow> \<not> cd_archived c \<and> (\<exists>i\<in>set ids. cs_fold ?env (wo_store w') i = Inr (Some c))"
      using listed_cards [OF list] by blast
    have "valid_identifier ?a"
      using explicit False by (cases "valid_identifier ?a") (auto simp: create_explicit_task_def create_explicit_def op_bind_run on_nursery_run)
    note valid = this
    have names: "\<forall>n\<in>fst ` set (so_cards (wo_store w')). valid_identifier n" and ids_set: "ids = sorted_list_of_set (with_core (wo_store w'))"
      using ids(1) list_ids_set [OF put_core_names(1) [OF once valid, of f]] f(3) by (simp_all split: if_splits)
    have old: "cs_list_ids (wo_store w) = Inr (sorted_list_of_set (with_core (wo_store w)))"
      using names list_ids_set [OF once] put_core_names(2) [OF once valid, of f] f(3) by simp
    have wc: "with_core (wo_store w') = (if f = None then with_core (wo_store w) else insert ?a (with_core (wo_store w)))"
      using with_core_put [OF f(1), of f] f(3) by simp
    have out: "?a \<notin> with_core (wo_store w)" using f(1) by (simp add: with_core_def)
    have others: "cs_fold ?env (wo_store w') i = cs_fold ?env (wo_store w) i" if "i \<noteq> ?a" for i
      using that f(3) by (simp add: put_core_fold_other)
    have "\<exists>x. cs_fold ?env (wo_store w) i = Inr x" if "i \<in> with_core (wo_store w)" for i
    proof -
      have "i \<noteq> ?a" "i \<in> set ids" using that out by (auto simp: ids_set wc)
      with ids(2) others show ?thesis by metis
    qed
    then have "\<forall>i\<in>set (sorted_list_of_set (with_core (wo_store w))). \<exists>x. cs_fold ?env (wo_store w) i = Inr x" by simp
    from listing_defined [OF old this, of ?why]
    obtain olds where olds: "cs_list_cards ?why ?env False False (wo_store w) = Inr olds" by blast
    have members: "x \<in> set olds \<longleftrightarrow> \<not> cd_archived x \<and> (\<exists>i\<in>with_core (wo_store w). cs_fold ?env (wo_store w) i = Inr (Some x))" for x
      using listed_cards [OF olds] old by (metis Inr_inject finite_with_core set_sorted_list_of_set)
    have own: "cs_fold ?env (wo_store w') (cd_id x) = Inr (Some x) \<and> cd_id x \<in> with_core (wo_store w') \<and> \<not> cd_archived x"
      if x: "x \<in> set cards" for x
    proof -
      obtain i where i: "i \<in> with_core (wo_store w')" "cs_fold ?env (wo_store w') i = Inr (Some x)" "\<not> cd_archived x"
        using x ids(3) by (auto simp: ids_set)
      then obtain core where core: "cs_load_core (wo_store w') i = Inr (Some core)" using fold_has_core by blast
      have "get core ''id'' = JStr i"
      proof (cases "i = ?a")
        case True
        then show ?thesis using core f(2,3) by (auto simp: load_core_dir card_dir_of_put_core core_dump_def split: if_splits)
      next
        case False
        then have dir: "card_dir_of (wo_store w') i = card_dir_of (wo_store w) i" using f(3) by (simp add: card_dir_of_put_core)
        have "cs_load_core (wo_store w) i = Inr (Some core)" using core unfolding load_core_dir dir .
        with place show ?thesis by (simp add: cores_in_place_def)
      qed
      with fold_id [OF core i(2)] i show ?thesis by simp
    qed
    have before: "x \<in> set olds" if "x \<in> set cards" "cd_id x \<noteq> ?a" for x
      using own [OF that(1)] that(2) others [of "cd_id x"] by (auto simp: members wc split: if_splits)
    have new: "q = pid \<and> may_write (cd_meta x) g = may_write (ta_meta t) g" if x: "x \<in> set cards" "cd_id x = ?a" "active_helper q x" for x
    proof -
      have fold: "cs_fold ?env (wo_store w') ?a = Inr (Some x)" using own [OF x(1)] x(2) by simp
      then obtain core where "cs_load_core (wo_store w') ?a = Inr (Some core)" using fold_has_core by blast
      then have "cs_load_core (wo_store w') ?a = Inr (Some (core_dump ?core))"
        using f(2,3) by (auto simp: load_core_dir card_dir_of_put_core split: if_splits)
      from born_fold(2) [OF this fold] have same: "k \<notin> set event_keys \<Longrightarrow> get (cd_meta x) k = get (ta_meta t) k" for k by simp
      have "get (cd_meta x) ''helper_parent_id'' = JStr pid" using same [of "''helper_parent_id''"] parent by (simp add: event_keys_def)
      with x(3) have "q = pid" by (simp add: active_helper_def)
      moreover have "may_write (cd_meta x) g = may_write (ta_meta t) g"
        using same [of "''helper_allowed_paths''"] by (simp add: may_write_def event_keys_def)
      ultimately show ?thesis by simp
    qed
    show "\<not> (may_write (cd_meta c) g \<and> may_write (cd_meta d) g)"
    proof (cases "cd_id c = ?a"; cases "cd_id d = ?a")
      assume "cd_id c = ?a" "cd_id d \<noteq> ?a"
      with new [OF c] before [OF d] active accepted_paths_exclusive [OF accepted olds, of d g] g show ?thesis by auto
    next
      assume "cd_id c \<noteq> ?a" "cd_id d = ?a"
      with new [OF d] before [OF c] active accepted_paths_exclusive [OF accepted olds, of c g] g show ?thesis by auto
    next
      assume "cd_id c \<noteq> ?a" "cd_id d \<noteq> ?a"
      with before c d apart ne active g olds show ?thesis unfolding helpers_apart_def by blast
    qed (use ne in simp)
  qed
qed (use apart in simp)

text \<open>The helper of the example is created beside its active sibling.\<close>

lemma helper_store_apart: "helpers_apart (we_helper (sample_work_env io)) helper_store"
proof -
  have "case cs_list_cards (\<lambda>e. []) flat_env False False helper_store of Inl e \<Rightarrow> False
     | Inr cs \<Rightarrow> map (\<lambda>c. (cd_id c, get (cd_meta c) ''helper_parent_id'')) cs = [(''hhhhhhhh'', JStr ''p1''), (''p1'', JNull)]"
    by code_simp
  then obtain a b where two: "cs_list_cards (\<lambda>e. []) flat_env False False helper_store = Inr [a, b]" "get (cd_meta b) ''helper_parent_id'' = JNull"
    by (auto split: sum.splits)
  then have "\<not> active_helper p b" for p by (simp add: active_helper_def)
  with two(1) show ?thesis
    by (auto simp: helpers_apart_def we_helper_def sample_work_env_def sample_birth_env_def)
qed

lemma helper_store_in_place: "named_once helper_store \<and> cores_in_place helper_store"
  by (auto simp: named_once_def cores_in_place_def helper_store_def cs_load_core_def core_dir_def core_dump_def task_core_def sample_store_def
      helper_task_def parent_task_def plain_task_def get_def split: if_splits)

theorem helpers_stay_apart_witness:
  "let (r, w) = create_helper_task (sample_work_env (\<lambda>i. Fine)) (helper_task ''aaaaaaaa'' ''src/a.py'') (replicate 64 CHR ''a'') ''ana'' ''p1'' ''rv''
     (workshop_of helper_store [])
   in r = Inr ''aaaaaaaa-fix-s.json'' \<and> helpers_apart (we_helper (sample_work_env (\<lambda>i. Fine))) (wo_store w)"
proof -
  let ?run = "create_helper_task (sample_work_env (\<lambda>i. Fine)) (helper_task ''aaaaaaaa'' ''src/a.py'') (replicate 64 CHR ''a'') ''ana'' ''p1'' ''rv'' (workshop_of helper_store [])"
  have store: "wo_store (workshop_of helper_store []) = helper_store" by (simp add: workshop_of_def nursery_of_def)
  have explicit: "fst (create_explicit_task (holding ''p1'' (sample_work_env (\<lambda>i. Fine))) (helper_task ''aaaaaaaa'' ''src/a.py'') (replicate 64 CHR ''a'') ''ana''
      (workshop_of helper_store [])) = Inr ''aaaaaaaa-fix-s.json''" by code_simp
  have "card_lock (we_board (sample_work_env (\<lambda>i. Fine))) ''p1'' (board_of (sample_work_env (\<lambda>i. Fine)) (workshop_of helper_store [])) = Inr ()"
    by code_simp
  moreover have "we_helper (sample_work_env (\<lambda>i. Fine)) = sample_helper_env"
    by (simp add: we_helper_def sample_work_env_def sample_birth_env_def sample_helper_env_def)
  ultimately have "fst ?run = Inr ''aaaaaaaa-fix-s.json''"
    using explicit helper_accepted store by (simp add: create_helper_task_def op_bind_run)
  moreover have "helpers_apart (we_helper (sample_work_env (\<lambda>i. Fine))) (wo_store (snd ?run))"
    by (rule helpers_stay_apart [OF prod.collapse [symmetric]]) (use store helper_store_apart helper_store_in_place in simp_all)
  ultimately show ?thesis by (simp add: case_prod_beta)
qed

section \<open>Explicit creation, cut off anywhere\<close>

definition with_io :: "(nat \<Rightarrow> io) \<Rightarrow> work_env \<Rightarrow> work_env" where
  "with_io s env = env\<lparr>we_birth := (we_birth env)\<lparr>ne_io := s\<rparr>\<rparr>"

definition restart :: "workshop \<Rightarrow> workshop" where
  "restart w = w\<lparr>wo_nursery := (wo_nursery w)\<lparr>nu_down := False\<rparr>\<rparr>"

text \<open>
  The states in which a call can be found whose process stopped at some disk operation, of the card or of the
  task file, was restarted and called again, any number of times; no stop tore a line of the ledger.
\<close>

inductive broken_off :: "work_env \<Rightarrow> coord_task \<Rightarrow> string \<Rightarrow> workshop \<Rightarrow> workshop \<Rightarrow> bool" for env t digest where
  begun: "broken_off env t digest w w"
| cut: "broken_off env t digest w v \<Longrightarrow> stops_only s
    \<Longrightarrow> create_explicit_task (with_io s env) t digest actor v = (r, v') \<Longrightarrow> nu_down (wo_nursery v')
    \<Longrightarrow> whole_log (we_birth env) (wo_nursery v') \<Longrightarrow> broken_off env t digest w (restart v')"

definition task_underway :: "work_env \<Rightarrow> coord_task \<Rightarrow> string \<Rightarrow> workshop \<Rightarrow> bool" where
  "task_underway env t digest w \<longleftrightarrow> underway (we_birth env) (task_core t None None) digest (wo_nursery w)
     \<and> \<not> nu_down (wo_nursery w) \<and> map_of (wo_files w) (task_path t) \<in> {None, Some (task_node t)}"

lemma with_io_birth [simp]: "we_birth (with_io s env) = (we_birth env)\<lparr>ne_io := s\<rparr>"
  by (simp add: with_io_def)

lemma born_at_own: "born_at (task_core t o1 r) (ta_created_at t) = task_core t o1 r"
  by (simp add: born_at_def task_core_def)

lemma own_projection: "ta_priority t \<in> set task_priorities \<Longrightarrow> check_projection env t (CoreJson (JObj (task_dump t))) w = Inr ()"
  by (simp add: check_projection_def parse_task_def task_model_dump same_task_def)

text \<open>Writing the task file under a schedule that only stops.\<close>

lemma write_task_stops:
  assumes "stops_only (ne_io (we_birth env))" and "\<not> nu_down (wo_nursery w)"
  obtains (written) n where "write_task env t w = (Inr (), w\<lparr>wo_nursery := n, wo_files := AList.update (task_path t) (task_node t) (wo_files w)\<rparr>)"
      "n = (wo_nursery w)\<lparr>nu_steps := Suc (nu_steps (wo_nursery w))\<rparr>"
  | (stopped1) n fs where "write_task env t w = (Inl stopped, w\<lparr>wo_nursery := n, wo_files := fs\<rparr>)"
      "n = (wo_nursery w)\<lparr>nu_steps := Suc (nu_steps (wo_nursery w)), nu_down := True\<rparr>"
      "fs \<in> {wo_files w, AList.update (task_path t) (task_node t) (wo_files w)}" "\<exists>i x. ne_io (we_birth env) i = Stops x"
proof (cases "ne_io (we_birth env) (nu_steps (wo_nursery w))")
  case Fine
  with assms(2) show thesis by (intro written) (simp_all add: write_task_def files_disk_run disk_def Let_def reached_def)
next
  case (Fails x)
  with assms(1) show thesis by (simp add: stops_only_def)
next
  case (Stops x)
  with assms(2) show thesis
    by (intro stopped1 [where fs = "if x = Whole then AList.update (task_path t) (task_node t) (wo_files w) else wo_files w"])
      (auto simp: write_task_def files_disk_run disk_def Let_def reached_def)
qed

lemma explicit_task_step:
  assumes request: "sound_request (we_birth env) (task_core t None None) digest" and prio: "ta_priority t \<in> set task_priorities"
    and now: "task_underway env t digest w" and stops: "stops_only s"
  obtains (finished) w' where "create_explicit_task (with_io s env) t digest actor w = (Inr (task_path t), w')" "\<not> nu_down (wo_nursery w')"
      "settled (we_birth env) (task_core t None None) digest (wo_nursery w')" "map_of (wo_files w') (task_path t) = Some (task_node t)"
  | (stopped2) w' where "create_explicit_task (with_io s env) t digest actor w = (Inl stopped, w')" "nu_down (wo_nursery w')"
      "whole_log (we_birth env) (wo_nursery w') \<longrightarrow> task_underway env t digest (restart w')" "\<exists>i x. s i = Stops x"
proof -
  let ?core = "task_core t None None" and ?env = "with_io s env"
  have sound: "sound_request (we_birth ?env) ?core digest" using sound_io [OF request stops] by simp
  have step: "crash_triple (we_birth ?env) (underway (we_birth env) ?core digest) (create_explicit (we_birth ?env) ?core digest actor)
     (\<lambda>_ n. whole_log (we_birth env) n \<and> settled (we_birth env) ?core digest n)
     (\<lambda>n. whole_log (we_birth env) n \<longrightarrow> underway (we_birth env) ?core digest n)"
    using create_explicit_step [OF sound, of "ta_created_at t" actor] by (simp add: born_at_own)
  have up: "underway (we_birth env) ?core digest (wo_nursery w)" "\<not> nu_down (wo_nursery w)"
    and there: "map_of (wo_files w) (task_path t) \<in> {None, Some (task_node t)}" using now by (simp_all add: task_underway_def)
  show thesis
  proof (rule crash_cases [OF step up])
    fix n assume n: "create_explicit (we_birth ?env) ?core digest actor (wo_nursery w) = (Inl stopped, n)" "nu_down n"
      "whole_log (we_birth env) n \<longrightarrow> underway (we_birth env) ?core digest n" "\<exists>i x. ne_io (we_birth ?env) i = Stops x"
    then show thesis
      using there by (intro stopped2 [of "w\<lparr>wo_nursery := n\<rparr>"])
        (simp_all add: create_explicit_task_def op_bind_run on_nursery_run task_underway_def restart_def)
  next
    fix b n assume n: "create_explicit (we_birth ?env) ?core digest actor (wo_nursery w) = (Inr b, n)" "\<not> nu_down n"
      "whole_log (we_birth env) n \<and> settled (we_birth env) ?core digest n"
    let ?w = "w\<lparr>wo_nursery := n\<rparr>" and ?save = "op_bind (write_task ?env t) (\<lambda>_. op_return (task_path t))"
    have run: "create_explicit_task ?env t digest actor w = (if b \<or> map_of (wo_files w) (task_path t) = None then ?save ?w
        else (Inr (task_path t), ?w))"
      using n(1) there own_projection [OF prio]
      by (auto simp: create_explicit_task_def op_bind_run on_nursery_run settle_projection_def task_node_def)
    show thesis
    proof (cases "b \<or> map_of (wo_files w) (task_path t) = None")
      case False
      then show thesis using run n there by (intro finished [of ?w]) auto
    next
      case True
      show thesis
      proof (rule write_task_stops [of ?env ?w t])
        show "stops_only (ne_io (we_birth ?env))" "\<not> nu_down (wo_nursery ?w)" using stops n(2) by simp_all
      next
        fix k assume "write_task ?env t ?w = (Inr (), ?w\<lparr>wo_nursery := k, wo_files := AList.update (task_path t) (task_node t) (wo_files ?w)\<rparr>)"
          "k = (wo_nursery ?w)\<lparr>nu_steps := Suc (nu_steps (wo_nursery ?w))\<rparr>"
        then show thesis
          using run True n
          by (intro finished [of "?w\<lparr>wo_nursery := k, wo_files := AList.update (task_path t) (task_node t) (wo_files ?w)\<rparr>"])
            (simp_all add: op_bind_run update_conv')
      next
        fix k fs assume "write_task ?env t ?w = (Inl stopped, ?w\<lparr>wo_nursery := k, wo_files := fs\<rparr>)"
          "k = (wo_nursery ?w)\<lparr>nu_steps := Suc (nu_steps (wo_nursery ?w)), nu_down := True\<rparr>"
          "fs \<in> {wo_files ?w, AList.update (task_path t) (task_node t) (wo_files ?w)}" "\<exists>i x. ne_io (we_birth ?env) i = Stops x"
        then show thesis
          using run True n there
          by (intro stopped2 [of "?w\<lparr>wo_nursery := k, wo_files := fs\<rparr>"])
            (auto simp: op_bind_run update_conv' task_underway_def restart_def underway_def)
      qed
    qed
  qed
qed

lemma broken_off_underway:
  "broken_off env t digest w v \<Longrightarrow> sound_request (we_birth env) (task_core t None None) digest
     \<Longrightarrow> ta_priority t \<in> set task_priorities \<Longrightarrow> task_underway env t digest w \<Longrightarrow> task_underway env t digest v"
proof (induction rule: broken_off.induct)
  case (cut w v s actor r v')
  then have v: "task_underway env t digest v" by simp
  show ?case
    by (rule explicit_task_step [OF cut.prems(1,2) v cut.hyps(2), of actor]) (use cut.hyps in simp_all)
qed simp

lemma settled_replay:
  assumes request: "sound_request (we_birth env) (task_core t None None) digest" and prio: "ta_priority t \<in> set task_priorities"
    and settled: "settled (we_birth env) (task_core t None None) digest (wo_nursery w)"
    and there: "map_of (wo_files w) (task_path t) = Some (task_node t)"
  shows "create_explicit_task (with_io s env) t digest actor w = (Inr (task_path t), w)"
proof -
  have "create_explicit ((we_birth env)\<lparr>ne_io := s\<rparr>) (task_core t None None) digest actor (wo_nursery w) = (Inr False, wo_nursery w)"
    using run_settled [OF request settled, of "(we_birth env)\<lparr>ne_io := s\<rparr>" "ta_created_at t" actor] by (simp add: born_at_own)
  then show ?thesis
    using there own_projection [OF prio, of "with_io s env" w]
    by (simp add: create_explicit_task_def op_bind_run on_nursery_run settle_projection_def task_node_def)
qed

text \<open>
  C15. An explicit task whose creation was cut off any number of times, at any disk operation of the card, the
  intent, the ledger or the task file, except inside the append of a line to the ledger, is there after one call
  that nothing interrupts: the core and the task file are on disk, and every later call of the same request
  returns the path and changes nothing. After a stop that leaves part of a ledger line nothing is promised.
\<close>

theorem explicit_task_recovers:
  assumes cut: "broken_off env t digest w v" and request: "sound_request (we_birth env) (task_core t None None) digest"
    and prio: "ta_priority t \<in> set task_priorities"
    and start: "unseen (we_birth env) (task_core t None None) digest (wo_nursery w)" "whole_log (we_birth env) (wo_nursery w)"
      "\<not> nu_down (wo_nursery w)" "map_of (wo_files w) (task_path t) = None"
  shows "\<exists>w'. create_explicit_task (with_io (\<lambda>i. Fine) env) t digest actor v = (Inr (task_path t), w')
    \<and> (\<exists>u. cs_load_core (wo_store w') (ta_id t) = Inr (Some (core_dump (born_at (task_core t None None) u))))
    \<and> map_of (wo_files w') (task_path t) = Some (task_node t)
    \<and> (\<forall>s actor'. create_explicit_task (with_io s env) t digest actor' w' = (Inr (task_path t), w'))"
proof -
  have v: "task_underway env t digest v"
    using broken_off_underway [OF cut request prio] start by (simp add: task_underway_def underway_def)
  show ?thesis
  proof (rule explicit_task_step [OF request prio v, of "\<lambda>i. Fine" actor])
    fix w' assume w': "create_explicit_task (with_io (\<lambda>i. Fine) env) t digest actor v = (Inr (task_path t), w')"
      "settled (we_birth env) (task_core t None None) digest (wo_nursery w')" "map_of (wo_files w') (task_path t) = Some (task_node t)"
    then show ?thesis using settled_replay [OF request prio w'(2,3)] by (auto simp: settled_def stored_def)
  qed (simp_all add: stops_only_def)
qed

definition new_task :: coord_task where
  "new_task = plain_task ''x1'' ''new'' [] []"

lemma new_task_request: "sound_request (we_birth (sample_work_env (\<lambda>i. Fine))) (task_core new_task None None) sample_digest"
  unfolding sound_request_def by (intro conjI; (simp add: stops_only_def sample_work_env_def sample_birth_env_def; fail)?; code_simp)

lemma new_task_unseen: "unseen (we_birth (sample_work_env (\<lambda>i. Fine))) (task_core new_task None None) sample_digest (nursery_of no_cards)"
  unfolding unseen_def attempt_rows_def
  by (intro conjI; (simp add: read_attempts_def nursery_of_def; fail)?; code_simp)

text \<open>A stop before the task file was renamed into place, then a run to the end.\<close>

theorem explicit_task_recovers_witness:
  "\<exists>v w'. wo_files v = [] \<and> create_explicit_task (sample_work_env (\<lambda>i. Fine)) new_task sample_digest ''ana'' v = (Inr ''x1-new.json'', w')
     \<and> map_of (wo_files w') ''x1-new.json'' = Some (task_node new_task)"
proof -
  let ?env = "sample_work_env (\<lambda>i. Fine)" and ?w = "workshop_of no_cards []"
  let ?run = "create_explicit_task (with_io (cut_at 4 Nothing) ?env) new_task sample_digest ''ana'' ?w"
  have "let v = snd ?run in nu_down (wo_nursery v) \<and> whole_log (we_birth ?env) (wo_nursery v) \<and> wo_files v = []
      \<and> task_path new_task = ''x1-new.json'' \<and> ta_priority new_task \<in> set task_priorities" by code_simp
  note facts = this [unfolded Let_def]
  have "stops_only (cut_at 4 Nothing)" by (simp add: stops_only_def cut_at_def)
  with facts have cut: "broken_off ?env new_task sample_digest ?w (restart (snd ?run))"
    by (intro broken_off.cut [OF broken_off.begun _ prod.collapse [symmetric]]) simp_all
  have "whole_log (we_birth ?env) (wo_nursery ?w)" "\<not> nu_down (wo_nursery ?w)" "map_of (wo_files ?w) (task_path new_task) = None"
    "unseen (we_birth ?env) (task_core new_task None None) sample_digest (wo_nursery ?w)"
    using new_task_unseen by (simp_all add: whole_log_def own_log_def nursery_of_def workshop_of_def)
  with explicit_task_recovers [OF cut new_task_request, of "''ana''"] facts
  obtain w' where "create_explicit_task (with_io (\<lambda>i. Fine) ?env) new_task sample_digest ''ana'' (restart (snd ?run)) = (Inr ''x1-new.json'', w')"
    "map_of (wo_files w') ''x1-new.json'' = Some (task_node new_task)" by auto
  moreover have "with_io (\<lambda>i. Fine) ?env = ?env" by (simp add: with_io_def sample_work_env_def sample_birth_env_def)
  moreover have "wo_files (restart (snd ?run)) = []" using facts by (simp add: restart_def)
  ultimately show ?thesis by auto
qed

end
