(* ===== verification/Claimed_Creation.thy ===== *)
theory Claimed_Creation
  imports Task_Guarantees Board_Tasks
begin

text \<open>
  Creating a task that its creator owns from the start: what a success guarantees, what a refusal for open
  dependencies leaves behind, and where a repeated call does not finish what the first one began.
\<close>

section \<open>What keeps the store\<close>

lemma reserve_keeps_store: "keeps_store (reserve_explicit_rejection env cid digest actor why)"
  unfolding reserve_explicit_rejection_def
  by (intro shelf.keeps reject_keeps_store keeps_intros)

lemma on_board_files: "on_board env m w = (r, w') \<Longrightarrow> wo_files w' = wo_files w"
  by (auto simp: on_board_def split: prod.splits)

lemma on_board_run: "on_board env m w = (r, w') \<Longrightarrow> m (board_of env w) = (r, wo_board w') \<and> wo_store w' = bo_store (wo_board w')"
  by (auto simp: on_board_def split: prod.splits)

lemma demote_keeps_agents: "demote_bumped env owner bumped w = (r, w') \<Longrightarrow> bo_agents (wo_board w') = bo_agents (wo_board w)"
proof (cases bumped)
  case (Some b)
  assume "demote_bumped env owner bumped w = (r, w')"
  with Some have "on_board env (op_bind (bo_uuid (we_board env)) (\<lambda>u. mirrored (we_board env) (demote (we_board env) (Some b) owner u))) w = (r, w')"
    by (simp add: demote_bumped_def)
  from on_board_run [OF this]
  have run: "op_bind (bo_uuid (we_board env)) (\<lambda>u. mirrored (we_board env) (demote (we_board env) (Some b) owner u)) (board_of env w) = (r, wo_board w')"
    by blast
  have "op_keeps same_agents (op_bind (bo_uuid (we_board env)) (\<lambda>u. mirrored (we_board env) (demote (we_board env) (Some b) owner u)))"
    by (rule agents_kept.keeps_bind [OF keeps_uuid keeps_mirrored])
  from op_keeps_run [OF this run] have "same_agents (board_of env w) (wo_board w')" .
  then show ?thesis by (simp add: same_agents_def board_of_def Let_def)
qed (simp add: demote_bumped_def)

lemma board_of_agents [simp]: "bo_agents (board_of env w) = bo_agents (wo_board w)"
  by (simp add: board_of_def Let_def)

lemma readback_Inr:
  "readback env t owner r w = (Inr x, w') \<Longrightarrow> w' = w \<and> x = (task_path t, r)
     \<and> (\<exists>c. cs_fold (ne_store (we_birth env)) (wo_store w) (ta_id t) = Inr c \<and> claim_current owner r c)"
  by (auto simp: readback_def op_bind_run split: sum.splits if_splits)

lemma gate_Inr:
  assumes "claimed_gate env t digest actor w = (Inr x, w')"
  shows "w' = w" and "\<forall>d\<in>set (ta_dependencies t). \<exists>vs v. get_task_views (we_board env) True (board_of env w) = Inr vs
      \<and> view_of vs d = Some v \<and> tv_status v = TDone"
proof -
  have raise: "op_bind m (\<lambda>_. op_raise e) s = (Inr y, s') \<Longrightarrow> False" for m :: "(workshop, unit) op" and e s y s'
    by (auto simp: op_bind_run split: prod.splits sum.splits)
  show "w' = w"
    using assms by (auto simp: claimed_gate_def op_bind_run [of "op_result _"] Let_def dest: raise split: if_splits sum.splits)
  show "\<forall>d\<in>set (ta_dependencies t). \<exists>vs v. get_task_views (we_board env) True (board_of env w) = Inr vs
      \<and> view_of vs d = Some v \<and> tv_status v = TDone"
    using assms
    by (auto simp: claimed_gate_def op_bind_run [of "op_result _"] Let_def open_dependencies_def filter_empty_conv dest: raise
        split: if_splits sum.splits option.splits)
qed

section \<open>Properties\<close>

text \<open>
  C16. A task that was created claimed is claimed: the card's fold shows the agent as its owner, at work under
  the returned revision. And unless the call replayed an explicit creation, every dependency of the task was
  done on the board when the call began, and the agent's file now names the task as its current one.
\<close>

theorem claimed_creation_is_gated:
  assumes run: "create_claimed_task env t agent digest actor w = (Inr (path, r), w')"
  shows "path = task_path t
    \<and> (\<exists>c. cs_fold (ne_store (we_birth env)) (wo_store w') (ta_id t) = Inr c \<and> claim_current agent r c)
    \<and> (digest = [] \<or> cs_load_core (wo_store w) (ta_id t) = Inr None \<longrightarrow>
        (\<forall>d\<in>set (ta_dependencies t). \<exists>vs v. get_task_views (we_board env) True (board_of env w) = Inr vs
            \<and> view_of vs d = Some v \<and> tv_status v = TDone)
      \<and> (\<exists>a. load_agent (we_board env) agent (board_of env w') = Inr (Some a) \<and> ag_current a = Some (ta_id t)))"
proof -
  have ok: "validate_agent_name agent = Inr agent"
    using run by (auto simp: create_claimed_task_def op_bind_run validate_agent_name_def split: if_splits)
  obtain existing where load: "cs_load_core (wo_store w) (ta_id t) = Inr existing"
    and rest: "(if digest \<noteq> [] \<and> existing \<noteq> None then claimed_replay env t agent digest actor else claimed_fresh env t agent digest actor) w
      = (Inr (path, r), w')"
    using run ok by (auto simp: create_claimed_task_def op_bind_run split: if_splits sum.splits)
  show ?thesis
  proof (cases "digest \<noteq> [] \<and> existing \<noteq> None")
    case True
    then have "claimed_replay env t agent digest actor w = (Inr (path, r), w')" using rest by simp
    then show ?thesis
      unfolding claimed_replay_def using True load
      by (elim op_bind_InrD) (auto dest: readback_Inr)
  next
    case False
    then have "claimed_fresh env t agent digest actor w = (Inr (path, r), w')" using rest by (simp split: if_splits)
    then obtain x w1 w3 r1 a bumped w4 where gate: "claimed_gate env t digest actor w = (Inr x, w1)"
      and claimed: "on_board env (claim_projection (we_board env) agent (ta_id t) False) w3 = (Inr (a, bumped), w4)"
      and last: "op_bind (demote_bumped env agent bumped) (\<lambda>_. readback env t (ag_name a) r1) w4 = (Inr (path, r), w')"
      unfolding claimed_fresh_def by (elim op_bind_InrD) auto
    from last obtain y w5 where steps: "demote_bumped env agent bumped w4 = (Inr y, w5)"
      "readback env t (ag_name a) r1 w5 = (Inr (path, r), w')" by (rule op_bind_InrD)
    from on_board_run [OF claimed]
    have claim: "claim_projection (we_board env) agent (ta_id t) False (board_of env w3) = (Inr (a, bumped), wo_board w4)" by simp
    have saved: "file_saved agent a (board_of env w3) (wo_board w4)" "ag_current a = Some (ta_id t)"
      using claim by (auto elim!: claim_projection_cases)
    have agent: "ag_name a = agent" using saved(1) by (simp add: file_saved_def)
    have ends: "w' = w5" "path = task_path t" "r = r1"
      "\<exists>c. cs_fold (ne_store (we_birth env)) (wo_store w5) (ta_id t) = Inr c \<and> claim_current agent r c"
      using readback_Inr [OF steps(2)] agent by auto
    have "bo_agents (board_of env w') = bo_agents (wo_board w4)" using demote_keeps_agents [OF steps(1)] ends(1) by simp
    with saved(1) have "file_saved agent a (board_of env w3) (board_of env w')" by (simp add: file_saved_def)
    from file_saved_loads [OF this] have "load_agent (we_board env) agent (board_of env w') = Inr (Some a)" .
    with ends saved(2) gate_Inr [OF gate] show ?thesis by blast
  qed
qed

definition done_board :: "agent_file list \<Rightarrow> workshop" where
  "done_board as = (workshop_of (no_cards\<lparr>so_cards := [(''c1'', \<lparr>dir_core = dir_core (sample_dir ''c1'' []),
      dir_events = [(''w.jsonl'', [SLine ''x'' (Some (JObj (sample_act ''1'' ''complete'' [])))])]\<rparr>)]\<rparr>)
      [(''c1-c.json'', task_node (plain_task ''c1'' ''c'' [] []))])\<lparr>wo_board := sample_board [] as\<rparr>"

definition next_task :: coord_task where
  "next_task = new_task\<lparr>ta_dependencies := [''c1'']\<rparr>"

theorem claimed_creation_is_gated_witness:
  "let (r, w) = create_claimed_task (sample_work_env (\<lambda>i. Fine)) next_task ''bob'' [] [] (done_board [])
   in r = Inr (''x1-new.json'', ''u0'')
     \<and> (\<exists>vs v. get_task_views (we_board (sample_work_env (\<lambda>i. Fine))) True (board_of (sample_work_env (\<lambda>i. Fine)) (done_board [])) = Inr vs
          \<and> view_of vs ''c1'' = Some v \<and> tv_status v = TDone)
     \<and> (\<exists>c. cs_fold flat_env (wo_store w) ''x1'' = Inr c \<and> claim_current ''bob'' ''u0'' c)"
proof -
  let ?env = "sample_work_env (\<lambda>i. Fine)"
  let ?run = "create_claimed_task ?env next_task ''bob'' [] [] (done_board [])"
  have r: "fst ?run = Inr (''x1-new.json'', ''u0'') \<and> cs_load_core (wo_store (done_board [])) ''x1'' = Inr None" by code_simp
  then have run: "?run = (Inr (''x1-new.json'', ''u0''), snd ?run)" by (simp add: prod_eq_iff)
  have facts: "ta_id next_task = ''x1''" "ta_dependencies next_task = [''c1'']" "ne_store (we_birth ?env) = flat_env"
    by (simp_all add: next_task_def new_task_def plain_task_def sample_work_env_def)
  note all = claimed_creation_is_gated [OF run, unfolded facts]
  have "\<exists>vs v. get_task_views (we_board ?env) True (board_of ?env (done_board [])) = Inr vs \<and> view_of vs ''c1'' = Some v \<and> tv_status v = TDone"
    using all [THEN conjunct2, THEN conjunct2] r by simp
  with all [THEN conjunct2, THEN conjunct1] r show ?thesis unfolding case_prod_beta Let_def by blast
qed

text \<open>A refusal for open dependencies writes neither card nor task file nor agent file.\<close>

lemma open_dependencies_refused:
  assumes views: "get_task_views (we_board env) True (board_of env w) = Inr vs" and todo: "open_dependencies vs t \<noteq> []"
    and fresh: "digest = [] \<or> cs_load_core (wo_store w) (ta_id t) = Inr None"
    and run: "create_claimed_task env t agent digest actor w = (r, w')"
  shows "isl r \<and> wo_store w' = wo_store w \<and> wo_files w' = wo_files w \<and> wo_board w' = wo_board w"
proof -
  have deps: "ta_dependencies t \<noteq> []" using todo by (auto simp: open_dependencies_def)
  have gate: "isl (fst (claimed_gate env t digest actor w)) \<and> wo_store (snd (claimed_gate env t digest actor w)) = wo_store w
      \<and> wo_files (snd (claimed_gate env t digest actor w)) = wo_files w \<and> wo_board (snd (claimed_gate env t digest actor w)) = wo_board w"
  proof (cases "digest = []")
    case True
    then show ?thesis using views todo deps by (simp add: claimed_gate_def op_bind_result Let_def)
  next
    case False
    let ?why = "''Task '' @ ta_id t @ '' has incomplete dependencies: '' @ join '', '' (open_dependencies vs t)"
    obtain q n where q: "reserve_explicit_rejection (we_birth env) (ta_id t) digest actor ?why (wo_nursery w) = (q, n)"
      by (cases "reserve_explicit_rejection (we_birth env) (ta_id t) digest actor ?why (wo_nursery w)")
    then have "nu_store n = wo_store w" using op_keeps_run [OF reserve_keeps_store] by blast
    with q False show ?thesis
      using views todo deps by (cases q) (simp_all add: claimed_gate_def op_bind_result Let_def op_bind_run on_nursery_run)
  qed
  have "r = Inl e \<Longrightarrow> isl r" for e by simp
  then show ?thesis
    using run gate fresh
    by (cases "claimed_gate env t digest actor w"; cases "fst (claimed_gate env t digest actor w)")
      (auto simp: create_claimed_task_def claimed_fresh_def op_bind_run validate_agent_name_def split: if_splits sum.splits)
qed

section \<open>Where creation falls short\<close>

text \<open>
  A creation that was cut off after its intent was written draws a new claim revision when it is repeated: the
  semantic digest differs, and the identifier conflicts for good. The hash here tells the revision \<open>u0\<close> apart.
\<close>

definition telling_env :: "(nat \<Rightarrow> io) \<Rightarrow> work_env" where
  "telling_env io = (let env = sample_work_env io in env\<lparr>we_birth := (we_birth env)\<lparr>ne_store := flat_env\<lparr>se_sha := (\<lambda>t.
     if contains t ''u0'' then replicate 64 CHR ''0'' else replicate 64 CHR ''a'')\<rparr>\<rparr>\<rparr>)"

lemma claimed_retry_conflicts:
  "let w = restart (snd (create_claimed_task (telling_env (cut_at 0 Whole)) new_task ''bob'' sample_digest ''ana'' (workshop_of no_cards [])))
   in fst (create_claimed_task (telling_env (\<lambda>i. Fine)) new_task ''bob'' sample_digest ''ana'' w) = Inl (creation_conflict ''x1'')"
  by code_simp

text \<open>A replay after a stop at the task file reports success, and the file of the agent never lists the task.\<close>

lemma replay_leaves_agent_out:
  "let w = restart (snd (create_claimed_task (sample_work_env (cut_at 4 Nothing)) new_task ''bob'' sample_digest ''ana'' (workshop_of no_cards [])));
       (r, v) = create_claimed_task (sample_work_env (\<lambda>i. Fine)) new_task ''bob'' sample_digest ''ana'' w
   in r = Inr (''x1-new.json'', ''u0'') \<and> bo_agents (wo_board v) = []"
  by code_simp

text \<open>The task that an agent's file still names is moved back to the ready column, even when its card is done.\<close>

definition column_now :: "workshop \<Rightarrow> string \<Rightarrow> column option" where
  "column_now w cid = (case cs_fold flat_env (wo_store w) cid of Inr (Some c) \<Rightarrow> Some (cd_status c) | _ \<Rightarrow> None)"

lemma claimed_creation_reopens_finished:
  "column_now (done_board []) ''c1'' = Some Done"
  "case demote_bumped (sample_work_env (\<lambda>i. Fine)) ''bob'' (Some ''c1'') (done_board []) of
     (r, w) \<Rightarrow> r = Inr () \<and> column_now w ''c1'' = Some Ready"
  by code_simp+

text \<open>A score goes into the task file; after it, a replay of the creation is refused as a conflict.\<close>

lemma replay_refused_after_score:
  "let w = snd (create_explicit_task (sample_work_env (\<lambda>i. Fine)) new_task sample_digest ''ana'' (workshop_of no_cards []))
   in case score_task 1 90 [] [] None None ''2026'' (task_dump new_task) of
       Inl e \<Rightarrow> False
     | Inr d \<Rightarrow> fst (create_explicit_task (sample_work_env (\<lambda>i. Fine)) new_task sample_digest ''ana''
           (w\<lparr>wo_files := [(''x1-new.json'', Regular (CoreJson (JObj d)))]\<rparr>)) = Inl (task_conflict new_task)"
  by code_simp

end
