(* ===== verification/Lifecycle_Audit.thy ===== *)
theory Lifecycle_Audit
  imports Board_Guarantees Card_Birth
begin

text \<open>
  The audit of the agent files against the cards (\<open>_audit_lifecycle_unlocked\<close> of \<open>lifecycle.py\<close>): the cards decide
  who owns what, an agent file is a live projection of them, and the audit lists every disagreement. A scope
  restricts it to some tasks.
\<close>

section \<open>Cards and agents\<close>

text \<open>What the audit reads: the board, the ITIL records behind the legacy cards, and the receipts of repairs.\<close>

record yard =
  ya_board :: board
  ya_itil :: itil
  ya_receipts :: "(string \<times> json option list) list"
  ya_steps :: nat

record yard_env =
  ye_board :: board_env
  ye_itil :: itil_env
  ye_io :: "nat \<Rightarrow> fault"

definition has_task_files :: "board \<Rightarrow> bool" where
  "has_task_files b \<longleftrightarrow> list_ex (is_json_name \<circ> fst) (bo_tasks b)"

text \<open>\<open>KanbanBoard.cards(include_archived=True)\<close>.\<close>

definition projected_cards :: "yard_env \<Rightarrow> yard \<Rightarrow> card list result" where
  "projected_cards env y =
     (let b = ya_board y; st = bo_store b; itil = itil_cards (ye_itil env) (ya_itil y) in
      r_bind (get_task_views (ye_board env) True b) (\<lambda>vs.
      r_bind (r_map (\<lambda>i. r_bind (cs_read_events (be_store (ye_board env)) st i) (\<lambda>es. Inr (i, es)))
          (map tv_id vs @ map cd_id itil)) (\<lambda>stored.
      Inr (legacy_cards (\<lambda>_. vs) (filter (\<lambda>i. JStr i \<in> archived_ids b) (map tv_id vs)) itil (so_overlay st)
        (\<lambda>i. case map_of stored i of None \<Rightarrow> [] | Some es \<Rightarrow> es) True))))"

definition kanban_cards :: "yard_env \<Rightarrow> yard \<Rightarrow> card list result" where
  "kanban_cards env y =
     (let be = ye_board env; b = ya_board y in
      if card_store_read_enabled be
      then r_bind (cs_list_cards (be_why be) (be_store be) True True (bo_store b)) (\<lambda>cs.
        if cs \<noteq> [] \<or> \<not> has_task_files b then Inr cs else projected_cards env y)
      else projected_cards env y)"

text \<open>The dictionaries by identifier and by name: a later entry replaces an earlier one in its place.\<close>

definition index_by :: "('a \<Rightarrow> string) \<Rightarrow> 'a list \<Rightarrow> (string \<times> 'a) list" where
  "index_by key xs = foldl (\<lambda>d x. AList.update (key x) x d) [] xs"

definition in_scope :: "string list option \<Rightarrow> string \<Rightarrow> bool" where
  "in_scope scope t = (case scope of None \<Rightarrow> True | Some ts \<Rightarrow> t \<in> set ts)"

definition scoped :: "string list option \<Rightarrow> (string \<times> 'a) list \<Rightarrow> (string \<times> 'a) list" where
  "scoped scope d = filter (\<lambda>(t, x). in_scope scope t) d"

text \<open>\<open>agents.get(owner)\<close> for the owner of a card, which need not be a text.\<close>

definition agent_of :: "(string \<times> agent_file) list \<Rightarrow> json \<Rightarrow> agent_file option" where
  "agent_of agents v = (case v of JStr s \<Rightarrow> map_of agents s | _ \<Rightarrow> None)"

section \<open>Issues\<close>

record lifecycle_issue =
  li_code :: string
  li_task :: string
  li_agent :: json
  li_detail :: string

record lifecycle_audit =
  la_cards :: nat
  la_agents :: nat
  la_issues :: "lifecycle_issue list"

definition clean :: "lifecycle_audit \<Rightarrow> bool" where
  "clean r \<longleftrightarrow> la_issues r = []"

definition issue :: "string \<Rightarrow> string \<Rightarrow> json \<Rightarrow> string \<Rightarrow> lifecycle_issue" where
  "issue code t a d = \<lparr>li_code = code, li_task = t, li_agent = a, li_detail = d\<rparr>"

definition named_current :: "string list option \<Rightarrow> agent_file \<Rightarrow> string option" where
  "named_current scope a = (case ag_current a of None \<Rightarrow> None | Some t \<Rightarrow> if t \<noteq> [] \<and> in_scope scope t then Some t else None)"

definition current_issues :: "string list option \<Rightarrow> agent_file \<Rightarrow> lifecycle_issue list" where
  "current_issues scope a = (case named_current scope a of None \<Rightarrow> []
     | Some t \<Rightarrow> if t \<in> set (ag_claimed a) then []
         else [issue ''current_not_claimed'' t (JStr (ag_name a)) ''current_task is absent from claimed_tasks''])"

definition foreign_owner :: "agent_file \<Rightarrow> card \<Rightarrow> bool" where
  "foreign_owner a c \<longleftrightarrow> truthy (cd_owner c) \<and> cd_owner c \<noteq> JStr (ag_name a)"

definition claim_issues :: "(string \<times> card) list \<Rightarrow> agent_file \<Rightarrow> string \<Rightarrow> lifecycle_issue list" where
  "claim_issues cards a t = (let me = JStr (ag_name a) in
     case map_of cards t of
       None \<Rightarrow> [issue ''orphan_claim'' t me ''claimed card is missing'']
     | Some c \<Rightarrow>
         if cd_status c = Done then [issue ''done_still_claimed'' t me ''done card remains claimed'']
         else if cd_status c = Backlog then [issue ''backlog_still_claimed'' t me ''backlog card remains claimed'']
         else if foreign_owner a c then [issue ''claimant_not_owner'' t me (''card owner is '' @ py_str (cd_owner c))]
         else [])"

definition active_issues :: "(string \<times> card) list \<Rightarrow> string list option \<Rightarrow> agent_file \<Rightarrow> lifecycle_issue list" where
  "active_issues cards scope a = (case named_current scope a of None \<Rightarrow> []
     | Some t \<Rightarrow> (case map_of cards t of None \<Rightarrow> []
         | Some c \<Rightarrow>
             if cd_status c = Review
             then [issue ''review_reported_active'' t (JStr (ag_name a)) ''review owner is still reported as active execution'']
             else if cd_status c = Done
             then [issue ''done_reported_active'' t (JStr (ag_name a)) ''done card is still reported as active execution'']
             else []))"

definition history_issues :: "(string \<times> card) list \<Rightarrow> agent_file \<Rightarrow> string \<Rightarrow> lifecycle_issue list" where
  "history_issues cards a t = (case map_of cards t of None \<Rightarrow> []
     | Some c \<Rightarrow> if cd_status c = Done then []
         else [issue ''reopened_still_completed'' t (JStr (ag_name a)) ''non-done card remains in completed_tasks''])"

definition agent_issues :: "(string \<times> card) list \<Rightarrow> string list option \<Rightarrow> agent_file \<Rightarrow> lifecycle_issue list" where
  "agent_issues cards scope a =
     current_issues scope a @ concat (map (claim_issues cards a) (filter (in_scope scope) (ag_claimed a)))
     @ active_issues cards scope a @ concat (map (history_issues cards a) (filter (in_scope scope) (ag_completed a)))"

text \<open>Tasks that more than one agent claims.\<close>

definition claim_pairs :: "string list option \<Rightarrow> agent_file list \<Rightarrow> (string \<times> string) list" where
  "claim_pairs scope as = concat (map (\<lambda>a. map (\<lambda>t. (t, ag_name a)) (filter (in_scope scope) (ag_claimed a))) as)"

definition holders :: "string list option \<Rightarrow> agent_file list \<Rightarrow> string \<Rightarrow> string list" where
  "holders scope as t = dedup (map snd (filter (\<lambda>(u, n). u = t) (claim_pairs scope as)))"

definition shared_issues :: "string list option \<Rightarrow> agent_file list \<Rightarrow> lifecycle_issue list" where
  "shared_issues scope as = concat (map (\<lambda>t. if 1 < length (holders scope as t)
       then [issue ''multiple_claimants'' t JNull (''card is claimed by '' @ join '', '' (sort (holders scope as t)))] else [])
     (dedup (map fst (claim_pairs scope as))))"

text \<open>Owners without a claim; a dictionary cannot be asked for a key that has no hash.\<close>

definition owner_issues :: "(string \<times> agent_file) list \<Rightarrow> card \<Rightarrow> lifecycle_issue list result" where
  "owner_issues agents c =
     (if \<not> truthy (cd_owner c) then Inr []
      else if \<not> hashable (cd_owner c) then Inl TypeError
      else Inr (if cd_status c \<in> {Ready, Review, Doing}
          \<and> (case agent_of agents (cd_owner c) of None \<Rightarrow> True | Some a \<Rightarrow> cd_id c \<notin> set (ag_claimed a))
        then [issue ''owner_claim_missing'' (cd_id c) (cd_owner c) (column_value (cd_status c) @ '' owner lacks a claimed projection'')]
        else []))"

text \<open>\<open>doing_by_owner\<close>: the cards at work, by owner; equal keys are Python's.\<close>

fun group_add :: "json \<Rightarrow> string \<Rightarrow> (json \<times> string list) list \<Rightarrow> (json \<times> string list) list" where
  "group_add k t [] = [(k, [t])]"
| "group_add k t ((k', ts) # r) = (if json_eq k k' then (k', ts @ [t]) # r else (k', ts) # group_add k t r)"

definition doing_groups :: "card list \<Rightarrow> (json \<times> string list) list result" where
  "doing_groups cs = r_fold (\<lambda>gs c.
     if truthy (cd_owner c) \<and> cd_status c = Doing
     then (if hashable (cd_owner c) then Inr (group_add (cd_owner c) (cd_id c) gs) else Inl TypeError)
     else Inr gs) [] cs"

definition idle_issues :: "(string \<times> agent_file) list \<Rightarrow> string list option \<Rightarrow> json \<times> string list \<Rightarrow> lifecycle_issue list" where
  "idle_issues agents scope g = (case g of (k, ids) \<Rightarrow>
     let mine = sort (filter (in_scope scope) ids) in
     if mine \<noteq> [] \<and> (case agent_of agents k of None \<Rightarrow> True
         | Some a \<Rightarrow> (case ag_current a of None \<Rightarrow> True | Some t \<Rightarrow> t \<notin> set ids))
     then [issue ''doing_owner_not_current'' (hd mine) k ''doing owner does not report any owned doing card as current''] else [])"

section \<open>The audit\<close>

definition issue_key :: "lifecycle_issue \<Rightarrow> string \<times> string \<times> string" where
  "issue_key i = (li_task i, li_code i, case li_agent i of JStr s \<Rightarrow> s | _ \<Rightarrow> [])"

definition audit_cards :: "(string \<times> card) list \<Rightarrow> (string \<times> agent_file) list \<Rightarrow> string list option \<Rightarrow> lifecycle_audit result" where
  "audit_cards all agents scope =
     (let cards = scoped scope all; as = map snd agents in
      r_bind (r_map (owner_issues agents) (map snd cards)) (\<lambda>owners.
      r_bind (doing_groups (map snd all)) (\<lambda>groups.
      Inr \<lparr>la_cards = length cards, la_agents = length agents,
        la_issues = sort_key issue_key (concat (map (agent_issues cards scope) as) @ shared_issues scope as
          @ concat owners @ concat (map (idle_issues agents scope) groups))\<rparr>)))"

definition audit_lifecycle :: "yard_env \<Rightarrow> string list option \<Rightarrow> yard \<Rightarrow> lifecycle_audit result" where
  "audit_lifecycle env scope y =
     r_bind (kanban_cards env y) (\<lambda>cs.
       audit_cards (index_by cd_id cs) (index_by ag_name (load_agents (ye_board env) (ya_board y))) scope)"

section \<open>Groups\<close>

definition ids_of :: "(json \<times> string list) list \<Rightarrow> json \<Rightarrow> string list" where
  "ids_of gs k = (case find (\<lambda>(k', ids). json_eq k k') gs of None \<Rightarrow> [] | Some (k', ids) \<Rightarrow> ids)"

definition at_work :: "card \<Rightarrow> bool" where
  "at_work c \<longleftrightarrow> truthy (cd_owner c) \<and> cd_status c = Doing"

definition work_of :: "card list \<Rightarrow> json \<Rightarrow> string list" where
  "work_of cs k = map cd_id (filter (\<lambda>c. at_work c \<and> json_eq k (cd_owner c)) cs)"

definition grouped :: "(json \<times> string list) list \<Rightarrow> bool" where
  "grouped gs \<longleftrightarrow> distinct (map (json_plain \<circ> fst) gs)"

lemma ids_of_add: "ids_of (group_add k t gs) j = (if json_eq j k then ids_of gs j @ [t] else ids_of gs j)"
  by (induction k t gs rule: group_add.induct) (auto simp: ids_of_def json_eq_def)

lemma group_add_keys: "json_plain ` fst ` set (group_add k t gs) = insert (json_plain k) (json_plain ` fst ` set gs)"
  by (induction k t gs rule: group_add.induct) (auto simp: json_eq_def)

lemma grouped_add: "grouped gs \<Longrightarrow> grouped (group_add k t gs)"
proof (induction k t gs rule: group_add.induct)
  case (2 k t k' ts r)
  then show ?case
    using group_add_keys [of k t r] by (auto simp: grouped_def json_eq_def image_comp)
qed (simp add: grouped_def)

lemma ids_of_member: "grouped gs \<Longrightarrow> (k, ids) \<in> set gs \<Longrightarrow> ids_of gs k = ids"
  by (induction gs) (force simp: grouped_def ids_of_def json_eq_def)+

lemma ids_of_group: "ids_of gs j \<noteq> [] \<Longrightarrow> \<exists>k ids. (k, ids) \<in> set gs \<and> json_eq j k"
  by (induction gs) (auto simp: ids_of_def split: if_splits)

lemma doing_groups_spec:
  assumes "doing_groups cs = Inr gs"
  shows "grouped gs" and "ids_of gs j = work_of cs j" and "\<forall>c\<in>set cs. at_work c \<longrightarrow> hashable (cd_owner c)"
    and "\<forall>(k, ids)\<in>set gs. \<exists>c\<in>set cs. at_work c \<and> cd_owner c = k"
proof -
  let ?f = "\<lambda>gs c. if truthy (cd_owner c) \<and> cd_status c = Doing
     then (if hashable (cd_owner c) then Inr (group_add (cd_owner c) (cd_id c) gs) else Inl TypeError) else Inr gs"
  have "grouped gs \<and> ids_of gs j = ids_of gs0 j @ work_of cs j \<and> (\<forall>c\<in>set cs. at_work c \<longrightarrow> hashable (cd_owner c))
      \<and> (\<forall>(k, ids)\<in>set gs. k \<in> fst ` set gs0 \<or> (\<exists>c\<in>set cs. at_work c \<and> cd_owner c = k))"
    if "r_fold ?f gs0 cs = Inr gs" "grouped gs0" for gs0
    using that
  proof (induction cs arbitrary: gs0)
    case Nil
    then show ?case by (force simp: work_of_def)
  next
    case (Cons c cs)
    have keys: "fst ` set (group_add k t g) \<subseteq> insert k (fst ` set g)" for k t g
      by (induction k t g rule: group_add.induct) auto
    show ?case
    proof (cases "at_work c")
      case True
      then have hash: "hashable (cd_owner c)" and run: "r_fold ?f (group_add (cd_owner c) (cd_id c) gs0) cs = Inr gs"
        using Cons.prems(1) by (auto simp: at_work_def split: if_splits)
      note ih = Cons.IH [OF run grouped_add [OF Cons.prems(2)]]
      have "k \<in> fst ` set gs0 \<or> (\<exists>d\<in>set (c # cs). at_work d \<and> cd_owner d = k)" if "(k, ids) \<in> set gs" for k ids
      proof -
        have "k \<in> fst ` set (group_add (cd_owner c) (cd_id c) gs0) \<or> (\<exists>d\<in>set cs. at_work d \<and> cd_owner d = k)"
          using ih that by blast
        with True keys [of "cd_owner c" "cd_id c" gs0] show ?thesis by auto
      qed
      moreover have "ids_of gs j = ids_of gs0 j @ work_of (c # cs) j"
        using ih True by (simp add: ids_of_add work_of_def)
      ultimately show ?thesis using ih hash by auto
    next
      case False
      then have "r_fold ?f gs0 cs = Inr gs" using Cons.prems(1) by (auto simp: at_work_def split: if_splits)
      note ih = Cons.IH [OF this Cons.prems(2)]
      have "ids_of gs j = ids_of gs0 j @ work_of (c # cs) j" using ih False by (simp add: work_of_def)
      with ih False show ?thesis by auto
    qed
  qed
  from this [of "[]"] assms
  show "grouped gs" "ids_of gs j = work_of cs j" "\<forall>c\<in>set cs. at_work c \<longrightarrow> hashable (cd_owner c)"
    "\<forall>(k, ids)\<in>set gs. \<exists>c\<in>set cs. at_work c \<and> cd_owner c = k"
    by (auto simp: doing_groups_def grouped_def ids_of_def)
qed

section \<open>A clean audit\<close>

text \<open>A claim is of an open card that has no other owner; what is current is claimed and not waiting for a review.\<close>

definition claim_agrees :: "(string \<times> card) list \<Rightarrow> agent_file \<Rightarrow> string \<Rightarrow> bool" where
  "claim_agrees cards a t \<longleftrightarrow> (\<exists>c. map_of cards t = Some c \<and> cd_status c \<in> {Ready, Doing, Review} \<and> \<not> foreign_owner a c)"

definition agent_agrees :: "(string \<times> card) list \<Rightarrow> string list option \<Rightarrow> agent_file \<Rightarrow> bool" where
  "agent_agrees cards scope a \<longleftrightarrow>
     (\<forall>t\<in>set (ag_claimed a). in_scope scope t \<longrightarrow> claim_agrees cards a t)
   \<and> (\<forall>t. named_current scope a = Some t \<longrightarrow> t \<in> set (ag_claimed a) \<and> (\<forall>c. map_of cards t = Some c \<longrightarrow> cd_status c \<in> {Backlog, Ready, Doing}))
   \<and> (\<forall>t\<in>set (ag_completed a). in_scope scope t \<longrightarrow> (\<forall>c. map_of cards t = Some c \<longrightarrow> cd_status c = Done))"

definition claims_apart :: "string list option \<Rightarrow> agent_file list \<Rightarrow> bool" where
  "claims_apart scope as \<longleftrightarrow> (\<forall>a\<in>set as. \<forall>b\<in>set as. \<forall>t. in_scope scope t \<and> t \<in> set (ag_claimed a) \<and> t \<in> set (ag_claimed b)
     \<longrightarrow> ag_name a = ag_name b)"

definition owner_agrees :: "(string \<times> agent_file) list \<Rightarrow> card \<Rightarrow> bool" where
  "owner_agrees agents c \<longleftrightarrow> (truthy (cd_owner c) \<and> cd_status c \<in> {Ready, Review, Doing}
     \<longrightarrow> (\<exists>a. agent_of agents (cd_owner c) = Some a \<and> cd_id c \<in> set (ag_claimed a)))"

definition work_agrees :: "card list \<Rightarrow> (string \<times> agent_file) list \<Rightarrow> card \<Rightarrow> bool" where
  "work_agrees cs agents c \<longleftrightarrow> (at_work c \<longrightarrow> (\<exists>a t. agent_of agents (cd_owner c) = Some a \<and> ag_current a = Some t
     \<and> t \<in> set (work_of cs (cd_owner c))))"

definition projections_agree :: "(string \<times> card) list \<Rightarrow> (string \<times> agent_file) list \<Rightarrow> string list option \<Rightarrow> bool" where
  "projections_agree all agents scope \<longleftrightarrow>
     (\<forall>a\<in>set (map snd agents). agent_agrees (scoped scope all) scope a) \<and> claims_apart scope (map snd agents)
   \<and> (\<forall>c\<in>set (map snd (scoped scope all)). owner_agrees agents c)
   \<and> (\<forall>c\<in>set (map snd all). in_scope scope (cd_id c) \<longrightarrow> work_agrees (map snd all) agents c)"

lemma sort_key_Nil: "sort_key f xs = [] \<longleftrightarrow> xs = []"
  by (metis length_0_conv length_sort)

lemma claim_issues_Nil: "claim_issues cards a t = [] \<longleftrightarrow> claim_agrees cards a t"
  by (cases "map_of cards t"; cases "cd_status (the (map_of cards t))") (auto simp: claim_issues_def claim_agrees_def Let_def)

lemma agent_issues_Nil: "agent_issues cards scope a = [] \<longleftrightarrow> agent_agrees cards scope a"
proof -
  have "active_issues cards scope a = [] \<longleftrightarrow> (\<forall>t c. named_current scope a = Some t \<longrightarrow> map_of cards t = Some c \<longrightarrow> cd_status c \<in> {Backlog, Ready, Doing})"
    by (cases "named_current scope a"; cases "map_of cards (the (named_current scope a))"; cases "cd_status (the (map_of cards (the (named_current scope a))))")
      (auto simp: active_issues_def)
  moreover have "current_issues scope a = [] \<longleftrightarrow> (\<forall>t. named_current scope a = Some t \<longrightarrow> t \<in> set (ag_claimed a))"
    by (auto simp: current_issues_def split: option.splits)
  moreover have "history_issues cards a t = [] \<longleftrightarrow> (\<forall>c. map_of cards t = Some c \<longrightarrow> cd_status c = Done)" for t
    by (auto simp: history_issues_def split: option.splits)
  ultimately show ?thesis by (auto simp: agent_issues_def agent_agrees_def claim_issues_Nil)
qed

lemma several_iff: "distinct xs \<Longrightarrow> 1 < length xs \<longleftrightarrow> (\<exists>m\<in>set xs. \<exists>n\<in>set xs. m \<noteq> n)"
  by (cases xs rule: remdups_adj.cases) auto

lemma shared_issues_Nil: "shared_issues scope as = [] \<longleftrightarrow> claims_apart scope as"
proof -
  have members: "n \<in> set (holders scope as t) \<longleftrightarrow> (\<exists>a\<in>set as. n = ag_name a \<and> t \<in> set (ag_claimed a) \<and> in_scope scope t)" for n t
    by (force simp: holders_def claim_pairs_def)
  have "distinct (holders scope as t)" for t by (simp add: holders_def)
  note many = several_iff [OF this]
  have none: "\<not> 1 < length (holders scope as t)" if "t \<notin> set (map fst (claim_pairs scope as))" for t
  proof -
    have "filter (\<lambda>(u, n). u = t) (claim_pairs scope as) = []" using that by (force simp: filter_empty_conv)
    then have "holders scope as t = []" by (simp add: holders_def dedup_def)
    then show ?thesis by simp
  qed
  have "shared_issues scope as = [] \<longleftrightarrow> (\<forall>t\<in>set (map fst (claim_pairs scope as)). \<not> 1 < length (holders scope as t))"
    unfolding shared_issues_def concat_eq_Nil_conv by (simp add: ball_conj_distrib split: if_splits) blast
  also have "\<dots> \<longleftrightarrow> (\<forall>t. \<not> 1 < length (holders scope as t))" using none by blast
  also have "\<dots> \<longleftrightarrow> claims_apart scope as" unfolding many claims_apart_def Ball_def Bex_def members by blast
  finally show ?thesis .
qed

lemma owner_issues_Nil: "owner_issues agents c = Inr found \<Longrightarrow> found = [] \<longleftrightarrow> owner_agrees agents c"
  by (auto simp: owner_issues_def owner_agrees_def split: if_splits option.splits)

lemma owner_lists: "r_map (owner_issues agents) cs = Inr xs \<Longrightarrow> concat xs = [] \<longleftrightarrow> (\<forall>c\<in>set cs. owner_agrees agents c)"
  by (induction cs arbitrary: xs) (auto simp: owner_issues_Nil elim!: r_bind_InrE)

lemma agent_of_eq: "json_eq j k \<Longrightarrow> agent_of agents j = agent_of agents k"
  by (cases j; cases k) (auto simp: agent_of_def json_eq_def split: if_splits)

lemma work_of_eq: "json_eq j k \<Longrightarrow> work_of cs j = work_of cs k"
  unfolding work_of_def by (metis json_eq_sym json_eq_trans)

lemma idle_issues_Nil:
  "idle_issues agents scope (k, ids) = [] \<longleftrightarrow> ((\<exists>t\<in>set ids. in_scope scope t)
     \<longrightarrow> (\<exists>a t. agent_of agents k = Some a \<and> ag_current a = Some t \<and> t \<in> set ids))"
proof -
  have "sort (filter (in_scope scope) ids) = [] \<longleftrightarrow> \<not> (\<exists>t\<in>set ids. in_scope scope t)"
    by (simp add: sort_key_Nil filter_empty_conv)
  then show ?thesis by (auto simp: idle_issues_def Let_def split: option.splits)
qed

lemma idle_groups_Nil:
  assumes "doing_groups cs = Inr gs"
  shows "concat (map (idle_issues agents scope) gs) = [] \<longleftrightarrow> (\<forall>c\<in>set cs. in_scope scope (cd_id c) \<longrightarrow> work_agrees cs agents c)"
proof
  note gs = doing_groups_spec [OF assms]
  show "\<forall>c\<in>set cs. in_scope scope (cd_id c) \<longrightarrow> work_agrees cs agents c" if none: "concat (map (idle_issues agents scope) gs) = []"
  proof (intro ballI impI)
    fix c assume c: "c \<in> set cs" "in_scope scope (cd_id c)"
    show "work_agrees cs agents c"
    proof (cases "at_work c")
      case True
      then have mine: "cd_id c \<in> set (work_of cs (cd_owner c))" using c(1) by (simp add: work_of_def)
      then obtain k ids where k: "(k, ids) \<in> set gs" "json_eq (cd_owner c) k"
        using ids_of_group [of gs "cd_owner c"] gs(2) by (metis empty_iff list.set(1))
      have ids: "ids = work_of cs (cd_owner c)"
        using ids_of_member [OF gs(1) k(1)] gs(2) work_of_eq [OF k(2)] by simp
      have "idle_issues agents scope (k, ids) = []" using none k(1) by (auto simp: concat_eq_Nil_conv)
      with mine c(2) ids show ?thesis
        unfolding idle_issues_Nil work_agrees_def agent_of_eq [OF k(2)] by blast
    qed (simp add: work_agrees_def)
  qed
  show "concat (map (idle_issues agents scope) gs) = []" if all: "\<forall>c\<in>set cs. in_scope scope (cd_id c) \<longrightarrow> work_agrees cs agents c"
  proof -
    have "idle_issues agents scope (k, ids) = []" if k: "(k, ids) \<in> set gs" for k ids
      unfolding idle_issues_Nil
    proof
      have ids: "ids = work_of cs k" using ids_of_member [OF gs(1) k] gs(2) by simp
      assume "\<exists>t\<in>set ids. in_scope scope t"
      then obtain c where c: "c \<in> set cs" "at_work c" "json_eq k (cd_owner c)" "in_scope scope (cd_id c)"
        unfolding ids work_of_def by auto
      with all have "work_agrees cs agents c" by blast
      with c(2) show "\<exists>a t. agent_of agents k = Some a \<and> ag_current a = Some t \<and> t \<in> set ids"
        unfolding work_agrees_def ids agent_of_eq [OF c(3)] work_of_eq [OF c(3)] by blast
    qed
    then show ?thesis by (auto simp: concat_eq_Nil_conv)
  qed
qed

text \<open>
  C14. The audit is clean exactly if the agent files are a projection of the cards: every claim in scope is of an
  open card that no one else owns, a current task is claimed and neither in review nor done, a completed task is
  done, no two agents claim the same task, every owner claims its open cards, and an owner with work reports
  some of it as current.
\<close>

theorem audit_exact:
  assumes "audit_cards all agents scope = Inr r"
  shows "clean r \<longleftrightarrow> projections_agree all agents scope"
proof -
  obtain owners gs where owners: "r_map (owner_issues agents) (map snd (scoped scope all)) = Inr owners"
    and gs: "doing_groups (map snd all) = Inr gs"
    and r: "la_issues r = sort_key issue_key (concat (map (agent_issues (scoped scope all) scope) (map snd agents))
      @ shared_issues scope (map snd agents) @ concat owners @ concat (map (idle_issues agents scope) gs))"
    using assms by (auto simp: audit_cards_def Let_def elim!: r_bind_InrE)
  have "concat owners = [] \<longleftrightarrow> (\<forall>c\<in>set (map snd (scoped scope all)). owner_agrees agents c)"
    using owner_lists [OF owners] .
  moreover have "clean r \<longleftrightarrow> concat (map (agent_issues (scoped scope all) scope) (map snd agents)) = []
      \<and> shared_issues scope (map snd agents) = [] \<and> concat owners = [] \<and> concat (map (idle_issues agents scope) gs) = []"
    unfolding clean_def r sort_key_Nil by simp
  ultimately show ?thesis
    using idle_groups_Nil [OF gs, of agents scope]
    unfolding projections_agree_def shared_issues_Nil by (simp add: concat_eq_Nil_conv agent_issues_Nil)
qed

text \<open>One card at work, whose owner claims it and reports it; and a card that someone else owns.\<close>

definition audited_cards :: "string \<Rightarrow> (string \<times> card) list" where
  "audited_cards owner = [(''c1'', (new_card ''c1'' Task ''t'' Doing ''feature'')\<lparr>cd_owner := JStr owner\<rparr>)]"

theorem audit_exact_witness:
  "projections_agree (audited_cards ''ana'') [(''ana'', ana_on_c1)] None
     \<and> \<not> projections_agree (audited_cards ''bob'') [(''ana'', ana_on_c1)] None"
proof -
  have "map_sum id (map li_code \<circ> la_issues) (audit_cards (audited_cards ''ana'') [(''ana'', ana_on_c1)] None) = Inr []"
    "map_sum id (map li_code \<circ> la_issues) (audit_cards (audited_cards ''bob'') [(''ana'', ana_on_c1)] None)
       = Inr [''claimant_not_owner'', ''doing_owner_not_current'', ''owner_claim_missing'']"
    by code_simp+
  note runs = this [THEN map_sum_InrD]
  from runs(1) obtain r1 where "audit_cards (audited_cards ''ana'') [(''ana'', ana_on_c1)] None = Inr r1" "clean r1"
    by (auto simp: clean_def)
  moreover from runs(2) obtain r2 where "audit_cards (audited_cards ''bob'') [(''ana'', ana_on_c1)] None = Inr r2" "\<not> clean r2"
    by (auto simp: clean_def)
  ultimately show ?thesis using audit_exact by blast
qed

end
