(* ===== verification/Lifecycle_Repair.thy ===== *)
theory Lifecycle_Repair
  imports Lifecycle_Audit
begin

text \<open>
  The repair of the agent files to the cards (\<open>repair_lifecycle\<close> of \<open>lifecycle.py\<close>): it stops at active
  conflicts, plans the files to write, records its intent, writes them, audits again, and either records the
  commit or puts the files back. A receipt log of every writer tells a later repair which intents were left open.
\<close>

section \<open>Active agents and conflicts\<close>

definition seen_at :: "agent_file \<Rightarrow> int option" where
  "seen_at a = (case fromisoformat (ag_last_seen a) of None \<Rightarrow> None
     | Some d \<Rightarrow> Some (dt_local d - (case dt_offset d of None \<Rightarrow> 0 | Some off \<Rightarrow> off)))"

definition is_active :: "int \<Rightarrow> int \<Rightarrow> agent_file \<Rightarrow> bool" where
  "is_active now stale a \<longleftrightarrow> ag_state a = AActive
     \<and> (case seen_at a of None \<Rightarrow> False | Some t \<Rightarrow> now - t \<le> stale * micros_per_second)"

definition active_issue :: "(agent_file \<Rightarrow> bool) \<Rightarrow> (string \<times> agent_file) list \<Rightarrow> lifecycle_issue \<Rightarrow> bool" where
  "active_issue active agents i \<longleftrightarrow> li_code i \<in> {''orphan_claim'', ''claimant_not_owner''}
     \<and> (case agent_of agents (li_agent i) of None \<Rightarrow> False | Some a \<Rightarrow> active a)"

definition contested :: "(agent_file \<Rightarrow> bool) \<Rightarrow> (string \<times> agent_file) list \<Rightarrow> lifecycle_issue \<Rightarrow> bool" where
  "contested active agents i \<longleftrightarrow> li_code i = ''multiple_claimants''
     \<and> 1 < length (filter (\<lambda>(n, a). li_task i \<in> set (ag_claimed a) \<and> active a) agents)"

definition no_active_conflicts :: "(agent_file \<Rightarrow> bool) \<Rightarrow> (string \<times> agent_file) list \<Rightarrow> lifecycle_audit \<Rightarrow> unit result" where
  "no_active_conflicts active agents report =
     (if list_ex (active_issue active agents) (la_issues report) then Inl (RuntimeError ''active claim'')
      else if list_ex (contested active agents) (la_issues report) then Inl (RuntimeError ''multiple active owners'')
      else Inr ())"

section \<open>One agent\<close>

definition keeps_claim :: "(agent_file \<Rightarrow> bool) \<Rightarrow> (string \<times> card) list \<Rightarrow> string list option \<Rightarrow> agent_file \<Rightarrow> string \<Rightarrow> bool" where
  "keeps_claim active cards scope a t \<longleftrightarrow> \<not> in_scope scope t
     \<or> (case map_of cards t of None \<Rightarrow> active a
        | Some c \<Rightarrow> cd_status c \<noteq> Backlog \<and> cd_status c \<noteq> Done \<and> \<not> foreign_owner a c)"

definition release_text :: "(string \<times> card) list \<Rightarrow> agent_file \<Rightarrow> string \<Rightarrow> string" where
  "release_text cards a t = ''release '' @ (case map_of cards t of None \<Rightarrow> ''orphan''
     | Some c \<Rightarrow> if cd_status c \<in> {Backlog, Done} then column_value (cd_status c) else ''non-owner'')
     @ '' '' @ t @ '' from '' @ ag_name a"

definition release_claims :: "(agent_file \<Rightarrow> bool) \<Rightarrow> (string \<times> card) list \<Rightarrow> string list option \<Rightarrow> agent_file \<Rightarrow> agent_file \<times> string list" where
  "release_claims active cards scope a =
     (a\<lparr>ag_claimed := dedup (filter (keeps_claim active cards scope a) (ag_claimed a))\<rparr>,
      map (release_text cards a) (filter (\<lambda>t. \<not> keeps_claim active cards scope a t) (ag_claimed a)))"

definition current_in :: "string list option \<Rightarrow> agent_file \<Rightarrow> bool" where
  "current_in scope a = (case scope of None \<Rightarrow> True
     | Some ts \<Rightarrow> (case ag_current a of None \<Rightarrow> False | Some t \<Rightarrow> t \<in> set ts))"

definition stop_current :: "(string \<times> card) list \<Rightarrow> agent_file \<Rightarrow> agent_file \<times> string list" where
  "stop_current cards a = (case ag_current a of
      None \<Rightarrow> (a, [])
    | Some t \<Rightarrow>
        if t \<notin> set (ag_claimed a)
        then (a\<lparr>ag_current := None\<rparr>, if t = [] then [] else [''clear current '' @ t @ '' from '' @ ag_name a])
        else (case map_of cards t of None \<Rightarrow> (a, [])
          | Some c \<Rightarrow> if cd_status c = Doing then (a, []) else (a\<lparr>ag_current := None\<rparr>, [''stop active '' @ t @ '' for '' @ ag_name a])))"

definition pick_current :: "(json \<Rightarrow> string list) \<Rightarrow> string list option \<Rightarrow> agent_file \<Rightarrow> agent_file" where
  "pick_current doing scope a = (if ag_current a \<noteq> None then a
     else case filter (\<lambda>t. t \<in> set (ag_claimed a) \<or> in_scope scope t) (doing (JStr (ag_name a))) of
       [] \<Rightarrow> a | t # ts \<Rightarrow> a\<lparr>ag_current := Some t\<rparr>)"

definition reopened :: "(string \<times> card) list \<Rightarrow> string list option \<Rightarrow> string \<Rightarrow> bool" where
  "reopened cards scope t \<longleftrightarrow> in_scope scope t \<and> (case map_of cards t of None \<Rightarrow> False | Some c \<Rightarrow> cd_status c \<noteq> Done)"

definition repair_agent ::
    "(agent_file \<Rightarrow> bool) \<Rightarrow> (string \<times> card) list \<Rightarrow> (json \<Rightarrow> string list) \<Rightarrow> string list option \<Rightarrow> agent_file \<Rightarrow> agent_file \<times> string list" where
  "repair_agent active cards doing scope a =
     (let (a1, releases) = release_claims active cards scope a;
          (a2, stops) = (if current_in scope a then stop_current cards a1 else (a1, []));
          a3 = (if current_in scope a then pick_current doing scope a2 else a2);
          again = filter (reopened cards scope) (ag_completed a)
      in (a3\<lparr>ag_completed := filter (\<lambda>t. \<not> reopened cards scope t) (ag_completed a)\<rparr>,
          releases @ stops @ map (\<lambda>t. ''reopen '' @ t @ '' for '' @ ag_name a) again))"

section \<open>One card\<close>

definition claim_card :: "(string \<times> card) list \<Rightarrow> string list \<Rightarrow> agent_file \<Rightarrow> card \<Rightarrow> agent_file \<times> string list" where
  "claim_card cards owned a c =
     (let t = cd_id c;
          (a1, acts) = (if t \<in> set (ag_claimed a) then (a, [])
            else (a\<lparr>ag_claimed := ag_claimed a @ [t]\<rparr>, [''claim '' @ t @ '' for '' @ ag_name a]));
          a2 = a1\<lparr>ag_completed := remove1 t (ag_completed a1)\<rparr>
      in (if cd_status c = Doing
          then (if (case ag_current a2 of None \<Rightarrow> False | Some u \<Rightarrow> u \<in> set owned) then a2
                else a2\<lparr>ag_current := Some (hd (filter (\<lambda>u. u \<in> fst ` set cards) owned))\<rparr>)
          else if ag_current a2 = Some t then a2\<lparr>ag_current := None\<rparr> else a2, acts))"

definition project_card :: "(string \<times> card) list \<Rightarrow> string list \<Rightarrow> agent_file \<Rightarrow> card \<Rightarrow> agent_file \<times> string list" where
  "project_card cards owned a c =
     (if cd_status c = Done
      then (if cd_id c \<in> set (ag_completed a) then (a, [])
            else (a\<lparr>ag_completed := ag_completed a @ [cd_id c]\<rparr>, [''complete '' @ cd_id c @ '' for '' @ ag_name a]))
      else if cd_status c = Backlog then (a, [])
      else claim_card cards owned a c)"

section \<open>The plan\<close>

record plan =
  pl_agents :: "(string \<times> agent_file) list"
  pl_pending :: "(string \<times> agent_file) list"
  pl_actions :: "string list"

definition act :: "string list \<Rightarrow> (plan, unit) op" where
  "act acts = op_write (\<lambda>p. p\<lparr>pl_actions := pl_actions p @ acts\<rparr>)"

definition put_agent :: "agent_file \<Rightarrow> (plan, unit) op" where
  "put_agent a = op_write (\<lambda>p. p\<lparr>pl_agents := AList.update (ag_name a) a (pl_agents p)\<rparr>)"

definition stage :: "agent_file \<Rightarrow> (plan, unit) op" where
  "stage a = (if agent_name_ok (ag_name a) then op_write (\<lambda>p. p\<lparr>pl_pending := AList.update (ag_name a) a (pl_pending p)\<rparr>)
     else op_raise (RuntimeError ''agent name''))"

text \<open>\<open>AgentFile(agent=owner, state=OFFLINE)\<close>.\<close>

definition offline_agent :: "string \<Rightarrow> string \<Rightarrow> json \<Rightarrow> agent_file result" where
  "offline_agent now host v = (case v of
      JStr n \<Rightarrow> if agent_name_ok n then Inr ((new_agent now host n)\<lparr>ag_state := AOffline\<rparr>) else Inl ValidationError
    | _ \<Rightarrow> Inl ValidationError)"

definition plan_agent ::
    "(agent_file \<Rightarrow> bool) \<Rightarrow> (string \<times> card) list \<Rightarrow> (json \<Rightarrow> string list) \<Rightarrow> string list option \<Rightarrow> agent_file \<Rightarrow> (plan, unit) op" where
  "plan_agent active cards doing scope a =
     (let (a', acts) = repair_agent active cards doing scope a in
      op_bind (act acts) (\<lambda>_. op_bind (put_agent a') (\<lambda>_. op_when (a' \<noteq> a) (stage a'))))"

definition plan_card :: "string \<Rightarrow> string \<Rightarrow> (string \<times> card) list \<Rightarrow> (json \<Rightarrow> string list) \<Rightarrow> card \<Rightarrow> (plan, unit) op" where
  "plan_card now host cards doing c =
     (if \<not> truthy (cd_owner c) then op_return ()
      else if \<not> hashable (cd_owner c) then op_raise TypeError
      else op_bind (op_read (\<lambda>p. agent_of (pl_agents p) (cd_owner c))) (\<lambda>found.
           op_bind (op_result (\<lambda>_. case found of None \<Rightarrow> offline_agent now host (cd_owner c) | Some a \<Rightarrow> Inr a)) (\<lambda>a.
           let (a', acts) = project_card cards (doing (JStr (ag_name a))) a c in
           op_bind (act acts) (\<lambda>_. op_when (a' \<noteq> a) (op_bind (stage a') (\<lambda>_. put_agent a'))))))"

definition make_plan ::
    "(agent_file \<Rightarrow> bool) \<Rightarrow> string \<Rightarrow> string \<Rightarrow> (string \<times> card) list \<Rightarrow> (json \<Rightarrow> string list) \<Rightarrow> string list option
       \<Rightarrow> (plan, unit) op" where
  "make_plan active now host cards doing scope =
     op_bind (op_read (\<lambda>p. map snd (pl_agents p))) (\<lambda>as.
     op_bind (op_for as (plan_agent active cards doing scope)) (\<lambda>_.
       op_for (map snd cards) (plan_card now host cards doing)))"

section \<open>Receipts\<close>

text \<open>
  A line of a receipt log that is no JSON is \<open>None\<close>. A receipt has phases, and its intent says which tasks it
  is about; a scope is a set, kept sorted.
\<close>

record receipt_marks =
  rm_phases :: "(string \<times> string list) list"
  rm_scopes :: "(string \<times> string list option) list"

definition bad_receipts :: py_error where
  "bad_receipts = RuntimeError ''reconciliation receipt source is invalid''"

definition add_phase :: "string \<Rightarrow> string \<Rightarrow> receipt_marks \<Rightarrow> receipt_marks" where
  "add_phase rid ph m = m\<lparr>rm_phases := AList.update rid
     (ph # (case map_of (rm_phases m) rid of None \<Rightarrow> [] | Some phs \<Rightarrow> phs)) (rm_phases m)\<rparr>"

definition scope_set :: "string list \<Rightarrow> string list" where
  "scope_set ts = sort (dedup ts)"

definition receipt_scope :: "json \<Rightarrow> string list option result" where
  "receipt_scope v = (case v of
      JNull \<Rightarrow> Inr None
    | JList vs \<Rightarrow> if list_all is_str vs then Inr (Some (scope_set (texts_of vs))) else Inl (RuntimeError ''receipt scope is invalid'')
    | _ \<Rightarrow> Inl (RuntimeError ''receipt scope is invalid''))"

definition add_scope :: "string \<Rightarrow> string list option \<Rightarrow> receipt_marks \<Rightarrow> receipt_marks result" where
  "add_scope rid sc m = (case map_of (rm_scopes m) rid of
      Some sc' \<Rightarrow> if sc' = sc then Inr m else Inl (RuntimeError ''receipt scope is inconsistent'')
    | None \<Rightarrow> Inr (m\<lparr>rm_scopes := AList.update rid sc (rm_scopes m)\<rparr>))"

definition read_receipt :: "receipt_marks \<Rightarrow> json option \<Rightarrow> receipt_marks result" where
  "read_receipt m line = (case line of
      Some (JObj d) \<Rightarrow>
        (case (get d ''receipt_id'', get d ''phase'') of
          (JNull, JNull) \<Rightarrow> Inr m
        | (JStr rid, JNull) \<Rightarrow> Inr (add_phase rid ''legacy_committed'' m)
        | (JStr rid, JStr ph) \<Rightarrow>
            if ph = ''intent''
            then r_bind (receipt_scope (get d ''task_ids'')) (\<lambda>sc. add_scope rid sc (add_phase rid ph m))
            else Inr (add_phase rid ph m)
        | _ \<Rightarrow> Inl bad_receipts)
    | _ \<Rightarrow> Inl bad_receipts)"

definition receipt_lines :: "(string \<times> json option list) list \<Rightarrow> json option list" where
  "receipt_lines fs = concat (map snd (sort_key fst (filter (\<lambda>(n, ls). jsonl n) fs)))"

definition terminal_phases :: "string list" where
  "terminal_phases = [''committed'', ''rolled_back'', ''recovered'', ''legacy_committed'']"

definition is_open :: "string list \<Rightarrow> bool" where
  "is_open phs \<longleftrightarrow> ''intent'' \<in> set phs \<and> (\<forall>ph\<in>set phs. ph \<notin> set terminal_phases)"

definition unresolved_receipts :: "yard \<Rightarrow> (string \<times> string list option) list result" where
  "unresolved_receipts y =
     r_bind (r_fold read_receipt \<lparr>rm_phases = [], rm_scopes = []\<rparr> (receipt_lines (ya_receipts y))) (\<lambda>m.
     Inr (map (\<lambda>(rid, phs). (rid, case map_of (rm_scopes m) rid of None \<Rightarrow> None | Some sc \<Rightarrow> sc))
       (sort_key fst (filter (\<lambda>(rid, phs). is_open phs) (rm_phases m)))))"

section \<open>Clock, identifiers and writes\<close>

text \<open>Every reading of the clock, every identifier and every write is a step of the yard; a write meets its fault.\<close>

definition yard_now :: "yard_env \<Rightarrow> yard \<Rightarrow> string" where
  "yard_now env y = se_clock (be_store (ye_board env)) (so_ticks (bo_store (ya_board y)) + ya_steps y)"

definition yard_uuid :: "yard_env \<Rightarrow> yard \<Rightarrow> string" where
  "yard_uuid env y = se_uuid (be_store (ye_board env)) (so_ids (bo_store (ya_board y)) + ya_steps y)"

definition instant_of :: "string \<Rightarrow> int" where
  "instant_of s = (case fromisoformat s of None \<Rightarrow> 0 | Some d \<Rightarrow> dt_local d - (case dt_offset d of None \<Rightarrow> 0 | Some off \<Rightarrow> off))"

definition yard_step :: "yard \<Rightarrow> yard" where
  "yard_step y = y\<lparr>ya_steps := ya_steps y + 1\<rparr>"

definition yard_draw :: "(yard \<Rightarrow> 'a) \<Rightarrow> (yard, 'a) op" where
  "yard_draw f = op_bind (op_read f) (\<lambda>x. op_bind (op_write yard_step) (\<lambda>_. op_return x))"

definition yard_fault :: py_error where
  "yard_fault = OSError ''input or output''"

definition yard_write :: "yard_env \<Rightarrow> (yard \<Rightarrow> yard) \<Rightarrow> (yard, unit) op" where
  "yard_write env change =
     op_bind (op_read (\<lambda>y. ye_io env (ya_steps y))) (\<lambda>f.
     op_bind (op_write yard_step) (\<lambda>_.
     case f of
       NoFault \<Rightarrow> op_write change
     | FailBefore \<Rightarrow> op_raise yard_fault
     | FailAfter \<Rightarrow> op_bind (op_write change) (\<lambda>_. op_raise yard_fault)))"

text \<open>\<open>re.sub(r"[^A-Za-z0-9_.-]+", "-", actor).strip("-.") or "operator"\<close>.\<close>

fun safe_runs :: "bool \<Rightarrow> string \<Rightarrow> string" where
  "safe_runs inside [] = []"
| "safe_runs inside (c # s) =
     (if is_alnum c \<or> c \<in> set ''_.-'' then c # safe_runs False s
      else if inside then safe_runs True s else CHR ''-'' # safe_runs True s)"

definition safe_actor :: "string \<Rightarrow> string" where
  "safe_actor s = (let edge = (\<lambda>c. c \<in> set ''-.''); v = rev (dropWhile edge (rev (dropWhile edge (safe_runs False s))))
     in if v = [] then ''operator'' else v)"

definition receipt_file :: "yard_env \<Rightarrow> string \<Rightarrow> string" where
  "receipt_file env actor = safe_actor actor @ ''@'' @ se_host (be_store (ye_board env)) @ ''.jsonl''"

definition add_receipt :: "string \<Rightarrow> jobj \<Rightarrow> yard \<Rightarrow> yard" where
  "add_receipt n d y = y\<lparr>ya_receipts := AList.update n
     ((case map_of (ya_receipts y) n of None \<Rightarrow> [] | Some ls \<Rightarrow> ls) @ [Some (JObj d)]) (ya_receipts y)\<rparr>"

definition append_receipt :: "yard_env \<Rightarrow> string \<Rightarrow> jobj \<Rightarrow> (yard, unit) op" where
  "append_receipt env actor d = yard_write env (add_receipt (receipt_file env actor) d)"

definition put_file :: "string \<Rightarrow> core_file \<Rightarrow> yard \<Rightarrow> yard" where
  "put_file n f y = y\<lparr>ya_board := (ya_board y)\<lparr>bo_agents := AList.update n f (bo_agents (ya_board y))\<rparr>\<rparr>"

definition drop_file :: "string \<Rightarrow> yard \<Rightarrow> yard" where
  "drop_file n y = y\<lparr>ya_board := (ya_board y)\<lparr>bo_agents := AList.delete n (bo_agents (ya_board y))\<rparr>\<rparr>"

definition save_projection :: "yard_env \<Rightarrow> agent_file \<Rightarrow> (yard, unit) op" where
  "save_projection env a = (if agent_name_ok (ag_name a) then yard_write env (put_file (agent_path (ag_name a)) (CoreJson (dump_agent a)))
     else op_raise (RuntimeError ''agent name''))"

text \<open>
  Restoring reads the saved bytes as UTF-8 before it writes. Bytes that are not UTF-8 make it raise with
  nothing written, which is the fault \<open>FailBefore\<close> at this write; the schedule of faults is arbitrary.
\<close>

definition restore_projection :: "yard_env \<Rightarrow> string \<times> core_file option \<Rightarrow> (yard, unit) op" where
  "restore_projection env x = (case x of (n, original) \<Rightarrow>
     yard_write env (case original of None \<Rightarrow> drop_file n | Some f \<Rightarrow> put_file n f))"

section \<open>The repair\<close>

definition issue_json :: "lifecycle_issue \<Rightarrow> json" where
  "issue_json i = JObj [(''code'', JStr (li_code i)), (''task_id'', JStr (li_task i)), (''agent'', li_agent i),
     (''detail'', JStr (li_detail i))]"

definition audit_json :: "lifecycle_audit \<Rightarrow> json" where
  "audit_json r = JObj [(''clean'', JBool (clean r)), (''card_count'', JInt (int (la_cards r))),
     (''agent_count'', JInt (int (la_agents r))), (''issues'', JList (map issue_json (la_issues r)))]"

record repair_request =
  rq_actor :: string
  rq_stale :: int
  rq_scope :: "string list option"

record repair_receipt =
  rr_id :: string
  rr_at :: string
  rr_before :: lifecycle_audit
  rr_after :: lifecycle_audit
  rr_actions :: "string list"

definition texts_json :: "string list \<Rightarrow> json" where
  "texts_json ts = JList (map JStr ts)"

definition scope_json :: "string list option \<Rightarrow> json" where
  "scope_json sc = (case sc of None \<Rightarrow> JNull | Some ts \<Rightarrow> texts_json (scope_set ts))"

definition receipt_json :: "string \<Rightarrow> string \<Rightarrow> string \<Rightarrow> string \<Rightarrow> jobj \<Rightarrow> jobj" where
  "receipt_json rid phase actor at facts =
     [(''receipt_id'', JStr rid), (''phase'', JStr phase), (''actor'', JStr actor), (''repaired_at'', JStr at)] @ facts"

definition recoverable :: "string list option \<Rightarrow> string \<times> string list option \<Rightarrow> bool" where
  "recoverable scope u = (case scope of None \<Rightarrow> True
     | Some ts \<Rightarrow> (case snd u of None \<Rightarrow> False | Some us \<Rightarrow> set us \<subseteq> set ts))"

definition rollback_failed :: py_error where
  "rollback_failed = RuntimeError ''repair failed and projection rollback failed''"

definition roll_back :: "yard_env \<Rightarrow> string \<Rightarrow> (string \<times> core_file option) list \<Rightarrow> jobj option \<Rightarrow> py_error \<Rightarrow> (yard, 'a) op" where
  "roll_back env actor originals record1 e =
     op_bind (op_try (op_for (rev originals) (restore_projection env)) (\<lambda>_. op_raise rollback_failed)) (\<lambda>_.
     op_bind (case record1 of None \<Rightarrow> op_return () | Some d \<Rightarrow> op_catch (\<lambda>_. True) (append_receipt env actor d) ()) (\<lambda>_.
     op_raise e))"

definition write_repair ::
    "yard_env \<Rightarrow> repair_request \<Rightarrow> (string \<times> string list option) list \<Rightarrow> lifecycle_audit \<Rightarrow> plan \<Rightarrow> string \<Rightarrow> string
       \<Rightarrow> (yard, repair_receipt) op" where
  "write_repair env rq unresolved before p rid at =
     op_bind (op_for (map snd (pl_pending p)) (save_projection env)) (\<lambda>_.
     op_bind (op_result (audit_lifecycle env (rq_scope rq))) (\<lambda>after.
     if \<not> clean after then op_raise (RuntimeError ''repair did not converge'')
     else op_bind (append_receipt env (rq_actor rq) (receipt_json rid ''committed'' (rq_actor rq) at
            [(''before'', audit_json before), (''after'', audit_json after), (''actions'', texts_json (pl_actions p))])) (\<lambda>_.
          op_bind (op_for (filter (recoverable (rq_scope rq)) unresolved) (\<lambda>(uid, sc).
            append_receipt env (rq_actor rq) (receipt_json uid ''recovered'' (rq_actor rq) at
              [(''recovered_by'', JStr rid), (''task_ids'', scope_json sc), (''after'', audit_json after)]))) (\<lambda>_.
          op_return \<lparr>rr_id = rid, rr_at = at, rr_before = before, rr_after = after, rr_actions = pl_actions p\<rparr>))))"

definition commit_plan ::
    "yard_env \<Rightarrow> repair_request \<Rightarrow> (string \<times> string list option) list \<Rightarrow> lifecycle_audit \<Rightarrow> unit result \<times> plan \<Rightarrow> string \<Rightarrow> string
       \<Rightarrow> (yard, repair_receipt) op" where
  "commit_plan env rq unresolved before planned rid at = (case planned of (r, p) \<Rightarrow>
     op_bind (op_read (\<lambda>y. map (\<lambda>(n, a). (agent_path n, map_of (bo_agents (ya_board y)) (agent_path n))) (pl_pending p))) (\<lambda>originals.
     let facts = [(''before'', audit_json before), (''actions'', texts_json (pl_actions p))] in
     op_bind (op_try (op_bind (op_result (\<lambda>_. r)) (\<lambda>_. append_receipt env (rq_actor rq) (receipt_json rid ''intent'' (rq_actor rq) at
          (facts @ [(''projection_agents'', texts_json (sort (map fst (pl_pending p)))), (''task_ids'', scope_json (rq_scope rq))]))))
        (roll_back env (rq_actor rq) originals None)) (\<lambda>_.
     op_try (write_repair env rq unresolved before p rid at)
       (roll_back env (rq_actor rq) originals (Some (receipt_json rid ''rolled_back'' (rq_actor rq) at facts))))))"

definition yard_agents :: "yard_env \<Rightarrow> yard \<Rightarrow> (string \<times> agent_file) list" where
  "yard_agents env y = index_by ag_name (load_agents (ye_board env) (ya_board y))"

definition repair_lifecycle :: "yard_env \<Rightarrow> repair_request \<Rightarrow> (yard, repair_receipt) op" where
  "repair_lifecycle env rq =
     op_bind (op_result unresolved_receipts) (\<lambda>unresolved.
     op_bind (op_result (audit_lifecycle env (rq_scope rq))) (\<lambda>before.
     op_bind (yard_draw (yard_now env)) (\<lambda>asked.
     op_bind (op_result (\<lambda>y. no_active_conflicts (is_active (instant_of asked) (rq_stale rq)) (yard_agents env y) before)) (\<lambda>_.
     op_bind (op_result (kanban_cards env)) (\<lambda>cs.
     op_bind (op_result (\<lambda>_. doing_groups (map snd (index_by cd_id cs)))) (\<lambda>groups.
     op_bind (op_read (yard_agents env)) (\<lambda>agents.
     op_bind (yard_draw (yard_uuid env)) (\<lambda>rid.
     op_bind (yard_draw (yard_now env)) (\<lambda>at.
     op_bind (yard_draw (yard_now env)) (\<lambda>now.
       commit_plan env rq unresolved before
         (make_plan (is_active (instant_of now) (rq_stale rq)) now (se_host (be_store (ye_board env)))
            (scoped (rq_scope rq) (index_by cd_id cs)) (\<lambda>k. sort (ids_of groups k)) (rq_scope rq)
            \<lparr>pl_agents = agents, pl_pending = [], pl_actions = []\<rparr>) rid at))))))))))"

end
