(* ===== verification/Lifecycle_Guarantees.thy ===== *)
theory Lifecycle_Guarantees
  imports Lifecycle_Repair
begin

text \<open>
  What the repair of the agent files guarantees when it fails: every file is put back. The steps of a repair are
  taken apart here for the theory of the receipts as well.
\<close>

section \<open>What the steps keep\<close>

context op_order
begin

lemma keeps_for_members: "\<forall>x\<in>set xs. op_keeps R (f x) \<Longrightarrow> op_keeps R (op_for xs f)"
  by (induction xs) (simp_all add: keeps_return keeps_bind)

lemma keeps_op_try:
  assumes "op_keeps R m" and "\<And>e. op_keeps R (h e)"
  shows "op_keeps R (op_try m h)"
  unfolding op_keeps_def
proof
  fix s
  obtain r t where m: "m s = (r, t)" by (cases "m s")
  then have "R s t" using op_keeps_run [OF assms(1)] by blast
  with m show "R s (snd (op_try m h s))"
    using op_keepsD [OF assms(2)] by (cases r) (auto simp: op_try_def intro: trans)
qed

end

text \<open>Everything but the agent files, the receipts and the step counter.\<close>

definition same_ground :: "yard \<Rightarrow> yard \<Rightarrow> bool" where
  "same_ground y z \<longleftrightarrow> (ya_board z)\<lparr>bo_agents := []\<rparr> = (ya_board y)\<lparr>bo_agents := []\<rparr> \<and> ya_itil z = ya_itil y"

abbreviation file_at :: "yard \<Rightarrow> string \<Rightarrow> core_file option" where
  "file_at y n \<equiv> map_of (bo_agents (ya_board y)) n"

definition same_outside :: "string set \<Rightarrow> yard \<Rightarrow> yard \<Rightarrow> bool" where
  "same_outside P y z \<longleftrightarrow> same_ground y z \<and> (\<forall>n. n \<notin> P \<longrightarrow> file_at z n = file_at y n)"

definition same_board :: "yard \<Rightarrow> yard \<Rightarrow> bool" where
  "same_board y z \<longleftrightarrow> ya_board z = ya_board y \<and> ya_itil z = ya_itil y"

interpretation outside: op_order "same_outside P" for P
  by unfold_locales (auto simp: same_outside_def same_ground_def)

interpretation board_kept: op_order same_board
  by unfold_locales (auto simp: same_board_def)

lemma keeps_yard_write:
  assumes "op_order R" and "\<And>y. R y (yard_step y)" and "\<And>y. R y (change y)"
  shows "op_keeps R (yard_write env change)"
  unfolding yard_write_def
proof (intro op_order.keeps [OF assms(1)] keeps_intros assms(2))
  fix f
  show "op_keeps R (case f of NoFault \<Rightarrow> op_write change | FailBefore \<Rightarrow> op_raise yard_fault
      | FailAfter \<Rightarrow> op_bind (op_write change) (\<lambda>_. op_raise yard_fault))"
    using assms(3) by (cases f) (auto intro!: op_order.keeps [OF assms(1)] keeps_intros)
qed

lemma step_same [simp]: "same_board y (yard_step y)" "same_outside P y (yard_step y)"
  by (simp_all add: same_board_def same_outside_def same_ground_def yard_step_def)

lemma keeps_receipt: "op_keeps same_board (append_receipt env actor d)"
  unfolding append_receipt_def
  by (intro keeps_yard_write board_kept.op_order_axioms) (simp_all add: same_board_def add_receipt_def yard_step_def)

lemma same_board_outside: "same_board y z \<Longrightarrow> same_outside P y z"
  by (simp add: same_board_def same_outside_def same_ground_def)

lemma keeps_weaker: "op_keeps R m \<Longrightarrow> (\<And>s t. R s t \<Longrightarrow> S s t) \<Longrightarrow> op_keeps S m"
  by (simp add: op_keeps_def)

lemma keeps_receipt_outside: "op_keeps (same_outside P) (append_receipt env actor d)"
  by (rule keeps_weaker [OF keeps_receipt same_board_outside])

lemma put_file_same: "n \<in> P \<Longrightarrow> same_outside P y (put_file n f y)" "n \<in> P \<Longrightarrow> same_outside P y (drop_file n y)"
  by (auto simp: same_outside_def same_ground_def put_file_def drop_file_def update_conv' delete_conv')

lemma keeps_save: "agent_path (ag_name a) \<in> P \<Longrightarrow> op_keeps (same_outside P) (save_projection env a)"
  unfolding save_projection_def
  by (intro keeps_intros outside.keeps keeps_yard_write outside.op_order_axioms) (simp_all add: put_file_same)

lemma keeps_restore: "fst x \<in> P \<Longrightarrow> op_keeps (same_outside P) (restore_projection env x)"
  unfolding restore_projection_def
  by (cases x; cases "snd x") (auto intro!: keeps_yard_write outside.op_order_axioms simp: put_file_same)

section \<open>Putting the files back\<close>

lemma restore_all:
  assumes "op_for xs (restore_projection env) y = (Inr (), z)" and "distinct (map fst xs)" and "(n, original) \<in> set xs"
  shows "file_at z n = original"
  using assms
proof (induction xs arbitrary: y)
  case (Cons x xs)
  obtain u where u: "restore_projection env x y = (Inr (), u)" "op_for xs (restore_projection env) u = (Inr (), z)"
    using Cons.prems(1) by (auto elim: op_bind_InrD)
  show ?case
  proof (cases "x = (n, original)")
    case True
    then have "file_at u n = original"
      using u(1) by (auto simp: restore_projection_def yard_write_def put_file_def drop_file_def update_conv' delete_conv'
          split: fault.splits option.splits)
    moreover have "op_keeps (same_outside (fst ` set xs)) (op_for xs (restore_projection env))"
      by (intro outside.keeps_for_members) (auto intro: keeps_restore)
    from op_keeps_run [OF this u(2)] have "file_at z n = file_at u n"
      using True Cons.prems(2) by (auto simp: same_outside_def)
    ultimately show ?thesis by simp
  next
    case False
    then show ?thesis using Cons.IH [OF u(2)] Cons.prems(2,3) by auto
  qed
qed simp

lemma op_bind_ok: "m s = (Inr x, t) \<Longrightarrow> op_bind m f s = f x t"
  by (simp add: op_bind_run)

lemma op_catch_all: "\<exists>v. op_catch (\<lambda>_. True) m () s = (Inr (), v)"
  by (cases "m s"; cases "fst (m s)") (auto simp: op_catch_def)

text \<open>A rollback that gets through leaves every file as it was when the originals were read.\<close>

definition files_back :: "yard \<Rightarrow> yard \<Rightarrow> bool" where
  "files_back y z \<longleftrightarrow> same_ground y z \<and> (\<forall>n. file_at z n = file_at y n)"

lemma roll_back_restores:
  assumes run: "roll_back env actor originals record1 e z = (r, z')" and ne: "r \<noteq> Inl rollback_failed"
    and originals: "distinct (map fst originals)" "\<forall>(n, original)\<in>set originals. original = file_at y n"
    and touched: "same_outside (fst ` set originals) y z"
  shows "r = Inl e \<and> files_back y z'"
proof -
  obtain q u where q: "op_for (rev originals) (restore_projection env) z = (q, u)"
    by (cases "op_for (rev originals) (restore_projection env) z")
  have ok: "q = Inr ()" using run ne q by (cases q) (auto simp: roll_back_def op_bind_run op_try_def)
  let ?P = "fst ` set originals"
  let ?m = "case record1 of None \<Rightarrow> op_return () | Some d \<Rightarrow> op_catch (\<lambda>_. True) (append_receipt env actor d) ()"
  have "op_keeps (same_outside ?P) (op_for (rev originals) (restore_projection env))"
    by (intro outside.keeps_for_members) (auto intro: keeps_restore)
  from op_keeps_run [OF this q] have "same_outside ?P y u" using touched outside.trans by blast
  moreover have "file_at u n = file_at y n" if "n \<in> ?P" for n
    using restore_all [of "rev originals" env z u n "file_at y n"] q ok originals that by (force simp: rev_map [symmetric])
  ultimately have back1: "files_back y u" unfolding files_back_def same_outside_def by blast
  obtain v where v: "?m u = (Inr (), v)"
    using op_catch_all [of "append_receipt env actor (the record1)" u] by (cases record1) auto
  have "op_keeps same_board ?m" by (cases record1) (auto intro: board_kept.keeps keeps_receipt)
  from op_keeps_run [OF this v] have "same_board u v" .
  with back1 have "files_back y v" by (simp add: files_back_def same_board_def same_ground_def)
  moreover have "r = Inl e" "z' = v" using run q ok v by (simp_all add: roll_back_def op_bind_run op_try_def)
  ultimately show ?thesis by simp
qed

section \<open>The plan is keyed by name\<close>

definition staged_ok :: "plan \<Rightarrow> bool" where
  "staged_ok p \<longleftrightarrow> distinct (map fst (pl_pending p)) \<and> (\<forall>(n, a)\<in>set (pl_pending p). n = ag_name a \<and> agent_name_ok n)"

interpretation staged: op_order "\<lambda>p q. staged_ok p \<longrightarrow> staged_ok q"
  by unfold_locales simp_all

lemma update_members: "(k, v) \<in> set (AList.update k' v' xs) \<Longrightarrow> k = k' \<and> v = v' \<or> (k, v) \<in> set xs"
  by (induction xs) (auto split: if_splits)

lemma keeps_stage: "op_keeps (\<lambda>p q. staged_ok p \<longrightarrow> staged_ok q) (stage a)"
  unfolding stage_def
  by (intro keeps_intros staged.keeps) (auto simp: staged_ok_def distinct_update dest: update_members)

lemma keeps_make_plan: "op_keeps (\<lambda>p q. staged_ok p \<longrightarrow> staged_ok q) (make_plan active now host cards doing scope)"
proof -
  have acts: "op_keeps (\<lambda>p q. staged_ok p \<longrightarrow> staged_ok q) (act acts)" "op_keeps (\<lambda>p q. staged_ok p \<longrightarrow> staged_ok q) (put_agent a)" for acts a
    unfolding act_def put_agent_def by (intro keeps_intros; simp add: staged_ok_def)+
  have "op_keeps (\<lambda>p q. staged_ok p \<longrightarrow> staged_ok q) (plan_agent active cards doing scope a)" for a
    unfolding plan_agent_def case_prod_beta Let_def by (intro staged.keeps acts keeps_stage)
  moreover have "op_keeps (\<lambda>p q. staged_ok p \<longrightarrow> staged_ok q) (plan_card now host cards doing c)" for c
    unfolding plan_card_def case_prod_beta Let_def by (intro staged.keeps keeps_intros acts keeps_stage)
  ultimately show ?thesis unfolding make_plan_def by (intro staged.keeps)
qed

definition originals_of :: "plan \<Rightarrow> yard \<Rightarrow> (string \<times> core_file option) list" where
  "originals_of p y = map (\<lambda>(n, a). (agent_path n, file_at y (agent_path n))) (pl_pending p)"

lemma originals_keys: "fst ` set (originals_of p y) = agent_path ` fst ` set (pl_pending p)"
  by (force simp: originals_of_def)

lemma originals_distinct: "staged_ok p \<Longrightarrow> distinct (map fst (originals_of p y))"
proof -
  assume "staged_ok p"
  then have "distinct (map agent_path (map fst (pl_pending p)))"
    by (simp add: staged_ok_def distinct_map inj_on_def agent_path_def)
  moreover have "map fst (originals_of p y) = map agent_path (map fst (pl_pending p))" by (simp add: originals_of_def case_prod_beta)
  ultimately show ?thesis by simp
qed

lemma keeps_write_repair:
  assumes "staged_ok p"
  shows "op_keeps (same_outside (fst ` set (originals_of p y))) (write_repair env rq unresolved before p rid at)"
proof -
  have "agent_path (ag_name a) \<in> fst ` set (originals_of p y)" if "a \<in> snd ` set (pl_pending p)" for a
  proof -
    from that obtain n where n: "(n, a) \<in> set (pl_pending p)" by auto
    with assms have "n = ag_name a" by (auto simp: staged_ok_def)
    with n show ?thesis unfolding originals_keys by (metis fst_conv image_eqI)
  qed
  then have saves: "op_keeps (same_outside (fst ` set (originals_of p y))) (op_for (map snd (pl_pending p)) (save_projection env))"
    by (intro outside.keeps_for_members) (simp add: keeps_save)
  show ?thesis
    unfolding write_repair_def case_prod_beta
    by (rule outside.keeps_bind [OF saves]) (intro outside.keeps keeps_intros keeps_receipt_outside)
qed

section \<open>A failed repair\<close>

lemma commit_plan_fails:
  assumes run: "commit_plan env rq unresolved before (q, p) rid at y = (Inl e, z)" and ne: "e \<noteq> rollback_failed" and ok: "staged_ok p"
  shows "files_back y z"
proof -
  let ?os = "originals_of p y"
  have os: "distinct (map fst ?os)" "\<forall>(n, original)\<in>set ?os. original = file_at y n"
    using originals_distinct [OF ok] by (auto simp: originals_of_def)
  obtain intent rolled where run: "op_bind (op_try (op_bind (op_result (\<lambda>_. q)) (\<lambda>_. append_receipt env (rq_actor rq) intent))
      (roll_back env (rq_actor rq) ?os None)) (\<lambda>_. op_try (write_repair env rq unresolved before p rid at)
        (roll_back env (rq_actor rq) ?os (Some rolled))) y = (Inl e, z)"
    using run unfolding commit_plan_def prod.case Let_def originals_of_def [symmetric] by simp
  let ?first = "op_bind (op_result (\<lambda>_. q)) (\<lambda>_. append_receipt env (rq_actor rq) intent)"
  have kept: "op_keeps (same_outside (fst ` set ?os)) ?first" by (intro outside.keeps keeps_receipt_outside)
  obtain r1 y1 where first: "?first y = (r1, y1)" by (cases "?first y")
  from op_keeps_run [OF kept first] have y1: "same_outside (fst ` set ?os) y y1" .
  show ?thesis
  proof (cases r1)
    case (Inl e1)
    obtain r2 :: "unit result" and z2 where r2: "roll_back env (rq_actor rq) ?os None e1 y1 = (r2, z2)"
      by (cases "roll_back env (rq_actor rq) ?os None e1 y1 :: unit result \<times> yard")
    from Inl first have "op_try ?first (roll_back env (rq_actor rq) ?os None) y = (r2, z2)" by (simp add: op_try_def r2)
    note all = op_bind_run [of "op_try ?first (roll_back env (rq_actor rq) ?os None)" _ y, unfolded this]
    have "r2 \<noteq> Inl rollback_failed" using run ne by (auto simp: all)
    from roll_back_restores [OF r2 this os y1] run show ?thesis by (simp add: all)
  next
    case (Inr u)
    with first have tried: "op_try ?first (roll_back env (rq_actor rq) ?os None) y = (Inr (), y1)" by (simp add: op_try_def)
    have "op_try (write_repair env rq unresolved before p rid at) (roll_back env (rq_actor rq) ?os (Some rolled)) y1 = (Inl e, z)"
      using run unfolding op_bind_ok [of "op_try ?first (roll_back env (rq_actor rq) ?os None)" y, OF tried] .
    then obtain e2 y2 where fail: "write_repair env rq unresolved before p rid at y1 = (Inl e2, y2)"
      "roll_back env (rq_actor rq) ?os (Some rolled) e2 y2 = (Inl e :: repair_receipt result, z)"
      by (auto simp: op_try_def split: prod.splits sum.splits)
    have "same_outside (fst ` set ?os) y y2"
      using op_keeps_run [OF keeps_write_repair [OF ok] fail(1)] y1 outside.trans by blast
    with roll_back_restores [OF fail(2) _ os] ne show ?thesis by simp
  qed
qed

lemma result_cases:
  assumes "op_bind (op_result r) f s = (q, t)"
  obtains (bad) e where "r s = Inl e" "q = Inl e" "t = s" | (good) x where "r s = Inr x" "f x s = (q, t)"
  using assms by (cases "r s") (simp_all add: op_bind_run)

lemma same_board_reads:
  assumes "same_board y z"
  shows "kanban_cards env z = kanban_cards env y" and "audit_lifecycle env scope z = audit_lifecycle env scope y"
    and "yard_agents env z = yard_agents env y"
proof -
  have e: "ya_board z = ya_board y" "ya_itil z = ya_itil y" using assms by (simp_all add: same_board_def)
  have legacy: "projected_cards env z = projected_cards env y" unfolding projected_cards_def e ..
  show cards: "kanban_cards env z = kanban_cards env y" unfolding kanban_cards_def e legacy ..
  show "audit_lifecycle env scope z = audit_lifecycle env scope y" unfolding audit_lifecycle_def cards e ..
  show "yard_agents env z = yard_agents env y" using assms by (simp add: yard_agents_def same_board_def)
qed

text \<open>A repair is refused before it plans anything, or it commits the plan of what it read.\<close>

definition planned_by :: "yard_env \<Rightarrow> repair_request \<Rightarrow> yard \<Rightarrow> int \<Rightarrow> string \<Rightarrow> card list \<Rightarrow> (json \<times> string list) list \<Rightarrow> unit result \<times> plan" where
  "planned_by env rq y now at cs groups =
     make_plan (is_active now (rq_stale rq)) at (se_host (be_store (ye_board env))) (scoped (rq_scope rq) (index_by cd_id cs))
       (\<lambda>k. sort (ids_of groups k)) (rq_scope rq) \<lparr>pl_agents = yard_agents env y, pl_pending = [], pl_actions = []\<rparr>"

lemma repair_steps:
  assumes run: "repair_lifecycle env rq y = (r, z)"
  obtains (refused) e where "r = Inl e" "same_board y z"
  | (planned) u unresolved before asked cs groups rid at now where
      "unresolved_receipts y = Inr unresolved" "audit_lifecycle env (rq_scope rq) y = Inr before"
      "no_active_conflicts (is_active (instant_of asked) (rq_stale rq)) (yard_agents env y) before = Inr ()"
      "kanban_cards env y = Inr cs" "doing_groups (map snd (index_by cd_id cs)) = Inr groups"
      "same_board y u" "ya_receipts u = ya_receipts y" "rid = yard_uuid env (yard_step y)"
      "commit_plan env rq unresolved before (planned_by env rq y (instant_of now) now cs groups) rid at u = (r, z)"
proof -
  have draw: "op_bind (yard_draw f) g s = g (f s) (yard_step s)" for f :: "yard \<Rightarrow> string" and g :: "string \<Rightarrow> (yard, repair_receipt) op" and s
    by (simp add: yard_draw_def op_bind_run)
  let ?u = "yard_step (yard_step (yard_step (yard_step y)))"
  have kept: "same_board y (yard_step y)" "same_board y ?u" "ya_receipts ?u = ya_receipts y"
    by (simp_all add: yard_step_def same_board_def)
  note reads = same_board_reads [OF kept(1)]
  note rest = run [unfolded repair_lifecycle_def]
  from rest show thesis
  proof (cases rule: result_cases)
    case bad
    then show thesis by (intro refused) (simp_all add: board_kept.refl)
  next
    case 1: (good unresolved)
    from 1(2) show thesis
    proof (cases rule: result_cases)
      case bad
      then show thesis by (intro refused) (simp_all add: board_kept.refl)
    next
      case 2: (good before)
      from 2(2) [unfolded draw] show thesis
      proof (cases rule: result_cases)
        case bad
        then show thesis using kept(1) by (intro refused) simp_all
      next
        case 3: (good x)
        from 3(2) show thesis
        proof (cases rule: result_cases)
          case bad
          then show thesis using kept(1) by (intro refused) simp_all
        next
          case 4: (good cs)
          from 4(2) show thesis
          proof (cases rule: result_cases)
            case bad
            then show thesis using kept(1) by (intro refused) simp_all
          next
            case 5: (good groups)
            from 5(2) have "commit_plan env rq unresolved before
              (planned_by env rq y (instant_of (yard_now env (yard_step (yard_step (yard_step y)))))
                (yard_now env (yard_step (yard_step (yard_step y)))) cs groups) (yard_uuid env (yard_step y)) (yard_now env (yard_step (yard_step y))) ?u = (r, z)"
              by (simp add: draw planned_by_def reads)
            then show thesis using 1(1) 2(1) 3(1) 4(1) 5(1) kept(2,3) by (intro planned) (simp_all add: reads)
          qed
        qed
      qed
    qed
  qed
qed

lemma repair_run:
  assumes "unresolved_receipts y = Inr unresolved" and "audit_lifecycle env (rq_scope rq) y = Inr before"
    and "no_active_conflicts (is_active (instant_of (yard_now env y)) (rq_stale rq)) (yard_agents env y) before = Inr ()"
    and "kanban_cards env y = Inr cs" and "doing_groups (map snd (index_by cd_id cs)) = Inr groups"
  shows "repair_lifecycle env rq y =
     (let u = yard_step (yard_step (yard_step y)); now = yard_now env u in
      commit_plan env rq unresolved before (planned_by env rq y (instant_of now) now cs groups)
        (yard_uuid env (yard_step y)) (yard_now env (yard_step (yard_step y))) (yard_step u))"
proof -
  have draw: "op_bind (yard_draw f) g s = g (f s) (yard_step s)" for f :: "yard \<Rightarrow> string" and g :: "string \<Rightarrow> (yard, repair_receipt) op" and s
    by (simp add: yard_draw_def op_bind_run)
  have "same_board y (yard_step y)" by simp
  note reads = same_board_reads [OF this]
  have got: "op_bind (op_result f) g s = g x s" if "f s = Inr x" for f :: "yard \<Rightarrow> 'x result" and g :: "'x \<Rightarrow> (yard, repair_receipt) op" and s x
    using that by (simp add: op_bind_run)
  show ?thesis
    unfolding repair_lifecycle_def by (simp add: got assms reads draw planned_by_def Let_def)
qed

lemma planned_staged: "staged_ok (snd (planned_by env rq y now at cs groups))"
proof -
  have "staged_ok \<lparr>pl_agents = yard_agents env y, pl_pending = [], pl_actions = []\<rparr>" by (simp add: staged_ok_def)
  with keeps_make_plan show ?thesis unfolding planned_by_def op_keeps_def by blast
qed

text \<open>
  C12. A repair that fails restores what it touched: unless putting the files back failed as well, and is
  reported as that, every agent file is as it was, and the cards and the rest of the board are untouched,
  whichever read, write or later check the error came from.
\<close>

theorem failed_repair_restores:
  assumes run: "repair_lifecycle env rq y = (Inl e, z)" and ne: "e \<noteq> rollback_failed"
  shows "files_back y z"
  using run
proof (cases rule: repair_steps)
  case (refused e')
  then show ?thesis by (simp add: files_back_def same_board_def same_ground_def)
next
  case (planned u unresolved before asked cs groups rid at now)
  have "files_back u z"
    using commit_plan_fails [OF _ ne planned_staged] planned(9) by (metis prod.collapse)
  with planned(6) show ?thesis by (simp add: files_back_def same_board_def same_ground_def)
qed

section \<open>An example\<close>

definition sample_yard_env :: "(nat \<Rightarrow> fault) \<Rightarrow> yard_env" where
  "sample_yard_env faults = \<lparr>ye_board = (sample_board_env (\<lambda>_. NoFault))\<lparr>be_flag := ''1''\<rparr>,
     ye_itil = \<lparr>env_clock = (\<lambda>_. ''0''), env_uuid = (\<lambda>_. ''0''), env_host = ''h1'', env_digest = id, env_gtd = (\<lambda>_ _. None)\<rparr>,
     ye_io = faults\<rparr>"

definition no_records :: itil where
  "no_records = (let none = \<lparr>rd_cores = [], rd_redirects = [], rd_logs = []\<rparr> in
     \<lparr>it_incidents = none, it_problems = none, it_changes = none, it_cab = [], it_kedb = [], it_ticks = 0, it_ids = 0,
      it_bus = [], it_gtd = [], it_done = [], it_lists = [], it_archive = []\<rparr>)"

definition sample_yard :: "(string \<times> json option list) list \<Rightarrow> yard" where
  "sample_yard receipts = \<lparr>ya_board = (sample_board [] [ana_on_c1])\<lparr>bo_store := (sample_store [])\<lparr>so_cards := []\<rparr>\<rparr>,
     ya_itil = no_records, ya_receipts = receipts, ya_steps = 0\<rparr>"

definition sample_request :: repair_request where
  "sample_request = \<lparr>rq_actor = ''op'', rq_stale = 3600, rq_scope = None\<rparr>"

text \<open>What the repair plans: the claim of a card that does not exist is released.\<close>

definition ana_rested :: agent_file where
  "ana_rested = ana_on_c1\<lparr>ag_current := None, ag_claimed := []\<rparr>"

definition sample_audit :: lifecycle_audit where
  "sample_audit = \<lparr>la_cards = 0, la_agents = 1, la_issues = [issue ''orphan_claim'' ''c1'' (JStr ''ana'') ''claimed card is missing'']\<rparr>"

definition sample_plan :: plan where
  "sample_plan = \<lparr>pl_agents = [(''ana'', ana_rested)], pl_pending = [(''ana'', ana_rested)],
     pl_actions = [''release orphan c1 from ana'', ''clear current c1 from ana'']\<rparr>"

lemma sample_repair:
  assumes "unresolved_receipts (sample_yard rs) = Inr us"
  shows "repair_lifecycle (sample_yard_env faults) sample_request (sample_yard rs)
    = commit_plan (sample_yard_env faults) sample_request us sample_audit (Inr (), sample_plan) ''u1'' ''2026-01-01T00:00:02'' ((sample_yard rs)\<lparr>ya_steps := 4\<rparr>)"
proof -
  let ?env = "sample_yard_env faults" and ?y = "sample_yard rs"
  have cards: "kanban_cards ?env ?y = Inr []" by code_simp
  have agents: "yard_agents ?env ?y = [(''ana'', ana_on_c1)]" by code_simp
  have "audit_cards (index_by cd_id []) [(''ana'', ana_on_c1)] None = Inr sample_audit" by code_simp
  then have audit: "audit_lifecycle ?env (rq_scope sample_request) ?y = Inr sample_audit"
    using agents by (simp add: audit_lifecycle_def cards yard_agents_def sample_request_def)
  have away: "is_active now stale ana_on_c1 = False" for now stale
  proof -
    have "seen_at ana_on_c1 = None" by code_simp
    then show ?thesis by (simp add: is_active_def)
  qed
  have ana: "ag_name ana_on_c1 = ''ana''" "ag_claimed ana_on_c1 = [''c1'']" "ag_current ana_on_c1 = Some ''c1''" "ag_completed ana_on_c1 = []"
    "ana_on_c1\<lparr>ag_claimed := [], ag_current := None, ag_completed := []\<rparr> = ana_rested" "ana_rested \<noteq> ana_on_c1"
    "ag_name ana_rested = ''ana''" by code_simp+
  have rest: "repair_agent (is_active now stale) [] (\<lambda>k. sort (ids_of [] k)) None ana_on_c1 = (ana_rested, pl_actions sample_plan)" for now stale
    by (simp add: repair_agent_def release_claims_def keeps_claim_def release_text_def stop_current_def pick_current_def current_in_def
        in_scope_def ids_of_def dedup_def away ana sample_plan_def)
  have plan: "planned_by ?env sample_request ?y now at [] [] = (Inr (), sample_plan)" for now at
    unfolding planned_by_def agents
    by (simp add: make_plan_def plan_agent_def sample_request_def scoped_def index_by_def rest act_def put_agent_def stage_def ana op_bind_run
        op_when_def agent_name_ok_def is_alnum_def sample_plan_def)
  have calm: "no_active_conflicts (is_active now stale) (yard_agents ?env ?y) sample_audit = Inr ()" for now stale
    by (simp add: agents no_active_conflicts_def active_issue_def contested_def sample_audit_def issue_def away agent_of_def)
  have "doing_groups (map snd (index_by cd_id [])) = Inr []" by code_simp
  note run = repair_run [OF assms audit calm cards this]
  have "yard_uuid ?env (yard_step ?y) = ''u1''" "yard_now ?env (yard_step (yard_step ?y)) = ''2026-01-01T00:00:02''"
    "yard_step (yard_step (yard_step (yard_step ?y))) = ?y\<lparr>ya_steps := 4\<rparr>" by code_simp+
  then show ?thesis by (simp add: run plan Let_def)
qed

text \<open>The receipt of the commit cannot be written, after the agent's file was.\<close>

theorem failed_repair_restores_witness:
  "\<exists>z. repair_lifecycle (sample_yard_env (\<lambda>n. if n = 6 then FailBefore else NoFault)) sample_request (sample_yard []) = (Inl yard_fault, z)
     \<and> file_at z ''ana.json'' = Some (CoreJson (dump_agent ana_on_c1))"
proof -
  let ?run = "repair_lifecycle (sample_yard_env (\<lambda>n. if n = 6 then FailBefore else NoFault)) sample_request (sample_yard [])"
  have "unresolved_receipts (sample_yard []) = Inr []" by code_simp
  note start = sample_repair [OF this]
  have "map_sum id rr_actions (fst ?run) = Inl yard_fault" unfolding start by code_simp
  then have run: "?run = (Inl yard_fault, snd ?run)" by (cases "fst ?run") (auto simp: prod_eq_iff)
  have "yard_fault \<noteq> rollback_failed" by (simp add: yard_fault_def rollback_failed_def)
  note restored = failed_repair_restores [OF run this]
  have "agent_path (ag_name ana_on_c1) = ''ana.json''" by code_simp
  then have "file_at (sample_yard []) ''ana.json'' = Some (CoreJson (dump_agent ana_on_c1))"
    by (simp add: sample_yard_def sample_board_def)
  with restored run show ?thesis unfolding files_back_def by auto
qed

end
