(* ===== verification/Lifecycle_Receipts.thy ===== *)
theory Lifecycle_Receipts
  imports Lifecycle_Guarantees
begin

text \<open>
  The receipt log of repairs: what reading it finds depends on the lines only, not on the files they are in, and a
  repair that succeeds leaves no receipt open that it could close.
\<close>

section \<open>Reading receipts\<close>

definition line_phase :: "json option \<Rightarrow> (string \<times> string) option" where
  "line_phase line = (case line of
      Some (JObj d) \<Rightarrow> (case (get d ''receipt_id'', get d ''phase'') of
          (JStr rid, JNull) \<Rightarrow> Some (rid, ''legacy_committed'') | (JStr rid, JStr ph) \<Rightarrow> Some (rid, ph) | _ \<Rightarrow> None)
    | _ \<Rightarrow> None)"

definition line_scope :: "json option \<Rightarrow> (string \<times> string list option) option" where
  "line_scope line = (case line of
      Some (JObj d) \<Rightarrow> (case (get d ''receipt_id'', get d ''phase'', receipt_scope (get d ''task_ids'')) of
          (JStr rid, JStr ph, Inr sc) \<Rightarrow> if ph = ''intent'' then Some (rid, sc) else None | _ \<Rightarrow> None)
    | _ \<Rightarrow> None)"

definition receipt_ok :: "json option \<Rightarrow> bool" where
  "receipt_ok line \<longleftrightarrow> (case line of
      Some (JObj d) \<Rightarrow> (case (get d ''receipt_id'', get d ''phase'') of
          (JNull, JNull) \<Rightarrow> True | (JStr rid, JNull) \<Rightarrow> True
        | (JStr rid, JStr ph) \<Rightarrow> ph = ''intent'' \<longrightarrow> (\<exists>sc. receipt_scope (get d ''task_ids'') = Inr sc)
        | _ \<Rightarrow> False)
    | _ \<Rightarrow> False)"

definition phases_of :: "receipt_marks \<Rightarrow> string \<Rightarrow> string set" where
  "phases_of m rid = (case map_of (rm_phases m) rid of None \<Rightarrow> {} | Some phs \<Rightarrow> set phs)"

definition scope_of :: "receipt_marks \<Rightarrow> string \<Rightarrow> string list option option" where
  "scope_of m rid = map_of (rm_scopes m) rid"

lemma phases_add [simp]: "phases_of (add_phase rid ph m) = (phases_of m)(rid := insert ph (phases_of m rid))"
  by (auto simp: phases_of_def add_phase_def update_conv' fun_eq_iff split: option.splits)

lemma scope_add [simp]: "scope_of (add_phase rid ph m) = scope_of m"
  by (simp add: scope_of_def add_phase_def fun_eq_iff)

lemma add_scope_cases:
  "add_scope rid sc m = Inr m' \<longleftrightarrow> scope_of m rid \<in> {None, Some sc} \<and> (if scope_of m rid = None then m' = m\<lparr>rm_scopes := AList.update rid sc (rm_scopes m)\<rparr> else m' = m)"
  by (auto simp: add_scope_def scope_of_def split: option.splits if_splits)

lemma add_scope_Inr:
  assumes "add_scope rid sc m = Inr m'"
  shows "phases_of m' = phases_of m" and "scope_of m' = (scope_of m)(rid \<mapsto> sc)" and "rm_phases m' = rm_phases m"
  using assms by (auto simp: add_scope_cases phases_of_def scope_of_def update_conv' fun_eq_iff split: if_splits)

text \<open>One line.\<close>

lemma read_receipt_ok:
  assumes "receipt_ok line"
  shows "read_receipt m line = (case line_phase line of None \<Rightarrow> Inr m
     | Some (rid, ph) \<Rightarrow> (case line_scope line of None \<Rightarrow> Inr (add_phase rid ph m) | Some (r, sc) \<Rightarrow> add_scope r sc (add_phase rid ph m)))"
    and "line_scope line = Some (r, sc) \<Longrightarrow> line_phase line = Some (r, ''intent'')"
proof -
  obtain d where d: "line = Some (JObj d)" using assms by (auto simp: receipt_ok_def split: option.splits json.splits)
  show "read_receipt m line = (case line_phase line of None \<Rightarrow> Inr m
     | Some (rid, ph) \<Rightarrow> (case line_scope line of None \<Rightarrow> Inr (add_phase rid ph m) | Some (r, sc) \<Rightarrow> add_scope r sc (add_phase rid ph m)))"
    using assms d
    by (cases "get d ''receipt_id''"; cases "get d ''phase''"; cases "receipt_scope (get d ''task_ids'')")
      (simp_all add: read_receipt_def line_phase_def line_scope_def receipt_ok_def)
  show "line_scope line = Some (r, sc) \<Longrightarrow> line_phase line = Some (r, ''intent'')"
    using assms d
    by (cases "get d ''receipt_id''"; cases "get d ''phase''"; cases "receipt_scope (get d ''task_ids'')")
      (simp_all add: line_phase_def line_scope_def split: if_splits)
qed

lemma read_receipt_bad: "\<not> receipt_ok line \<Longrightarrow> \<exists>e. read_receipt m line = Inl e"
proof (cases "\<exists>d. line = Some (JObj d)")
  case True
  then obtain d where d: "line = Some (JObj d)" ..
  assume "\<not> receipt_ok line"
  with d show ?thesis
    by (cases "get d ''receipt_id''"; cases "get d ''phase''"; cases "receipt_scope (get d ''task_ids'')")
      (auto simp: read_receipt_def receipt_ok_def)
qed (auto simp: read_receipt_def split: option.split json.split)

lemma read_receipt_Inr:
  assumes "read_receipt m line = Inr m'"
  shows "receipt_ok line"
    and "phases_of m' rid = phases_of m rid \<union> {ph. line_phase line = Some (rid, ph)}"
    and "scope_of m' = (case line_scope line of None \<Rightarrow> scope_of m | Some (r, sc) \<Rightarrow> (scope_of m)(r \<mapsto> sc))"
    and "\<forall>r sc. line_scope line = Some (r, sc) \<longrightarrow> scope_of m r \<in> {None, Some sc}"
    and "distinct (map fst (rm_phases m)) \<longrightarrow> distinct (map fst (rm_phases m'))"
proof -
  show ok: "receipt_ok line" using assms read_receipt_bad [of line m] by auto
  have keys: "distinct (map fst (rm_phases m)) \<Longrightarrow> distinct (map fst (rm_phases (add_phase r ph m)))" for r ph
    by (simp add: add_phase_def distinct_update)
  note run = assms [unfolded read_receipt_ok(1) [OF ok]]
  show "phases_of m' rid = phases_of m rid \<union> {ph. line_phase line = Some (rid, ph)}"
    "scope_of m' = (case line_scope line of None \<Rightarrow> scope_of m | Some (r, sc) \<Rightarrow> (scope_of m)(r \<mapsto> sc))"
    "\<forall>r sc. line_scope line = Some (r, sc) \<longrightarrow> scope_of m r \<in> {None, Some sc}"
    "distinct (map fst (rm_phases m)) \<longrightarrow> distinct (map fst (rm_phases m'))"
    using run read_receipt_ok(2) [OF ok] keys
    by (auto simp: add_scope_Inr add_scope_cases [THEN iffD1] split: option.splits prod.splits if_splits dest!: add_scope_cases [THEN iffD1])
qed

lemma read_receipt_scopes:
  assumes "read_receipt m line = Inr m'"
  shows "scope_of m \<subseteq>\<^sub>m scope_of m'" and "line_scope line = Some (r, sc) \<Longrightarrow> scope_of m' r = Some sc"
    and "scope_of m' r = Some sc \<Longrightarrow> scope_of m r = Some sc \<or> line_scope line = Some (r, sc)"
proof -
  note s = read_receipt_Inr(3,4) [OF assms]
  show "scope_of m \<subseteq>\<^sub>m scope_of m'" using s by (auto simp: map_le_def split: option.splits if_splits)
  show "line_scope line = Some (r, sc) \<Longrightarrow> scope_of m' r = Some sc" using s(1) by simp
  show "scope_of m' r = Some sc \<Longrightarrow> scope_of m r = Some sc \<or> line_scope line = Some (r, sc)"
    using s(1) by (auto split: option.splits if_splits)
qed

text \<open>The whole log, line by line.\<close>

lemma read_log:
  assumes "r_fold read_receipt m ls = Inr m'"
  shows "\<forall>l\<in>set ls. receipt_ok l" and "scope_of m \<subseteq>\<^sub>m scope_of m'"
    and "\<forall>l\<in>set ls. \<forall>r sc. line_scope l = Some (r, sc) \<longrightarrow> scope_of m' r = Some sc"
    and "\<forall>r sc. scope_of m' r = Some sc \<longrightarrow> scope_of m r = Some sc \<or> (\<exists>l\<in>set ls. line_scope l = Some (r, sc))"
    and "\<forall>rid. phases_of m' rid = phases_of m rid \<union> {ph. \<exists>l\<in>set ls. line_phase l = Some (rid, ph)}"
    and "distinct (map fst (rm_phases m)) \<longrightarrow> distinct (map fst (rm_phases m'))"
  using assms
proof (induction ls arbitrary: m)
  case (Cons l ls)
  {
    case 1 then show ?case using Cons.IH(1) read_receipt_Inr(1) by (auto elim!: r_bind_InrE)
  next
    case 2
    then obtain n where n: "read_receipt m l = Inr n" "r_fold read_receipt n ls = Inr m'" by (auto elim: r_bind_InrE)
    show ?case by (rule map_le_trans [OF read_receipt_scopes(1) [OF n(1)] Cons.IH(2) [OF n(2)]])
  next
    case 3
    then obtain n where n: "read_receipt m l = Inr n" "r_fold read_receipt n ls = Inr m'" by (auto elim: r_bind_InrE)
    have "scope_of m' r = Some sc" if "line_scope l = Some (r, sc)" for r sc
      using read_receipt_scopes(2) [OF n(1) that] Cons.IH(2) [OF n(2)] by (auto simp: map_le_def dom_def)
    then show ?case using Cons.IH(3) [OF n(2)] by auto
  next
    case 4
    then obtain n where n: "read_receipt m l = Inr n" "r_fold read_receipt n ls = Inr m'" by (auto elim: r_bind_InrE)
    show ?case using Cons.IH(4) [OF n(2)] read_receipt_scopes(3) [OF n(1)] by fastforce
  next
    case 5
    then obtain n where n: "read_receipt m l = Inr n" "r_fold read_receipt n ls = Inr m'" by (auto elim: r_bind_InrE)
    show ?case using Cons.IH(5) [OF n(2)] read_receipt_Inr(2) [OF n(1)] by auto
  next
    case 6 then show ?case using Cons.IH(6) read_receipt_Inr(5) by (auto elim!: r_bind_InrE)
  }
qed (simp_all add: map_le_def)

lemma read_log_total:
  assumes "\<forall>l\<in>set ls. receipt_ok l" and "scope_of m \<subseteq>\<^sub>m S"
    and "\<forall>l\<in>set ls. \<forall>r sc. line_scope l = Some (r, sc) \<longrightarrow> S r = Some sc"
  shows "\<exists>m'. r_fold read_receipt m ls = Inr m'"
  using assms
proof (induction ls arbitrary: m)
  case (Cons l ls)
  then have ok: "receipt_ok l" by simp
  have "\<exists>n. read_receipt m l = Inr n"
  proof (cases "line_scope l")
    case None
    then show ?thesis by (cases "line_phase l") (auto simp: read_receipt_ok(1) [OF ok])
  next
    case (Some rs)
    obtain r sc where rs: "rs = (r, sc)" by (cases rs)
    with Some Cons.prems(3) have "S r = Some sc" by simp
    with Cons.prems(2) have "scope_of m r \<in> {None, Some sc}" by (cases "scope_of m r") (auto simp: map_le_def dom_def)
    then show ?thesis
      using Some rs read_receipt_ok(2) [OF ok Some [unfolded rs]] by (auto simp: read_receipt_ok(1) [OF ok] add_scope_cases)
  qed
  then obtain n where n: "read_receipt m l = Inr n" ..
  have "scope_of n \<subseteq>\<^sub>m S"
    unfolding map_le_def
  proof
    fix r assume "r \<in> dom (scope_of n)"
    then obtain sc where sc: "scope_of n r = Some sc" by auto
    with read_receipt_scopes(3) [OF n sc] Cons.prems(2,3) show "scope_of n r = S r" by (force simp: map_le_def dom_def)
  qed
  with Cons.IH Cons.prems n show ?case by auto
qed simp

section \<open>Open receipts\<close>

abbreviation lines_of :: "yard \<Rightarrow> json option set" where
  "lines_of y \<equiv> set (receipt_lines (ya_receipts y))"

definition phases_in :: "json option set \<Rightarrow> string \<Rightarrow> string set" where
  "phases_in ls rid = {ph. \<exists>l\<in>ls. line_phase l = Some (rid, ph)}"

definition open_in :: "json option set \<Rightarrow> string \<Rightarrow> bool" where
  "open_in ls rid \<longleftrightarrow> ''intent'' \<in> phases_in ls rid \<and> (\<forall>ph\<in>phases_in ls rid. ph \<notin> set terminal_phases)"

lemma intent_has_scope: "receipt_ok l \<Longrightarrow> line_phase l = Some (rid, ''intent'') \<Longrightarrow> \<exists>sc. line_scope l = Some (rid, sc)"
  by (auto simp: receipt_ok_def line_phase_def line_scope_def split: option.splits json.splits)

text \<open>What is unresolved, in terms of the set of lines.\<close>

lemma unresolved_set:
  assumes "unresolved_receipts y = Inr us"
  shows "u \<in> set us \<longleftrightarrow> open_in (lines_of y) (fst u) \<and> (\<exists>l\<in>lines_of y. line_scope l = Some u)"
proof -
  obtain m where m: "r_fold read_receipt \<lparr>rm_phases = [], rm_scopes = []\<rparr> (receipt_lines (ya_receipts y)) = Inr m"
    and us: "us = map (\<lambda>(rid, phs). (rid, case map_of (rm_scopes m) rid of None \<Rightarrow> None | Some sc \<Rightarrow> sc))
       (sort_key fst (filter (\<lambda>(rid, phs). is_open phs) (rm_phases m)))"
    using assms by (auto simp: unresolved_receipts_def elim!: r_bind_InrE)
  note log = read_log [OF m]
  have phases: "phases_of m rid = phases_in (lines_of y) rid" for rid
    using log(5) by (simp add: phases_in_def phases_of_def [of "\<lparr>rm_phases = [], rm_scopes = []\<rparr>"])
  have scopes: "scope_of m rid = Some sc \<longleftrightarrow> (\<exists>l\<in>lines_of y. line_scope l = Some (rid, sc))" for rid sc
    using log(3,4) by (auto simp: scope_of_def [of "\<lparr>rm_phases = [], rm_scopes = []\<rparr>"])
  have opened: "(\<exists>phs. (rid, phs) \<in> set (rm_phases m) \<and> is_open phs) \<longleftrightarrow> open_in (lines_of y) rid" for rid
  proof -
    have "distinct (map fst (rm_phases m))" using log(6) by simp
    then have "(rid, phs) \<in> set (rm_phases m) \<longleftrightarrow> map_of (rm_phases m) rid = Some phs" for phs by simp
    then show ?thesis
      unfolding open_in_def phases [symmetric] phases_of_def is_open_def by (auto split: option.split)
  qed
  have known: "\<exists>sc. scope_of m rid = Some sc" if "open_in (lines_of y) rid" for rid
    using that intent_has_scope log(1) scopes by (fastforce simp: open_in_def phases_in_def)
  obtain rid sc where u: "u = (rid, sc)" by (cases u)
  have "u \<in> set us \<longleftrightarrow> (\<exists>phs. (rid, phs) \<in> set (rm_phases m) \<and> is_open phs) \<and> sc = (case scope_of m rid of None \<Rightarrow> None | Some s \<Rightarrow> s)"
    unfolding us u by (force simp: scope_of_def)
  also have "\<dots> \<longleftrightarrow> open_in (lines_of y) rid \<and> scope_of m rid = Some sc"
    unfolding opened using known [of rid] by (cases "scope_of m rid") auto
  finally show ?thesis unfolding scopes u by simp
qed

lemma lines_add:
  assumes "jsonl n"
  shows "lines_of (add_receipt n d y) = insert (Some (JObj d)) (lines_of y)"
proof -
  have "(\<Union>x\<in>{x \<in> set (AList.update n ((case map_of fs n of None \<Rightarrow> [] | Some ls \<Rightarrow> ls) @ [l]) fs). jsonl (fst x)}. set (snd x))
    = insert l (\<Union>x\<in>{x \<in> set fs. jsonl (fst x)}. set (snd x))" for fs :: "(string \<times> json option list) list" and l
    using assms by (induction fs) (auto split: if_splits)
  then show ?thesis by (simp add: receipt_lines_def add_receipt_def case_prod_beta)
qed

lemma yard_fields [simp]:
  "ya_board (add_receipt n d y) = ya_board y" "ya_itil (add_receipt n d y) = ya_itil y" "ya_board (yard_step y) = ya_board y"
  "ya_itil (yard_step y) = ya_itil y" "ya_receipts (yard_step y) = ya_receipts y"
  by (simp_all add: add_receipt_def yard_step_def)

lemma jsonl_receipts: "jsonl (receipt_file env actor)"
  by (simp add: receipt_file_def jsonl_def)

lemma append_receipt_Inr:
  "append_receipt env actor d y = (Inr u, z) \<Longrightarrow> lines_of z = insert (Some (JObj d)) (lines_of y) \<and> same_board y z"
  by (auto simp: append_receipt_def yard_write_def lines_add [OF jsonl_receipts] same_board_def split: fault.splits)

section \<open>A repair that succeeds\<close>

lemma roll_back_raises: "fst (roll_back env actor originals record1 e y) \<noteq> Inr x"
proof -
  have "fst (op_bind m (\<lambda>_. op_bind k (\<lambda>_. op_raise e)) y) \<noteq> Inr x" for m k :: "(yard, unit) op"
    by (auto simp: op_bind_run split: prod.split sum.split)
  then show ?thesis by (simp add: roll_back_def)
qed

lemma try_roll_back: "op_try m (roll_back env actor originals record1) y = (Inr x, z) \<longleftrightarrow> m y = (Inr x, z)"
  using roll_back_raises [of env actor originals record1 _ _ x] by (auto simp: op_try_def prod_eq_iff split: prod.splits sum.splits)

lemma save_lines: "save_projection env a y = (Inr u, z) \<Longrightarrow> lines_of z = lines_of y"
  by (auto simp: save_projection_def yard_write_def put_file_def yard_step_def split: if_splits fault.splits)

lemma saves_lines: "op_for as (save_projection env) y = (Inr u, z) \<Longrightarrow> lines_of z = lines_of y"
  by (induction as arbitrary: y) (auto elim!: op_bind_InrD dest!: save_lines)

lemma append_many:
  "op_for xs (\<lambda>x. append_receipt env actor (f x)) y = (Inr u, z)
     \<Longrightarrow> lines_of z = lines_of y \<union> (\<lambda>x. Some (JObj (f x))) ` set xs \<and> same_board y z"
proof (induction xs arbitrary: y)
  case (Cons x xs)
  then obtain v where v: "append_receipt env actor (f x) y = (Inr (), v)" "op_for xs (\<lambda>x. append_receipt env actor (f x)) v = (Inr u, z)"
    by (auto elim!: op_bind_InrD)
  from append_receipt_Inr [OF v(1)] Cons.IH [OF v(2)] show ?case using board_kept.trans by auto
qed (simp add: board_kept.refl)

text \<open>The lines that a successful repair appends, and the audit it ends with.\<close>

lemma commit_plan_Inr:
  assumes run: "commit_plan env rq us before (q, p) rid at y = (Inr rcp, z)"
  obtains facts1 facts2 facts3 y2 where "q = Inr ()"
    "lines_of z = lines_of y \<union> {Some (JObj (receipt_json rid ''intent'' (rq_actor rq) at (facts1 @ [(''task_ids'', scope_json (rq_scope rq))]))),
         Some (JObj (receipt_json rid ''committed'' (rq_actor rq) at facts2))}
       \<union> (\<lambda>u. Some (JObj (receipt_json (fst u) ''recovered'' (rq_actor rq) at (facts3 u)))) ` set (filter (recoverable (rq_scope rq)) us)"
    "\<forall>(k, v)\<in>set facts1. k \<noteq> ''task_ids''"
    "audit_lifecycle env (rq_scope rq) z = Inr (rr_after rcp)" "clean (rr_after rcp)" "rr_before rcp = before"
    "\<exists>y3. op_for (map snd (pl_pending p)) (save_projection env) y2 = (Inr (), y3) \<and> same_board y3 z"
    "same_board y y2"
proof -
  let ?act = "rq_actor rq" and ?facts = "[(''before'', audit_json before), (''actions'', texts_json (pl_actions p))]"
  let ?facts1 = "?facts @ [(''projection_agents'', texts_json (sort (map fst (pl_pending p))))]"
  let ?intent = "receipt_json rid ''intent'' ?act at (?facts1 @ [(''task_ids'', scope_json (rq_scope rq))])"
  have "op_bind (op_try (op_bind (op_result (\<lambda>_. q)) (\<lambda>_. append_receipt env ?act ?intent)) (roll_back env ?act (originals_of p y) None))
     (\<lambda>_. op_try (write_repair env rq us before p rid at)
       (roll_back env ?act (originals_of p y) (Some (receipt_json rid ''rolled_back'' ?act at ?facts)))) y = (Inr rcp, z)"
    using run unfolding commit_plan_def prod.case Let_def originals_of_def [symmetric] by simp
  then obtain u y2 where first: "op_bind (op_result (\<lambda>_. q)) (\<lambda>_. append_receipt env ?act ?intent) y = (Inr u, y2)"
    and second: "write_repair env rq us before p rid at y2 = (Inr rcp, z)"
    by (elim op_bind_InrD) (simp only: try_roll_back)
  from first have q: "q = Inr ()" and intent: "append_receipt env ?act ?intent y = (Inr u, y2)"
    by (auto elim!: op_bind_InrD)
  from second obtain y3 after where saves: "op_for (map snd (pl_pending p)) (save_projection env) y2 = (Inr (), y3)"
    and after: "audit_lifecycle env (rq_scope rq) y3 = Inr after" and cl: "clean after"
    and more: "op_bind (append_receipt env ?act (receipt_json rid ''committed'' ?act at
            [(''before'', audit_json before), (''after'', audit_json after), (''actions'', texts_json (pl_actions p))])) (\<lambda>_.
          op_bind (op_for (filter (recoverable (rq_scope rq)) us) (\<lambda>u.
            append_receipt env ?act (receipt_json (fst u) ''recovered'' ?act at
              [(''recovered_by'', JStr rid), (''task_ids'', scope_json (snd u)), (''after'', audit_json after)]))) (\<lambda>_.
          op_return \<lparr>rr_id = rid, rr_at = at, rr_before = before, rr_after = after, rr_actions = pl_actions p\<rparr>)) y3 = (Inr rcp, z)"
    unfolding write_repair_def case_prod_beta by (elim op_bind_InrD) (simp split: if_splits)
  from more obtain y4 where committed: "append_receipt env ?act (receipt_json rid ''committed'' ?act at
            [(''before'', audit_json before), (''after'', audit_json after), (''actions'', texts_json (pl_actions p))]) y3 = (Inr (), y4)"
    and recovered: "op_for (filter (recoverable (rq_scope rq)) us) (\<lambda>u. append_receipt env ?act (receipt_json (fst u) ''recovered'' ?act at
              [(''recovered_by'', JStr rid), (''task_ids'', scope_json (snd u)), (''after'', audit_json after)])) y4 = (Inr (), z)"
    and rcp: "rcp = \<lparr>rr_id = rid, rr_at = at, rr_before = before, rr_after = after, rr_actions = pl_actions p\<rparr>"
    by (elim op_bind_InrD) simp
  note l1 = append_receipt_Inr [OF intent] and l2 = saves_lines [OF saves] and l3 = append_receipt_Inr [OF committed]
    and l4 = append_many [OF recovered]
  have same: "same_board y3 z" using l3 l4 board_kept.trans by blast
  show thesis
    using l1 l2 l3 l4 q same cl after same_board_reads(2) [OF same, of env "rq_scope rq"] saves rcp
    by (intro that [of ?facts1 "[(''before'', audit_json before), (''after'', audit_json after), (''actions'', texts_json (pl_actions p))]"
          "\<lambda>u. [(''recovered_by'', JStr rid), (''task_ids'', scope_json (snd u)), (''after'', audit_json after)]" y2]) auto
qed

text \<open>What reading finds in the lines that a repair appends.\<close>

lemma get_receipt:
  "get (receipt_json rid ph actor at facts) ''receipt_id'' = JStr rid" "get (receipt_json rid ph actor at facts) ''phase'' = JStr ph"
  "get (receipt_json rid ph actor at facts) ''task_ids'' = get facts ''task_ids''"
  by (simp_all add: receipt_json_def get_def)

lemma scope_json_ok: "\<exists>sc'. receipt_scope (scope_json sc) = Inr sc'"
proof -
  have "list_all is_str (map JStr ts)" for ts by (simp add: list_all_iff)
  then show ?thesis by (cases sc) (simp_all add: scope_json_def texts_json_def receipt_scope_def)
qed

lemma receipt_line:
  "line_phase (Some (JObj (receipt_json rid ph actor at facts))) = Some (rid, ph)"
  "ph \<noteq> ''intent'' \<Longrightarrow> line_scope (Some (JObj (receipt_json rid ph actor at facts))) = None"
  "ph \<noteq> ''intent'' \<Longrightarrow> receipt_ok (Some (JObj (receipt_json rid ph actor at facts)))"
  by (auto simp: line_phase_def line_scope_def receipt_ok_def get_receipt split: sum.split)

lemma intent_line:
  assumes "\<forall>(k, v)\<in>set facts. k \<noteq> ''task_ids''"
  shows "receipt_ok (Some (JObj (receipt_json rid ''intent'' actor at (facts @ [(''task_ids'', scope_json sc)]))))"
    and "\<exists>sc'. line_scope (Some (JObj (receipt_json rid ''intent'' actor at (facts @ [(''task_ids'', scope_json sc)])))) = Some (rid, sc')"
proof -
  have "map_of facts ''task_ids'' = None" using assms by (force simp: map_of_eq_None_iff)
  then have ids: "get (facts @ [(''task_ids'', scope_json sc)]) ''task_ids'' = scope_json sc"
    by (simp add: get_def map_add_def)
  show "receipt_ok (Some (JObj (receipt_json rid ''intent'' actor at (facts @ [(''task_ids'', scope_json sc)]))))"
    "\<exists>sc'. line_scope (Some (JObj (receipt_json rid ''intent'' actor at (facts @ [(''task_ids'', scope_json sc)])))) = Some (rid, sc')"
    using scope_json_ok [of sc] by (auto simp: line_scope_def receipt_ok_def get_receipt ids)
qed

text \<open>A log can be read if its lines can and no receipt has two scopes.\<close>

lemma unresolved_reads:
  assumes "unresolved_receipts y = Inr us"
  shows "\<forall>l\<in>lines_of y. receipt_ok l"
    and "\<exists>S. \<forall>l\<in>lines_of y. \<forall>r sc. line_scope l = Some (r, sc) \<longrightarrow> S r = Some sc"
  using assms read_log(1,3) unfolding unresolved_receipts_def by (blast elim: r_bind_InrE)+

lemma unresolved_total:
  assumes "\<forall>l\<in>lines_of z. receipt_ok l" and "\<forall>l\<in>lines_of z. \<forall>r sc. line_scope l = Some (r, sc) \<longrightarrow> S r = Some sc"
  shows "\<exists>left. unresolved_receipts z = Inr left"
proof -
  have "scope_of \<lparr>rm_phases = [], rm_scopes = []\<rparr> = Map.empty" by (simp add: scope_of_def fun_eq_iff)
  then have "scope_of \<lparr>rm_phases = [], rm_scopes = []\<rparr> \<subseteq>\<^sub>m S" by simp
  from read_log_total [OF assms(1) this assms(2)] show ?thesis by (auto simp: unresolved_receipts_def)
qed

text \<open>One more receipt that is committed, and some that are recovered.\<close>

lemma settled:
  assumes old: "unresolved_receipts y = Inr us"
    and fresh: "\<forall>l\<in>lines_of y. \<forall>ph. line_phase l \<noteq> Some (rid, ph)"
    and lines: "lines_of z = lines_of y \<union> {i, c} \<union> recovered ` {u \<in> set us. P u}"
    and i: "receipt_ok i" "line_phase i = Some (rid, ''intent'')" "line_scope i = Some (rid, isc)"
    and c: "receipt_ok c" "line_phase c = Some (rid, ''committed'')" "line_scope c = None"
    and rec: "\<And>u. receipt_ok (recovered u)" "\<And>u. line_phase (recovered u) = Some (fst u, ''recovered'')" "\<And>u. line_scope (recovered u) = None"
  shows "\<exists>left. unresolved_receipts z = Inr left \<and> set left = {u \<in> set us. \<not> P u}"
proof -
  note ok = unresolved_reads [OF old]
  obtain S where S: "\<forall>l\<in>lines_of y. \<forall>r sc. line_scope l = Some (r, sc) \<longrightarrow> S r = Some sc" using ok(2) by blast
  have other: "r \<noteq> rid" if "l \<in> lines_of y" "line_scope l = Some (r, sc)" for l r sc
    using read_receipt_ok(2) [OF _ that(2)] ok(1) fresh that(1) by blast
  have "\<forall>l\<in>lines_of z. receipt_ok l" unfolding lines using ok(1) i c rec by blast
  moreover have "\<forall>l\<in>lines_of z. \<forall>r sc. line_scope l = Some (r, sc) \<longrightarrow> (S(rid \<mapsto> isc)) r = Some sc"
    unfolding lines using S i c rec by (auto dest: other)
  ultimately obtain left where left: "unresolved_receipts z = Inr left" using unresolved_total by blast
  have scopes: "(\<exists>l\<in>lines_of z. line_scope l = Some u) \<longleftrightarrow> u = (rid, isc) \<or> (\<exists>l\<in>lines_of y. line_scope l = Some u)" for u
    unfolding lines using i c rec by (auto simp: bex_Un)
  have phases: "phases_in (lines_of z) r = (if r = rid then {''intent'', ''committed''} else phases_in (lines_of y) r)
      \<union> {ph. ph = ''recovered'' \<and> (\<exists>u\<in>set us. P u \<and> fst u = r)}" for r
  proof -
    have parts: "phases_in (A \<union> B) r = phases_in A r \<union> phases_in B r" "phases_in {i, c} r = (if r = rid then {''intent'', ''committed''} else {})"
      "phases_in (recovered ` U) r = {ph. ph = ''recovered'' \<and> (\<exists>u\<in>U. fst u = r)}" for A B U
      using i(2) c(2) rec(2) by (auto simp: phases_in_def)
    have "phases_in (lines_of y) rid = {}" using fresh by (simp add: phases_in_def)
    then show ?thesis unfolding lines parts by (cases "r = rid") (simp_all add: Bex_def conj_assoc)
  qed
  have kept_scope: "S (fst u) = Some (snd u)" if "u \<in> set us" for u
    using that S unfolding unresolved_set [OF old] by (metis prod.collapse)
  have same_id: "u = v" if "u \<in> set us" "v \<in> set us" "fst u = fst v" for u v
    using kept_scope [OF that(1)] kept_scope [OF that(2)] that(3) by (simp add: prod_eq_iff)
  have "u \<in> set left \<longleftrightarrow> u \<in> set us \<and> \<not> P u" for u
  proof (cases "fst u = rid")
    case True
    then have "u \<notin> set us" using other unfolding unresolved_set [OF old] by (metis prod.collapse)
    moreover have "\<not> open_in (lines_of z) (fst u)" using True phases by (auto simp: open_in_def terminal_phases_def)
    ultimately show ?thesis unfolding unresolved_set [OF left] by blast
  next
    case False
    have "open_in (lines_of z) (fst u) \<longleftrightarrow> open_in (lines_of y) (fst u) \<and> \<not> (\<exists>v\<in>set us. P v \<and> fst v = fst u)"
    proof (cases "\<exists>v\<in>set us. P v \<and> fst v = fst u")
      case True
      then have "''recovered'' \<in> phases_in (lines_of z) (fst u)" unfolding phases by blast
      then have "\<not> open_in (lines_of z) (fst u)" unfolding open_in_def terminal_phases_def by auto
      with True show ?thesis by blast
    next
      case none: False
      have "phases_in (lines_of z) (fst u) = phases_in (lines_of y) (fst u)" unfolding phases if_not_P [OF False] using none by blast
      with none show ?thesis unfolding open_in_def by simp
    qed
    moreover have "u \<noteq> (rid, isc)" using False by auto
    ultimately have now: "u \<in> set left \<longleftrightarrow> u \<in> set us \<and> \<not> (\<exists>v\<in>set us. P v \<and> fst v = fst u)"
      unfolding unresolved_set [OF left] unresolved_set [OF old] scopes by blast
    have "(\<exists>v\<in>set us. P v \<and> fst v = fst u) \<longleftrightarrow> P u" if u: "u \<in> set us" using same_id [OF _ u] u by metis
    with now show ?thesis by metis
  qed
  with left show ?thesis by blast
qed

text \<open>A repair may close an intent if its own scope covers every task of the intent's.\<close>

definition covered :: "string list option \<Rightarrow> string list option \<Rightarrow> bool" where
  "covered scope sc \<longleftrightarrow> (\<forall>t. in_scope sc t \<longrightarrow> in_scope scope t)"

lemma recoverable_covered: "recoverable scope u \<longleftrightarrow> covered scope (snd u)"
proof -
  have "\<exists>t. t \<notin> set ts" for ts :: "string list"
    using ex_new_if_finite [OF infinite_UNIV_listI] by blast
  then show ?thesis by (cases scope; cases "snd u") (auto simp: recoverable_def covered_def in_scope_def)
qed

text \<open>
  C13. A repair that succeeds settles the receipt log and the projections: the audit that the receipt reports is
  clean and is what an audit of the final state finds, the receipt log is still readable, and the intents
  left open in it are exactly those open before that are about some task outside the scope of this repair; the
  repair's own intent is closed. It is assumed that the identifier drawn for the receipt occurs in no log.
\<close>

theorem repair_settles_receipts:
  assumes run: "repair_lifecycle env rq y = (Inr rcp, z)"
    and fresh: "\<forall>l\<in>lines_of y. \<forall>ph. line_phase l \<noteq> Some (yard_uuid env (yard_step y), ph)"
  shows "audit_lifecycle env (rq_scope rq) z = Inr (rr_after rcp) \<and> clean (rr_after rcp)
    \<and> (\<exists>us left. unresolved_receipts y = Inr us \<and> unresolved_receipts z = Inr left
        \<and> set left = {u \<in> set us. \<not> covered (rq_scope rq) (snd u)})"
  using run
proof (cases rule: repair_steps)
  case (planned u unresolved before asked cs groups rid at now)
  obtain q p where qp: "planned_by env rq y (instant_of now) now cs groups = (q, p)" by fastforce
  have lines: "lines_of u = lines_of y" using planned(7) by simp
  note steps = planned(9) [unfolded qp]
  obtain facts1 facts2 facts3 where add: "lines_of z = lines_of y \<union> {Some (JObj (receipt_json rid ''intent'' (rq_actor rq) at (facts1 @ [(''task_ids'', scope_json (rq_scope rq))]))),
         Some (JObj (receipt_json rid ''committed'' (rq_actor rq) at facts2))}
       \<union> (\<lambda>u. Some (JObj (receipt_json (fst u) ''recovered'' (rq_actor rq) at (facts3 u)))) ` set (filter (recoverable (rq_scope rq)) unresolved)"
    and facts1: "\<forall>(k, v)\<in>set facts1. k \<noteq> ''task_ids''"
    and audit: "audit_lifecycle env (rq_scope rq) z = Inr (rr_after rcp)" "clean (rr_after rcp)"
    using steps lines by (elim commit_plan_Inr) (simp only:)
  note intent = intent_line [OF facts1, where sc = "rq_scope rq" and rid = rid and actor = "rq_actor rq" and at = at]
  obtain isc where isc: "line_scope (Some (JObj (receipt_json rid ''intent'' (rq_actor rq) at (facts1 @ [(''task_ids'', scope_json (rq_scope rq))])))) = Some (rid, isc)"
    using intent(2) by blast
  have "\<exists>left. unresolved_receipts z = Inr left \<and> set left = {u \<in> set unresolved. \<not> recoverable (rq_scope rq) u}"
    by (rule settled [OF planned(1) fresh [folded planned(8)] add [unfolded set_filter] intent(1) _ isc])
      (simp_all add: receipt_line)
  with audit planned(1) show ?thesis unfolding recoverable_covered by blast
qed simp

section \<open>An example\<close>

text \<open>An agent that is away with a claim of a card that does not exist, and an intent that an earlier repair left open.\<close>

definition open_intent :: "json option" where
  "open_intent = Some (JObj (receipt_json ''r0'' ''intent'' ''op'' ''0'' [(''task_ids'', JNull)]))"

theorem repair_settles_receipts_witness:
  "\<exists>rcp z. repair_lifecycle (sample_yard_env (\<lambda>_. NoFault)) sample_request (sample_yard [(''op@h1.jsonl'', [open_intent])]) = (Inr rcp, z)
     \<and> rr_actions rcp = [''release orphan c1 from ana'', ''clear current c1 from ana''] \<and> unresolved_receipts z = Inr []"
proof -
  let ?y = "sample_yard [(''op@h1.jsonl'', [open_intent])]" and ?env = "sample_yard_env (\<lambda>_. NoFault)"
  let ?run = "repair_lifecycle ?env sample_request ?y"
  have "unresolved_receipts ?y = Inr [(''r0'', None)]" by code_simp
  note start = sample_repair [OF this]
  have "map_sum id rr_actions (fst ?run) = Inr [''release orphan c1 from ana'', ''clear current c1 from ana'']" unfolding start by code_simp
  then obtain rcp where rcp: "?run = (Inr rcp, snd ?run)" "rr_actions rcp = [''release orphan c1 from ana'', ''clear current c1 from ana'']"
    by (cases "fst ?run") (auto simp: prod_eq_iff)
  have "receipt_lines (ya_receipts ?y) = [open_intent]" "line_phase open_intent = Some (''r0'', ''intent'')"
    "yard_uuid ?env (yard_step ?y) = ''u1''" by code_simp+
  then have fresh: "\<forall>l\<in>lines_of ?y. \<forall>ph. line_phase l \<noteq> Some (yard_uuid ?env (yard_step ?y), ph)" by simp
  have "covered (rq_scope sample_request) sc" for sc by (simp add: covered_def in_scope_def sample_request_def)
  with repair_settles_receipts [OF rcp(1) fresh] rcp show ?thesis by auto
qed

text \<open>
  A repair whose own commit is on record already, and that then cannot record the recovery of the older
  intent, puts the files back: the log has both phases for it.
\<close>

theorem committed_then_rolled_back:
  "(let run = repair_lifecycle (sample_yard_env (\<lambda>n. if n = 7 then FailBefore else NoFault)) sample_request (sample_yard [(''op@h1.jsonl'', [open_intent])])
    in map_sum id rr_actions (fst run) = Inl yard_fault \<and> file_at (snd run) ''ana.json'' = Some (CoreJson (dump_agent ana_on_c1))
     \<and> map line_phase (receipt_lines (ya_receipts (snd run))) = map Some
         [(''r0'', ''intent''), (''u1'', ''intent''), (''u1'', ''committed''), (''u1'', ''rolled_back'')])"
proof -
  have "unresolved_receipts (sample_yard [(''op@h1.jsonl'', [open_intent])]) = Inr [(''r0'', None)]" by code_simp
  note start = sample_repair [OF this]
  show ?thesis unfolding start by code_simp
qed

end
