(* ===== verification/Spec2Isabelle.thy ===== *)
theory Spec2Isabelle
  imports Itil_Dashboard Card_Projection Card_Claims Card_Dependencies Board_Tasks Board_Upkeep Board_Paging
    Claimed_Creation Lifecycle_Receipts
begin

text \<open>
  SKCoord is a coordination service for a fleet of agents. It keeps its state in files that are shared
  by synchronisation, without a server: ITIL records (incidents, problems, changes, known errors,
  votes of the change advisory board), cards of a kanban board, and agent files that say which agent
  works on which task. Every record is an immutable core with per-writer append-only event logs; what
  a record currently is, is a fold of its core over the merged log. All names below are under
  \<open>src/src/skcoord/\<close>.

  \<^bold>\<open>Conventions.\<close> Python values read from JSON are the datatype \<open>json\<close>, dictionaries are association lists
  in insertion order; each operation on them (\<open>PyValue\<close>) says what Python does on every type, raising
  included. A function that may raise returns \<open>py_error + 'a\<close>; a method that also writes is a state
  passing function (\<open>Py_State\<close>) whose exception carries the state it leaves behind. Clocks, random
  identifiers, host names, SHA-256 and cursor signatures are parameters, held in environment records;
  the laws that a theorem needs of them are its hypotheses. Strings are lists of characters below 256.
  Error texts are kept only where the code compares them.

  \<^bold>\<open>The theories\<close>, in the order of the code:

  \<^item> \<open>Prelude\<close>, \<open>PyValue\<close>, \<open>Py_State\<close>: exceptions, the fold that stops at the first one, Python values,
    state-passing methods; the locale \<open>event_fold\<close> (what appending to a log does to a fold), interpreted
    for incidents, problems, changes and cards, and the locale \<open>op_order\<close> (what a method keeps of the
    state), interpreted for every state of the development. \<open>Isotime\<close>: ISO timestamps and instants.
  \<^item> \<open>Itil_Types\<close>, \<open>Itil_Incident\<close>, \<open>Itil_Problem\<close>, \<open>Itil_Change\<close>, \<open>Itil_Cab\<close>: the enumerations and
    transition tables of \<open>itil.py\<close>, the three folds, and the advisory board with its drafter exclusion.
  \<^item> \<open>Itil_Store\<close>, \<open>Itil_Logs\<close>, \<open>Itil_Ops\<close>, \<open>Itil_Guarantees\<close>, \<open>Itil_Dashboard\<close>: record files, redirects and
    the merged log, the operations of \<open>ITILManager\<close>, their guarantees, status, board and scheduled tasks.
  \<^item> \<open>Dependency_Graph\<close> (\<open>dependency_graph.py\<close>) and \<open>Abandon_Reason\<close> (\<open>abandon_reason.py\<close>).
  \<^item> \<open>Card_Types\<close>, \<open>Card_Overlay\<close>, \<open>Card_Projection\<close> (\<open>card.py\<close>): cards, the overlay fold, and the board
    that projects tasks and ITIL records to cards, lanes and columns.
  \<^item> \<open>Card_Fold\<close>, \<open>Card_Claims\<close>: the fold of one stored card (\<open>CardStore.fold\<close>), and claims as a protocol
    between agents that append concurrently.
  \<^item> \<open>Card_Store\<close>, \<open>Card_Store_Laws\<close>, \<open>Card_Dependencies\<close> (\<open>card_store.py\<close>): cores, writer files, the hash
    chain, \<open>append_event\<close>, reading, listing, dependency amendments, and the mirrors the board calls.
  \<^item> \<open>Card_Birth\<close>, \<open>Review_Replacement\<close>, \<open>Card_Creation\<close>, \<open>Explicit_Creation\<close>: creating cards. The core of
    a card and its JSON, who may replace a finished review (\<open>_validate_creation_guard\<close>), governed creation
    (\<open>create\<close>: parents, depth of reviews, replacement), and creation under a caller's identifier with its
    intent file and ledger (\<open>create_explicit\<close>, \<open>reserve_explicit_rejection\<close>).
  \<^item> \<open>Owner_Helpers\<close> (\<open>owner_helpers.py\<close>): which helper tasks the owner of a task may ask for.
  \<^item> \<open>Board_Tasks\<close>, \<open>Board_State\<close>, \<open>Board_Claims\<close>, \<open>Board_Guarantees\<close>, \<open>Board_Upkeep\<close>, \<open>Board_Paging\<close>
    (\<open>coordination.py\<close>): task files, agent files and the task views, claiming, releasing and completing
    with compensation and recovery, the sweeps, and the paged views.
  \<^item> \<open>Task_Creation\<close>, \<open>Task_Guarantees\<close>, \<open>Claimed_Creation\<close> (\<open>coordination.py\<close>): creating tasks, plain,
    explicit, for a helper, and claimed from the start (\<open>Board.create_task\<close> and its variants). Their state, a
    \<open>workshop\<close>, joins the nursery of cards, the board and the task files; the task views of the board and the
    legacy identifiers of the store are derived from these files (\<open>board_of\<close>).
  \<^item> \<open>Lifecycle_Audit\<close>, \<open>Lifecycle_Repair\<close>, \<open>Lifecycle_Guarantees\<close>, \<open>Lifecycle_Receipts\<close> (\<open>lifecycle.py\<close>): the audit
    of the agent files against the cards, the repair of the agent files, and the receipt logs in which a repair
    records its intent and its outcome. Their state, a \<open>yard\<close>, is the board, the ITIL records behind the legacy
    cards, and the receipt logs; \<open>ye_io\<close> is a schedule that lets any write of a repair fail before or after it.

  \<^bold>\<open>How the parts interact.\<close> The board writes an agent's file first and then mirrors the change into the
  card store; \<open>be_fault\<close> is a schedule that lets each mirror fail before or after its event is on disk, and
  the theorems on failures hold for every schedule. The store serves the task views
  (\<open>get_task_views\<close>), with the legacy projection of task and agent files behind it. A claim is decided on
  these views, a dependency amendment on the folded cards, and the kanban board on the overlay.

  \<^bold>\<open>What is shown.\<close> For the folds: they are total on well-formed logs, a log only moves a record along its
  table, an accepted history replays from the timeline, replicas with the same events agree in whatever
  order the files and lines arrived, a void is final, and what a claim and a release do to a card is pinned on
  every branch. For authority: a change that is neither standard, auto-normal nor migrated is granted only with a
  human approval, one of its drafter not counting; a rejection is final; a card that an agent works on is not
  taken over by the claim of another. For the store: a file is read exactly if its chain is intact, an append is read back as the one addition,
  refused appends write nothing, a token that a writer's file holds is not written again, amendments keep the
  graph acyclic. For creation: a core read back is
  the card that was written, governed births obey the rules on parents, review depth and replacement,
  a finished review is replaced at most once, creating never touches another card and keeps the graph
  acyclic, and an explicit creation cut off anywhere but inside the append of a ledger line is finished by
  repeating the call. For tasks: a file never appears without its card, an explicit task cut off in such a
  place is completed by one more call, active
  helpers of a parent never may write the same file and never delegate, and a task that was created claimed
  is claimed and its dependencies were done. For the board: claims and
  completions are gated by dependencies and owners and are on record afterwards, a repeated completion writes
  nothing, failures restore the agent files, sweeps archive exactly what they should, a stale release frees
  every card the agent held, updates do what was asked and are reversible, pages are bounded and, followed to
  the end, complete. For the projections: an audit is clean exactly if the agent files agree with
  the cards, a repair that fails puts back every file, and one that succeeds leaves a clean audit and closes
  every open receipt that its scope covers.

  \<^bold>\<open>Bounds and fuel.\<close> The stack search of \<open>would_create_cycle\<close> recurses with a measure that is proved to decrease.
  Folding an ITIL record follows its redirects with fuel \<open>fold_fuel\<close>, the number of redirected identifiers;
  \<open>redirects_followed\<close> shows that it ends at a core, a dead end or in a cycle. \<open>walk_pages\<close> is a client's
  loop with fuel; \<open>paging_complete\<close> shows that one page more than the population has cards is enough.
  The caps (ten attempts, 200 cards in a page, 10382 characters in a cursor) are the code's.

  \<^bold>\<open>Where the code departs from its intent\<close> is a theorem too: \<open>blank_tail_breaks_log\<close>,
  \<open>interleaved_amendments_cycle\<close>, \<open>prefix_finds_other_task\<close>, \<open>reclaim_without_revision_raises\<close>,
  \<open>recorded_release_refused\<close>, \<open>stale_release_stops_halfway\<close>, \<open>bad_index_line_hides_archive\<close>,
  \<open>sweep_archives_claimed_task\<close>, \<open>failed_acceptance_locks_identifier\<close>, \<open>input_output_error_reserves\<close>,
  \<open>torn_first_line_corrupts_ledger\<close>, \<open>append_after_torn_line_corrupts_ledger\<close>, \<open>recovery_skips_governor\<close>,
  \<open>policy_rejection_not_reserved\<close>, \<open>crash_record_conflicts_with_acceptance\<close>, \<open>torn_core_blocks_governed_births\<close>,
  \<open>claimed_retry_conflicts\<close>, \<open>replay_leaves_agent_out\<close>, \<open>claimed_creation_reopens_finished\<close>,
  \<open>replay_refused_after_score\<close>, \<open>committed_then_rolled_back\<close>.

  \<^bold>\<open>Not modelled.\<close> Locks (each operation is one step, except where a theorem interleaves two), the safe
  opening of paths and the atomic replacement of files (on the board a write succeeds or raises, and the
  recovery records are always written; the creation of cards has a schedule of disk faults, and the step
  relations \<open>interrupted\<close> and \<open>broken_off\<close> for a process that dies between two writes), logging, the Joule mint after a completion, and the text renderings.
  Of \<open>card_store.py\<close>: the legacy importer, parity and export. Of
  \<open>coordination.py\<close>: the label mirror of an update, the pruning of lock files. What \<open>urlsplit\<close> accepts between
  brackets in a host is a parameter. Of \<open>lifecycle.py\<close>: \<open>transition_task\<close>, the refusal of symbolic links, and
  the passing of time inside one pass over the agents, which reads the clock once here. The
  CMDB and its collectors, the truth audits, the portfolio, snapshot and review tools are left out; they read
  these records or talk to the outside.
\<close>

end
